(* ===== verification/Cesa_Prelude.thy ===== *)
theory Cesa_Prelude
  imports Main "HOL-Library.Word" "HOL-Library.Monad_Syntax" "HOL-Library.AList"
begin

text \<open>
  Shared vocabulary of the development: machine integers and byte strings, the slice
  operations of the Rust standard library that the decoders use (\<open>split_first\<close>,
  \<open>split_first_chunk\<close>, \<open>try_into\<close> for arrays), little-endian integers, UTF-8
  (\<open>std::str::from_utf8\<close>, \<open>chars\<close>, \<open>is_char_boundary\<close>), time
  (\<open>Duration\<close>, \<open>Instant\<close>), IP and socket addresses, and the contract of a strict
  codec as a locale. Nothing here is code of the repository; it is the standard
  library the repository's code is written against.

  Lengths and indices (\<open>usize\<close>) are \<open>nat\<close>: the program runs on 64-bit targets and
  every length it computes with is bounded by a constant far below \<open>2\<^sup>6\<^sup>4\<close>, so that
  \<open>usize::try_from(u32)\<close> always succeeds there.
\<close>

section \<open>Machine integers and byte strings\<close>

type_synonym u8 = "8 word"
type_synonym u16 = "16 word"
type_synonym u32 = "32 word"
type_synonym u64 = "64 word"
type_synonym bytes = "u8 list"

named_theorems codec_simps \<open>slice operations and integer encodings, for evaluating decoders\<close>

text \<open>An ASCII byte-string literal \<open>b"..."\<close>.\<close>

definition ascii :: "string \<Rightarrow> bytes" where
  "ascii s = map (\<lambda>c. of_char c) s"

lemma length_ascii [simp]: "length (ascii s) = length s"
  by (simp add: ascii_def)

text \<open>Little-endian integers on \<open>n\<close> bytes (\<open>to_le_bytes\<close> / \<open>from_le_bytes\<close>).\<close>

primrec le_nat :: "nat \<Rightarrow> nat \<Rightarrow> bytes" where
  "le_nat 0 k = []"
| "le_nat (Suc n) k = word_of_nat (k mod 256) # le_nat n (k div 256)"

primrec nat_le :: "bytes \<Rightarrow> nat" where
  "nat_le [] = 0"
| "nat_le (b # bs) = unat b + 256 * nat_le bs"

lemma unat_u8_less [simp]: "unat (b :: u8) < 256"
  using unsigned_less [of b] by simp

lemma length_le_nat [simp]: "length (le_nat n k) = n"
  by (induction n arbitrary: k) auto

lemma unat_word_of_nat_256 [simp]: "unat (word_of_nat (k mod 256) :: u8) = k mod 256"
  by (simp add: unat_of_nat)

lemma nat_le_le_nat: "nat_le (le_nat n k) = k mod 256 ^ n"
proof (induction n arbitrary: k)
  case (Suc n)
  have "k mod 256 + 256 * (k div 256 mod 256 ^ n) = k mod (256 * 256 ^ n)"
    by (simp add: mod_mult2_eq)
  with Suc show ?case by simp
qed simp

lemma nat_le_le_nat_id: "k < 256 ^ n \<Longrightarrow> nat_le (le_nat n k) = k"
  by (simp add: nat_le_le_nat)

lemma le_nat_nat_le: "le_nat (length bs) (nat_le bs) = bs"
proof (induction bs)
  case (Cons b bs)
  have "unat b < 256" by simp
  with Cons show ?case by simp
qed simp

lemma le_nat_nat_le_eq: "length bs = n \<Longrightarrow> le_nat n (nat_le bs) = bs"
  using le_nat_nat_le by blast

lemma nat_le_less: "nat_le bs < 256 ^ length bs"
proof (induction bs)
  case (Cons b bs)
  then have "256 * (nat_le bs + 1) \<le> 256 * 256 ^ length bs"
    by (intro mult_le_mono2) simp
  with unat_u8_less [of b] show ?case by (simp del: unat_u8_less)
qed simp

definition u16_to_le :: "u16 \<Rightarrow> bytes" where "u16_to_le w = le_nat 2 (unat w)"
definition u32_to_le :: "u32 \<Rightarrow> bytes" where "u32_to_le w = le_nat 4 (unat w)"
definition u64_to_le :: "u64 \<Rightarrow> bytes" where "u64_to_le w = le_nat 8 (unat w)"
definition u16_from_le :: "bytes \<Rightarrow> u16" where "u16_from_le bs = word_of_nat (nat_le bs)"
definition u32_from_le :: "bytes \<Rightarrow> u32" where "u32_from_le bs = word_of_nat (nat_le bs)"
definition u64_from_le :: "bytes \<Rightarrow> u64" where "u64_from_le bs = word_of_nat (nat_le bs)"

lemma length_to_le [simp]:
  "length (u16_to_le a) = 2" "length (u32_to_le b) = 4" "length (u64_to_le c) = 8"
  by (simp_all add: u16_to_le_def u32_to_le_def u64_to_le_def)

lemma unat_u16_less: "unat (a :: u16) < 65536"
  using unsigned_less [of a] by simp

lemma unat_u32_less: "unat (a :: u32) < 4294967296"
  using unsigned_less [of a] by simp

lemma unat_u64_less: "unat (a :: u64) < 18446744073709551616"
  using unsigned_less [of a] by simp

lemma from_to_le [simp]:
  "u16_from_le (u16_to_le a) = a" "u32_from_le (u32_to_le b) = b" "u64_from_le (u64_to_le c) = c"
  using unat_u16_less [of a] unat_u32_less [of b] unat_u64_less [of c]
  by (simp_all add: u16_to_le_def u32_to_le_def u64_to_le_def u16_from_le_def u32_from_le_def
      u64_from_le_def nat_le_le_nat)

lemma to_from_le:
  "length bs = 2 \<Longrightarrow> u16_to_le (u16_from_le bs) = bs"
  "length bs = 4 \<Longrightarrow> u32_to_le (u32_from_le bs) = bs"
  "length bs = 8 \<Longrightarrow> u64_to_le (u64_from_le bs) = bs"
  using nat_le_less [of bs]
  by (simp_all add: u16_to_le_def u32_to_le_def u64_to_le_def u16_from_le_def u32_from_le_def
      u64_from_le_def unat_of_nat le_nat_nat_le_eq)

lemma length_2_4:
  "length xs = 2 \<Longrightarrow> \<exists>a b. xs = [a, b]"
  "length xs = 4 \<Longrightarrow> \<exists>a b c d. xs = [a, b, c, d]"
  by (auto simp: numeral_eq_Suc length_Suc_conv)

text \<open>A length field that was read and compared with a length is what encoding that length
  gives back.\<close>

lemma len_field [intro]:
  "length ac = 2 \<Longrightarrow> unat (u16_from_le ac) = n \<Longrightarrow> u16_to_le (word_of_nat n) = ac"
  "length bc = 4 \<Longrightarrow> unat (u32_from_le bc) = n \<Longrightarrow> u32_to_le (word_of_nat n) = bc"
  "unat b = n \<Longrightarrow> word_of_nat n = (b :: u8)"
  using to_from_le(1) [of ac] to_from_le(2) [of bc] by auto

text \<open>\<open>T::try_from(n)\<close> for the integer types a length is put into.\<close>

definition u8_try_from :: "nat \<Rightarrow> u8 option" where
  "u8_try_from n = (if n < 256 then Some (word_of_nat n) else None)"
definition u16_try_from :: "nat \<Rightarrow> u16 option" where
  "u16_try_from n = (if n < 65536 then Some (word_of_nat n) else None)"
definition u32_try_from :: "nat \<Rightarrow> u32 option" where
  "u32_try_from n = (if n < 4294967296 then Some (word_of_nat n) else None)"

lemma unat_word_of_nat_u8: "n < 256 \<Longrightarrow> unat (word_of_nat n :: u8) = n"
  by (simp add: unat_of_nat)

lemma unat_word_of_nat_u16: "n < 65536 \<Longrightarrow> unat (word_of_nat n :: u16) = n"
  by (simp add: unat_of_nat)

lemma unat_word_of_nat_u32: "n < 4294967296 \<Longrightarrow> unat (word_of_nat n :: u32) = n"
  by (simp add: unat_of_nat)

lemmas unat_word_of_nat_small = unat_word_of_nat_u8 unat_word_of_nat_u16 unat_word_of_nat_u32

text \<open>\<open>saturating_add\<close>, \<open>saturating_sub\<close> and \<open>checked_shl\<close>.\<close>

definition saturating_add :: "'a::len word \<Rightarrow> 'a word \<Rightarrow> 'a word" where
  "saturating_add a b = (if unat a + unat b < 2 ^ LENGTH('a) then a + b else - 1)"

definition saturating_sub :: "'a::len word \<Rightarrow> 'a word \<Rightarrow> 'a word" where
  "saturating_sub a b = (if a < b then 0 else a - b)"

definition checked_shl :: "'a::len word \<Rightarrow> u32 \<Rightarrow> 'a word option" where
  "checked_shl a k = (if unat k < LENGTH('a) then Some (push_bit (unat k) a) else None)"

lemma unat_max_word: "unat (- 1 :: 'a::len word) = 2 ^ LENGTH('a) - 1"
  by (simp add: unsigned_minus_1_eq_mask mask_eq_exp_minus_1)

lemma unat_one_shl: "k < LENGTH('a) \<Longrightarrow> unat (push_bit k 1 :: 'a::len word) = 2 ^ k"
  by (subst unsigned_push_bit_eq) (simp add: take_bit_eq_mod push_bit_eq_mult)

lemma unat_saturating_add:
  "unat (saturating_add a b :: 'a::len word) = min (unat a + unat b) (2 ^ LENGTH('a) - 1)"
  by (auto simp: saturating_add_def unat_word_ariths unat_max_word)

lemma unat_saturating_sub: "unat (saturating_sub a b :: 'a::len word) = unat a - unat b"
  by (auto simp: saturating_sub_def unat_sub word_less_nat_alt not_less word_le_nat_alt)

section \<open>Slices\<close>

definition split_first :: "bytes \<Rightarrow> (u8 \<times> bytes) option" where
  "split_first bs = (case bs of [] \<Rightarrow> None | b # r \<Rightarrow> Some (b, r))"

definition split_first_chunk :: "nat \<Rightarrow> bytes \<Rightarrow> (bytes \<times> bytes) option" where
  "split_first_chunk n bs = (if n \<le> length bs then Some (take n bs, drop n bs) else None)"

text \<open>\<open>slice.try_into()\<close> for an array of length \<open>n\<close>, as an option (\<open>.ok()\<close>).\<close>

definition to_array :: "nat \<Rightarrow> bytes \<Rightarrow> bytes option" where
  "to_array n bs = (if length bs = n then Some bs else None)"

text \<open>\<open>for (dst, src) in packet.iter_mut().zip(src) { *dst = *src; }\<close>.\<close>

definition overwrite :: "bytes \<Rightarrow> bytes \<Rightarrow> bytes" where
  "overwrite packet src = take (length packet) src @ drop (length src) packet"

lemma length_overwrite [simp]: "length (overwrite packet src) = length packet"
  by (simp add: overwrite_def min_def)

lemma overwrite_exact [simp]: "length src = length packet \<Longrightarrow> overwrite packet src = src"
  by (simp add: overwrite_def)

text \<open>\<open>cond.then_some(x)\<close> and \<open>if !cond { return None; }\<close>.\<close>

definition then_some :: "bool \<Rightarrow> 'a \<Rightarrow> 'a option" where
  "then_some c x = (if c then Some x else None)"

definition ensure :: "bool \<Rightarrow> unit option" where
  "ensure c = (if c then Some () else None)"

lemma split_first_simps [simp, codec_simps]:
  "split_first [] = None"
  "split_first (b # r) = Some (b, r)"
  by (simp_all add: split_first_def)

lemma split_first_eq_Some [simp]: "split_first bs = Some (b, r) \<longleftrightarrow> bs = b # r"
  by (cases bs) auto

lemma split_first_chunk_append [simp, codec_simps]:
  "length xs = n \<Longrightarrow> split_first_chunk n (xs @ ys) = Some (xs, ys)"
  by (simp add: split_first_chunk_def)

lemma split_first_chunk_exact [simp]:
  "length xs = n \<Longrightarrow> split_first_chunk n xs = Some (xs, [])"
  by (simp add: split_first_chunk_def)

lemma split_first_chunk_eq_Some:
  "split_first_chunk n bs = Some (x, r) \<longleftrightarrow> bs = x @ r \<and> length x = n"
  by (auto simp: split_first_chunk_def)

lemma split_first_chunk_eq_None: "split_first_chunk n bs = None \<longleftrightarrow> length bs < n"
  by (auto simp: split_first_chunk_def)

lemma to_array_eq_Some [simp]: "to_array n bs = Some x \<longleftrightarrow> bs = x \<and> length x = n"
  by (auto simp: to_array_def)

lemma then_some_eq_Some [simp]: "then_some c x = Some y \<longleftrightarrow> c \<and> x = y"
  by (auto simp: then_some_def)

lemma then_some_True [simp]: "then_some True x = Some x"
  by (simp add: then_some_def)

lemma ensure_eq_Some [simp]: "ensure c = Some u \<longleftrightarrow> c"
  by (auto simp: ensure_def)

lemma ensure_simps [simp, codec_simps]: "ensure True = Some ()" "ensure False = None"
  by (simp_all add: ensure_def)

lemmas decoder_inversion =
  bind_eq_Some_conv split_first_chunk_eq_Some

section \<open>Results\<close>

text \<open>\<open>Result<T, E>\<close> is \<open>'e + 'a\<close>. \<open>and_then r f\<close> is \<open>let x = r?; f(x)\<close>; \<open>o.ok_or(e)\<close>,
  \<open>r.map_err(|_| e)\<close> and \<open>if cond { return Err(e); }\<close> as they are in Rust.\<close>

definition and_then :: "'e + 'a \<Rightarrow> ('a \<Rightarrow> 'e + 'b) \<Rightarrow> 'e + 'b" where
  "and_then r f = (case r of Inl e \<Rightarrow> Inl e | Inr x \<Rightarrow> f x)"

definition ok_or :: "'e \<Rightarrow> 'a option \<Rightarrow> 'e + 'a" where
  "ok_or e r = (case r of None \<Rightarrow> Inl e | Some x \<Rightarrow> Inr x)"

definition map_err :: "'f \<Rightarrow> 'e + 'a \<Rightarrow> 'f + 'a" where
  "map_err f r = (case r of Inl _ \<Rightarrow> Inl f | Inr x \<Rightarrow> Inr x)"

definition fail_if :: "bool \<Rightarrow> 'e \<Rightarrow> 'e + unit" where
  "fail_if c e = (if c then Inl e else Inr ())"

lemma and_then_simps [simp]: "and_then (Inl e) f = Inl e" "and_then (Inr x) f = f x"
  by (simp_all add: and_then_def)

lemma and_then_eq_Inr: "and_then r f = Inr y \<longleftrightarrow> (\<exists>x. r = Inr x \<and> f x = Inr y)"
  by (cases r) auto

lemma ok_or_eq_Inr [simp]: "ok_or e x = Inr y \<longleftrightarrow> x = Some y"
  by (auto simp: ok_or_def split: option.splits)

lemma ok_or_simps [simp]: "ok_or e (Some x) = Inr x" "ok_or e None = Inl e"
  by (simp_all add: ok_or_def)

lemma map_err_simps [simp]: "map_err f (Inr x) = Inr x" "map_err f (Inl e) = Inl f"
  by (simp_all add: map_err_def)

lemma map_err_eq_Inr [simp]: "map_err f r = Inr x \<longleftrightarrow> r = Inr x"
  by (cases r) auto

lemma fail_if_eq_Inr [simp]: "fail_if c e = Inr u \<longleftrightarrow> \<not> c"
  by (simp add: fail_if_def)

lemma fail_if_simps [simp]: "fail_if False e = Inr ()" "fail_if True e = Inl e"
  by (simp_all add: fail_if_def)

section \<open>Strict codecs\<close>

text \<open>
  The contract every wire and file format of the program has: a well-formed value
  survives encoding, and the decoder accepts nothing but encodings of well-formed
  values. The second law is what the sources call a \<open>strict\<close> decoder.
\<close>

locale strict_codec =
  fixes enc :: "'a \<Rightarrow> bytes"
    and dec :: "bytes \<Rightarrow> 'a option"
    and ok :: "'a \<Rightarrow> bool"
  assumes dec_enc: "ok x \<Longrightarrow> dec (enc x) = Some x"
    and enc_dec: "dec bs = Some x \<Longrightarrow> ok x \<and> enc x = bs"
begin

lemma dec_eq_Some_iff: "dec bs = Some x \<longleftrightarrow> ok x \<and> bs = enc x"
  using dec_enc enc_dec by blast

lemma enc_inj: "ok x \<Longrightarrow> ok y \<Longrightarrow> enc x = enc y \<Longrightarrow> x = y"
  using dec_enc by (metis option.inject)

lemma not_malleable: "dec as = Some x \<Longrightarrow> dec bs = Some x \<Longrightarrow> as = bs"
  using enc_dec by blast

lemma accepts_iff: "dec bs \<noteq> None \<longleftrightarrow> (\<exists>x. ok x \<and> bs = enc x)"
  using dec_enc enc_dec by auto

end

text \<open>
  A loop \<open>for _ in 0..count { let x = ...?; out.push(x); rest = after; }\<close>: each round
  parses one item off \<open>rest\<close>, may look at what was collected so far, and stops the
  whole decoder on a failure.
\<close>

primrec for_collect ::
  "('a list \<Rightarrow> bytes \<Rightarrow> ('a \<times> bytes) option) \<Rightarrow> nat \<Rightarrow> bytes \<Rightarrow> 'a list \<Rightarrow> ('a list \<times> bytes) option"
where
  "for_collect step 0 rest out = Some (out, rest)"
| "for_collect step (Suc n) rest out =
     (case step out rest of
        None \<Rightarrow> None
      | Some (x, after) \<Rightarrow> for_collect step n after (out @ [x]))"

primrec all_fit :: "('a list \<Rightarrow> 'a \<Rightarrow> bool) \<Rightarrow> 'a list \<Rightarrow> 'a list \<Rightarrow> bool" where
  "all_fit fits out [] = True"
| "all_fit fits out (x # xs) = (fits out x \<and> all_fit fits (out @ [x]) xs)"

locale item_codec =
  fixes enc :: "'a \<Rightarrow> bytes"
    and step :: "'a list \<Rightarrow> bytes \<Rightarrow> ('a \<times> bytes) option"
    and fits :: "'a list \<Rightarrow> 'a \<Rightarrow> bool"
  assumes step_enc: "fits out x \<Longrightarrow> step out (enc x @ r) = Some (x, r)"
    and enc_step: "step out bs = Some (x, r) \<Longrightarrow> fits out x \<and> bs = enc x @ r"
begin

lemma collect_enc:
  "all_fit fits out xs \<Longrightarrow>
   for_collect step (length xs) (concat (map enc xs) @ r) out = Some (out @ xs, r)"
  by (induction xs arbitrary: out) (simp_all add: step_enc)

lemma enc_collect:
  "for_collect step n bs out = Some (ys, r) \<Longrightarrow>
   \<exists>xs. ys = out @ xs \<and> length xs = n \<and> all_fit fits out xs \<and> bs = concat (map enc xs) @ r"
proof (induction n arbitrary: bs out)
  case (Suc n)
  then obtain x after where st: "step out bs = Some (x, after)"
    and rec: "for_collect step n after (out @ [x]) = Some (ys, r)"
    by (auto split: option.splits)
  from Suc.IH [OF rec] obtain xs where "ys = (out @ [x]) @ xs" "length xs = n"
    "all_fit fits (out @ [x]) xs" "after = concat (map enc xs) @ r"
    by blast
  with enc_step [OF st] show ?case
    by (intro exI [of _ "x # xs"]) simp
qed simp

end

lemma list_ex_key: "list_ex (\<lambda>x. f x = k) xs \<longleftrightarrow> k \<in> f ` set xs"
  by (auto simp: list_ex_iff)

lemma in_set_map_filter: "y \<in> set (List.map_filter f xs) \<longleftrightarrow> (\<exists>x \<in> set xs. f x = Some y)"
  by (induction xs) (auto simp: List.map_filter_simps split: option.splits)

text \<open>The two loop conditions that occur: each item on its own, and no repeated key.\<close>

lemma all_fit_pointwise: "all_fit (\<lambda>_. P) out xs \<longleftrightarrow> list_all P xs"
  by (induction xs arbitrary: out) auto

lemma all_fit_distinct:
  "distinct (map key out) \<Longrightarrow>
   all_fit (\<lambda>out x. P x \<and> key x \<notin> key ` set out) out xs \<longleftrightarrow>
   list_all P xs \<and> distinct (map key (out @ xs))"
proof (induction xs arbitrary: out)
  case (Cons x xs)
  show ?case
  proof (cases "key x \<in> key ` set out")
    case False
    with Cons.prems have "distinct (map key (out @ [x]))" by simp
    from Cons.IH [OF this] False show ?thesis by auto
  qed auto
qed simp

section \<open>UTF-8\<close>

text \<open>
  A Rust \<open>str\<close> is its bytes, which are valid UTF-8. \<open>utf8_next\<close> reads one scalar value
  by the table of well-formed sequences (no overlong forms, no surrogates, at most
  U+10FFFF), which is what \<open>std::str::from_utf8\<close> accepts.
\<close>

definition is_cont :: "u8 \<Rightarrow> bool" where
  "is_cont b = (unat b div 64 = 2)"

abbreviation cbits :: "u8 \<Rightarrow> nat" where
  "cbits b \<equiv> unat b mod 64"

fun utf8_next :: "bytes \<Rightarrow> (nat \<times> bytes) option" where
  "utf8_next [] = None"
| "utf8_next (b # r) =
    (let x = unat b in
     if x < 0x80 then Some (x, r)
     else if 0xC2 \<le> x \<and> x \<le> 0xDF then
       (case r of b1 # r1 \<Rightarrow>
          if is_cont b1 then Some ((x - 0xC0) * 64 + cbits b1, r1) else None
        | [] \<Rightarrow> None)
     else if 0xE0 \<le> x \<and> x \<le> 0xEF then
       (case r of b1 # b2 # r2 \<Rightarrow>
          if is_cont b1 \<and> is_cont b2 \<and> (x = 0xE0 \<longrightarrow> 0xA0 \<le> unat b1)
             \<and> (x = 0xED \<longrightarrow> unat b1 \<le> 0x9F)
          then Some (((x - 0xE0) * 64 + cbits b1) * 64 + cbits b2, r2) else None
        | _ \<Rightarrow> None)
     else if 0xF0 \<le> x \<and> x \<le> 0xF4 then
       (case r of b1 # b2 # b3 # r3 \<Rightarrow>
          if is_cont b1 \<and> is_cont b2 \<and> is_cont b3 \<and> (x = 0xF0 \<longrightarrow> 0x90 \<le> unat b1)
             \<and> (x = 0xF4 \<longrightarrow> unat b1 \<le> 0x8F)
          then Some ((((x - 0xF0) * 64 + cbits b1) * 64 + cbits b2) * 64 + cbits b3, r3)
          else None
        | _ \<Rightarrow> None)
     else None)"

lemma utf8_next_shorter: "utf8_next bs = Some (c, r) \<Longrightarrow> length r < length bs"
  by (cases bs) (auto simp: Let_def split: if_splits list.splits)

text \<open>\<open>from_utf8(bs).ok()\<close> followed by \<open>chars()\<close>: the scalar values, if valid.\<close>

function utf8_chars :: "bytes \<Rightarrow> nat list option" where
  "utf8_chars bs =
    (if bs = [] then Some []
     else case utf8_next bs of
       None \<Rightarrow> None
     | Some (c, r) \<Rightarrow> map_option (Cons c) (utf8_chars r))"
  by pat_completeness auto
termination
  by (relation "measure length") (auto dest: utf8_next_shorter)

declare utf8_chars.simps [simp del]

definition utf8_valid :: "bytes \<Rightarrow> bool" where
  "utf8_valid bs = (utf8_chars bs \<noteq> None)"

text \<open>\<open>char::is_control\<close>: the general category Cc.\<close>

definition is_control :: "nat \<Rightarrow> bool" where
  "is_control c = (c < 32 \<or> (127 \<le> c \<and> c < 160))"

definition has_control :: "bytes \<Rightarrow> bool" where
  "has_control bs = (case utf8_chars bs of None \<Rightarrow> False | Some cs \<Rightarrow> list_ex is_control cs)"

text \<open>\<open>str::is_char_boundary\<close>.\<close>

definition is_char_boundary :: "bytes \<Rightarrow> nat \<Rightarrow> bool" where
  "is_char_boundary bs i =
     (if i = 0 then True
      else if length bs \<le> i then i = length bs
      else \<not> is_cont (bs ! i))"

lemma utf8_chars_Nil [simp]: "utf8_chars [] = Some []"
  by (simp add: utf8_chars.simps)

lemma utf8_valid_Nil [simp]: "utf8_valid []"
  by (simp add: utf8_valid_def)

lemma utf8_valid_step:
  "bs \<noteq> [] \<Longrightarrow> utf8_valid bs \<longleftrightarrow> (\<exists>c r. utf8_next bs = Some (c, r) \<and> utf8_valid r)"
  by (auto simp: utf8_valid_def utf8_chars.simps [of bs] split: option.splits)

text \<open>A character is a lead byte and at most three continuation bytes, and nothing after
  it matters.\<close>

lemma utf8_next_split:
  assumes "utf8_next bs = Some (c, r)"
  shows "\<exists>b us. bs = b # us @ r \<and> list_all is_cont us \<and> length us \<le> 3 \<and>
    (\<forall>x. utf8_next (b # us @ x) = Some (c, x))"
proof -
  obtain b s where bs: "bs = b # s" using assms by (cases bs) auto
  have one: "s = us @ r \<Longrightarrow> list_all is_cont us \<Longrightarrow> length us \<le> 3 \<Longrightarrow>
      (\<And>x. utf8_next (b # us @ x) = Some (c, x)) \<Longrightarrow> ?thesis" for us
    using bs by auto
  consider "unat b < 0x80" | "0xC2 \<le> unat b \<and> unat b \<le> 0xDF" | "0xE0 \<le> unat b \<and> unat b \<le> 0xEF"
    | "0xF0 \<le> unat b \<and> unat b \<le> 0xF4"
    using assms bs by (auto simp: Let_def split: if_splits)
  then show ?thesis
  proof cases
    case 1
    then show ?thesis using assms bs by (intro one [of "[]"]) auto
  next
    case 2
    then obtain b1 where "s = [b1] @ r" "is_cont b1"
      using assms bs by (auto simp: Let_def split: if_splits list.splits)
    then show ?thesis using 2 assms bs by (intro one [of "[b1]"]) auto
  next
    case 3
    then obtain b1 b2 where "s = [b1, b2] @ r" "is_cont b1" "is_cont b2"
      using assms bs by (auto simp: Let_def split: if_splits list.splits)
    then show ?thesis using 3 assms bs by (intro one [of "[b1, b2]"]) (auto simp: Let_def split: if_splits)
  next
    case 4
    then obtain b1 b2 b3 where "s = [b1, b2, b3] @ r" "is_cont b1" "is_cont b2" "is_cont b3"
      using assms bs by (auto simp: Let_def split: if_splits list.splits)
    then show ?thesis using 4 assms bs by (intro one [of "[b1, b2, b3]"]) (auto simp: Let_def split: if_splits)
  qed
qed

lemma utf8_chars_take:
  "utf8_chars bs = Some cs \<Longrightarrow> k \<le> length bs \<Longrightarrow> is_char_boundary bs k \<Longrightarrow>
   \<exists>n. utf8_chars (take k bs) = Some (take n cs)"
proof (induction "length bs" arbitrary: bs cs k rule: less_induct)
  case less
  show ?case
  proof (cases "k = 0 \<or> bs = []")
    case True
    then show ?thesis by (intro exI [of _ 0]) auto
  next
    case False
    with less.prems(1) obtain c r cs' where nx: "utf8_next bs = Some (c, r)"
      and vr: "utf8_chars r = Some cs'" and cs: "cs = c # cs'"
      by (auto simp: utf8_chars.simps [of bs] split: option.splits)
    from utf8_next_split [OF nx] obtain b us where bs: "bs = b # us @ r"
      and us: "list_all is_cont us" and loc: "\<And>x. utf8_next (b # us @ x) = Some (c, x)"
      by blast
    have k: "length us < k"
    proof (rule ccontr)
      assume "\<not> length us < k"
      then have lt: "k < length bs" and i: "k - 1 < length us" using False bs by auto
      then have "bs ! k = us ! (k - 1)" using False bs by (simp add: nth_Cons' nth_append)
      with us i have "is_cont (bs ! k)" by (simp add: list_all_length)
      with less.prems(3) False lt show False by (simp add: is_char_boundary_def)
    qed
    define j where "j = k - Suc (length us)"
    have tk: "take k bs = b # us @ take j r"
      using k bs by (cases k) (auto simp: j_def)
    have "is_char_boundary r j"
    proof (cases "j = 0 \<or> length r \<le> j")
      case True
      then show ?thesis using less.prems(2) k bs by (auto simp: is_char_boundary_def j_def)
    next
      case inner: False
      then have "bs ! k = r ! j" using k bs by (auto simp: j_def nth_Cons' nth_append)
      moreover have "k < length bs" using inner k bs by (auto simp: j_def)
      ultimately show ?thesis
        using inner less.prems(3) False by (simp add: is_char_boundary_def)
    qed
    moreover have "j \<le> length r" using less.prems(2) k bs by (auto simp: j_def)
    ultimately obtain n where "utf8_chars (take j r) = Some (take n cs')"
      using less.hyps [of r cs' j] vr bs by auto
    with loc have "utf8_chars (take k bs) = Some (take (Suc n) cs)"
      by (simp add: tk cs utf8_chars.simps [of "b # us @ take j r"])
    then show ?thesis ..
  qed
qed

lemma utf8_valid_take:
  "utf8_valid bs \<Longrightarrow> k \<le> length bs \<Longrightarrow> is_char_boundary bs k \<Longrightarrow> utf8_valid (take k bs)"
  using utf8_chars_take [of bs] by (fastforce simp: utf8_valid_def)

lemma has_control_take:
  assumes "utf8_valid bs" "k \<le> length bs" "is_char_boundary bs k" "has_control (take k bs)"
  shows "has_control bs"
proof -
  from assms(1) obtain cs where cs: "utf8_chars bs = Some cs" by (auto simp: utf8_valid_def)
  then obtain n where "utf8_chars (take k bs) = Some (take n cs)"
    using utf8_chars_take [OF cs assms(2,3)] by blast
  with cs assms(4) show ?thesis
    by (auto simp: has_control_def list_ex_iff dest: in_set_takeD)
qed

text \<open>Among any four consecutive positions of a valid string one is a boundary.\<close>

lemma utf8_boundary_near:
  "utf8_valid bs \<Longrightarrow> k \<le> length bs \<Longrightarrow> \<exists>j \<le> k. k \<le> j + 3 \<and> is_char_boundary bs j"
proof (induction "length bs" arbitrary: bs k rule: less_induct)
  case less
  show ?case
  proof (cases "k \<le> 3 \<or> bs = []")
    case True
    then show ?thesis using less.prems(2) by (intro exI [of _ 0]) (auto simp: is_char_boundary_def)
  next
    case False
    with less.prems(1) obtain c r where nx: "utf8_next bs = Some (c, r)" and vr: "utf8_valid r"
      using utf8_valid_step by blast
    from utf8_next_split [OF nx] obtain b us where bs: "bs = b # us @ r" and us: "length us \<le> 3"
      by blast
    have "k - Suc (length us) \<le> length r" using less.prems(2) bs by simp
    with less.hyps [of r] vr bs obtain j where j: "j \<le> k - Suc (length us)"
      "k - Suc (length us) \<le> j + 3" "is_char_boundary r j" by auto
    show ?thesis
    proof (cases "j = 0")
      case True
      show ?thesis
      proof (cases "r = []")
        case True
        with bs us less.prems(2) False show ?thesis
          by (intro exI [of _ "length bs"]) (auto simp: is_char_boundary_def)
      next
        case ne: False
        then obtain c' r' where "utf8_next r = Some (c', r')" using vr utf8_valid_step by blast
        then have "\<not> is_cont (r ! 0)"
          by (cases r) (auto simp: is_cont_def Let_def split: if_splits)
        then have "is_char_boundary bs (Suc (length us))"
          using bs ne by (auto simp: is_char_boundary_def nth_append)
        with j True False us show ?thesis by (intro exI [of _ "Suc (length us)"]) auto
      qed
    next
      case False
      with j(3) have "is_char_boundary bs (Suc (length us) + j)"
        by (auto simp: is_char_boundary_def bs nth_append split: if_splits)
      with j show ?thesis using False us by (intro exI [of _ "Suc (length us) + j"]) auto
    qed
  qed
qed

section \<open>Time\<close>

text \<open>
  A \<open>Duration\<close> and an \<open>Instant\<close> are counted in nanoseconds. \<open>Duration\<close> holds a \<open>u64\<close> of
  seconds, an \<open>Instant\<close> an \<open>i64\<close> of seconds, both with the nanoseconds beside it; the
  checked and saturating operations are exact below those limits.
\<close>

type_synonym duration = nat
type_synonym instant = nat

definition from_secs :: "nat \<Rightarrow> duration" where
  "from_secs s = s * 1000000000"

definition as_secs :: "duration \<Rightarrow> nat" where
  "as_secs d = d div 1000000000"

definition subsec_nanos :: "duration \<Rightarrow> nat" where
  "subsec_nanos d = d mod 1000000000"

definition DURATION_MAX :: duration where
  "DURATION_MAX = 18446744073709551616 * 1000000000 - 1"

definition INSTANT_MAX :: instant where
  "INSTANT_MAX = 9223372036854775808 * 1000000000 - 1"

definition duration_saturating_mul :: "duration \<Rightarrow> u32 \<Rightarrow> duration" where
  "duration_saturating_mul d k = min (d * unat k) DURATION_MAX"

definition checked_add :: "instant \<Rightarrow> duration \<Rightarrow> instant option" where
  "checked_add t d = (if t + d \<le> INSTANT_MAX then Some (t + d) else None)"

definition saturating_duration_since :: "instant \<Rightarrow> instant \<Rightarrow> duration" where
  "saturating_duration_since now earlier = now - earlier"

section \<open>Addresses\<close>

datatype ip_addr = V4 "32 word" | V6 "128 word"

text \<open>\<open>octets()\<close> and \<open>IpAddr::from([u8; N])\<close>: network byte order.\<close>

definition v4_octets :: "32 word \<Rightarrow> bytes" where
  "v4_octets a = rev (le_nat 4 (unat a))"
definition v6_octets :: "128 word \<Rightarrow> bytes" where
  "v6_octets a = rev (le_nat 16 (unat a))"
definition v4_from :: "bytes \<Rightarrow> ip_addr" where
  "v4_from bs = V4 (word_of_nat (nat_le (rev bs)))"
definition v6_from :: "bytes \<Rightarrow> ip_addr" where
  "v6_from bs = V6 (word_of_nat (nat_le (rev bs)))"

lemma length_octets [simp]: "length (v4_octets a) = 4" "length (v6_octets b) = 16"
  by (simp_all add: v4_octets_def v6_octets_def)

lemma unat_u128_less: "unat (b :: 128 word) < 340282366920938463463374607431768211456"
  using unsigned_less [of b] by simp

lemma from_octets [simp]: "v4_from (v4_octets a) = V4 a" "v6_from (v6_octets b) = V6 b"
  using unat_u32_less [of a] unat_u128_less [of b]
  by (simp_all add: v4_octets_def v6_octets_def v4_from_def v6_from_def nat_le_le_nat)

lemma v4_octets_from: "length bs = 4 \<Longrightarrow> v4_from bs = V4 a \<Longrightarrow> v4_octets a = bs"
  using nat_le_less [of "rev bs"] le_nat_nat_le [of "rev bs"]
  by (auto simp: v4_octets_def v4_from_def unat_of_nat)

lemma v6_octets_from: "length bs = 16 \<Longrightarrow> v6_from bs = V6 a \<Longrightarrow> v6_octets a = bs"
  using nat_le_less [of "rev bs"] le_nat_nat_le [of "rev bs"]
  by (auto simp: v6_octets_def v6_from_def unat_of_nat)

lemma octets_of_nat [simp]:
  "length bs = 4 \<Longrightarrow> v4_octets (word_of_nat (nat_le (rev bs))) = bs"
  "length cs = 16 \<Longrightarrow> v6_octets (word_of_nat (nat_le (rev cs))) = cs"
  using v4_octets_from [of bs] v6_octets_from [of cs] by (simp_all add: v4_from_def v6_from_def)

text \<open>\<open>SocketAddr::new(ip, port)\<close>: the flow label and the scope id are 0.\<close>

record socket_addr =
  sa_ip :: ip_addr
  sa_port :: u16

end
