(* ===== verification/Guess_Limiter.thy ===== *)
theory Guess_Limiter
  imports Cesa_Prelude
begin

text \<open>
  The online-guessing limiter (\<open>cesa_conn_networker/src/guess_limiter.rs\<close>): failures are
  counted per source (an IPv4 address or an IPv6 /64), five in a row lock the source
  out, and every further lockout is twice as long, up to an hour.

  The table \<open>HashMap<Source, Entry>\<close> is an association list with distinct keys; only
  lookup, insertion, removal, \<open>retain\<close> and \<open>len\<close> are used, so the order of the list is
  not observable. The lock around it (\<open>Mutex\<close>) makes every operation one atomic step,
  and \<open>Instant::now()\<close> is the argument \<open>now\<close> of each step.
\<close>

section \<open>The model\<close>

definition MAX_FAILURES :: u32 where "MAX_FAILURES = 5"
definition FIRST_LOCKOUT :: duration where "FIRST_LOCKOUT = from_secs 60"
definition MAX_LOCKOUT :: duration where "MAX_LOCKOUT = from_secs (60 * 60)"
definition MAX_TRACKED :: nat where "MAX_TRACKED = 4096"
definition FORGET_AFTER :: duration where "FORGET_AFTER = from_secs (2 * 60 * 60)"

datatype source = Source ip_addr

text \<open>\<open>IpAddr::to_canonical\<close>: an IPv4-mapped IPv6 address is its IPv4 address.\<close>

definition to_canonical :: "ip_addr \<Rightarrow> ip_addr" where
  "to_canonical ip =
     (case ip of
        V4 a \<Rightarrow> V4 a
      | V6 a \<Rightarrow> if drop_bit 32 a = 0xFFFF then V4 (ucast a) else V6 a)"

definition source_of :: "ip_addr \<Rightarrow> source" where
  "source_of ip =
     (case to_canonical ip of
        V4 v4 \<Rightarrow> Source (V4 v4)
      | V6 v6 \<Rightarrow> Source (V6 (push_bit 64 (drop_bit 64 v6))))"

record limit_entry =
  failures :: u32
  lockouts :: u32
  locked_until :: "instant option"
  last_failure :: instant

definition entry_is_locked :: "limit_entry \<Rightarrow> instant \<Rightarrow> bool" where
  "entry_is_locked e now = (case locked_until e of None \<Rightarrow> False | Some until \<Rightarrow> now < until)"

definition is_stale :: "limit_entry \<Rightarrow> instant \<Rightarrow> bool" where
  "is_stale e now =
     (\<not> entry_is_locked e now \<and> FORGET_AFTER < saturating_duration_since now (last_failure e))"

definition lockout_duration :: "u32 \<Rightarrow> duration" where
  "lockout_duration n =
     (let factor = (case checked_shl 1 (saturating_sub n 1) of None \<Rightarrow> - 1 | Some f \<Rightarrow> f)
      in min (duration_saturating_mul FIRST_LOCKOUT factor) MAX_LOCKOUT)"

datatype counted = NotTracked | Recorded | LockedOut duration

type_synonym limiter = "(source \<times> limit_entry) list"

text \<open>The part of \<open>count_failure\<close> after the entry of the source is at hand.\<close>

definition bump_entry :: "limit_entry \<Rightarrow> instant \<Rightarrow> counted \<times> limit_entry" where
  "bump_entry e now =
     (let e = e\<lparr>failures := saturating_add (failures e) 1, last_failure := now\<rparr>
      in if failures e < MAX_FAILURES then (Recorded, e)
         else
           let e = e\<lparr>failures := 0, lockouts := saturating_add (lockouts e) 1\<rparr>;
               duration = lockout_duration (lockouts e);
               until = (case checked_add now duration of
                          Some t \<Rightarrow> t
                        | None \<Rightarrow> (case checked_add now MAX_LOCKOUT of Some t \<Rightarrow> t | None \<Rightarrow> now))
           in (LockedOut duration, e\<lparr>locked_until := Some until\<rparr>))"

definition fresh_entry :: "instant \<Rightarrow> limit_entry" where
  "fresh_entry now = \<lparr>failures = 0, lockouts = 0, locked_until = None, last_failure = now\<rparr>"

definition count_failure :: "limiter \<Rightarrow> source \<Rightarrow> instant \<Rightarrow> counted \<times> limiter" where
  "count_failure entries source now =
     (let crowded = map_of entries source = None \<and> MAX_TRACKED \<le> length entries;
          entries = (if crowded then filter (\<lambda>(_, e). \<not> is_stale e now) entries else entries)
      in if crowded \<and> MAX_TRACKED \<le> length entries then (NotTracked, entries)
         else
           let e = (case map_of entries source of None \<Rightarrow> fresh_entry now | Some e \<Rightarrow> e);
               (outcome, e) = bump_entry e now
           in (outcome, AList.update source e entries))"

definition limiter_new :: limiter where "limiter_new = []"

definition is_locked :: "limiter \<Rightarrow> ip_addr \<Rightarrow> instant \<Rightarrow> bool" where
  "is_locked entries ip now =
     (case map_of entries (source_of ip) of None \<Rightarrow> False | Some e \<Rightarrow> entry_is_locked e now)"

definition record_failure :: "limiter \<Rightarrow> ip_addr \<Rightarrow> instant \<Rightarrow> limiter" where
  "record_failure entries ip now = snd (count_failure entries (source_of ip) now)"

definition record_success :: "limiter \<Rightarrow> ip_addr \<Rightarrow> limiter" where
  "record_success entries ip = AList.delete (source_of ip) entries"

section \<open>Lockout lengths\<close>

lemma lockout_duration_eq:
  "lockout_duration n = from_secs (min (60 * 2 ^ (unat n - 1)) 3600)"
proof -
  let ?k = "unat n - 1"
  have k: "unat (saturating_sub n 1) = ?k" by (simp add: unat_saturating_sub)
  show ?thesis
  proof (cases "?k < 32")
    case True
    have f: "unat (push_bit ?k (1 :: u32)) = 2 ^ ?k"
      using True by (intro unat_one_shl) simp
    have "(2::nat) ^ ?k \<le> 2 ^ 31" using True by (intro power_increasing) auto
    then show ?thesis
      using True f k
      by (simp add: lockout_duration_def checked_shl_def duration_saturating_mul_def
          FIRST_LOCKOUT_def MAX_LOCKOUT_def from_secs_def DURATION_MAX_def min_def)
  next
    case False
    then have "(2::nat) ^ 32 \<le> 2 ^ ?k" by (intro power_increasing) auto
    then have "(3600::nat) \<le> 60 * 2 ^ ?k" by simp
    moreover have "unat (- 1 :: u32) = 4294967295" by (simp add: unat_max_word)
    ultimately show ?thesis
      using False k
      by (simp add: lockout_duration_def checked_shl_def duration_saturating_mul_def
          FIRST_LOCKOUT_def MAX_LOCKOUT_def from_secs_def DURATION_MAX_def min_def)
  qed
qed

lemma lockout_duration_bounds:
  "from_secs 60 \<le> lockout_duration n" "lockout_duration n \<le> MAX_LOCKOUT"
proof -
  have "(1::nat) \<le> 2 ^ (unat n - 1)" by simp
  then have "(60::nat) \<le> 60 * 2 ^ (unat n - 1)" by linarith
  then show "from_secs 60 \<le> lockout_duration n" "lockout_duration n \<le> MAX_LOCKOUT"
    by (auto simp: lockout_duration_eq from_secs_def MAX_LOCKOUT_def)
qed

section \<open>The table as a map\<close>

text \<open>What \<open>bump_entry\<close> and the lookup around it mean for the history of one source.\<close>

definition entry_fail :: "limit_entry option \<Rightarrow> instant \<Rightarrow> limit_entry" where
  "entry_fail h now = snd (bump_entry (case h of None \<Rightarrow> fresh_entry now | Some e \<Rightarrow> e) now)"

lemma not_locked_later: "\<not> entry_is_locked e now \<Longrightarrow> now \<le> now' \<Longrightarrow> \<not> entry_is_locked e now'"
  by (auto simp: entry_is_locked_def split: option.splits)

lemma map_of_filter_distinct:
  "distinct (map fst es) \<Longrightarrow>
   map_of (filter (\<lambda>(k, e). P e) es) k =
     (case map_of es k of None \<Rightarrow> None | Some e \<Rightarrow> if P e then Some e else None)"
  by (induction es) (auto simp: map_of_eq_None_iff rev_image_eqI split: option.splits)

lemma distinct_filter_keys: "distinct (map fst es) \<Longrightarrow> distinct (map fst (filter P es))"
  by (induction es) auto

text \<open>A failure of \<open>s\<close> is tracked unless the table is full of other, still active sources.\<close>

definition tracked :: "limiter \<Rightarrow> source \<Rightarrow> instant \<Rightarrow> bool" where
  "tracked es s now = (fst (count_failure es s now) \<noteq> NotTracked)"

lemma bump_entry_tracked: "fst (bump_entry e now) \<noteq> NotTracked"
  by (simp add: bump_entry_def Let_def)

lemma count_failure_room:
  assumes "map_of es s \<noteq> None \<or> length es < MAX_TRACKED"
  shows "count_failure es s now =
    (let (c, e) = bump_entry (case map_of es s of None \<Rightarrow> fresh_entry now | Some e \<Rightarrow> e) now
     in (c, AList.update s e es))"
  using assms by (auto simp: count_failure_def Let_def not_le split: prod.splits)

lemma count_failure_crowded:
  assumes "map_of es s = None" "MAX_TRACKED \<le> length es"
  shows "count_failure es s now =
    (let es' = filter (\<lambda>(_, e). \<not> is_stale e now) es
     in if MAX_TRACKED \<le> length es' then (NotTracked, es') else count_failure es' s now)"
proof -
  have "map_of (filter (\<lambda>(_, e). \<not> is_stale e now) es) s = None"
    using assms(1) by (auto simp: map_of_eq_None_iff)
  then show ?thesis
    using assms by (simp add: count_failure_def Let_def split: prod.splits)
qed

lemma record_failure_map:
  assumes "map_of es (source_of ip) \<noteq> None \<or> length es < MAX_TRACKED"
  shows "map_of (record_failure es ip now) =
    (map_of es)(source_of ip \<mapsto> entry_fail (map_of es (source_of ip)) now)"
  using assms
  by (auto simp: record_failure_def count_failure_room entry_fail_def Let_def update_conv'
      split: prod.splits option.splits)

lemma record_success_map: "map_of (record_success es ip) = (map_of es)(source_of ip := None)"
  by (simp add: record_success_def delete_conv')

section \<open>The invariant\<close>

definition entry_ok :: "limit_entry \<Rightarrow> bool" where
  "entry_ok e = (failures e < MAX_FAILURES \<and>
     (case locked_until e of
        None \<Rightarrow> lockouts e = 0
      | Some until \<Rightarrow> 0 < lockouts e \<and> until \<le> last_failure e + MAX_LOCKOUT))"

definition limiter_ok :: "limiter \<Rightarrow> instant \<Rightarrow> bool" where
  "limiter_ok es now =
     (distinct (map fst es) \<and> length es \<le> MAX_TRACKED \<and>
      list_all (\<lambda>(_, e). entry_ok e \<and> last_failure e \<le> now) es)"

text \<open>The states the limiter can be in: \<open>Instant::now()\<close> never goes back, and the lock lets
  one operation through at a time.\<close>

inductive limiter_reach :: "limiter \<Rightarrow> instant \<Rightarrow> bool" where
  start: "limiter_reach limiter_new now"
| pass_time: "limiter_reach es now \<Longrightarrow> now \<le> now' \<Longrightarrow> limiter_reach es now'"
| failure: "limiter_reach es now \<Longrightarrow> limiter_reach (record_failure es ip now) now"
| success: "limiter_reach es now \<Longrightarrow> limiter_reach (record_success es ip) now"

lemma saturating_add_pos: "0 < saturating_add (a :: u32) 1"
  by (simp add: word_less_nat_alt unat_saturating_add)

lemma entry_ok_bump:
  assumes "entry_ok e" "last_failure e \<le> now"
  shows "entry_ok (snd (bump_entry e now))"
proof (cases "saturating_add (failures e) 1 < MAX_FAILURES")
  case True
  then show ?thesis
    using assms by (auto simp: bump_entry_def entry_ok_def Let_def split: option.splits)
next
  case False
  then show ?thesis
    using lockout_duration_bounds(2) [of "saturating_add (lockouts e) 1"]
    by (auto simp: bump_entry_def entry_ok_def Let_def checked_add_def saturating_add_pos
        MAX_FAILURES_def split: option.splits)
qed

lemma list_all_update:
  "list_all (\<lambda>(_, e). P e) es \<Longrightarrow> P e' \<Longrightarrow> list_all (\<lambda>(_, e). P e) (AList.update k e' es)"
  by (induction es) auto

lemma list_all_delete:
  "list_all (\<lambda>(_, e). P e) es \<Longrightarrow> list_all (\<lambda>(_, e). P e) (AList.delete k es)"
  by (induction es) (auto simp: AList.delete_eq)

lemma length_update: "length (AList.update k v es) = (if k \<in> fst ` set es then length es else Suc (length es))"
  by (induction es) auto

lemma distinct_keys_update: "distinct (map fst es) \<Longrightarrow> distinct (map fst (AList.update k v es))"
  by (rule distinct_update)

lemma entry_ok_fail:
  assumes "list_all (\<lambda>(_, e). entry_ok e \<and> last_failure e \<le> now) es"
  shows "entry_ok (entry_fail (map_of es s) now) \<and> last_failure (entry_fail (map_of es s) now) \<le> now"
proof (cases "map_of es s")
  case None
  have "entry_ok (fresh_entry now)"
    by (simp add: entry_ok_def fresh_entry_def MAX_FAILURES_def)
  then have "entry_ok (snd (bump_entry (fresh_entry now) now))"
    by (rule entry_ok_bump) (simp add: fresh_entry_def)
  with None show ?thesis by (simp add: entry_fail_def bump_entry_def Let_def)
next
  case (Some e)
  with assms have "entry_ok e" "last_failure e \<le> now"
    by (auto simp: list_all_iff dest: map_of_SomeD)
  then have "entry_ok (snd (bump_entry e now))" by (rule entry_ok_bump)
  with Some show ?thesis by (simp add: entry_fail_def bump_entry_def Let_def)
qed

lemma count_failure_ok_room:
  assumes "limiter_ok es now" "map_of es s \<noteq> None \<or> length es < MAX_TRACKED"
  shows "limiter_ok (snd (count_failure es s now)) now"
proof -
  have "snd (count_failure es s now) = AList.update s (entry_fail (map_of es s) now) es"
    using assms(2) by (simp add: count_failure_room entry_fail_def split: prod.splits)
  moreover have "length (AList.update s e es) \<le> MAX_TRACKED" for e
    using assms by (auto simp: length_update limiter_ok_def map_of_eq_None_iff)
  ultimately show ?thesis
    using assms(1) entry_ok_fail [of now es s]
    by (simp add: limiter_ok_def distinct_keys_update list_all_update)
qed

lemma limiter_ok_filter: "limiter_ok es now \<Longrightarrow> limiter_ok (filter P es) now"
  by (auto simp: limiter_ok_def distinct_filter_keys list_all_iff intro: le_trans [OF length_filter_le])

lemma limiter_ok_failure: "limiter_ok es now \<Longrightarrow> limiter_ok (record_failure es ip now) now"
proof (cases "map_of es (source_of ip) \<noteq> None \<or> length es < MAX_TRACKED")
  case False
  assume ok: "limiter_ok es now"
  show ?thesis
    using False limiter_ok_filter [OF ok] count_failure_ok_room
    by (auto simp: record_failure_def count_failure_crowded Let_def)
qed (simp add: record_failure_def count_failure_ok_room)

lemma limiter_ok_success: "limiter_ok es now \<Longrightarrow> limiter_ok (record_success es ip) now"
  using length_delete_le [of "source_of ip" es]
  by (auto simp: limiter_ok_def record_success_def distinct_delete list_all_delete)

lemma limiter_reach_ok: "limiter_reach es now \<Longrightarrow> limiter_ok es now"
proof (induction rule: limiter_reach.induct)
  case (pass_time es now now')
  then show ?case by (fastforce simp: limiter_ok_def list_all_iff)
next
  case (start now)
  then show ?case by (simp add: limiter_ok_def limiter_new_def)
qed (simp_all add: limiter_ok_failure limiter_ok_success)

section \<open>Sources do not interfere\<close>

text \<open>Making room drops only entries that were not locked, so nobody is let back in early.\<close>

lemma retain_keeps_locked:
  assumes "distinct (map fst es)" "now \<le> now'"
  shows "is_locked (filter (\<lambda>(_, e). \<not> is_stale e now) es) ip now' = is_locked es ip now'"
  using assms not_locked_later [OF _ assms(2)]
  by (auto simp: is_locked_def map_of_filter_distinct is_stale_def split: option.splits)

lemma failure_keeps_others_room:
  assumes "map_of es s \<noteq> None \<or> length es < MAX_TRACKED" "source_of ip' \<noteq> s"
  shows "is_locked (snd (count_failure es s now)) ip' now' = is_locked es ip' now'"
  using assms by (auto simp: count_failure_room is_locked_def update_conv' split: prod.splits)

lemma failure_keeps_others:
  assumes "distinct (map fst es)" "source_of ip' \<noteq> source_of ip" "now \<le> now'"
  shows "is_locked (record_failure es ip now) ip' now' = is_locked es ip' now'"
proof (cases "map_of es (source_of ip) \<noteq> None \<or> length es < MAX_TRACKED")
  case True
  then show ?thesis using assms(2) by (simp add: record_failure_def failure_keeps_others_room)
next
  case False
  then have "count_failure es (source_of ip) now =
      (let es' = filter (\<lambda>(_, e). \<not> is_stale e now) es
       in if MAX_TRACKED \<le> length es' then (NotTracked, es') else count_failure es' (source_of ip) now)"
    by (intro count_failure_crowded) simp_all
  then show ?thesis
    using assms retain_keeps_locked [OF assms(1,3), of ip'] failure_keeps_others_room
    by (simp add: record_failure_def Let_def not_le)
qed

section \<open>How many guesses get through\<close>

text \<open>
  The limiter as \<open>recv_handler\<close> and \<open>authenticate_outgoing\<close> use it. The check and the
  record are two steps with a whole handshake between them, and other handshakes, also of
  the same source, go on meanwhile: \<open>Opens\<close> is the check at the start (a locked-out source
  gets no handshake), \<open>Fails\<close> the end of an open handshake with a wrong password (one guess,
  counted), \<open>Succeeds\<close> its end with the right one, \<open>GivesUp\<close> its end in any other way.
  At most \<open>c\<close> handshakes with one source are open at once; the accept loop has room for
  sixteen connections in all. The state keeps the guesses that were made, for the count.
\<close>

datatype guess_event =
    Opens (event_ip: ip_addr)
  | Fails (event_ip: ip_addr)
  | Succeeds (event_ip: ip_addr)
  | GivesUp (event_ip: ip_addr)

record guess_state =
  gs_limiter :: limiter
  gs_open :: "source \<Rightarrow> nat"
  gs_guesses :: "(ip_addr \<times> instant) list"

definition guess_start :: guess_state where
  "guess_start = \<lparr>gs_limiter = limiter_new, gs_open = (\<lambda>_. 0), gs_guesses = []\<rparr>"

definition open_one :: "source \<Rightarrow> guess_state \<Rightarrow> guess_state" where
  "open_one s st = st\<lparr>gs_open := (gs_open st)(s := Suc (gs_open st s))\<rparr>"

definition close_one :: "source \<Rightarrow> guess_state \<Rightarrow> guess_state" where
  "close_one s st = st\<lparr>gs_open := (gs_open st)(s := gs_open st s - 1)\<rparr>"

fun guess_step :: "nat \<Rightarrow> guess_event \<times> instant \<Rightarrow> guess_state \<Rightarrow> guess_state" where
  "guess_step c (Opens ip, now) st =
     (if is_locked (gs_limiter st) ip now \<or> c \<le> gs_open st (source_of ip) then st
      else open_one (source_of ip) st)"
| "guess_step c (Fails ip, now) st =
     (if gs_open st (source_of ip) = 0 then st
      else close_one (source_of ip) st
        \<lparr>gs_limiter := record_failure (gs_limiter st) ip now, gs_guesses := gs_guesses st @ [(ip, now)]\<rparr>)"
| "guess_step c (Succeeds ip, now) st =
     (if gs_open st (source_of ip) = 0 then st
      else close_one (source_of ip) st\<lparr>gs_limiter := record_success (gs_limiter st) ip\<rparr>)"
| "guess_step c (GivesUp ip, now) st = close_one (source_of ip) st"

definition guess_run :: "nat \<Rightarrow> (guess_event \<times> instant) list \<Rightarrow> guess_state" where
  "guess_run c evs = fold (guess_step c) evs guess_start"

definition times_of :: "source \<Rightarrow> (ip_addr \<times> instant) list \<Rightarrow> instant list" where
  "times_of s gs = map snd (filter (\<lambda>g. source_of (fst g) = s) gs)"

definition sources :: "(guess_event \<times> instant) list \<Rightarrow> source set" where
  "sources evs = (source_of \<circ> event_ip \<circ> fst) ` set evs"

text \<open>No handshake with the source succeeds: a success would forget its failures.\<close>

definition never_succeeds :: "source \<Rightarrow> (guess_event \<times> instant) list \<Rightarrow> bool" where
  "never_succeeds s evs = list_all (\<lambda>(ev, _). case ev of Succeeds ip \<Rightarrow> source_of ip \<noteq> s | _ \<Rightarrow> True) evs"

lemma length_keys_card: "distinct (map fst es) \<Longrightarrow> length es = card (fst ` set es)"
  using distinct_card [of "map fst es"] by simp

lemma room_when_few_sources:
  assumes "distinct (map fst es)" "fst ` set es \<union> {s} \<subseteq> S" "finite S" "card S \<le> MAX_TRACKED"
  shows "map_of es s \<noteq> None \<or> length es < MAX_TRACKED"
proof (cases "s \<in> fst ` set es")
  case False
  with assms have "fst ` set es \<subset> S" by auto
  then have "card (fst ` set es) < card S" using assms(3) by (simp add: psubset_card_mono)
  then show ?thesis using assms by (simp add: length_keys_card)
qed (simp add: map_of_eq_None_iff)

text \<open>Total length of the first \<open>m\<close> lockouts.\<close>

definition lockout_sum :: "nat \<Rightarrow> duration" where
  "lockout_sum m = (\<Sum>i = 1..m. lockout_duration (word_of_nat i))"

lemma lockout_sum_Suc: "lockout_sum (Suc m) = lockout_sum m + lockout_duration (word_of_nat (Suc m))"
  by (simp add: lockout_sum_def)

lemma lockout_sum_0 [simp]: "lockout_sum 0 = 0"
  by (simp add: lockout_sum_def)

lemma lockout_sum_mono: "m \<le> n \<Longrightarrow> lockout_sum m \<le> lockout_sum n"
  by (induction n rule: nat_induct_at_least) (simp_all add: lockout_sum_Suc)

lemma lockout_duration_mono:
  assumes "i \<le> j" "j < 4294967296"
  shows "lockout_duration (word_of_nat i) \<le> lockout_duration (word_of_nat j)"
proof -
  have "(2::nat) ^ (i - 1) \<le> 2 ^ (j - 1)" using assms by (intro power_increasing) auto
  then have "min (60 * 2 ^ (i - 1)) (3600::nat) \<le> min (60 * 2 ^ (j - 1)) 3600"
    by (intro min.mono mult_le_mono) auto
  then show ?thesis
    using assms by (simp add: lockout_duration_eq unat_word_of_nat_u32 from_secs_def)
qed

text \<open>Lockouts that come one after another are each no longer than the last of them.\<close>

lemma lockout_sum_le:
  "j < 4294967296 \<Longrightarrow>
   lockout_sum (i + n) \<le> lockout_sum i + n * lockout_duration (word_of_nat j)" if "i + n \<le> j"
  using that
proof (induction n)
  case (Suc n)
  then show ?case
    using lockout_duration_mono [of "Suc (i + n)" j] by (simp add: lockout_sum_Suc)
qed simp

text \<open>The entry of a source after \<open>k\<close> guesses in a row.\<close>

definition after_guesses :: "limit_entry option \<Rightarrow> nat \<Rightarrow> bool" where
  "after_guesses h k =
     (case h of
        None \<Rightarrow> k = 0
      | Some e \<Rightarrow> unat (failures e) = k mod 5 \<and> unat (lockouts e) = k div 5 \<and>
          (locked_until e = None) = (k < 5))"

definition locked_till :: "limit_entry option \<Rightarrow> instant" where
  "locked_till h = (case h of None \<Rightarrow> 0 | Some e \<Rightarrow> (case locked_until e of None \<Rightarrow> 0 | Some v \<Rightarrow> v))"

lemma is_locked_till: "is_locked es ip t \<longleftrightarrow> t < locked_till (map_of es (source_of ip))"
  by (auto simp: is_locked_def entry_is_locked_def locked_till_def split: option.splits)

lemma after_guesses_step:
  assumes h: "after_guesses h k" and small: "t + MAX_LOCKOUT \<le> INSTANT_MAX" and k: "k < 4294967295"
  shows "after_guesses (Some (entry_fail h t)) (Suc k)"
    and "locked_till (Some (entry_fail h t)) =
      (if Suc k mod 5 = 0 then t + lockout_duration (word_of_nat (Suc k div 5)) else locked_till h)"
proof -
  define e where "e = (case h of None \<Rightarrow> fresh_entry t | Some e \<Rightarrow> e)"
  have f: "unat (failures e) = k mod 5" and l: "unat (lockouts e) = k div 5"
    and v: "(locked_until e = None) = (k < 5)" "locked_till h = locked_till (Some e)"
    using h by (auto simp: after_guesses_def e_def fresh_entry_def locked_till_def split: option.splits)
  have f1: "unat (saturating_add (failures e) 1) = k mod 5 + 1"
    using f by (simp add: unat_saturating_add)
  have l1: "unat (saturating_add (lockouts e) 1) = Suc (k div 5)"
    using l k by (simp add: unat_saturating_add)
  have w: "saturating_add (lockouts e) 1 = word_of_nat (Suc (k div 5))"
    using l1 by (metis of_nat_unat ucast_id)
  have "t + lockout_duration (saturating_add (lockouts e) 1) \<le> INSTANT_MAX"
    using lockout_duration_bounds(2) [of "saturating_add (lockouts e) 1"] small by linarith
  then have *: "after_guesses (Some (entry_fail h t)) (Suc k) \<and>
      locked_till (Some (entry_fail h t)) =
      (if Suc k mod 5 = 0 then t + lockout_duration (word_of_nat (Suc k div 5)) else locked_till h)"
    using f1 l1 l v w
    by (auto simp: after_guesses_def locked_till_def entry_fail_def e_def [symmetric] bump_entry_def
        Let_def MAX_FAILURES_def word_less_nat_alt checked_add_def mod_Suc div_Suc split: if_splits)
  then show "after_guesses (Some (entry_fail h t)) (Suc k)"
    and "locked_till (Some (entry_fail h t)) =
      (if Suc k mod 5 = 0 then t + lockout_duration (word_of_nat (Suc k div 5)) else locked_till h)"
    by blast+
qed

text \<open>
  The invariant for one source. \<open>a\<close> is the time of the last handshake that was let in and
  \<open>ka\<close> the number of guesses made by then: since then at most \<open>c\<close> handshakes could end, and
  once one of them started a lockout, that lockout began after \<open>a\<close>. With \<open>c\<close> handshakes
  open, up to \<open>(c + 4) div 5\<close> lockouts start before the next one is waited for.
\<close>

definition lockout_rounds :: "nat \<Rightarrow> nat" where "lockout_rounds c = (c + 4) div 5"

definition let_in_ok :: "nat \<Rightarrow> instant \<Rightarrow> limit_entry option \<Rightarrow> nat \<Rightarrow> nat \<Rightarrow> instant \<Rightarrow> nat \<Rightarrow> bool" where
  "let_in_ok c t0 h k open a ka =
     (t0 \<le> a \<and> ka \<le> k \<and> k + open \<le> ka + c \<and>
      lockout_sum (ka div 5) \<le> lockout_rounds c * (a - t0) \<and>
      (ka div 5 = k div 5 \<or> a + lockout_duration (word_of_nat (k div 5)) \<le> locked_till h))"

lemma let_in_opens:
  assumes ok: "let_in_ok c t0 h k n a ka" and t: "a \<le> t" "\<not> t < locked_till h" and n: "n < c"
    and k: "k < 4294967296"
  shows "let_in_ok c t0 h k (Suc n) t k"
proof -
  let ?d = "lockout_duration (word_of_nat (k div 5))"
  have ka: "lockout_sum (ka div 5) \<le> lockout_rounds c * (a - t0)" "ka \<le> k" "k + n \<le> ka + c" "t0 \<le> a"
    using ok by (auto simp: let_in_ok_def)
  have "lockout_sum (k div 5) \<le> lockout_rounds c * (t - t0)"
  proof (cases "ka div 5 = k div 5")
    case True
    have "lockout_rounds c * (a - t0) \<le> lockout_rounds c * (t - t0)" using t by (intro mult_le_mono2 diff_le_mono)
    with ka(1) show ?thesis unfolding True by (rule le_trans)
  next
    case False
    then have at: "a + ?d \<le> t" using ok t by (auto simp: let_in_ok_def)
    define m where "m = k div 5 - ka div 5"
    have m: "k div 5 = ka div 5 + m" using ka by (simp add: m_def div_le_mono)
    have "m \<le> lockout_rounds c" using ka unfolding m_def lockout_rounds_def by linarith
    have "lockout_sum (ka div 5 + m) \<le> lockout_sum (ka div 5) + m * ?d"
      using k m by (intro lockout_sum_le) linarith+
    also have "\<dots> \<le> lockout_rounds c * (a - t0) + lockout_rounds c * ?d"
      using ka \<open>m \<le> lockout_rounds c\<close> by (intro add_mono mult_le_mono) auto
    also have "\<dots> = lockout_rounds c * (a - t0 + ?d)" by (simp add: algebra_simps)
    also have "\<dots> \<le> lockout_rounds c * (t - t0)" using at ka by (intro mult_le_mono2) linarith
    finally show ?thesis by (simp add: m)
  qed
  then show ?thesis using t n ka by (simp add: let_in_ok_def)
qed

lemma let_in_fails:
  assumes ok: "let_in_ok c t0 h k (Suc n) a ka" and t: "a \<le> t" and h: "after_guesses h k"
    and small: "t + MAX_LOCKOUT \<le> INSTANT_MAX" and k: "k < 4294967295"
  shows "let_in_ok c t0 (Some (entry_fail h t)) (Suc k) n a ka"
  using ok t after_guesses_step(2) [OF h small k]
  by (auto simp: let_in_ok_def div_Suc)

lemma let_in_ends: "let_in_ok c t0 h k n a ka \<Longrightarrow> let_in_ok c t0 h k (n - 1) a ka"
  by (auto simp: let_in_ok_def)

definition guesses_ok :: "nat \<Rightarrow> instant \<Rightarrow> source \<Rightarrow> guess_state \<Rightarrow> instant \<Rightarrow> bool" where
  "guesses_ok c t0 s st now =
     (let h = map_of (gs_limiter st) s; k = length (times_of s (gs_guesses st))
      in after_guesses h k \<and> (\<exists>a ka. a \<le> now \<and> let_in_ok c t0 h k (gs_open st s) a ka))"

definition table_ok :: "source set \<Rightarrow> guess_state \<Rightarrow> bool" where
  "table_ok S st = (distinct (map fst (gs_limiter st)) \<and> fst ` set (gs_limiter st) \<subseteq> S)"

lemma guess_step_table:
  assumes "table_ok S st" "source_of (event_ip ev) \<in> S" "finite S" "card S \<le> MAX_TRACKED"
  shows "table_ok S (guess_step c (ev, t) st)"
    and "map_of (gs_limiter st) (source_of (event_ip ev)) \<noteq> None \<or> length (gs_limiter st) < MAX_TRACKED"
proof -
  show room: "map_of (gs_limiter st) (source_of (event_ip ev)) \<noteq> None \<or> length (gs_limiter st) < MAX_TRACKED"
    using assms by (intro room_when_few_sources [of _ _ S]) (auto simp: table_ok_def)
  have "snd (count_failure es x t) = AList.update x (entry_fail (map_of es x) t) es"
    if "map_of es x \<noteq> None \<or> length es < MAX_TRACKED" for es x
    using that by (simp add: count_failure_room entry_fail_def split: prod.splits)
  from this [OF room] assms show "table_ok S (guess_step c (ev, t) st)"
    by (cases ev) (auto simp: table_ok_def open_one_def close_one_def record_failure_def
        record_success_def distinct_keys_update dom_update AList.delete_eq distinct_filter_keys)
qed

lemma guess_step_ok:
  assumes ok: "guesses_ok c t0 s st now" and t: "now \<le> t" "t + MAX_LOCKOUT \<le> INSTANT_MAX"
    and room: "map_of (gs_limiter st) (source_of (event_ip ev)) \<noteq> None \<or> length (gs_limiter st) < MAX_TRACKED"
    and few: "length (gs_guesses st) < 4294967295" and no: "never_succeeds s [(ev, t)]"
  shows "guesses_ok c t0 s (guess_step c (ev, t) st) t"
proof -
  define h k where "h = map_of (gs_limiter st) s" and "k = length (times_of s (gs_guesses st))"
  have k: "k < 4294967295" using few le_less_trans [OF length_filter_le]
    by (simp add: k_def times_of_def)
  obtain a ka where hk: "after_guesses h k" "a \<le> t" and li: "let_in_ok c t0 h k (gs_open st s) a ka"
    using ok t unfolding guesses_ok_def Let_def h_def k_def by (meson le_trans)
  show ?thesis
  proof (cases "source_of (event_ip ev) = s")
    case False
    then show ?thesis
      using room hk li
      by (cases ev) (auto simp: guesses_ok_def Let_def h_def k_def open_one_def close_one_def
          times_of_def record_failure_map record_success_map)
  next
    case s: True
    show ?thesis
    proof (cases ev)
      case (Opens ip)
      then show ?thesis
        using s hk li let_in_opens [OF li hk(2)] k
        by (auto 4 4 simp: guesses_ok_def Let_def h_def [symmetric] k_def [symmetric] open_one_def
            is_locked_till)
    next
      case (Fails ip)
      show ?thesis
      proof (cases "gs_open st s")
        case 0
        then show ?thesis using Fails s hk li by (auto simp: guesses_ok_def Let_def h_def k_def)
      next
        case (Suc n)
        from let_in_fails [OF _ hk(2) hk(1) t(2) k] li Suc
        have "let_in_ok c t0 (Some (entry_fail h t)) (Suc k) n a ka" by simp
        then show ?thesis
          using Fails s hk after_guesses_step(1) [OF hk(1) t(2) k] room Suc
          by (auto simp: guesses_ok_def Let_def h_def k_def close_one_def times_of_def
              record_failure_map)
      qed
    next
      case (Succeeds ip)
      then show ?thesis using no s by (simp add: never_succeeds_def)
    next
      case (GivesUp ip)
      then show ?thesis
        using s hk let_in_ends [OF li] by (auto simp: guesses_ok_def Let_def h_def k_def close_one_def)
    qed
  qed
qed

lemma guess_step_length: "length (gs_guesses (guess_step c e st)) \<le> Suc (length (gs_guesses st))"
  by (cases "(c, e, st)" rule: guess_step.cases) (auto simp: open_one_def close_one_def)

lemma guess_run_ok:
  assumes "table_ok S st" "guesses_ok c t0 s st now" "sources evs \<subseteq> S" "finite S" "card S \<le> MAX_TRACKED"
    "sorted (now # map snd evs)" "length (gs_guesses st) + length evs < 4294967296"
    "\<forall>e \<in> set evs. snd e + MAX_LOCKOUT \<le> INSTANT_MAX" "never_succeeds s evs"
  shows "guesses_ok c t0 s (fold (guess_step c) evs st) (foldl max now (map snd evs))"
  using assms
proof (induction evs arbitrary: st now)
  case (Cons e evs)
  obtain ev t where e: "e = (ev, t)" by (cases e)
  have src: "source_of (event_ip ev) \<in> S" "sources evs \<subseteq> S" using Cons.prems(3) by (auto simp: sources_def e)
  note tab = guess_step_table [OF Cons.prems(1) src(1) Cons.prems(4,5)]
  have now: "max now t = t" using Cons.prems(6) by (simp add: e)
  have "guesses_ok c t0 s (guess_step c (ev, t) st) t"
    using Cons.prems by (intro guess_step_ok [OF Cons.prems(2) _ _ tab(2)])
      (auto simp: e never_succeeds_def)
  with Cons.IH [of "guess_step c e st" t] Cons.prems tab src guess_step_length [of c e st]
  show ?case by (simp add: e now never_succeeds_def)
qed simp

section \<open>Properties\<close>

text \<open>
  C3. Online guessing is slow. Start with an empty limiter and take any run of handshakes of up to
  4096 sources, at most \<open>c\<close> of them open at once with one source, in which no handshake with
  the source \<open>s\<close> succeeds. If it lasts no longer than \<open>T\<close>, with
  \<open>lockout_rounds c * T \<le> lockout_sum m\<close>, the source makes at most \<open>5 * m + c - 1\<close> guesses,
  however it spaces and overlaps them. One at a time (\<open>c = 1\<close>) that is \<open>5 * m\<close> guesses within
  the first \<open>m\<close> lockouts together; the accept loop's sixteen at once make it \<open>5 * m + 15\<close>
  within a quarter of that time. (Sources are IPv4 addresses and IPv6 /64 networks, so a host
  that owns a /64 is one source.)
\<close>

theorem guess_budget:
  assumes few: "card (sources evs) \<le> MAX_TRACKED" and short: "length evs < 4294967295"
    and order: "sorted (map snd evs)"
    and window: "\<forall>e \<in> set evs. begin_at \<le> snd e \<and> snd e < begin_at + T"
    and clock: "begin_at + T + MAX_LOCKOUT \<le> INSTANT_MAX"
    and unknown: "never_succeeds s evs"
    and c: "0 < c" and T: "lockout_rounds c * T \<le> lockout_sum m"
  shows "length (times_of s (gs_guesses (guess_run c evs))) \<le> 5 * m + c - 1"
proof (cases "evs = []")
  case True
  then show ?thesis by (simp add: guess_run_def guess_start_def times_of_def)
next
  case False
  define k where "k = length (times_of s (gs_guesses (guess_run c evs)))"
  have "guesses_ok c begin_at s (guess_run c evs) (foldl max begin_at (map snd evs))"
    unfolding guess_run_def
  proof (rule guess_run_ok [where S = "sources evs"])
    show "table_ok (sources evs) guess_start"
      by (simp add: table_ok_def guess_start_def limiter_new_def)
    show "guesses_ok c begin_at s guess_start begin_at"
      by (auto simp: guesses_ok_def guess_start_def limiter_new_def times_of_def after_guesses_def
          let_in_ok_def)
    show "sorted (begin_at # map snd evs)" using order window by auto
    show "\<forall>e \<in> set evs. snd e + MAX_LOCKOUT \<le> INSTANT_MAX" using window clock by fastforce
    show "length (gs_guesses guess_start) + length evs < 4294967296"
      using short by (simp add: guess_start_def)
  qed (use few unknown in \<open>simp_all add: sources_def\<close>)
  then obtain a ka where a: "a \<le> foldl max begin_at (map snd evs)" "begin_at \<le> a"
    and ka: "ka \<le> k" "k \<le> ka + c" "lockout_sum (ka div 5) \<le> lockout_rounds c * (a - begin_at)"
    by (auto simp: guesses_ok_def Let_def let_in_ok_def k_def)
  have "foldl max x ts < begin_at + T" if "x < begin_at + T" "\<forall>t \<in> set ts. t < begin_at + T" for x ts
    using that by (induction ts arbitrary: x) auto
  moreover have "begin_at < begin_at + T" using window False by (cases evs) auto
  moreover have "\<forall>t \<in> set (map snd evs). t < begin_at + T" using window by auto
  ultimately have "foldl max begin_at (map snd evs) < begin_at + T" by blast
  with a have "a - begin_at < T" by linarith
  moreover have "0 < lockout_rounds c" using c by (simp add: lockout_rounds_def)
  ultimately have "lockout_rounds c * (a - begin_at) < lockout_rounds c * T" by simp
  with ka(3) T have "\<not> lockout_sum m \<le> lockout_sum (ka div 5)" by linarith
  then have "ka div 5 < m" using lockout_sum_mono not_le by blast
  then have "ka < 5 * m" by linarith
  with ka c show ?thesis unfolding k_def by linarith
qed

text \<open>One guess per second for a whole day, with sixteen handshakes at once: at most 520 of
  the 86400 get through.\<close>

definition one_per_second :: "(guess_event \<times> instant) list" where
  "one_per_second =
     map (\<lambda>i. (if even i then Opens (V4 1) else Fails (V4 1), from_secs (i div 2))) [0..<172800]"

lemma lockout_sum_step:
  "Suc n < 4294967296 \<Longrightarrow> lockout_sum (Suc n) = lockout_sum n + from_secs (min (60 * 2 ^ n) 3600)"
  by (simp add: lockout_sum_Suc lockout_duration_eq unat_word_of_nat_u32 del: of_nat_Suc)

lemma lockout_sum_closed:
  "6 + k < 4294967296 \<Longrightarrow> lockout_sum (6 + k) = from_secs (3780 + 3600 * k)"
proof (induction k)
  case 0
  have "lockout_sum 1 = from_secs 60"
    using lockout_sum_step [of 0] by (simp add: from_secs_def)
  moreover have "lockout_sum 2 = lockout_sum 1 + from_secs 120"
    using lockout_sum_step [of 1] by (simp add: numeral_2_eq_2)
  moreover have "lockout_sum 3 = lockout_sum 2 + from_secs 240"
    using lockout_sum_step [of 2] by (simp add: numeral_3_eq_3)
  moreover have "lockout_sum 4 = lockout_sum 3 + from_secs 480" using lockout_sum_step [of 3] by simp
  moreover have "lockout_sum 5 = lockout_sum 4 + from_secs 960" using lockout_sum_step [of 4] by simp
  moreover have "lockout_sum 6 = lockout_sum 5 + from_secs 1920" using lockout_sum_step [of 5] by simp
  ultimately show ?case by (simp add: from_secs_def)
next
  case (Suc k)
  have "(60::nat) * 2 ^ 6 \<le> 60 * 2 ^ (6 + k)"
    by (intro mult_le_mono2 power_increasing) auto
  then have "min (60 * 2 ^ (6 + k)) (3600::nat) = 3600" by simp
  with Suc lockout_sum_step [of "6 + k"] show ?case by (simp add: from_secs_def)
qed

lemma lockout_sum_101: "lockout_sum 101 = from_secs 345780"
  using lockout_sum_closed [of 95] by simp

theorem guess_budget_witness:
  "length one_per_second = 172800 \<and>
   length (times_of (source_of (V4 1)) (gs_guesses (guess_run 16 one_per_second))) \<le> 520"
proof
  show "length one_per_second = 172800" by (simp add: one_per_second_def)
  have "sources one_per_second \<subseteq> {source_of (V4 1)}"
    by (auto simp: sources_def one_per_second_def)
  then have "card (sources one_per_second) \<le> card {source_of (V4 1)}" by (intro card_mono) auto
  then have "card (sources one_per_second) \<le> MAX_TRACKED" by (simp add: MAX_TRACKED_def)
  moreover have "sorted (map snd one_per_second)"
  proof -
    have "sorted (map (\<lambda>i. from_secs (i div 2)) [0..<n])" for n
      by (induction n) (auto simp: sorted_append from_secs_def div_le_mono)
    from this [of 172800] show ?thesis unfolding one_per_second_def by (simp only: map_map comp_def snd_conv)
  qed
  moreover have "length one_per_second < 4294967295" by (simp add: one_per_second_def)
  moreover have "\<forall>e \<in> set one_per_second. 0 \<le> snd e \<and> snd e < 0 + from_secs 86400"
    by (auto simp: one_per_second_def from_secs_def)
  moreover have "never_succeeds (source_of (V4 1)) one_per_second"
    by (auto simp: never_succeeds_def one_per_second_def list_all_iff)
  moreover have "0 + from_secs 86400 + MAX_LOCKOUT \<le> INSTANT_MAX" "lockout_rounds 16 * from_secs 86400 \<le> lockout_sum 101"
    by (simp_all add: from_secs_def MAX_LOCKOUT_def INSTANT_MAX_def lockout_rounds_def lockout_sum_101)
  ultimately have "length (times_of (source_of (V4 1)) (gs_guesses (guess_run 16 one_per_second))) \<le> 5 * 101 + 16 - 1"
    by (intro guess_budget [where begin_at = 0 and T = "from_secs 86400"]) simp_all
  then show "length (times_of (source_of (V4 1)) (gs_guesses (guess_run 16 one_per_second))) \<le> 520"
    by simp
qed

text \<open>
  What one source does never changes whether another one is locked out, now or later:
  neither its failures (also when the table is full and stale entries are dropped to make
  room) nor its successes.
\<close>

theorem sources_isolated:
  assumes "limiter_reach es now" "source_of ip' \<noteq> source_of ip" "now \<le> now'"
  shows "is_locked (record_failure es ip now) ip' now' = is_locked es ip' now' \<and>
         is_locked (record_success es ip) ip' now' = is_locked es ip' now'"
  using failure_keeps_others [OF _ assms(2,3)] limiter_reach_ok [OF assms(1)] assms(2)
  by (simp add: limiter_ok_def is_locked_def record_success_map)

theorem sources_isolated_witness:
  "is_locked (record_failure (record_failure limiter_new (V4 2) 0) (V4 1) 0) (V4 2) 7 =
     is_locked (record_failure limiter_new (V4 2) 0) (V4 2) 7 \<and>
   is_locked (record_success (record_failure limiter_new (V4 2) 0) (V4 1)) (V4 2) 7 =
     is_locked (record_failure limiter_new (V4 2) 0) (V4 2) 7"
proof -
  have "limiter_reach (record_failure limiter_new (V4 2) 0) 0"
    by (intro limiter_reach.failure limiter_reach.start)
  then show ?thesis
    by (rule sources_isolated) (simp_all add: source_of_def to_canonical_def)
qed

text \<open>
  The limiter's own memory is bounded and its entries make sense: at any time it
  tracks at most 4096 sources, each once; no entry has reached five failures without a
  lockout, and no lockout ends more than an hour after the source's last failure.
\<close>

theorem limiter_bounded:
  assumes "limiter_reach es now"
  shows "length es \<le> 4096 \<and> distinct (map fst es) \<and>
    (\<forall>(s, e) \<in> set es. failures e < MAX_FAILURES \<and> last_failure e \<le> now \<and>
       (\<forall>until. locked_until e = Some until \<longrightarrow> until \<le> last_failure e + MAX_LOCKOUT))"
  using limiter_reach_ok [OF assms]
  by (auto simp: limiter_ok_def MAX_TRACKED_def list_all_iff entry_ok_def split: option.splits)

theorem limiter_bounded_witness:
  "length (record_failure limiter_new (V4 9) 3) \<le> 4096 \<and>
   distinct (map fst (record_failure limiter_new (V4 9) 3))"
proof -
  have "limiter_reach (record_failure limiter_new (V4 9) 3) 3"
    by (intro limiter_reach.failure limiter_reach.start)
  from limiter_bounded [OF this] show ?thesis by simp
qed

end
