(* ===== verification/Auth_Errors.thy ===== *)
theory Auth_Errors
  imports Cesa_Prelude
begin

text \<open>
  The errors of authentication (\<open>AuthSnowErrors\<close>) and the packet tags (\<open>Tags\<close>) of
  \<open>cesa_conn_networker/src/auth_snow.rs\<close>.
\<close>

datatype auth_error =
    FailedToReadFromStream | FailedToWriteToStream | FailedToGenerateRandomData
  | FailedToFinishSpake2Exchange | FailedToExpandHkdf | FailedToConvertToArray
  | FailedToParseText | FailedToSetLocalPrivateKey | FailedToSetPsk
  | FailedToBuildSnowResponder | FailedToReadSnowMessage | FailedToWriteSnowMessage
  | FailedToEnterTransportMode | FailedToExchangeSpake2 | FailedToConfirmMutualAuthSpake2
  | FailedToConfirmKex | KexFailed | WrongTag
  | ReadTimeout | WriteTimeout | SnowFailedToGetRemoteStatic
  | MlKemInvalidPublicKey | FailedToCalculateSharedSecret | FailedToReadFromSecureConnection
  | FailedToPairNewDevice | FailedToVerifySignature | FailedToSignData
  | FailedToWriteToSecureConnection | PairingTimeout | NoClientConfirmation
  | NoServerConfirmation | FailedToBuildSnowInitiator | PeerKeyMismatch
  | MessageTooLarge | FailedToEncryptData | FailedToDecryptData
  | HandshakeTimeout

text \<open>Every plaintext on a secure connection ends with a tag byte that says what it is.\<close>

datatype tags =
    Regular | MLDSA87VerificationKeyTag | MLDSA87SignatureTag | ClientAcceptTag | IsSavedTag
  | ServerAcceptTag

primrec tag_byte :: "tags \<Rightarrow> u8" where
  "tag_byte Regular = 0x01"
| "tag_byte MLDSA87VerificationKeyTag = 0x02"
| "tag_byte MLDSA87SignatureTag = 0x03"
| "tag_byte ClientAcceptTag = 0x04"
| "tag_byte IsSavedTag = 0x05"
| "tag_byte ServerAcceptTag = 0x06"

definition tag :: "tags \<Rightarrow> bytes \<Rightarrow> bytes" where
  "tag t packet = packet @ [tag_byte t]"

text \<open>\<open>untag\<close>: whether the tag matches, and the packet afterwards.\<close>

definition untag :: "tags \<Rightarrow> bytes \<Rightarrow> bool \<times> bytes" where
  "untag t packet =
     (if packet \<noteq> [] \<and> last packet = tag_byte t then (True, butlast packet) else (False, packet))"

lemma tag_byte_inj: "tag_byte s = tag_byte t \<longleftrightarrow> s = t"
  by (cases s; cases t) simp_all

lemma untag_tag: "untag t (tag s packet) = (if s = t then (True, packet) else (False, tag s packet))"
  by (auto simp: untag_def tag_def tag_byte_inj)

lemma untag_True: "untag t packet = (True, p) \<longleftrightarrow> packet = tag t p"
  by (auto simp: untag_def tag_def) (metis append_butlast_last_id)

end
