(* ===== verification/Pairing_Code.thy ===== *)
theory Pairing_Code
  imports Auth_Errors
begin

text \<open>
  The pairing code the two users compare: the symbol table and its checks
  (\<open>cesa_conn_system/src/pairing_code.rs\<close>) and the derivation of the eight symbols from
  the handshake hash (\<open>pairing_code\<close> in \<open>cesa_conn_networker/src/auth_snow.rs\<close>).

  HKDF-BLAKE2s is the \<open>hkdf\<close> crate: a parameter, called with the input key material, the
  label and the output length; \<open>None\<close> is its error.
\<close>

section \<open>The symbol table\<close>

definition PAIRING_CODE_LEN :: nat where "PAIRING_CODE_LEN = 8"
definition PAIRING_SYMBOLS :: nat where "PAIRING_SYMBOLS = 64"

text \<open>An emoji is its one code point.\<close>

definition SYMBOLS :: "(nat \<times> string) list" where
  "SYMBOLS = [
    (0x1F436, ''dog''), (0x1F431, ''cat''), (0x1F42D, ''mouse''), (0x1F430, ''rabbit''),
    (0x1F98A, ''fox''), (0x1F43B, ''bear''), (0x1F43C, ''panda''), (0x1F428, ''koala''),
    (0x1F42F, ''tiger''), (0x1F981, ''lion''), (0x1F42E, ''cow''), (0x1F437, ''pig''),
    (0x1F438, ''frog''), (0x1F435, ''monkey''), (0x1F414, ''chicken''), (0x1F427, ''penguin''),
    (0x1F989, ''owl''), (0x1F434, ''horse''), (0x1F984, ''unicorn''), (0x1F41D, ''bee''),
    (0x1F98B, ''butterfly''), (0x1F40C, ''snail''), (0x1F422, ''turtle''), (0x1F40D, ''snake''),
    (0x1F419, ''octopus''), (0x1F980, ''crab''), (0x1F41F, ''fish''), (0x1F42C, ''dolphin''),
    (0x1F433, ''whale''), (0x1F418, ''elephant''), (0x1F992, ''giraffe''), (0x1F335, ''cactus''),
    (0x1F332, ''tree''), (0x1F340, ''clover''), (0x1F344, ''mushroom''), (0x1F33B, ''sunflower''),
    (0x1F319, ''moon''), (0x2B50, ''star''), (0x1F525, ''fire''), (0x1F308, ''rainbow''),
    (0x26C4, ''snowman''), (0x1F4A7, ''drop''), (0x1F34E, ''apple''), (0x1F34C, ''banana''),
    (0x1F347, ''grapes''), (0x1F349, ''watermelon''), (0x1F34B, ''lemon''), (0x1F352, ''cherries''),
    (0x1F353, ''strawberry''), (0x1F955, ''carrot''), (0x1F33D, ''corn''), (0x1F355, ''pizza''),
    (0x1F382, ''cake''), (0x2615, ''coffee''), (0x1F388, ''balloon''), (0x1F381, ''gift''),
    (0x1F511, ''key''), (0x1F514, ''bell''), (0x2693, ''anchor''), (0x1F680, ''rocket''),
    (0x1F6B2, ''bicycle''), (0x26BD, ''football''), (0x1F3B8, ''guitar''), (0x1F451, ''crown'')]"

type_synonym pairing_code = bytes

definition code_is_valid :: "pairing_code \<Rightarrow> bool" where
  "code_is_valid code = list_all (\<lambda>i. unat i < PAIRING_SYMBOLS) code"

definition symbol :: "u8 \<Rightarrow> (nat \<times> string) option" where
  "symbol index = (if unat index < length SYMBOLS then Some (SYMBOLS ! unat index) else None)"

section \<open>The code of a connection\<close>

type_synonym hkdf = "bytes \<Rightarrow> bytes \<Rightarrow> nat \<Rightarrow> bytes option"

definition PAIRING_CODE_LABEL :: bytes where
  "PAIRING_CODE_LABEL = ascii ''CesaConn-pairing-code''"

definition u64_from_be :: "bytes \<Rightarrow> u64" where
  "u64_from_be bs = u64_from_le (rev bs)"

text \<open>\<open>bits.checked_shr(shift).unwrap_or(0) & 0x3F\<close>, then \<open>u8::try_from\<close>.\<close>

definition code_symbol :: "u64 \<Rightarrow> nat \<Rightarrow> auth_error + u8" where
  "code_symbol bits shift =
     (case u8_try_from (unat (and (if shift < 64 then drop_bit shift bits else 0) 0x3F)) of
        None \<Rightarrow> Inl FailedToConvertToArray
      | Some s \<Rightarrow> Inr s)"

primrec code_symbols :: "u64 \<Rightarrow> nat list \<Rightarrow> auth_error + bytes" where
  "code_symbols bits [] = Inr []"
| "code_symbols bits (shift # shifts) =
     (case code_symbol bits shift of
        Inl e \<Rightarrow> Inl e
      | Inr s \<Rightarrow> (case code_symbols bits shifts of Inl e \<Rightarrow> Inl e | Inr ss \<Rightarrow> Inr (s # ss)))"

definition pairing_code :: "hkdf \<Rightarrow> bytes \<Rightarrow> auth_error + pairing_code" where
  "pairing_code hkdf handshake_hash =
     (case hkdf handshake_hash PAIRING_CODE_LABEL 6 of
        None \<Rightarrow> Inl FailedToExpandHkdf
      | Some expanded \<Rightarrow>
          code_symbols (u64_from_be ([0, 0] @ expanded)) [42, 36, 30, 24, 18, 12, 6, 0])"

section \<open>Lemmas\<close>

lemma length_SYMBOLS: "length SYMBOLS = PAIRING_SYMBOLS"
  by (simp add: SYMBOLS_def PAIRING_SYMBOLS_def)

lemma distinct_emoji: "distinct (map fst SYMBOLS)"
  by (simp add: SYMBOLS_def)

lemma symbol_Some_iff: "symbol i \<noteq> None \<longleftrightarrow> unat i < PAIRING_SYMBOLS"
  by (simp add: symbol_def length_SYMBOLS)

lemma symbol_inj:
  assumes "unat i < PAIRING_SYMBOLS" "unat j < PAIRING_SYMBOLS"
    and "map_option fst (symbol i) = map_option fst (symbol j)"
  shows "i = j"
proof -
  have "map fst SYMBOLS ! unat i = map fst SYMBOLS ! unat j"
    using assms by (simp add: symbol_def length_SYMBOLS)
  with distinct_emoji assms have "unat i = unat j"
    by (subst (asm) nth_eq_iff_index_eq) (auto simp: length_SYMBOLS)
  then show ?thesis by (simp add: word_unat_eq_iff)
qed

lemma unat_low_six: "unat (and (drop_bit s (w :: u64)) 0x3F) = unat w div 2 ^ s mod 64"
proof -
  have "(0x3F :: u64) = mask 6" by (simp add: mask_eq_exp_minus_1)
  then have "and (drop_bit s w) 0x3F = take_bit 6 (drop_bit s w)"
    by (simp add: take_bit_eq_mask)
  then have "unat (and (drop_bit s w) 0x3F) = take_bit 6 (drop_bit s (unat w))"
    by (simp add: unsigned_take_bit_eq unsigned_drop_bit_eq take_bit_nat_eq_self unat_u64_less)
  then show ?thesis by (simp only: take_bit_eq_mod drop_bit_eq_div) simp
qed

lemma code_symbol_eq:
  "s < 64 \<Longrightarrow> code_symbol w s = Inr (word_of_nat (unat w div 2 ^ s mod 64))"
  using unat_low_six [of s w]
  by (simp add: code_symbol_def u8_try_from_def order.strict_trans [OF mod_less_divisor])

lemma code_symbols_eq:
  "list_all (\<lambda>s. s < 64) shifts \<Longrightarrow>
   code_symbols w shifts = Inr (map (\<lambda>s. word_of_nat (unat w div 2 ^ s mod 64)) shifts)"
  by (induction shifts) (simp_all add: code_symbol_eq)

lemma unat_u64_from_be:
  assumes "length bs = 8"
  shows "unat (u64_from_be bs) = nat_le (rev bs)"
  using nat_le_less [of "rev bs"] assms by (simp add: u64_from_be_def u64_from_le_def unat_of_nat)

lemma nat_le_append: "nat_le (xs @ ys) = nat_le xs + 256 ^ length xs * nat_le ys"
  by (induction xs) (simp_all add: algebra_simps)

lemma nat_le_inj: "length xs = length ys \<Longrightarrow> nat_le xs = nat_le ys \<Longrightarrow> xs = ys"
  using le_nat_nat_le by metis

text \<open>The eight symbols are the base-64 digits of the 48 bits, most significant first.\<close>

definition digits64 :: "nat \<Rightarrow> nat list" where
  "digits64 n = map (\<lambda>s. n div 2 ^ s mod 64) [42, 36, 30, 24, 18, 12, 6, 0]"

lemma div_mod_64_eq: "(n::nat) div 64 = m div 64 \<Longrightarrow> n mod 64 = m mod 64 \<Longrightarrow> n = m"
  by (metis div_mult_mod_eq)

lemma digits64_inj:
  assumes "n < 2 ^ 48" "m < 2 ^ 48" "digits64 n = digits64 m"
  shows "n = m"
proof -
  have step: "n div 2 ^ (s + 6) = m div 2 ^ (s + 6) \<Longrightarrow> n div 2 ^ s mod 64 = m div 2 ^ s mod 64 \<Longrightarrow>
      n div 2 ^ s = m div 2 ^ s" for s
    by (rule div_mod_64_eq) (simp_all add: power_add div_mult2_eq)
  have "n div 2 ^ 48 = m div 2 ^ 48" using assms by simp
  with step [of 42] assms(3) have "n div 2 ^ 42 = m div 2 ^ 42" by (simp add: digits64_def)
  with step [of 36] assms(3) have "n div 2 ^ 36 = m div 2 ^ 36" by (simp add: digits64_def)
  with step [of 30] assms(3) have "n div 2 ^ 30 = m div 2 ^ 30" by (simp add: digits64_def)
  with step [of 24] assms(3) have "n div 2 ^ 24 = m div 2 ^ 24" by (simp add: digits64_def)
  with step [of 18] assms(3) have "n div 2 ^ 18 = m div 2 ^ 18" by (simp add: digits64_def)
  with step [of 12] assms(3) have "n div 2 ^ 12 = m div 2 ^ 12" by (simp add: digits64_def)
  with step [of 6] assms(3) have "n div 2 ^ 6 = m div 2 ^ 6" by (simp add: digits64_def)
  with step [of 0] assms(3) show ?thesis by (simp add: digits64_def)
qed

lemma pairing_code_eq:
  assumes "hkdf h PAIRING_CODE_LABEL 6 = Some okm" "length okm = 6"
  shows "pairing_code hkdf h = Inr (map word_of_nat (digits64 (nat_le (rev okm))))"
proof -
  have "nat_le (rev ([0, 0] @ okm)) = nat_le (rev okm)" using assms(2) by (simp add: nat_le_append)
  moreover have "length ([0, 0] @ okm) = 8" using assms(2) by simp
  ultimately have "unat (u64_from_be ([0, 0] @ okm)) = nat_le (rev okm)"
    using unat_u64_from_be by metis
  then show ?thesis
    using assms(1) by (simp add: pairing_code_def code_symbols_eq digits64_def del: code_symbols.simps)
qed

lemma digits64_small: "d \<in> set (digits64 n) \<Longrightarrow> d < 64"
  by (auto simp: digits64_def)

lemma map_word_of_nat_inj:
  assumes "list_all (\<lambda>d. d < 64) ds" "list_all (\<lambda>d. d < 64) es"
    and "map (word_of_nat :: nat \<Rightarrow> u8) ds = map word_of_nat es"
  shows "ds = es"
proof -
  have "map unat (map (word_of_nat :: nat \<Rightarrow> u8) xs) = xs" if "list_all (\<lambda>d. d < 64) xs" for xs
    using that by (induction xs) (simp_all add: unat_word_of_nat_u8)
  with assms show ?thesis by metis
qed

section \<open>Properties\<close>

text \<open>
  The derivation always yields a code whenever HKDF yields its six bytes, the code
  has eight symbols, and every symbol is in the table, so that the user interface's check
  accepts it and every symbol can be shown.
\<close>
theorem pairing_code_valid:
  assumes "hkdf h PAIRING_CODE_LABEL 6 = Some okm" "length okm = 6"
  shows "\<exists>code. pairing_code hkdf h = Inr code \<and> length code = PAIRING_CODE_LEN \<and>
    code_is_valid code \<and> list_all (\<lambda>i. symbol i \<noteq> None) code"
proof -
  have "list_all (\<lambda>i. unat i < PAIRING_SYMBOLS) (map (word_of_nat :: nat \<Rightarrow> u8) (digits64 n))" for n
    by (auto simp: list_all_iff PAIRING_SYMBOLS_def unat_word_of_nat_u8 dest!: digits64_small)
  moreover have "length (digits64 n) = PAIRING_CODE_LEN" for n
    by (simp add: digits64_def PAIRING_CODE_LEN_def)
  ultimately show ?thesis
    using pairing_code_eq [of hkdf h okm] assms by (auto simp: code_is_valid_def symbol_Some_iff simp del: not_None_eq)
qed

text \<open>A stand-in for HKDF: the first bytes of the input, padded with zeros.\<close>

definition sample_hkdf :: hkdf where
  "sample_hkdf ikm info n = Some (take n (ikm @ replicate n 0))"

theorem pairing_code_valid_witness:
  "\<exists>code. pairing_code sample_hkdf (replicate 32 0xA7) = Inr code \<and> length code = PAIRING_CODE_LEN \<and>
    code_is_valid code \<and> list_all (\<lambda>i. symbol i \<noteq> None) code"
  by (rule pairing_code_valid [where okm = "replicate 6 0xA7"])
     (simp_all add: sample_hkdf_def numeral_eq_Suc)

text \<open>
  No information is lost between the 48 bits and what the users see: whenever HKDF
  gives two connections different bytes (a man in the middle runs two handshakes, so two
  hashes), the two rows of emoji differ.
\<close>
theorem pairing_code_comparison:
  assumes "hkdf h PAIRING_CODE_LABEL 6 = Some okm" "length okm = 6"
    and "hkdf h' PAIRING_CODE_LABEL 6 = Some okm'" "length okm' = 6"
    and "okm \<noteq> okm'"
  shows "\<exists>code code'. pairing_code hkdf h = Inr code \<and> pairing_code hkdf h' = Inr code' \<and>
    map (map_option fst \<circ> symbol) code \<noteq> map (map_option fst \<circ> symbol) code'"
proof -
  let ?n = "nat_le (rev okm)" and ?m = "nat_le (rev okm')"
  let ?code = "map word_of_nat (digits64 ?n) :: bytes" and ?code' = "map word_of_nat (digits64 ?m) :: bytes"
  have small: "list_all (\<lambda>d. d < 64) (digits64 k)" for k
    by (auto simp: list_all_iff dest: digits64_small)
  have "?n < 2 ^ 48" "?m < 2 ^ 48"
    using nat_le_less [of "rev okm"] nat_le_less [of "rev okm'"] assms(2,4) by simp_all
  moreover have "?n \<noteq> ?m" using assms(2,4,5) nat_le_inj [of "rev okm" "rev okm'"] by auto
  ultimately have "digits64 ?n \<noteq> digits64 ?m" using digits64_inj by blast
  then have ne: "?code \<noteq> ?code'" using small map_word_of_nat_inj by blast
  have "unat i < PAIRING_SYMBOLS" if "i \<in> set ?code \<union> set ?code'" for i
    using that by (auto simp: PAIRING_SYMBOLS_def unat_word_of_nat_u8 dest!: digits64_small)
  then have "inj_on (map_option fst \<circ> symbol) (set ?code \<union> set ?code')"
    unfolding inj_on_def comp_def using symbol_inj by blast
  with ne have "map (map_option fst \<circ> symbol) ?code \<noteq> map (map_option fst \<circ> symbol) ?code'"
    using inj_on_map_eq_map by blast
  then show ?thesis
    using pairing_code_eq [of hkdf h okm] pairing_code_eq [of hkdf h' okm'] assms(1-4) by blast
qed

theorem pairing_code_comparison_witness:
  "\<exists>code code'. pairing_code sample_hkdf (replicate 32 0) = Inr code \<and>
    pairing_code sample_hkdf (replicate 32 1) = Inr code' \<and>
    map (map_option fst \<circ> symbol) code \<noteq> map (map_option fst \<circ> symbol) code'"
  by (rule pairing_code_comparison [where okm = "replicate 6 0" and okm' = "replicate 6 1"])
     (simp_all add: sample_hkdf_def replicate_eq_replicate)

end
