(* ===== verification/Trusted_Peers.thy ===== *)
theory Trusted_Peers
  imports Auth_Errors
begin

text \<open>
  The list of paired devices (\<open>TrustedPeer\<close>, \<open>encode_peers\<close>, \<open>decode_peers\<close> and
  \<open>save_peer\<close> of \<open>cesa_conn_networker/src/auth_snow.rs\<close>): its saved form in the vault and
  the one operation that adds to it. Byte arrays are lists whose length is part of the
  well-formedness predicate; \<open>ct_eq\<close> is equality.
\<close>

section \<open>The model\<close>

definition MAX_TRUSTED_PEERS :: nat where "MAX_TRUSTED_PEERS = 256"
definition MAX_PEER_NAME_LEN :: nat where "MAX_PEER_NAME_LEN = 255"
definition MLDSA87_VK_LEN :: nat where "MLDSA87_VK_LEN = 2592"

record trusted_peer =
  x25519_pub_key :: bytes
  mldsa_verification_key :: bytes
  peer_name :: bytes

definition valid_peer_name :: "bytes \<Rightarrow> bool" where
  "valid_peer_name name = (length name \<le> MAX_PEER_NAME_LEN \<and> \<not> has_control name)"

text \<open>One round of the loop of \<open>encode_peers\<close>, and the loop.\<close>

definition encode_trusted_peer :: "trusted_peer \<Rightarrow> bytes option" where
  "encode_trusted_peer peer = do {
     name_len \<leftarrow> u8_try_from (length (peer_name peer));
     Some (x25519_pub_key peer @ mldsa_verification_key peer @ [name_len] @ peer_name peer)
   }"

primrec encode_peers_loop :: "trusted_peer list \<Rightarrow> bytes \<Rightarrow> bytes option" where
  "encode_peers_loop [] out = Some out"
| "encode_peers_loop (peer # peers) out = do {
     bs \<leftarrow> encode_trusted_peer peer;
     encode_peers_loop peers (out @ bs)
   }"

definition encode_peers :: "trusted_peer list \<Rightarrow> bytes option" where
  "encode_peers peers =
     (if MAX_TRUSTED_PEERS < length peers \<or> \<not> list_all (\<lambda>p. valid_peer_name (peer_name p)) peers
      then None
      else do {
        count \<leftarrow> u16_try_from (length peers);
        encode_peers_loop peers (u16_to_le count)
      })"

text \<open>One round of the loop of \<open>decode_peers\<close>; \<open>split_at_checked\<close> is a chunk of the given
  length.\<close>

definition decode_trusted_peer :: "trusted_peer list \<Rightarrow> bytes \<Rightarrow> (trusted_peer \<times> bytes) option" where
  "decode_trusted_peer peers rest = do {
     (key, after) \<leftarrow> split_first_chunk 32 rest;
     (vk, after) \<leftarrow> split_first_chunk MLDSA87_VK_LEN after;
     (name_len, after) \<leftarrow> split_first after;
     (name, after) \<leftarrow> split_first_chunk (unat name_len) after;
     _ \<leftarrow> ensure (utf8_valid name);
     _ \<leftarrow> ensure (valid_peer_name name);
     _ \<leftarrow> ensure (\<not> list_ex (\<lambda>p. x25519_pub_key p = key) peers);
     Some (\<lparr>x25519_pub_key = key, mldsa_verification_key = vk, peer_name = name\<rparr>, after)
   }"

definition decode_trusted_peers :: "bytes \<Rightarrow> trusted_peer list option" where
  "decode_trusted_peers bs = do {
     (count, rest) \<leftarrow> split_first_chunk 2 bs;
     let count = unat (u16_from_le count);
     _ \<leftarrow> ensure (\<not> MAX_TRUSTED_PEERS < count);
     (peers, rest) \<leftarrow> for_collect decode_trusted_peer count rest [];
     then_some (rest = []) peers
   }"

text \<open>\<open>save_peer\<close>: the result and the list afterwards.\<close>

definition save_peer :: "trusted_peer list \<Rightarrow> trusted_peer \<Rightarrow> (auth_error + unit) \<times> trusted_peer list" where
  "save_peer peers peer =
     (if list_ex (\<lambda>p. x25519_pub_key p = x25519_pub_key peer) peers then (Inr (), peers)
      else if MAX_TRUSTED_PEERS \<le> length peers then (Inl FailedToPairNewDevice, peers)
      else (Inr (), peers @ [peer]))"

section \<open>Lemmas\<close>

definition trusted_peer_ok :: "trusted_peer \<Rightarrow> bool" where
  "trusted_peer_ok p = (length (x25519_pub_key p) = 32 \<and> length (mldsa_verification_key p) = MLDSA87_VK_LEN
     \<and> utf8_valid (peer_name p) \<and> valid_peer_name (peer_name p))"

definition trusted_peers_ok :: "trusted_peer list \<Rightarrow> bool" where
  "trusted_peers_ok ps = (length ps \<le> MAX_TRUSTED_PEERS \<and> list_all trusted_peer_ok ps
     \<and> distinct (map x25519_pub_key ps))"

definition trusted_peer_layout :: "trusted_peer \<Rightarrow> bytes" where
  "trusted_peer_layout p = x25519_pub_key p @ mldsa_verification_key p
     @ word_of_nat (length (peer_name p)) # peer_name p"

definition trusted_peers_layout :: "trusted_peer list \<Rightarrow> bytes" where
  "trusted_peers_layout ps = u16_to_le (word_of_nat (length ps)) @ concat (map trusted_peer_layout ps)"

lemma encode_trusted_peer_layout:
  "valid_peer_name (peer_name p) \<Longrightarrow> encode_trusted_peer p = Some (trusted_peer_layout p)"
  by (simp add: encode_trusted_peer_def trusted_peer_layout_def u8_try_from_def valid_peer_name_def
      MAX_PEER_NAME_LEN_def)

lemma encode_peers_loop_layout:
  "list_all (\<lambda>p. valid_peer_name (peer_name p)) ps \<Longrightarrow>
   encode_peers_loop ps out = Some (out @ concat (map trusted_peer_layout ps))"
  by (induction ps arbitrary: out) (simp_all add: encode_trusted_peer_layout)

lemma encode_peers_layout:
  "encode_peers ps =
     (if length ps \<le> MAX_TRUSTED_PEERS \<and> list_all (\<lambda>p. valid_peer_name (peer_name p)) ps
      then Some (trusted_peers_layout ps) else None)"
  by (auto simp: encode_peers_def encode_peers_loop_layout trusted_peers_layout_def u16_try_from_def
      MAX_TRUSTED_PEERS_def)

interpretation trusted_items: item_codec trusted_peer_layout decode_trusted_peer
  "\<lambda>out p. trusted_peer_ok p \<and> x25519_pub_key p \<notin> x25519_pub_key ` set out"
proof
  show "decode_trusted_peer out (trusted_peer_layout p @ r) = Some (p, r)"
    if "trusted_peer_ok p \<and> x25519_pub_key p \<notin> x25519_pub_key ` set out" for out p r
    using that
    by (auto simp: decode_trusted_peer_def trusted_peer_layout_def trusted_peer_ok_def list_ex_key
        valid_peer_name_def MAX_PEER_NAME_LEN_def unat_word_of_nat_u8)
  show "(trusted_peer_ok p \<and> x25519_pub_key p \<notin> x25519_pub_key ` set out) \<and> bs = trusted_peer_layout p @ r"
    if "decode_trusted_peer out bs = Some (p, r)" for out bs p r
    using that
    by (auto simp: decode_trusted_peer_def trusted_peer_layout_def trusted_peer_ok_def list_ex_key
        decoder_inversion)
qed

interpretation trusted_codec: strict_codec trusted_peers_layout decode_trusted_peers trusted_peers_ok
proof
  show "decode_trusted_peers (trusted_peers_layout ps) = Some ps" if "trusted_peers_ok ps" for ps
  proof -
    have "unat (word_of_nat (length ps) :: u16) = length ps"
      using that by (simp add: unat_word_of_nat_u16 trusted_peers_ok_def MAX_TRUSTED_PEERS_def)
    with that trusted_items.collect_enc [of "[]" ps "[]"] show ?thesis
      by (simp add: decode_trusted_peers_def trusted_peers_layout_def trusted_peers_ok_def
          all_fit_distinct Let_def)
  qed
  show "trusted_peers_ok ps \<and> trusted_peers_layout ps = bs" if dec: "decode_trusted_peers bs = Some ps" for bs ps
  proof -
    obtain c rest where c: "bs = c @ rest" "length c = 2" "unat (u16_from_le c) \<le> MAX_TRUSTED_PEERS"
      and col: "for_collect decode_trusted_peer (unat (u16_from_le c)) rest [] = Some (ps, [])"
      using dec by (auto simp: decode_trusted_peers_def decoder_inversion Let_def not_less)
    from trusted_items.enc_collect [OF col] c show ?thesis
      by (auto simp: trusted_peers_ok_def trusted_peers_layout_def all_fit_distinct to_from_le)
  qed
qed

section \<open>Properties\<close>

text \<open>
  The saved form of the paired devices is strict: the decoder accepts exactly what the
  encoder makes of lists the program may hold (at most 256 devices with distinct keys,
  full-size keys and printable names), so a vault never loads a list that could not be
  saved again.
\<close>
theorem trusted_peers_codec:
  "decode_trusted_peers bs = Some ps \<longleftrightarrow> trusted_peers_ok ps \<and> encode_peers ps = Some bs"
  using trusted_codec.dec_eq_Some_iff [of bs ps]
  by (auto simp: encode_peers_layout trusted_peers_ok_def trusted_peer_ok_def list_all_iff)

text \<open>
  Pairing keeps the list saveable: after any sequence of \<open>save_peer\<close> with
  well-formed devices from a well-formed list, the list is well-formed, no device that was
  in it is changed or lost, and its saved form reads back.
\<close>
theorem save_peer_keeps_list:
  assumes "trusted_peers_ok ps" "list_all trusted_peer_ok news"
  shows "let ps' = fold (\<lambda>p ps. snd (save_peer ps p)) news ps
         in trusted_peers_ok ps' \<and> take (length ps) ps' = ps \<and>
            decode_trusted_peers (the (encode_peers ps')) = Some ps'"
proof -
  have step: "trusted_peers_ok (snd (save_peer qs p))" if "trusted_peers_ok qs" "trusted_peer_ok p" for qs p
    using that by (auto simp: save_peer_def trusted_peers_ok_def list_ex_key)
  have "trusted_peers_ok qs \<Longrightarrow> list_all trusted_peer_ok news \<Longrightarrow>
      trusted_peers_ok (fold (\<lambda>p ps. snd (save_peer ps p)) news qs) \<and>
      (\<exists>more. fold (\<lambda>p ps. snd (save_peer ps p)) news qs = qs @ more)" for qs
  proof (induction news arbitrary: qs)
    case (Cons p news)
    have "snd (save_peer qs p) = qs \<or> snd (save_peer qs p) = qs @ [p]" by (simp add: save_peer_def)
    then obtain m where m: "snd (save_peer qs p) = qs @ m" by fastforce
    have "trusted_peers_ok (snd (save_peer qs p))" using Cons.prems by (simp add: step)
    with Cons.IH [of "snd (save_peer qs p)"] Cons.prems obtain more where
      "trusted_peers_ok (fold (\<lambda>p ps. snd (save_peer ps p)) news (snd (save_peer qs p)))"
      "fold (\<lambda>p ps. snd (save_peer ps p)) news (snd (save_peer qs p)) = snd (save_peer qs p) @ more"
      unfolding list_all_iff by auto
    then show ?case by (simp add: m)
  qed simp
  with assms obtain more where ok: "trusted_peers_ok (fold (\<lambda>p ps. snd (save_peer ps p)) news ps)"
    and "fold (\<lambda>p ps. snd (save_peer ps p)) news ps = ps @ more" by blast
  moreover have "encode_peers qs = Some (trusted_peers_layout qs)" if "trusted_peers_ok qs" for qs
    using that by (auto simp: encode_peers_layout trusted_peers_ok_def trusted_peer_ok_def list_all_iff)
  ultimately show ?thesis
    using trusted_codec.dec_enc by (simp add: Let_def)
qed

definition sample_peer :: "u8 \<Rightarrow> trusted_peer" where
  "sample_peer b = \<lparr>x25519_pub_key = replicate 32 b, mldsa_verification_key = replicate 2592 b,
     peer_name = ascii ''phone''\<rparr>"

lemma utf8_chars_phone: "utf8_chars (ascii ''phone'') = Some [112, 104, 111, 110, 101]"
  by (simp add: ascii_def utf8_chars.simps)

lemma sample_peer_ok: "trusted_peer_ok (sample_peer b)"
  by (simp add: sample_peer_def trusted_peer_ok_def MLDSA87_VK_LEN_def utf8_valid_def valid_peer_name_def
      MAX_PEER_NAME_LEN_def has_control_def utf8_chars_phone is_control_def)

theorem save_peer_keeps_list_witness:
  "let ps' = fold (\<lambda>p ps. snd (save_peer ps p)) [sample_peer 1, sample_peer 2, sample_peer 1] []
   in trusted_peers_ok ps' \<and> take (length ([] :: trusted_peer list)) ps' = [] \<and>
      decode_trusted_peers (the (encode_peers ps')) = Some ps'"
  by (rule save_peer_keeps_list) (simp_all add: sample_peer_ok trusted_peers_ok_def)

end
