(* ===== verification/Clip_Sync.thy ===== *)
theory Clip_Sync
  imports Trusted_Peers
begin

text \<open>
  Clipboard sync (\<open>cesa_conn_networker/src/clip_sync.rs\<close>): the answer byte, the update
  message with its strict decoder, and the memory \<open>UpdateOrder\<close> of the newest update
  taken from each peer.

  The ordering memory \<open>Vec<([u8; 32], [u8; 8], u64)>\<close> is a list in the order of the
  vector, because the oldest entry is the one dropped when it is full.
\<close>

section \<open>The model\<close>

definition CLIP_VERSION :: u8 where "CLIP_VERSION = 0x01"
definition CLIP_KIND_TEXT :: u8 where "CLIP_KIND_TEXT = 0x01"
definition CLIP_HEADER_LEN :: nat where "CLIP_HEADER_LEN = 22"
definition CLIP_MAX_LEN :: nat where "CLIP_MAX_LEN = 1024 * 1024"
definition DATA_LAYER_OVERHEAD :: nat where "DATA_LAYER_OVERHEAD = 12 + 16"
definition CLIP_MAX_WIRE_LEN :: nat where
  "CLIP_MAX_WIRE_LEN = CLIP_HEADER_LEN + CLIP_MAX_LEN + DATA_LAYER_OVERHEAD"
definition CLIP_MIN_WIRE_LEN :: nat where
  "CLIP_MIN_WIRE_LEN = CLIP_HEADER_LEN + 1 + DATA_LAYER_OVERHEAD"

datatype data_ack = Applied | Ignored | DataKeyDiffers

primrec ack_byte :: "data_ack \<Rightarrow> u8" where
  "ack_byte Applied = 0x00"
| "ack_byte Ignored = 0x01"
| "ack_byte DataKeyDiffers = 0x02"

definition ack_from_u8 :: "u8 \<Rightarrow> data_ack option" where
  "ack_from_u8 byte =
     (if byte = 0x00 then Some Applied
      else if byte = 0x01 then Some Ignored
      else if byte = 0x02 then Some DataKeyDiffers
      else None)"

record clip_message =
  clip_epoch :: bytes
  clip_seq :: u64
  clip_text :: bytes

definition clip_encode :: "bytes \<Rightarrow> u64 \<Rightarrow> bytes \<Rightarrow> bytes option" where
  "clip_encode epoch seq text =
     (if text = [] \<or> CLIP_MAX_LEN < length text then None
      else do {
        content_len \<leftarrow> u32_try_from (length text);
        Some (CLIP_VERSION # CLIP_KIND_TEXT # epoch @ u64_to_le seq @ u32_to_le content_len @ text)
      })"

definition clip_decode :: "bytes \<Rightarrow> clip_message option" where
  "clip_decode payload = do {
     (version, rest) \<leftarrow> split_first payload;
     (kind, rest) \<leftarrow> split_first rest;
     _ \<leftarrow> ensure (\<not> (version \<noteq> CLIP_VERSION \<or> kind \<noteq> CLIP_KIND_TEXT));
     (epoch, rest) \<leftarrow> split_first_chunk 8 rest;
     (seq, rest) \<leftarrow> split_first_chunk 8 rest;
     (content_len, content) \<leftarrow> split_first_chunk 4 rest;
     let content_len = unat (u32_from_le content_len);
     _ \<leftarrow> ensure (\<not> (content_len = 0 \<or> CLIP_MAX_LEN < content_len \<or> content_len \<noteq> length content));
     _ \<leftarrow> ensure (utf8_valid content);
     Some \<lparr>clip_epoch = epoch, clip_seq = u64_from_le seq, clip_text = content\<rparr>
   }"

type_synonym update_order = "(bytes \<times> bytes \<times> u64) list"

text \<open>\<open>last.iter_mut().find(..)\<close> and the assignment through the reference it returns: the
  first entry of the peer, if any, is rewritten in place.\<close>

fun order_find :: "update_order \<Rightarrow> bytes \<Rightarrow> (bytes \<times> u64) option" where
  "order_find [] peer = None"
| "order_find ((key, e, s) # order) peer = (if key = peer then Some (e, s) else order_find order peer)"

fun order_set :: "update_order \<Rightarrow> bytes \<Rightarrow> bytes \<Rightarrow> u64 \<Rightarrow> update_order" where
  "order_set [] peer epoch seq = []"
| "order_set ((key, e, s) # order) peer epoch seq =
     (if key = peer then (key, epoch, seq) # order else (key, e, s) # order_set order peer epoch seq)"

definition order_accept :: "update_order \<Rightarrow> bytes \<Rightarrow> bytes \<Rightarrow> u64 \<Rightarrow> bool \<times> update_order" where
  "order_accept order peer epoch seq =
     (case order_find order peer of
        Some (last_epoch, last_seq) \<Rightarrow>
          if last_epoch = epoch \<and> seq \<le> last_seq then (False, order)
          else (True, order_set order peer epoch seq)
      | None \<Rightarrow>
          let order = (if MAX_TRUSTED_PEERS \<le> length order \<and> order \<noteq> [] then tl order else order)
          in (True, order @ [(peer, epoch, seq)]))"

section \<open>The message codec\<close>

definition clip_ok :: "clip_message \<Rightarrow> bool" where
  "clip_ok m = (length (clip_epoch m) = 8 \<and> clip_text m \<noteq> [] \<and> length (clip_text m) \<le> CLIP_MAX_LEN
     \<and> utf8_valid (clip_text m))"

text \<open>The layout of the message, for a text of an allowed length.\<close>

definition clip_layout :: "clip_message \<Rightarrow> bytes" where
  "clip_layout m = CLIP_VERSION # CLIP_KIND_TEXT # clip_epoch m @ u64_to_le (clip_seq m)
     @ u32_to_le (word_of_nat (length (clip_text m))) @ clip_text m"

lemma clip_encode_layout:
  "clip_encode e s t =
     (if t \<noteq> [] \<and> length t \<le> CLIP_MAX_LEN
      then Some (clip_layout \<lparr>clip_epoch = e, clip_seq = s, clip_text = t\<rparr>) else None)"
  by (auto simp: clip_encode_def clip_layout_def u32_try_from_def CLIP_MAX_LEN_def)

interpretation clip: strict_codec clip_layout clip_decode clip_ok
proof
  show "clip_decode (clip_layout m) = Some m" if "clip_ok m" for m
    using that
    by (simp add: clip_ok_def clip_layout_def clip_decode_def CLIP_MAX_LEN_def unat_word_of_nat_u32)
  show "clip_ok m \<and> clip_layout m = bs" if "clip_decode bs = Some m" for bs m
    using that
    by (auto simp: clip_decode_def clip_ok_def clip_layout_def decoder_inversion CLIP_MAX_LEN_def
        to_from_le Let_def)
qed

lemma ack_byte_roundtrip: "ack_from_u8 b = Some a \<longleftrightarrow> b = ack_byte a"
  by (cases a) (auto simp: ack_from_u8_def)

section \<open>The ordering memory\<close>

text \<open>
  What the memory is for: per peer, the last update taken. \<open>newer\<close> is the rule for one
  peer, \<open>order_abs\<close> reads the memory as a map.
\<close>

definition newer :: "(bytes \<times> u64) option \<Rightarrow> bytes \<times> u64 \<Rightarrow> bool" where
  "newer known u = (case known of None \<Rightarrow> True | Some k \<Rightarrow> \<not> (fst k = fst u \<and> snd u \<le> snd k))"

definition order_abs :: "update_order \<Rightarrow> bytes \<rightharpoonup> bytes \<times> u64" where
  "order_abs order = map_of (map (\<lambda>(p, e, s). (p, (e, s))) order)"

definition order_inv :: "update_order \<Rightarrow> bool" where
  "order_inv order = (length order \<le> MAX_TRUSTED_PEERS \<and> distinct (map fst order))"

lemma order_find_abs: "order_find order p = order_abs order p"
  by (induction order p rule: order_find.induct) (auto simp: order_abs_def)

lemma order_abs_None: "order_abs order p = None \<longleftrightarrow> p \<notin> fst ` set order"
  by (force simp: order_abs_def map_of_eq_None_iff)

lemma order_set_keys: "map fst (order_set order p e s) = map fst order"
  by (induction order p e s rule: order_set.induct) auto

lemma order_set_abs:
  "order_abs order p \<noteq> None \<Longrightarrow> order_abs (order_set order p e s) = (order_abs order)(p \<mapsto> (e, s))"
  by (induction order p e s rule: order_set.induct) (auto simp: order_abs_def)

lemma order_accept_inv: "order_inv order \<Longrightarrow> order_inv (snd (order_accept order p e s))"
  using order_set_keys [of order p e s] map_eq_imp_length_eq [OF order_set_keys [of order p e s]]
  by (cases order)
     (auto simp: order_accept_def order_inv_def Let_def order_find_abs order_abs_None MAX_TRUSTED_PEERS_def
       split: option.splits)

text \<open>Below the cap, or for a known peer, \<open>accept\<close> is exactly the per-peer rule.\<close>

lemma order_accept_refines:
  assumes "length order < MAX_TRUSTED_PEERS \<or> order_abs order p \<noteq> None"
  shows "fst (order_accept order p e s) = newer (order_abs order p) (e, s)"
    and "order_abs (snd (order_accept order p e s)) =
      (if newer (order_abs order p) (e, s) then (order_abs order)(p \<mapsto> (e, s)) else order_abs order)"
proof -
  have append: "order_abs (order @ [(p, e, s)]) = (order_abs order)(p \<mapsto> (e, s))"
    if "order_abs order p = None"
    using that by (auto simp: order_abs_def fun_eq_iff map_add_def split: option.splits)
  show "fst (order_accept order p e s) = newer (order_abs order p) (e, s)"
    by (auto simp: order_accept_def order_find_abs newer_def Let_def split: option.splits)
  show "order_abs (snd (order_accept order p e s)) =
      (if newer (order_abs order p) (e, s) then (order_abs order)(p \<mapsto> (e, s)) else order_abs order)"
    using assms append
    by (auto simp: order_accept_def order_find_abs newer_def Let_def order_set_abs split: option.splits)
qed

lemma order_find_append:
  "order_find (xs @ ys) p = (case order_find xs p of None \<Rightarrow> order_find ys p | Some k \<Rightarrow> Some k)"
  by (induction xs p rule: order_find.induct) auto

lemma order_find_tl: "order_find order p = None \<Longrightarrow> order_find (tl order) p = None"
  by (cases order) (auto split: if_splits)

lemma order_find_set:
  "order_find order p \<noteq> None \<Longrightarrow> order_find (order_set order p e s) p = Some (e, s)"
  by (induction order p e s rule: order_set.induct) auto

lemma order_find_after:
  "order_find (snd (order_accept order p e s)) p =
     (if newer (order_find order p) (e, s) then Some (e, s) else order_find order p)"
  by (auto simp: order_accept_def newer_def Let_def order_find_append order_find_tl order_find_set
      split: option.splits)

text \<open>A history of updates offered to the memory, and those of them it took.\<close>

fun order_run :: "update_order \<Rightarrow> (bytes \<times> bytes \<times> u64) list \<Rightarrow> (bytes \<times> bytes \<times> u64) list" where
  "order_run order [] = []"
| "order_run order ((p, e, s) # us) =
     (let (ok, order') = order_accept order p e s
      in if ok then (p, e, s) # order_run order' us else order_run order' us)"

fun take_newer :: "(bytes \<times> u64) option \<Rightarrow> (bytes \<times> u64) list \<Rightarrow> (bytes \<times> u64) list" where
  "take_newer known [] = []"
| "take_newer known (u # us) =
     (if newer known u then u # take_newer (Some u) us else take_newer known us)"

definition updates_of :: "bytes \<Rightarrow> (bytes \<times> bytes \<times> u64) list \<Rightarrow> (bytes \<times> u64) list" where
  "updates_of p us = map snd (filter (\<lambda>u. fst u = p) us)"

lemma updates_of_simps [simp]:
  "updates_of p [] = []"
  "updates_of p ((q, u) # us) = (if q = p then u # updates_of p us else updates_of p us)"
  by (auto simp: updates_of_def)

lemma order_keys_card:
  "order_inv order \<Longrightarrow> fst ` set order \<subseteq> P \<Longrightarrow> finite P \<Longrightarrow> p \<in> P \<Longrightarrow> card P \<le> MAX_TRUSTED_PEERS \<Longrightarrow>
   order_abs order p = None \<Longrightarrow> length order < MAX_TRUSTED_PEERS"
proof -
  assume a: "order_inv order" "fst ` set order \<subseteq> P" "finite P" "p \<in> P" "card P \<le> MAX_TRUSTED_PEERS"
    "order_abs order p = None"
  then have "fst ` set order \<subset> P" by (auto simp: order_abs_None)
  with a have "card (fst ` set order) < card P" by (simp add: psubset_card_mono)
  moreover have "card (fst ` set order) = length order"
    using a(1) distinct_card [of "map fst order"] by (simp add: order_inv_def)
  ultimately show ?thesis using a by simp
qed

lemma order_accept_keys: "fst ` set (snd (order_accept order p e s)) \<subseteq> insert p (fst ` set order)"
proof -
  have "set (map fst (order_set order p e s)) = set (map fst order)" by (simp only: order_set_keys)
  moreover have "set (tl order) \<subseteq> set order" by (cases order) auto
  ultimately show ?thesis
    by (auto simp: order_accept_def Let_def image_subset_iff split: option.splits)
qed

lemma order_run_refines:
  assumes "order_inv order" "finite P" "card P \<le> MAX_TRUSTED_PEERS"
    and "fst ` set order \<subseteq> P" "fst ` set us \<subseteq> P"
  shows "updates_of q (order_run order us) = take_newer (order_abs order q) (updates_of q us)"
  using assms(1,4,5)
proof (induction us arbitrary: order)
  case (Cons u us)
  obtain p e s where u: "u = (p, e, s)" by (cases u)
  let ?next = "snd (order_accept order p e s)"
  have fit: "length order < MAX_TRUSTED_PEERS \<or> order_abs order p \<noteq> None"
    using order_keys_card [of order P p] assms Cons.prems u by (auto simp del: not_None_eq)
  have "order_inv ?next" by (rule order_accept_inv [OF Cons.prems(1)])
  moreover have "fst ` set ?next \<subseteq> P" using order_accept_keys [of order p e s] Cons.prems u by auto
  ultimately have "updates_of q (order_run ?next us) = take_newer (order_abs ?next q) (updates_of q us)"
    using Cons.IH Cons.prems by simp
  then show ?case
    using order_accept_refines [OF fit, of e s] u by (auto simp: case_prod_beta Let_def)
qed simp

text \<open>What the per-peer rule takes is strictly increasing within a run of one epoch.\<close>

definition in_order :: "bytes \<times> u64 \<Rightarrow> bytes \<times> u64 \<Rightarrow> bool" where
  "in_order u v = (fst u = fst v \<longrightarrow> snd u < snd v)"

lemma take_newer_in_order:
  "successively in_order (take_newer known us) \<and>
   (case known of None \<Rightarrow> True | Some k \<Rightarrow>
      (case take_newer known us of [] \<Rightarrow> True | u # _ \<Rightarrow> in_order k u))"
proof (induction us arbitrary: known)
  case (Cons u us)
  from Cons.IH [of "Some u"] Cons.IH [of known] show ?case
    by (cases "take_newer (Some u) us")
       (auto simp: newer_def in_order_def split: option.splits)
qed (auto split: option.splits)

section \<open>Properties\<close>

text \<open>
  The clipboard message codec is a bijection between the messages the program may
  send (an 8-byte epoch, a non-empty UTF-8 text of at most 1 MiB) and the byte strings the
  receiver accepts: what is encoded decodes to itself, everything else is refused.
\<close>
theorem clip_codec_strict:
  "clip_decode payload = Some m \<longleftrightarrow>
     length (clip_epoch m) = 8 \<and> utf8_valid (clip_text m) \<and>
     clip_encode (clip_epoch m) (clip_seq m) (clip_text m) = Some payload"
  using clip.dec_eq_Some_iff [of payload m]
  by (cases m) (auto simp: clip_encode_layout clip_ok_def)

text \<open>
  The declared length of a clipboard payload on the wire (data layer included) is
  always within the bounds the receiver checks before it allocates.
\<close>
theorem clip_wire_bounds:
  assumes "clip_encode epoch seq text = Some payload" and "length epoch = 8"
  shows "CLIP_MIN_WIRE_LEN \<le> length payload + DATA_LAYER_OVERHEAD \<and>
    length payload + DATA_LAYER_OVERHEAD \<le> CLIP_MAX_WIRE_LEN"
proof -
  from assms have "length payload = CLIP_HEADER_LEN + length text" "text \<noteq> []" "length text \<le> CLIP_MAX_LEN"
    by (auto simp: clip_encode_layout clip_layout_def CLIP_HEADER_LEN_def split: if_splits)
  then show ?thesis
    by (cases "text", auto simp: CLIP_MIN_WIRE_LEN_def CLIP_MAX_WIRE_LEN_def)
qed

theorem clip_wire_bounds_witness:
  "let payload = clip_layout \<lparr>clip_epoch = replicate 8 7, clip_seq = 42, clip_text = ascii ''hi''\<rparr>
   in CLIP_MIN_WIRE_LEN \<le> length payload + DATA_LAYER_OVERHEAD \<and>
      length payload + DATA_LAYER_OVERHEAD \<le> CLIP_MAX_WIRE_LEN"
  unfolding Let_def
  by (rule clip_wire_bounds [of "replicate 8 7" 42 "ascii ''hi''"])
     (simp_all add: clip_encode_layout ascii_def CLIP_MAX_LEN_def)

text \<open>
  C36. Whatever order updates of up to 256 peers arrive in, the updates taken from one peer
  are exactly the ones the per-peer rule takes, independent of all the other peers, and
  within one run of an epoch their sequence numbers only grow: a late connection cannot put
  an older text of the same epoch back.
\<close>
theorem update_order_correct:
  assumes "card (fst ` set us) \<le> MAX_TRUSTED_PEERS"
  shows "updates_of p (order_run [] us) = take_newer None (updates_of p us) \<and>
    successively in_order (updates_of p (order_run [] us))"
proof -
  have "updates_of p (order_run [] us) = take_newer None (updates_of p us)"
    using order_run_refines [of "[]" "fst ` set us" us p] assms
    by (simp add: order_inv_def order_abs_def)
  with take_newer_in_order [of None "updates_of p us"] show ?thesis by simp
qed

definition sample_updates :: "(bytes \<times> bytes \<times> u64) list" where
  "sample_updates = [([1], [7], 5), ([1], [7], 4), ([2], [7], 1), ([1], [7], 6), ([1], [9], 1), ([1], [9], 1)]"

theorem update_order_correct_witness:
  "updates_of [1] (order_run [] sample_updates) = [([7], 5), ([7], 6), ([9], 1)] \<and>
   successively in_order (updates_of [1] (order_run [] sample_updates))"
proof
  have few: "card (fst ` set sample_updates) \<le> MAX_TRUSTED_PEERS"
    by (simp add: sample_updates_def MAX_TRUSTED_PEERS_def card_insert_if)
  have "take_newer None (updates_of [1] sample_updates) = [([7], 5), ([7], 6), ([9], 1)]"
    by (simp add: sample_updates_def newer_def)
  with update_order_correct [OF few, of "[1]"]
  show "updates_of [1] (order_run [] sample_updates) = [([7], 5), ([7], 6), ([9], 1)]"
    and "successively in_order (updates_of [1] (order_run [] sample_updates))" by metis+
qed

text \<open>
  The ordering memory never holds two entries for a peer and never more entries than
  there can be trusted peers, whatever updates arrive.
\<close>
theorem update_order_bounded:
  "order_inv (fold (\<lambda>(p, e, s) order. snd (order_accept order p e s)) us [])"
proof -
  have "order_inv order \<Longrightarrow> order_inv (fold (\<lambda>(p, e, s) order. snd (order_accept order p e s)) us order)"
    for order
    by (induction us arbitrary: order) (auto simp: order_accept_inv)
  then show ?thesis by (simp add: order_inv_def)
qed

text \<open>
  C37. The memory keeps only the newest epoch of a peer: once an update of a second epoch
  was taken, an update of the first epoch is taken again, even one that was already applied.
\<close>
theorem late_epoch_taken_again:
  assumes "e \<noteq> e'"
  shows "let (_, a) = order_accept order p e s;
             (_, b) = order_accept a p e' s'
         in fst (order_accept b p e s)"
proof -
  define a where "a = snd (order_accept order p e s)"
  define b where "b = snd (order_accept a p e' s')"
  obtain k where "order_find a p = Some (e, k)"
    using order_find_after [of order p e s] by (auto simp: a_def newer_def split: option.splits if_splits)
  with assms have "order_find b p = Some (e', s')"
    using order_find_after [of a p e' s'] by (simp add: b_def newer_def)
  with assms have "fst (order_accept b p e s)" by (simp add: order_accept_def)
  then show ?thesis by (simp add: a_def b_def case_prod_beta Let_def)
qed

theorem late_epoch_taken_again_witness:
  "let (_, a) = order_accept [] [1] [7] 5; (_, b) = order_accept a [1] [9] 1
   in fst (order_accept b [1] [7] 5)"
  by (rule late_epoch_taken_again) simp

end
