(* ===== verification/Ipc.thy ===== *)
theory Ipc
  imports Pairing_Code
begin

text \<open>
  The protocol between the user interface and the daemon
  (\<open>cesa_conn_system/src/ipc.rs\<close>): request and response bodies with their codecs, frames,
  the private socket directory and the client's exchange.

  A stream is what arrives on it and how it ends (\<open>in_stream\<close>); writing takes the outcome
  of each write as an argument. The metadata of the socket directory, the credentials of
  the process behind the socket and the code-signature check of the operating system are
  arguments of the exchange.
\<close>

section \<open>Constants and types\<close>

definition MAX_FRAME_LEN :: u32 where "MAX_FRAME_LEN = 72 * 1024"
definition MAX_PASSWORD_LEN :: nat where "MAX_PASSWORD_LEN = 1024"
definition MAX_LISTED_PEERS :: nat where "MAX_LISTED_PEERS = 256"
definition FINGERPRINT_LEN :: nat where "FINGERPRINT_LEN = 8"
definition MIN_NEW_PASSWORD_LEN :: nat where "MIN_NEW_PASSWORD_LEN = 12"

definition REQ_STATUS :: u8 where "REQ_STATUS = 0x01"
definition REQ_LIST_PEERS :: u8 where "REQ_LIST_PEERS = 0x04"
definition REQ_SET_AUTH_PASSWORD :: u8 where "REQ_SET_AUTH_PASSWORD = 0x05"
definition REQ_SET_DATA_PASSWORD :: u8 where "REQ_SET_DATA_PASSWORD = 0x06"
definition REQ_UNLOCK :: u8 where "REQ_UNLOCK = 0x07"
definition REQ_SET_AUTO_LOGIN :: u8 where "REQ_SET_AUTO_LOGIN = 0x08"
definition REQ_SET_SYNC :: u8 where "REQ_SET_SYNC = 0x09"
definition REQ_ADD_DEVICE :: u8 where "REQ_ADD_DEVICE = 0x0A"
definition REQ_PENDING_PAIRING :: u8 where "REQ_PENDING_PAIRING = 0x0B"
definition REQ_ANSWER_PAIRING :: u8 where "REQ_ANSWER_PAIRING = 0x0C"
definition REQ_JOIN_GROUP :: u8 where "REQ_JOIN_GROUP = 0x0D"
definition REQ_CANCEL_JOIN :: u8 where "REQ_CANCEL_JOIN = 0x0E"
definition REQ_STOP_ADD_DEVICE :: u8 where "REQ_STOP_ADD_DEVICE = 0x0F"
definition REQ_FORGET_PEER :: u8 where "REQ_FORGET_PEER = 0x10"
definition REQ_RESET_DEVICE :: u8 where "REQ_RESET_DEVICE = 0x11"
definition REQ_SET_CLIPBOARD :: u8 where "REQ_SET_CLIPBOARD = 0x12"

lemmas request_kinds =
  REQ_STATUS_def REQ_LIST_PEERS_def REQ_SET_AUTH_PASSWORD_def REQ_SET_DATA_PASSWORD_def
  REQ_UNLOCK_def REQ_SET_AUTO_LOGIN_def REQ_SET_SYNC_def REQ_ADD_DEVICE_def
  REQ_PENDING_PAIRING_def REQ_ANSWER_PAIRING_def REQ_JOIN_GROUP_def REQ_CANCEL_JOIN_def
  REQ_STOP_ADD_DEVICE_def REQ_FORGET_PEER_def REQ_RESET_DEVICE_def REQ_SET_CLIPBOARD_def

definition RESET_CONFIRM :: bytes where "RESET_CONFIRM = ascii ''CN-RESET''"

definition STATUS2_JOINING :: u8 where "STATUS2_JOINING = 0b01"
definition STATUS2_OTHER_GROUP :: u8 where "STATUS2_OTHER_GROUP = 0b10"
definition STATUS2_CLIPBOARD :: u8 where "STATUS2_CLIPBOARD = 0b100"
definition STATUS2_NO_CLIPBOARD :: u8 where "STATUS2_NO_CLIPBOARD = 0b1000"
definition STATUS2_KNOWN :: u8 where
  "STATUS2_KNOWN = or (or (or STATUS2_JOINING STATUS2_OTHER_GROUP) STATUS2_CLIPBOARD) STATUS2_NO_CLIPBOARD"

lemmas status2_bits =
  STATUS2_JOINING_def STATUS2_OTHER_GROUP_def STATUS2_CLIPBOARD_def STATUS2_NO_CLIPBOARD_def

definition RESP_OK :: u8 where "RESP_OK = 0x00"
definition RESP_ERR :: u8 where "RESP_ERR = 0x01"

datatype daemon_error =
    BadRequest | KeyDerivationFailed | Internal | WrongPassword | Locked | StorageFailed
  | NotSaved | WeakPassword | UnlockDelayed | NetworkOff | PairingExpired | AlreadyInGroup
  | JoinRunning | UnknownPeer | ClipboardUnavailable

datatype ipc_error =
    Unsupported | NoRuntimeDir | InsecureDirectory | FailedToPrepareSocket | FailedToConnect
  | UntrustedDaemon | FailedToRead | FailedToWrite | Timeout | FrameTooLarge | Malformed
  | Daemon daemon_error

primrec error_byte :: "daemon_error \<Rightarrow> u8" where
  "error_byte BadRequest = 0x01"
| "error_byte KeyDerivationFailed = 0x02"
| "error_byte Internal = 0x03"
| "error_byte WrongPassword = 0x04"
| "error_byte Locked = 0x05"
| "error_byte StorageFailed = 0x06"
| "error_byte NotSaved = 0x07"
| "error_byte WeakPassword = 0x08"
| "error_byte UnlockDelayed = 0x09"
| "error_byte NetworkOff = 0x0A"
| "error_byte PairingExpired = 0x0B"
| "error_byte AlreadyInGroup = 0x0C"
| "error_byte JoinRunning = 0x0D"
| "error_byte UnknownPeer = 0x0E"
| "error_byte ClipboardUnavailable = 0x0F"

definition daemon_error_from_u8 :: "u8 \<Rightarrow> daemon_error option" where
  "daemon_error_from_u8 v =
     (if v = 0x01 then Some BadRequest
      else if v = 0x02 then Some KeyDerivationFailed
      else if v = 0x03 then Some Internal
      else if v = 0x04 then Some WrongPassword
      else if v = 0x05 then Some Locked
      else if v = 0x06 then Some StorageFailed
      else if v = 0x07 then Some NotSaved
      else if v = 0x08 then Some WeakPassword
      else if v = 0x09 then Some UnlockDelayed
      else if v = 0x0A then Some NetworkOff
      else if v = 0x0B then Some PairingExpired
      else if v = 0x0C then Some AlreadyInGroup
      else if v = 0x0D then Some JoinRunning
      else if v = 0x0E then Some UnknownPeer
      else if v = 0x0F then Some ClipboardUnavailable
      else None)"

text \<open>A password is its bytes exactly as typed (\<open>PasswordUpdate\<close>).\<close>

type_synonym password = bytes
type_synonym fingerprint = bytes

datatype request =
    Request_Status
  | SetAuthPassword password
  | SetDataPassword password
  | ListPeers
  | Unlock password
  | SetAutoLogin bool
  | SetSync bool
  | AddDevice
  | PendingPairing
  | AnswerPairing u32 pairing_code bool
  | JoinGroup password password
  | CancelJoin
  | StopAddDevice
  | ForgetPeer fingerprint
  | ResetDevice
  | SetClipboard bool

record status =
  auth_key_set :: bool
  data_key_set :: bool
  network_running :: bool
  trusted_peers_count :: u32
  locked :: bool
  saved :: bool
  auto_login :: bool
  unlock_wait_secs :: u16
  sync_enabled :: bool
  adding_device :: bool
  pending_pairings :: u8
  joining :: bool
  other_group_nearby :: bool
  clipboard_enabled :: bool
  clipboard_unavailable :: bool

record pairing_prompt =
  prompt_id :: u32
  prompt_name :: bytes
  prompt_code :: pairing_code

datatype peer_state =
    PeerUnknown | PeerOk | AuthPasswordDiffers | DataPasswordDiffers | Unreachable

primrec state_byte :: "peer_state \<Rightarrow> u8" where
  "state_byte PeerUnknown = 0x00"
| "state_byte PeerOk = 0x01"
| "state_byte AuthPasswordDiffers = 0x02"
| "state_byte DataPasswordDiffers = 0x03"
| "state_byte Unreachable = 0x04"

definition peer_state_from_u8 :: "u8 \<Rightarrow> peer_state option" where
  "peer_state_from_u8 byte =
     (if byte = 0x00 then Some PeerUnknown
      else if byte = 0x01 then Some PeerOk
      else if byte = 0x02 then Some AuthPasswordDiffers
      else if byte = 0x03 then Some DataPasswordDiffers
      else if byte = 0x04 then Some Unreachable
      else None)"

record peer_info =
  info_fingerprint :: fingerprint
  info_name :: bytes
  info_state :: peer_state

datatype response =
    Response_Status status
  | Done
  | Peers "peer_info list"
  | Pairing "pairing_prompt option"

section \<open>Requests\<close>

definition parse_flag :: "bytes \<Rightarrow> bool option" where
  "parse_flag payload =
     (if payload = [0x00] then Some False else if payload = [0x01] then Some True else None)"

definition parse_password_update :: "bytes \<Rightarrow> password option" where
  "parse_password_update pw = (if pw = [] \<or> MAX_PASSWORD_LEN < length pw then None else Some pw)"

definition request_encode :: "request \<Rightarrow> bytes" where
  "request_encode r =
     (case r of
        Request_Status \<Rightarrow> [REQ_STATUS]
      | SetAuthPassword u \<Rightarrow> REQ_SET_AUTH_PASSWORD # u
      | SetDataPassword u \<Rightarrow> REQ_SET_DATA_PASSWORD # u
      | ListPeers \<Rightarrow> [REQ_LIST_PEERS]
      | Unlock u \<Rightarrow> REQ_UNLOCK # u
      | SetAutoLogin on \<Rightarrow> [REQ_SET_AUTO_LOGIN, of_bool on]
      | SetSync on \<Rightarrow> [REQ_SET_SYNC, of_bool on]
      | SetClipboard on \<Rightarrow> [REQ_SET_CLIPBOARD, of_bool on]
      | AddDevice \<Rightarrow> [REQ_ADD_DEVICE]
      | PendingPairing \<Rightarrow> [REQ_PENDING_PAIRING]
      | CancelJoin \<Rightarrow> [REQ_CANCEL_JOIN]
      | StopAddDevice \<Rightarrow> [REQ_STOP_ADD_DEVICE]
      | ForgetPeer fp \<Rightarrow> REQ_FORGET_PEER # fp
      | ResetDevice \<Rightarrow> REQ_RESET_DEVICE # RESET_CONFIRM
      | JoinGroup auth data \<Rightarrow>
          (let auth_len = (case u16_try_from (length auth) of Some n \<Rightarrow> n | None \<Rightarrow> - 1)
           in REQ_JOIN_GROUP # u16_to_le auth_len @ auth @ data)
      | AnswerPairing i code accept \<Rightarrow>
          REQ_ANSWER_PAIRING # u32_to_le i @ code @ [of_bool accept])"

text \<open>The two longer arms of \<open>Request::decode\<close>.\<close>

definition decode_join_group :: "bytes \<Rightarrow> request option" where
  "decode_join_group payload = do {
     (auth_len, rest) \<leftarrow> split_first_chunk 2 payload;
     let auth_len = unat (u16_from_le auth_len);
     _ \<leftarrow> ensure (\<not> length rest < auth_len);
     auth \<leftarrow> parse_password_update (take auth_len rest);
     data \<leftarrow> parse_password_update (drop auth_len rest);
     Some (JoinGroup auth data)
   }"

definition decode_answer_pairing :: "bytes \<Rightarrow> request option" where
  "decode_answer_pairing payload = do {
     (i, rest) \<leftarrow> split_first_chunk 4 payload;
     (code, accept) \<leftarrow> split_first_chunk PAIRING_CODE_LEN rest;
     _ \<leftarrow> ensure (code_is_valid code);
     accept \<leftarrow> parse_flag accept;
     Some (AnswerPairing (u32_from_le i) code accept)
   }"

definition request_decode :: "bytes \<Rightarrow> request option" where
  "request_decode body = do {
     (kind, payload) \<leftarrow> split_first body;
     if kind = REQ_STATUS \<and> payload = [] then Some Request_Status
     else if kind = REQ_LIST_PEERS \<and> payload = [] then Some ListPeers
     else if kind = REQ_SET_AUTH_PASSWORD then map_option SetAuthPassword (parse_password_update payload)
     else if kind = REQ_SET_DATA_PASSWORD then map_option SetDataPassword (parse_password_update payload)
     else if kind = REQ_UNLOCK then map_option Unlock (parse_password_update payload)
     else if kind = REQ_SET_AUTO_LOGIN then map_option SetAutoLogin (parse_flag payload)
     else if kind = REQ_SET_SYNC then map_option SetSync (parse_flag payload)
     else if kind = REQ_SET_CLIPBOARD then map_option SetClipboard (parse_flag payload)
     else if kind = REQ_ADD_DEVICE \<and> payload = [] then Some AddDevice
     else if kind = REQ_PENDING_PAIRING \<and> payload = [] then Some PendingPairing
     else if kind = REQ_CANCEL_JOIN \<and> payload = [] then Some CancelJoin
     else if kind = REQ_STOP_ADD_DEVICE \<and> payload = [] then Some StopAddDevice
     else if kind = REQ_FORGET_PEER then map_option ForgetPeer (to_array FINGERPRINT_LEN payload)
     else if kind = REQ_RESET_DEVICE \<and> payload = RESET_CONFIRM then Some ResetDevice
     else if kind = REQ_JOIN_GROUP then decode_join_group payload
     else if kind = REQ_ANSWER_PAIRING then decode_answer_pairing payload
     else None
   }"

text \<open>The requests the protocol can carry.\<close>

definition password_ok :: "password \<Rightarrow> bool" where
  "password_ok pw = (pw \<noteq> [] \<and> length pw \<le> MAX_PASSWORD_LEN)"

definition request_ok :: "request \<Rightarrow> bool" where
  "request_ok r =
     (case r of
        SetAuthPassword u \<Rightarrow> password_ok u
      | SetDataPassword u \<Rightarrow> password_ok u
      | Unlock u \<Rightarrow> password_ok u
      | JoinGroup auth data \<Rightarrow> password_ok auth \<and> password_ok data
      | ForgetPeer fp \<Rightarrow> length fp = FINGERPRINT_LEN
      | AnswerPairing i code accept \<Rightarrow> length code = PAIRING_CODE_LEN \<and> code_is_valid code
      | _ \<Rightarrow> True)"

lemma parse_password_eq_Some [simp]: "parse_password_update pw = Some u \<longleftrightarrow> u = pw \<and> password_ok pw"
  by (auto simp: parse_password_update_def password_ok_def)

lemma parse_flag_eq_Some: "parse_flag p = Some b \<longleftrightarrow> p = [of_bool b]"
  by (auto simp: parse_flag_def)

lemma parse_flag_of_bool [simp]: "parse_flag [of_bool b] = Some b"
  by (simp add: parse_flag_def)

lemma length_RESET_CONFIRM [simp]: "length RESET_CONFIRM = 8"
  by (simp add: RESET_CONFIRM_def)

lemma decode_join_group_iff:
  "decode_join_group p = Some r \<longleftrightarrow>
   (\<exists>auth data. r = JoinGroup auth data \<and> request_ok r \<and> REQ_JOIN_GROUP # p = request_encode r)"
proof
  assume "decode_join_group p = Some r"
  then obtain l rest where p: "p = l @ rest" "length l = 2" and n: "unat (u16_from_le l) \<le> length rest"
    and r: "r = JoinGroup (take (unat (u16_from_le l)) rest) (drop (unat (u16_from_le l)) rest)"
    and ok: "request_ok r"
    by (auto simp: decode_join_group_def decoder_inversion Let_def not_less request_ok_def)
  then have "u16_to_le (word_of_nat (unat (u16_from_le l))) = l" by blast
  with p n r ok show "\<exists>auth data. r = JoinGroup auth data \<and> request_ok r \<and> REQ_JOIN_GROUP # p = request_encode r"
    by (auto simp: request_encode_def request_ok_def password_ok_def u16_try_from_def MAX_PASSWORD_LEN_def)
next
  assume "\<exists>auth data. r = JoinGroup auth data \<and> request_ok r \<and> REQ_JOIN_GROUP # p = request_encode r"
  then obtain auth data where "r = JoinGroup auth data" "password_ok auth" "password_ok data"
    "p = u16_to_le (word_of_nat (length auth)) @ auth @ data" "length auth < 65536"
    by (auto simp: request_encode_def request_ok_def u16_try_from_def password_ok_def MAX_PASSWORD_LEN_def Let_def)
  then show "decode_join_group p = Some r"
    by (simp add: decode_join_group_def unat_word_of_nat_u16 Let_def parse_password_update_def password_ok_def)
qed

lemma decode_answer_pairing_iff:
  "decode_answer_pairing p = Some r \<longleftrightarrow>
   (\<exists>i code accept. r = AnswerPairing i code accept \<and> request_ok r \<and> REQ_ANSWER_PAIRING # p = request_encode r)"
proof
  assume "decode_answer_pairing p = Some r"
  then show "\<exists>i code accept. r = AnswerPairing i code accept \<and> request_ok r \<and> REQ_ANSWER_PAIRING # p = request_encode r"
    by (auto simp: decode_answer_pairing_def decoder_inversion request_ok_def request_encode_def
        parse_flag_eq_Some to_from_le)
next
  assume "\<exists>i code accept. r = AnswerPairing i code accept \<and> request_ok r \<and> REQ_ANSWER_PAIRING # p = request_encode r"
  then show "decode_answer_pairing p = Some r"
    by (auto simp del: of_bool_eq_0_iff of_bool_eq_1_iff
        simp: decode_answer_pairing_def request_ok_def request_encode_def PAIRING_CODE_LEN_def)
qed

lemma request_decode_encode: "request_ok r \<Longrightarrow> request_decode (request_encode r) = Some r"
  using decode_join_group_iff [of "tl (request_encode r)" r]
    decode_answer_pairing_iff [of "tl (request_encode r)" r]
  by (cases r)
     (simp_all add: request_decode_def request_encode_def request_ok_def request_kinds
       parse_password_update_def password_ok_def to_array_def Let_def)

lemma request_encode_decode:
  assumes "request_decode body = Some r"
  shows "request_ok r \<and> request_encode r = body"
proof -
  obtain kind payload where body: "body = kind # payload"
    using assms by (cases body) (auto simp: request_decode_def)
  show ?thesis
    using assms unfolding body
    by (auto simp: request_decode_def decode_join_group_iff decode_answer_pairing_iff
        request_encode_def request_ok_def parse_flag_eq_Some split: if_split_asm)
qed

interpretation request: strict_codec request_encode request_decode request_ok
  using request_decode_encode request_encode_decode by unfold_locales

section \<open>Responses\<close>

text \<open>\<open>while !name.is_char_boundary(end) { end = end.saturating_sub(1) }\<close>.\<close>

fun char_boundary_below :: "bytes \<Rightarrow> nat \<Rightarrow> nat" where
  "char_boundary_below name 0 = 0"
| "char_boundary_below name (Suc e) =
     (if is_char_boundary name (Suc e) then Suc e else char_boundary_below name e)"

definition short_name :: "bytes \<Rightarrow> bytes" where
  "short_name name = take (char_boundary_below name (min (length name) 255)) name"

definition name_len_byte :: "bytes \<Rightarrow> u8" where
  "name_len_byte name = (case u8_try_from (length name) of Some n \<Rightarrow> n | None \<Rightarrow> 0)"

definition status_flags :: "status \<Rightarrow> u8" where
  "status_flags s =
     or (or (or (or (or (or (or (of_bool (auth_key_set s))
       (push_bit 1 (of_bool (data_key_set s))))
       (push_bit 2 (of_bool (network_running s))))
       (push_bit 3 (of_bool (locked s))))
       (push_bit 4 (of_bool (saved s))))
       (push_bit 5 (of_bool (auto_login s))))
       (push_bit 6 (of_bool (sync_enabled s))))
       (push_bit 7 (of_bool (adding_device s)))"

definition status_flags2 :: "status \<Rightarrow> u8" where
  "status_flags2 s =
     fold (\<lambda>(_, b) flags2. or flags2 b)
       (filter fst
         [(joining s, STATUS2_JOINING),
          (other_group_nearby s, STATUS2_OTHER_GROUP),
          (clipboard_enabled s, STATUS2_CLIPBOARD),
          (clipboard_unavailable s, STATUS2_NO_CLIPBOARD)]) 0"

definition peer_info_encode :: "peer_info \<Rightarrow> bytes" where
  "peer_info_encode p =
     (let name = short_name (info_name p)
      in info_fingerprint p @ [state_byte (info_state p), name_len_byte name] @ name)"

definition response_encode :: "response \<Rightarrow> bytes" where
  "response_encode r = RESP_OK #
     (case r of
        Response_Status s \<Rightarrow>
          [status_flags s, status_flags2 s] @ u32_to_le (trusted_peers_count s)
            @ u16_to_le (unlock_wait_secs s) @ [pending_pairings s]
      | Done \<Rightarrow> []
      | Pairing None \<Rightarrow> [0x00]
      | Pairing (Some prompt) \<Rightarrow>
          (let name = short_name (prompt_name prompt)
           in 0x01 # u32_to_le (prompt_id prompt) @ prompt_code prompt @ [name_len_byte name] @ name)
      | Peers peers \<Rightarrow>
          (let peers = (if MAX_LISTED_PEERS \<le> length peers then take MAX_LISTED_PEERS peers else peers);
               count = (case u16_try_from (length peers) of Some n \<Rightarrow> n | None \<Rightarrow> - 1)
           in u16_to_le count @ concat (map peer_info_encode (take (unat count) peers))))"

definition encode_error :: "daemon_error \<Rightarrow> bytes" where
  "encode_error e = [RESP_ERR, error_byte e]"

text \<open>One round of the loop of \<open>decode_peers\<close>.\<close>

definition decode_peer_info :: "peer_info list \<Rightarrow> bytes \<Rightarrow> (peer_info \<times> bytes) option" where
  "decode_peer_info peers rest = do {
     (fingerprint, after) \<leftarrow> split_first_chunk FINGERPRINT_LEN rest;
     (state, after) \<leftarrow> split_first after;
     (name_len, after) \<leftarrow> split_first after;
     (name, rest) \<leftarrow> split_first_chunk (unat name_len) after;
     _ \<leftarrow> ensure (utf8_valid name);
     state \<leftarrow> peer_state_from_u8 state;
     Some (\<lparr>info_fingerprint = fingerprint, info_name = name, info_state = state\<rparr>, rest)
   }"

definition decode_peers :: "bytes \<Rightarrow> response option" where
  "decode_peers payload = do {
     (count, rest) \<leftarrow> split_first_chunk 2 payload;
     let count = unat (u16_from_le count);
     _ \<leftarrow> ensure (\<not> MAX_LISTED_PEERS < count);
     (peers, rest) \<leftarrow> for_collect decode_peer_info count rest [];
     then_some (rest = []) (Peers peers)
   }"

definition decode_pairing :: "bytes \<Rightarrow> response option" where
  "decode_pairing payload = do {
     (present, rest) \<leftarrow> split_first payload;
     if present = 0x00 \<and> rest = [] then Some (Pairing None)
     else if present = 0x01 then do {
       (i, rest) \<leftarrow> split_first_chunk 4 rest;
       (code, rest) \<leftarrow> split_first_chunk PAIRING_CODE_LEN rest;
       (name_len, name) \<leftarrow> split_first rest;
       _ \<leftarrow> ensure (\<not> (length name \<noteq> unat name_len \<or> \<not> code_is_valid code));
       _ \<leftarrow> ensure (utf8_valid name);
       _ \<leftarrow> ensure (\<not> has_control name);
       Some (Pairing (Some \<lparr>prompt_id = u32_from_le i, prompt_name = name, prompt_code = code\<rparr>))
     }
     else None
   }"

fun decode_status :: "bytes \<Rightarrow> ipc_error + response" where
  "decode_status [flags, flags2, a, b, c, d, w0, w1, pending] =
     (if and flags2 (not STATUS2_KNOWN) = 0 then
        Inr (Response_Status
          \<lparr>auth_key_set = and flags 0b001 \<noteq> 0,
           data_key_set = and flags 0b010 \<noteq> 0,
           network_running = and flags 0b100 \<noteq> 0,
           trusted_peers_count = u32_from_le [a, b, c, d],
           locked = and flags 0b1000 \<noteq> 0,
           saved = and flags 0b10000 \<noteq> 0,
           auto_login = and flags 0b100000 \<noteq> 0,
           unlock_wait_secs = u16_from_le [w0, w1],
           sync_enabled = and flags 0b1000000 \<noteq> 0,
           adding_device = and flags 0b10000000 \<noteq> 0,
           pending_pairings = pending,
           joining = and flags2 STATUS2_JOINING \<noteq> 0,
           other_group_nearby = and flags2 STATUS2_OTHER_GROUP \<noteq> 0,
           clipboard_enabled = and flags2 STATUS2_CLIPBOARD \<noteq> 0,
           clipboard_unavailable = and flags2 STATUS2_NO_CLIPBOARD \<noteq> 0\<rparr>)
      else Inl Malformed)"
| "decode_status _ = Inl Malformed"

definition response_decode :: "request \<Rightarrow> bytes \<Rightarrow> ipc_error + response" where
  "response_decode req body =
     (case body of
        [] \<Rightarrow> Inl Malformed
      | resp_status # payload \<Rightarrow>
          if resp_status = RESP_ERR then
            (case payload of
               [code] \<Rightarrow>
                 (case daemon_error_from_u8 code of
                    None \<Rightarrow> Inl Malformed
                  | Some e \<Rightarrow> Inl (Daemon e))
             | _ \<Rightarrow> Inl Malformed)
          else if resp_status \<noteq> RESP_OK then Inl Malformed
          else
            (case req of
               Request_Status \<Rightarrow> decode_status payload
             | ListPeers \<Rightarrow> ok_or Malformed (decode_peers payload)
             | PendingPairing \<Rightarrow> ok_or Malformed (decode_pairing payload)
             | _ \<Rightarrow> if payload = [] then Inr Done else Inl Malformed))"

subsection \<open>Names are cut on a character boundary\<close>

lemma char_boundary_below_le: "char_boundary_below name e \<le> e"
  by (induction name e rule: char_boundary_below.induct) auto

lemma char_boundary_below_boundary: "is_char_boundary name (char_boundary_below name e)"
  by (induction name e rule: char_boundary_below.induct) (auto simp: is_char_boundary_def)

lemma char_boundary_below_greatest:
  "is_char_boundary name j \<Longrightarrow> j \<le> e \<Longrightarrow> j \<le> char_boundary_below name e"
  by (induction name e rule: char_boundary_below.induct) (auto simp: le_Suc_eq)

lemma length_short_name: "length (short_name name) \<le> 255"
  using char_boundary_below_le [of name "min (length name) 255"] by (simp add: short_name_def)

lemma short_name_id: "length name \<le> 255 \<Longrightarrow> short_name name = name"
proof -
  assume "length name \<le> 255"
  moreover have "is_char_boundary name (length name)" by (simp add: is_char_boundary_def)
  ultimately have "char_boundary_below name (min (length name) 255) = length name"
    using char_boundary_below_greatest [of name "length name" "length name"]
      char_boundary_below_le [of name "length name"] by (simp add: min_absorb1)
  then show ?thesis by (simp add: short_name_def)
qed

lemma short_name_valid: "utf8_valid name \<Longrightarrow> utf8_valid (short_name name)"
  unfolding short_name_def
  by (rule utf8_valid_take)
     (use char_boundary_below_le [of name "min (length name) 255"] char_boundary_below_boundary in auto)

lemma short_name_control: "utf8_valid name \<Longrightarrow> \<not> has_control name \<Longrightarrow> \<not> has_control (short_name name)"
  using has_control_take char_boundary_below_boundary char_boundary_below_le
    [of name "min (length name) 255"]
  by (fastforce simp: short_name_def)

lemma short_name_long:
  assumes "utf8_valid name" "255 < length name"
  shows "252 \<le> length (short_name name)"
proof -
  from utf8_boundary_near [OF assms(1), of 255] assms(2)
  obtain j where "j \<le> 255" "255 \<le> j + 3" "is_char_boundary name j" by auto
  then show ?thesis
    using char_boundary_below_greatest [of name j 255] char_boundary_below_le [of name 255] assms(2)
    by (simp add: short_name_def min_absorb2)
qed

lemma name_len_byte_eq: "length name \<le> 255 \<Longrightarrow> unat (name_len_byte name) = length name"
  by (simp add: name_len_byte_def u8_try_from_def unat_word_of_nat_u8)

subsection \<open>Status flags\<close>

lemma bit_test: "and w (push_bit k 1) \<noteq> 0 \<longleftrightarrow> bit (w :: u8) k"
  by (simp add: bit_iff_and_push_bit_not_eq_0)

lemma flag_tests:
  "and (w :: u8) 1 \<noteq> 0 \<longleftrightarrow> bit w 0" "and w 2 \<noteq> 0 \<longleftrightarrow> bit w 1" "and w 4 \<noteq> 0 \<longleftrightarrow> bit w 2"
  "and w 8 \<noteq> 0 \<longleftrightarrow> bit w 3" "and w 16 \<noteq> 0 \<longleftrightarrow> bit w 4" "and w 32 \<noteq> 0 \<longleftrightarrow> bit w 5"
  "and w 64 \<noteq> 0 \<longleftrightarrow> bit w 6" "and w 128 \<noteq> 0 \<longleftrightarrow> bit w 7"
  using bit_test [of w 0] bit_test [of w 1] bit_test [of w 2] bit_test [of w 3] bit_test [of w 4]
    bit_test [of w 5] bit_test [of w 6] bit_test [of w 7]
  by (simp_all add: push_bit_eq_mult)

lemma bit_of_bool_u8: "bit (of_bool b :: u8) n \<longleftrightarrow> n = 0 \<and> b"
  by (cases b) (simp_all add: bit_simps)

lemma bit_shifted_bool: "n < 8 \<Longrightarrow> bit (push_bit k (of_bool b) :: u8) n \<longleftrightarrow> n = k \<and> b"
  by (auto simp: bit_simps bit_of_bool_u8)

lemma bit_status_flags:
  "bit (status_flags s) n \<longleftrightarrow>
     n < 8 \<and> [auth_key_set s, data_key_set s, network_running s, locked s, saved s, auto_login s,
             sync_enabled s, adding_device s] ! n"
proof (cases "n < 8")
  case True
  then have "n \<in> {0, 1, 2, 3, 4, 5, 6, 7}" by auto
  then show ?thesis
    by (elim insertE emptyE)
       (simp_all add: status_flags_def bit_or_iff bit_of_bool_u8 bit_shifted_bool)
next
  case False
  then show ?thesis using impossible_bit [of n "status_flags s"] by (auto simp: not_less)
qed

lemma bit_status_flags2:
  "bit (status_flags2 s) n \<longleftrightarrow>
     n < 4 \<and> [joining s, other_group_nearby s, clipboard_enabled s, clipboard_unavailable s] ! n"
proof (cases "n < 8")
  case True
  then have "n \<in> {0, 1, 2, 3, 4, 5, 6, 7}" by auto
  then show ?thesis
    by (cases "joining s"; cases "other_group_nearby s"; cases "clipboard_enabled s";
        cases "clipboard_unavailable s") (auto simp: status_flags2_def status2_bits)
next
  case False
  then show ?thesis using impossible_bit [of n "status_flags2 s"] by (auto simp: not_less)
qed

lemma STATUS2_KNOWN_mask: "STATUS2_KNOWN = mask 4"
  by (simp add: STATUS2_KNOWN_def status2_bits mask_eq_exp_minus_1)

lemma unknown_bits: "and (w :: u8) (not STATUS2_KNOWN) = 0 \<longleftrightarrow> (\<forall>n. bit w n \<longrightarrow> n < 4)"
proof -
  have len: "n < 8" if "bit w n" for n using bit_imp_le_length [OF that] by simp
  have "and w (not STATUS2_KNOWN) = 0 \<longleftrightarrow> (\<forall>n. \<not> bit (and w (not STATUS2_KNOWN)) n)"
    by (rule iffI) (simp, rule bit_word_eqI, simp)
  also have "\<dots> \<longleftrightarrow> (\<forall>n. bit w n \<longrightarrow> n < 4)"
    using len by (auto simp: STATUS2_KNOWN_mask bit_and_iff bit_not_iff bit_mask_iff)
  finally show ?thesis .
qed

lemma status_decode_encode: "decode_status (tl (response_encode (Response_Status s))) = Inr (Response_Status s)"
proof -
  obtain a b c d where p: "u32_to_le (trusted_peers_count s) = [a, b, c, d]"
    using length_2_4(2) [OF length_to_le(2)] by blast
  obtain w v where u: "u16_to_le (unlock_wait_secs s) = [w, v]"
    using length_2_4(1) [OF length_to_le(1)] by blast
  have "and (status_flags2 s) (not STATUS2_KNOWN) = 0" by (simp add: unknown_bits bit_status_flags2)
  then show ?thesis
    using p u from_to_le(2) [of "trusted_peers_count s"] from_to_le(1) [of "unlock_wait_secs s"]
    by (cases s) (simp add: response_encode_def flag_tests status2_bits bit_status_flags bit_status_flags2)
qed

lemma status_encode_decode:
  assumes "decode_status payload = Inr r"
  shows "\<exists>s. r = Response_Status s \<and> response_encode r = RESP_OK # payload"
proof -
  obtain f g a b c d w v p where payload: "payload = [f, g, a, b, c, d, w, v, p]"
    and known: "and g (not STATUS2_KNOWN) = 0"
    using assms by (auto elim!: decode_status.elims split: if_splits)
  obtain s where r: "r = Response_Status s" and
    s: "s = \<lparr>auth_key_set = bit f 0, data_key_set = bit f 1, network_running = bit f 2,
      trusted_peers_count = u32_from_le [a, b, c, d], locked = bit f 3, saved = bit f 4,
      auto_login = bit f 5, unlock_wait_secs = u16_from_le [w, v], sync_enabled = bit f 6,
      adding_device = bit f 7, pending_pairings = p, joining = bit g 0,
      other_group_nearby = bit g 1, clipboard_enabled = bit g 2, clipboard_unavailable = bit g 3\<rparr>"
    using assms known by (auto simp: payload flag_tests status2_bits)
  have "bit (status_flags s) n \<longleftrightarrow> bit f n" if "n < 8" for n
  proof -
    from that have "n \<in> {0, 1, 2, 3, 4, 5, 6, 7}" by auto
    then show ?thesis unfolding bit_status_flags by (elim insertE emptyE) (simp_all add: s)
  qed
  then have "status_flags s = f" by (simp add: bit_eq_iff)
  moreover have "bit (status_flags2 s) n \<longleftrightarrow> bit g n" for n
  proof (cases "n < 4")
    case True
    then have "n \<in> {0, 1, 2, 3}" by auto
    then show ?thesis unfolding bit_status_flags2 by (elim insertE emptyE) (simp_all add: s)
  next
    case False
    then show ?thesis using known by (auto simp: unknown_bits bit_status_flags2)
  qed
  then have "status_flags2 s = g" by (simp add: bit_eq_iff)
  ultimately show ?thesis
    by (simp add: r response_encode_def payload s to_from_le)
qed

subsection \<open>The response codec\<close>

definition peer_info_ok :: "peer_info \<Rightarrow> bool" where
  "peer_info_ok p = (length (info_fingerprint p) = FINGERPRINT_LEN \<and> utf8_valid (info_name p)
     \<and> length (info_name p) \<le> 255)"

definition prompt_ok :: "pairing_prompt \<Rightarrow> bool" where
  "prompt_ok p = (length (prompt_code p) = PAIRING_CODE_LEN \<and> code_is_valid (prompt_code p)
     \<and> utf8_valid (prompt_name p) \<and> \<not> has_control (prompt_name p) \<and> length (prompt_name p) \<le> 255)"

text \<open>The responses that answer a request of a kind.\<close>

definition response_ok :: "request \<Rightarrow> response \<Rightarrow> bool" where
  "response_ok req r =
     (case req of
        Request_Status \<Rightarrow> (case r of Response_Status s \<Rightarrow> True | _ \<Rightarrow> False)
      | ListPeers \<Rightarrow>
          (case r of Peers ps \<Rightarrow> length ps \<le> MAX_LISTED_PEERS \<and> list_all peer_info_ok ps | _ \<Rightarrow> False)
      | PendingPairing \<Rightarrow>
          (case r of Pairing None \<Rightarrow> True | Pairing (Some p) \<Rightarrow> prompt_ok p | _ \<Rightarrow> False)
      | _ \<Rightarrow> r = Done)"

lemma peer_state_from_eq_Some: "peer_state_from_u8 b = Some st \<longleftrightarrow> b = state_byte st"
  by (cases st) (auto simp: peer_state_from_u8_def)

lemma peer_state_from_byte [simp]: "peer_state_from_u8 (state_byte st) = Some st"
  by (simp add: peer_state_from_eq_Some)

lemma daemon_error_from_eq_Some: "daemon_error_from_u8 b = Some e \<longleftrightarrow> b = error_byte e"
  by (cases e) (auto simp: daemon_error_from_u8_def)

interpretation peer_list: item_codec peer_info_encode decode_peer_info "\<lambda>_. peer_info_ok"
proof
  show "decode_peer_info out (peer_info_encode p @ r) = Some (p, r)" if "peer_info_ok p" for out p r
    using that
    by (simp add: decode_peer_info_def peer_info_encode_def peer_info_ok_def Let_def short_name_id
        FINGERPRINT_LEN_def name_len_byte_eq peer_state_from_eq_Some)
  show "peer_info_ok p \<and> bs = peer_info_encode p @ r" if dec: "decode_peer_info out bs = Some (p, r)"
    for out bs p r
  proof -
    obtain fp st n name where "bs = fp @ state_byte st # n # name @ r" "length fp = FINGERPRINT_LEN"
      "length name = unat n" "utf8_valid name"
      "p = \<lparr>info_fingerprint = fp, info_name = name, info_state = st\<rparr>"
      using dec by (auto simp: decode_peer_info_def decoder_inversion peer_state_from_eq_Some)
    moreover have "length name \<le> 255" using unat_u8_less [of n] calculation(3) by linarith
    moreover from this calculation(3) have "name_len_byte name = n"
      by (simp add: name_len_byte_def u8_try_from_def)
    ultimately show ?thesis
      by (simp add: peer_info_ok_def peer_info_encode_def short_name_id Let_def)
  qed
qed

lemma response_encode_Peers:
  "length ps \<le> MAX_LISTED_PEERS \<Longrightarrow>
   response_encode (Peers ps) =
     RESP_OK # u16_to_le (word_of_nat (length ps)) @ concat (map peer_info_encode ps)"
  by (auto simp: response_encode_def MAX_LISTED_PEERS_def u16_try_from_def unat_word_of_nat_u16 Let_def)

lemma decode_peers_iff:
  "decode_peers payload = Some r \<longleftrightarrow> response_ok ListPeers r \<and> RESP_OK # payload = response_encode r"
proof
  assume "decode_peers payload = Some r"
  then obtain c rest ps where c: "payload = c @ rest" "length c = 2"
    and n: "unat (u16_from_le c) \<le> MAX_LISTED_PEERS" and r: "r = Peers ps"
    and col: "for_collect decode_peer_info (unat (u16_from_le c)) rest [] = Some (ps, [])"
    by (auto simp: decode_peers_def decoder_inversion Let_def not_less)
  from peer_list.enc_collect [OF col] have "length ps = unat (u16_from_le c)" "list_all peer_info_ok ps"
    "rest = concat (map peer_info_encode ps)" by (auto simp: all_fit_pointwise)
  moreover from this c have "u16_to_le (word_of_nat (length ps)) = c" by (simp add: to_from_le)
  ultimately show "response_ok ListPeers r \<and> RESP_OK # payload = response_encode r"
    using c n r by (simp add: response_ok_def response_encode_Peers)
next
  assume "response_ok ListPeers r \<and> RESP_OK # payload = response_encode r"
  then obtain ps where ps: "r = Peers ps" "length ps \<le> MAX_LISTED_PEERS" "list_all peer_info_ok ps"
    "payload = u16_to_le (word_of_nat (length ps)) @ concat (map peer_info_encode ps)"
    by (auto simp: response_ok_def response_encode_Peers split: response.splits)
  moreover from this have "unat (word_of_nat (length ps) :: u16) = length ps"
    by (simp add: unat_word_of_nat_u16 MAX_LISTED_PEERS_def)
  ultimately show "decode_peers payload = Some r"
    using peer_list.collect_enc [of "[]" ps "[]"] by (simp add: decode_peers_def all_fit_pointwise Let_def)
qed

lemma decode_pairing_iff:
  "decode_pairing payload = Some r \<longleftrightarrow>
   response_ok PendingPairing r \<and> RESP_OK # payload = response_encode r"
proof
  assume "decode_pairing payload = Some r"
  then consider "payload = [0]" "r = Pairing None"
    | i code n name where "payload = 1 # i @ code @ n # name" "length i = 4"
      "length code = PAIRING_CODE_LEN" "length name = unat n" "code_is_valid code" "utf8_valid name"
      "\<not> has_control name"
      "r = Pairing (Some \<lparr>prompt_id = u32_from_le i, prompt_name = name, prompt_code = code\<rparr>)"
    by (auto simp: decode_pairing_def decoder_inversion split: if_splits)
  then show "response_ok PendingPairing r \<and> RESP_OK # payload = response_encode r"
  proof cases
    case 2
    then have "length name \<le> 255" using unat_u8_less [of n] by linarith
    moreover from this 2(4) have "name_len_byte name = n" by (simp add: name_len_byte_def u8_try_from_def)
    ultimately show ?thesis
      using 2 by (simp add: response_ok_def prompt_ok_def response_encode_def short_name_id to_from_le Let_def)
  qed (simp add: response_ok_def response_encode_def)
next
  assume "response_ok PendingPairing r \<and> RESP_OK # payload = response_encode r"
  then show "decode_pairing payload = Some r"
    by (auto simp: decode_pairing_def response_ok_def response_encode_def prompt_ok_def short_name_id
        name_len_byte_eq PAIRING_CODE_LEN_def Let_def split: response.splits option.splits)
qed

text \<open>\<open>Response::decode\<close> for one kind of request, with the error dropped.\<close>

definition response_of :: "request \<Rightarrow> bytes \<Rightarrow> response option" where
  "response_of req body = (case response_decode req body of Inl _ \<Rightarrow> None | Inr r \<Rightarrow> Some r)"

lemma response_decode_ok:
  "response_decode req (RESP_OK # payload) =
     (case req of
        Request_Status \<Rightarrow> decode_status payload
      | ListPeers \<Rightarrow> ok_or Malformed (decode_peers payload)
      | PendingPairing \<Rightarrow> ok_or Malformed (decode_pairing payload)
      | _ \<Rightarrow> if payload = [] then Inr Done else Inl Malformed)"
  by (simp add: response_decode_def RESP_OK_def RESP_ERR_def)

lemma response_decode_iff:
  "response_decode req (RESP_OK # payload) = Inr r \<longleftrightarrow>
   response_ok req r \<and> RESP_OK # payload = response_encode r"
proof -
  have "decode_status payload = Inr r \<longleftrightarrow> response_ok Request_Status r \<and> RESP_OK # payload = response_encode r"
    using status_decode_encode status_encode_decode [of payload r]
    by (auto simp: response_ok_def split: response.splits)
       (metis list.sel(3))
  then show ?thesis
    by (cases req)
       (auto simp: response_decode_ok decode_peers_iff decode_pairing_iff, 
        auto simp: response_ok_def response_encode_def)
qed

lemma response_decode_head: "response_decode req body = Inr r \<Longrightarrow> \<exists>payload. body = RESP_OK # payload"
  by (auto simp: response_decode_def split: list.splits option.splits if_splits)

lemma response_encode_head: "\<exists>payload. response_encode r = RESP_OK # payload"
  by (simp add: response_encode_def)

interpretation response: strict_codec response_encode "response_of req" "response_ok req" for req
proof
  show "response_of req (response_encode r) = Some r" if "response_ok req r" for r
  proof -
    obtain payload where "response_encode r = RESP_OK # payload" using response_encode_head by blast
    with that have "response_decode req (response_encode r) = Inr r" by (simp add: response_decode_iff)
    then show ?thesis by (simp add: response_of_def)
  qed
  show "response_ok req r \<and> response_encode r = body" if "response_of req body = Some r" for body r
    using that response_decode_head [of req body r] response_decode_iff [of req _ r]
    by (auto simp: response_of_def split: sum.splits)
qed

text \<open>What the encoder cuts before it sends: names to 255 bytes, lists to 256 entries.\<close>

primrec response_cut :: "response \<Rightarrow> response" where
  "response_cut (Response_Status s) = Response_Status s"
| "response_cut Done = Done"
| "response_cut (Peers ps) =
     Peers (map (\<lambda>p. p\<lparr>info_name := short_name (info_name p)\<rparr>) (take MAX_LISTED_PEERS ps))"
| "response_cut (Pairing p) = Pairing (map_option (\<lambda>p. p\<lparr>prompt_name := short_name (prompt_name p)\<rparr>) p)"

lemma response_encode_cut: "response_encode (response_cut r) = response_encode r"
proof -
  have name: "short_name (short_name n) = short_name n" for n
    by (rule short_name_id [OF length_short_name])
  have peer: "peer_info_encode (p\<lparr>info_name := short_name (info_name p)\<rparr>) = peer_info_encode p" for p
    by (simp add: peer_info_encode_def name)
  show ?thesis
  proof (cases r)
    case (Peers ps)
    then show ?thesis
      by (auto simp: response_encode_def MAX_LISTED_PEERS_def u16_try_from_def Let_def take_map
          comp_def peer min_def)
  next
    case (Pairing p)
    then show ?thesis by (cases p) (simp_all add: response_encode_def name Let_def)
  qed simp_all
qed

section \<open>Frames\<close>

text \<open>What arrives on a stream and how it ends: the peer closes it, or it stays silent until
  the read times out.\<close>

datatype ending = Closed | Stalled

record in_stream =
  incoming :: bytes
  ending :: ending

definition read_exact :: "nat \<Rightarrow> in_stream \<Rightarrow> ipc_error + bytes \<times> in_stream" where
  "read_exact n s =
     (if n \<le> length (incoming s)
      then Inr (take n (incoming s), s\<lparr>incoming := drop n (incoming s)\<rparr>)
      else Inl (case ending s of Closed \<Rightarrow> FailedToRead | Stalled \<Rightarrow> Timeout))"

definition read_frame :: "in_stream \<Rightarrow> ipc_error + bytes \<times> in_stream" where
  "read_frame s =
     (case read_exact 4 s of
        Inl e \<Rightarrow> Inl e
      | Inr (len, s) \<Rightarrow>
          (let len = u32_from_le len
           in if len = 0 \<or> MAX_FRAME_LEN < len then Inl FrameTooLarge
              else read_exact (unat len) s))"

text \<open>The outcome of each of the three steps of \<open>write_frame\<close> (length, body, flush). The
  result carries the bytes that were handed to the stream.\<close>

datatype write_outcome = Written | WriteFailed | WriteTimedOut

definition write_step :: "write_outcome \<Rightarrow> ipc_error + unit" where
  "write_step w = (case w of Written \<Rightarrow> Inr () | WriteFailed \<Rightarrow> Inl FailedToWrite | WriteTimedOut \<Rightarrow> Inl Timeout)"

definition write_frame :: "(nat \<Rightarrow> write_outcome) \<Rightarrow> bytes \<Rightarrow> bytes \<times> (ipc_error + unit)" where
  "write_frame w body =
     (case u32_try_from (length body) of
        None \<Rightarrow> ([], Inl FrameTooLarge)
      | Some len \<Rightarrow>
          if len = 0 \<or> MAX_FRAME_LEN < len then ([], Inl FrameTooLarge)
          else
            (case write_step (w 0) of
               Inl e \<Rightarrow> (u32_to_le len, Inl e)
             | Inr _ \<Rightarrow>
                 (case write_step (w 1) of
                    Inl e \<Rightarrow> (u32_to_le len @ body, Inl e)
                  | Inr _ \<Rightarrow> (u32_to_le len @ body, write_step (w 2)))))"

definition frame_ok :: "bytes \<Rightarrow> bool" where
  "frame_ok body = (0 < length body \<and> length body \<le> unat MAX_FRAME_LEN)"

lemma MAX_FRAME_LEN_nat: "unat MAX_FRAME_LEN = 73728"
  by (simp add: MAX_FRAME_LEN_def)

lemma write_frame_ok:
  "(\<And>i. w i = Written) \<Longrightarrow> frame_ok body \<Longrightarrow>
   write_frame w body = (u32_to_le (word_of_nat (length body)) @ body, Inr ())"
  by (auto simp: write_frame_def frame_ok_def u32_try_from_def write_step_def MAX_FRAME_LEN_nat
      word_less_nat_alt unat_word_of_nat_u32 word_unat_eq_iff)

lemma write_frame_refuses: "\<not> frame_ok body \<Longrightarrow> write_frame w body = ([], Inl FrameTooLarge)"
  by (auto simp: write_frame_def frame_ok_def u32_try_from_def MAX_FRAME_LEN_nat
      word_less_nat_alt unat_word_of_nat_u32 word_unat_eq_iff)

lemma read_frame_frame:
  "frame_ok body \<Longrightarrow>
   read_frame \<lparr>incoming = u32_to_le (word_of_nat (length body)) @ body @ rest, ending = e\<rparr> =
   Inr (body, \<lparr>incoming = rest, ending = e\<rparr>)"
  by (auto simp: read_frame_def read_exact_def frame_ok_def MAX_FRAME_LEN_nat
      word_less_nat_alt unat_word_of_nat_u32 word_unat_eq_iff Let_def)

lemma read_frame_bounded: "read_frame s = Inr (body, s') \<Longrightarrow> frame_ok body"
  by (auto simp: read_frame_def read_exact_def frame_ok_def Let_def word_less_nat_alt
      word_unat_eq_iff split: sum.splits if_splits)

lemma length_request_encode: "request_ok r \<Longrightarrow> frame_ok (request_encode r)"
  by (cases r)
     (auto simp: request_encode_def request_ok_def frame_ok_def MAX_FRAME_LEN_nat password_ok_def
       MAX_PASSWORD_LEN_def FINGERPRINT_LEN_def PAIRING_CODE_LEN_def Let_def)

lemma length_concat_le: "(\<And>x. x \<in> set xs \<Longrightarrow> length (f x) \<le> k) \<Longrightarrow> length (concat (map f xs)) \<le> k * length xs"
proof (induction xs)
  case (Cons x xs)
  have "length (f x) \<le> k" using Cons.prems by simp
  moreover have "length (concat (map f xs)) \<le> k * length xs" using Cons by simp
  ultimately show ?case by simp
qed simp

definition response_fits :: "response \<Rightarrow> bool" where
  "response_fits r =
     (case r of
        Peers ps \<Rightarrow> list_all (\<lambda>p. length (info_fingerprint p) = FINGERPRINT_LEN) ps
      | Pairing (Some p) \<Rightarrow> length (prompt_code p) = PAIRING_CODE_LEN
      | _ \<Rightarrow> True)"

lemma length_peer_info_encode:
  "length (info_fingerprint p) = FINGERPRINT_LEN \<Longrightarrow> length (peer_info_encode p) \<le> 265"
  using length_short_name [of "info_name p"] by (simp add: peer_info_encode_def FINGERPRINT_LEN_def Let_def)

lemma length_response_encode:
  assumes "response_fits r"
  shows "frame_ok (response_encode r)"
proof (cases r)
  case (Peers ps)
  let ?qs = "take MAX_LISTED_PEERS ps"
  have "response_encode r = RESP_OK # u16_to_le (word_of_nat (length ?qs)) @ concat (map peer_info_encode ?qs)"
    using response_encode_Peers [of ?qs] Peers
    by (auto simp: response_encode_def MAX_LISTED_PEERS_def u16_try_from_def Let_def min_def)
  moreover have "length (concat (map peer_info_encode ?qs)) \<le> 265 * length ?qs"
    by (rule length_concat_le, rule length_peer_info_encode)
       (use assms Peers in \<open>auto simp: response_fits_def list_all_iff dest: in_set_takeD\<close>)
  moreover have "265 * length ?qs \<le> 265 * 256" by (simp add: MAX_LISTED_PEERS_def)
  ultimately show ?thesis by (simp add: frame_ok_def MAX_FRAME_LEN_nat del: length_take length_concat)
next
  case (Pairing p)
  then show ?thesis
    using assms length_short_name [of "prompt_name (the p)"]
    by (auto simp: frame_ok_def response_encode_def MAX_FRAME_LEN_nat response_fits_def
        PAIRING_CODE_LEN_def Let_def split: option.splits)
qed (auto simp: frame_ok_def response_encode_def MAX_FRAME_LEN_nat)

section \<open>The socket directory and the exchange\<close>

text \<open>The parts of \<open>symlink_metadata\<close> that are looked at.\<close>

record metadata =
  meta_is_dir :: bool
  meta_uid :: u32
  meta_mode :: u32

definition check_private_dir :: "u32 \<Rightarrow> metadata option \<Rightarrow> ipc_error + unit" where
  "check_private_dir euid meta =
     (case meta of
        None \<Rightarrow> Inl FailedToPrepareSocket
      | Some m \<Rightarrow>
          if \<not> meta_is_dir m \<or> meta_uid m \<noteq> euid \<or> and (meta_mode m) 0x3F \<noteq> 0
          then Inl InsecureDirectory
          else Inr ())"

text \<open>\<open>DirBuilder::create\<close> either makes the directory, finds it there, or fails; the
  metadata are read after it.\<close>

datatype created = Created | AlreadyExists | CreateFailed

definition prepare_socket_dir :: "created \<Rightarrow> u32 \<Rightarrow> metadata option \<Rightarrow> string \<Rightarrow> ipc_error + string" where
  "prepare_socket_dir create euid meta base =
     (if create = CreateFailed then Inl FailedToPrepareSocket
      else
        (case check_private_dir euid meta of
           Inl e \<Rightarrow> Inl e
         | Inr _ \<Rightarrow> Inr (base @ ''/cesaconn/daemon.sock'')))"

datatype connected = Connected | ConnectRefused | ConnectTimedOut

record client_env =
  parent_dir :: "metadata option option"
  client_euid :: u32
  connecting :: connected
  daemon_uid :: "u32 option"
  signature_ok :: "string \<Rightarrow> bool"
  writes :: "nat \<Rightarrow> write_outcome"
  answer_to :: "bytes \<Rightarrow> in_stream"

text \<open>\<open>request_at_checked\<close>, with the bytes that went to the daemon. \<open>parent_dir\<close> is \<open>None\<close>
  for a path without a parent.\<close>

definition request_at_checked :: "client_env \<Rightarrow> request \<Rightarrow> string option \<Rightarrow> bytes \<times> (ipc_error + response)" where
  "request_at_checked env request daemon_requirement =
     (case parent_dir env of
        None \<Rightarrow> ([], Inl FailedToPrepareSocket)
      | Some meta \<Rightarrow>
     (case check_private_dir (client_euid env) meta of
        Inl e \<Rightarrow> ([], Inl e)
      | Inr _ \<Rightarrow>
     (case connecting env of
        ConnectTimedOut \<Rightarrow> ([], Inl Timeout)
      | ConnectRefused \<Rightarrow> ([], Inl FailedToConnect)
      | Connected \<Rightarrow>
     (case daemon_uid env of
        None \<Rightarrow> ([], Inl UntrustedDaemon)
      | Some uid \<Rightarrow>
          if uid \<noteq> client_euid env then ([], Inl UntrustedDaemon)
          else if (case daemon_requirement of None \<Rightarrow> False | Some req \<Rightarrow> \<not> signature_ok env req)
          then ([], Inl UntrustedDaemon)
          else
            (case write_frame (writes env) (request_encode request) of
               (sent, Inl e) \<Rightarrow> (sent, Inl e)
             | (sent, Inr _) \<Rightarrow>
                 (case read_frame (answer_to env sent) of
                    Inl e \<Rightarrow> (sent, Inl e)
                  | Inr (body, _) \<Rightarrow> (sent, response_decode request body)))))))"

section \<open>Properties\<close>

text \<open>
  C25. The request codec is a bijection between the requests the protocol allows and the
  bodies the daemon accepts: every allowed request survives, and every byte string the daemon
  accepts is the encoding of an allowed request. In particular nothing but the eight fixed
  bytes decodes as a reset, and the retired kinds 2 and 3 are refused.
\<close>
theorem request_codec_strict:
  "request_decode body = Some r \<longleftrightarrow> request_ok r \<and> body = request_encode r"
  by (rule request.dec_eq_Some_iff)

text \<open>
  For every kind of request, the answers the client accepts are exactly the encodings
  of well-formed answers of that kind; two different bodies never give the same answer.
\<close>
theorem response_codec_strict:
  "response_decode req body = Inr r \<longleftrightarrow> response_ok req r \<and> body = response_encode r"
  using response.dec_eq_Some_iff [of req body r]
  by (auto simp: response_of_def split: sum.splits)

text \<open>
  An error the daemon reports reaches the client unchanged, whatever was asked, and no
  successful answer is ever mistaken for an error.
\<close>
theorem error_answer_roundtrip:
  "response_decode req (encode_error e) = Inl (Daemon e) \<and>
   response_decode req (response_encode r) \<noteq> Inl (Daemon e)"
proof
  show "response_decode req (encode_error e) = Inl (Daemon e)"
    using daemon_error_from_eq_Some [of "error_byte e" e]
    by (simp add: response_decode_def encode_error_def)
  obtain payload where p: "response_encode r = RESP_OK # payload" using response_encode_head by blast
  have "decode_status payload \<noteq> Inl (Daemon e)"
    by (auto elim!: decode_status.elims split: if_splits)
  then show "response_decode req (response_encode r) \<noteq> Inl (Daemon e)"
    unfolding p response_decode_ok by (cases req) (auto simp: ok_or_def split: option.splits)
qed

text \<open>
  A name is cut to at most 255 bytes without breaking a character: the result is a
  prefix of the name, still valid UTF-8, and at most three bytes shorter than the limit
  when anything was cut at all.
\<close>
theorem short_name_correct:
  assumes "utf8_valid name"
  shows "length (short_name name) \<le> 255 \<and> utf8_valid (short_name name) \<and>
    short_name name = take (length (short_name name)) name \<and>
    (short_name name = name \<or> 252 \<le> length (short_name name))"
proof (intro conjI)
  show "short_name name = take (length (short_name name)) name"
    by (simp add: short_name_def min_def)
  show "short_name name = name \<or> 252 \<le> length (short_name name)"
    using short_name_long [OF assms] short_name_id by fastforce
qed (use assms length_short_name short_name_valid in auto)

text \<open>A name of 86 euro signs (three bytes each, 258 bytes) is cut to 85 of them.\<close>

definition euro_name :: bytes where
  "euro_name = concat (replicate 86 [0xE2, 0x82, 0xAC])"

lemma utf8_valid_euros: "utf8_valid (concat (replicate n [0xE2, 0x82, 0xAC]))"
  by (induction n) (simp_all add: utf8_valid_step is_cont_def)

theorem short_name_correct_witness:
  "length (short_name euro_name) \<le> 255 \<and> utf8_valid (short_name euro_name) \<and>
    short_name euro_name = take (length (short_name euro_name)) euro_name \<and>
    (short_name euro_name = euro_name \<or> 252 \<le> length (short_name euro_name))"
  by (rule short_name_correct) (simp add: euro_name_def utf8_valid_euros)

text \<open>
  C32. The client hands nothing to the daemon, a password least of all, unless the socket
  directory is a real directory of the user with no access for others, the process behind
  the socket runs as the user, and its code signature satisfies the requirement if one
  was built in.
\<close>
theorem only_trusted_daemon:
  assumes "fst (request_at_checked env r req) \<noteq> []"
  shows "(\<exists>m. parent_dir env = Some (Some m) \<and> meta_is_dir m \<and> meta_uid m = client_euid env \<and>
      and (meta_mode m) 0x3F = 0) \<and>
    daemon_uid env = Some (client_euid env) \<and> (\<forall>q. req = Some q \<longrightarrow> signature_ok env q)"
  using assms
  by (auto simp: request_at_checked_def check_private_dir_def
      split: option.splits sum.splits connected.splits if_splits)

text \<open>
  A whole exchange: a trusted daemon that answers an allowed request with a frame of an
  encoded response gives the client exactly that response (names cut to 255 bytes, lists to
  256 entries), never an error. Neither frame can exceed the limit.
\<close>
theorem exchange_roundtrip:
  assumes "parent_dir env = Some (Some m)" "check_private_dir (client_euid env) (Some m) = Inr ()"
    and "connecting env = Connected" "daemon_uid env = Some (client_euid env)"
    and "\<forall>q. req = Some q \<longrightarrow> signature_ok env q" "\<forall>i. writes env i = Written"
    and "request_ok r" "response_fits resp" "response_ok r (response_cut resp)"
    and "answer_to env (u32_to_le (word_of_nat (length (request_encode r))) @ request_encode r) =
      \<lparr>incoming = u32_to_le (word_of_nat (length (response_encode resp))) @ response_encode resp @ rest,
       ending = e\<rparr>"
  shows "snd (request_at_checked env r req) = Inr (response_cut resp)"
proof -
  have "response_decode r (response_encode resp) = Inr (response_cut resp)"
    using response.dec_eq_Some_iff [of r "response_encode resp" "response_cut resp"] assms(9)
    by (auto simp: response_of_def response_encode_cut split: sum.splits)
  moreover have "write_frame (writes env) (request_encode r) =
      (u32_to_le (word_of_nat (length (request_encode r))) @ request_encode r, Inr ())"
    using assms(6,7) length_request_encode by (intro write_frame_ok) auto
  moreover have "read_frame (answer_to env (u32_to_le (word_of_nat (length (request_encode r))) @ request_encode r))
      = Inr (response_encode resp, \<lparr>incoming = rest, ending = e\<rparr>)"
    using assms(8,10) read_frame_frame length_response_encode by simp
  ultimately show ?thesis
    using assms(1-5) by (auto simp: request_at_checked_def split: option.splits)
qed

definition sample_env :: client_env where
  "sample_env = \<lparr>parent_dir = Some (Some \<lparr>meta_is_dir = True, meta_uid = 501, meta_mode = 0x41C0\<rparr>),
     client_euid = 501, connecting = Connected, daemon_uid = Some 501, signature_ok = (\<lambda>_. True),
     writes = (\<lambda>_. Written),
     answer_to = (\<lambda>_. \<lparr>incoming = u32_to_le 1 @ [0], ending = Closed\<rparr>)\<rparr>"

theorem exchange_roundtrip_witness:
  "snd (request_at_checked sample_env (SetSync True) None) = Inr Done"
  by (rule exchange_roundtrip [where resp = Done and m = "\<lparr>meta_is_dir = True, meta_uid = 501, meta_mode = 0x41C0\<rparr>", simplified])
     (simp_all add: sample_env_def check_private_dir_def request_ok_def response_fits_def response_ok_def
       response_encode_def RESP_OK_def)

theorem only_trusted_daemon_witness:
  "(\<exists>m. parent_dir sample_env = Some (Some m) \<and> meta_is_dir m \<and> meta_uid m = 501 \<and>
      and (meta_mode m) 0x3F = 0) \<and>
    daemon_uid sample_env = Some 501 \<and> signature_ok sample_env ''anchor apple''"
proof -
  have "fst (request_at_checked sample_env (SetSync True) (Some ''anchor apple'')) \<noteq> []"
    by (simp add: sample_env_def request_at_checked_def check_private_dir_def request_encode_def
        write_frame_def u32_try_from_def MAX_FRAME_LEN_def write_step_def read_frame_def read_exact_def
        split: sum.splits)
  from only_trusted_daemon [OF this] show ?thesis by (simp add: sample_env_def)
qed

end
