(* ===== verification/Peer_Book.thy ===== *)
theory Peer_Book
  imports Ipc Trusted_Peers
begin

text \<open>
  Where the paired devices were last seen and what connecting to them showed
  (\<open>cesa_conn_networker/src/peer_book.rs\<close>).

  The book \<open>Vec<Entry>\<close> is a list in the order of the vector (the oldest entry makes
  room). Each method holds the lock for its whole effect, so it is one step from a book to a
  book; \<open>Instant::now()\<close> is an argument. \<open>seen\<close> also returns whether it wakes the
  owner to save the vault (\<open>changed.notify_one()\<close>). A device is its static key here.
\<close>

section \<open>The model\<close>

definition PASSWORD_RETRY :: nat where "PASSWORD_RETRY = 5 * 60"
definition FAMILY_V4 :: u8 where "FAMILY_V4 = 4"
definition FAMILY_V6 :: u8 where "FAMILY_V6 = 6"

record book_entry =
  peer_id :: bytes
  addr :: "socket_addr option"
  entry_state :: peer_state
  retry_after :: "instant option"

type_synonym peer_book = "book_entry list"

definition blank_entry :: "bytes \<Rightarrow> book_entry" where
  "blank_entry key = \<lparr>peer_id = key, addr = None, entry_state = PeerUnknown, retry_after = None\<rparr>"

text \<open>\<open>PeerBook::entry\<close> makes the entry of the key if there is none; the mutable reference it
  returns is to the first entry of the key, which \<open>update_entry\<close> rewrites.\<close>

definition ensure_entry :: "peer_book \<Rightarrow> bytes \<Rightarrow> peer_book" where
  "ensure_entry entries key =
     (if \<not> list_ex (\<lambda>e. peer_id e = key) entries then
        (if MAX_TRUSTED_PEERS \<le> length entries \<and> entries \<noteq> [] then tl entries else entries)
          @ [blank_entry key]
      else entries)"

primrec update_entry :: "(book_entry \<Rightarrow> book_entry) \<Rightarrow> bytes \<Rightarrow> peer_book \<Rightarrow> peer_book" where
  "update_entry f key [] = []"
| "update_entry f key (e # es) = (if peer_id e = key then f e # es else e # update_entry f key es)"

definition find_entry :: "peer_book \<Rightarrow> bytes \<Rightarrow> book_entry option" where
  "find_entry entries key = find (\<lambda>e. peer_id e = key) entries"

definition seen :: "peer_book \<Rightarrow> bytes \<Rightarrow> socket_addr \<Rightarrow> bool \<times> peer_book" where
  "seen entries key a =
     (let entries = ensure_entry entries key
      in case find_entry entries key of
           None \<Rightarrow> (False, entries)
         | Some entry \<Rightarrow>
             (addr entry \<noteq> Some a,
              update_entry (\<lambda>e.
                let e = e\<lparr>addr := Some a\<rparr>
                in if entry_state e \<noteq> DataPasswordDiffers
                   then e\<lparr>entry_state := PeerOk, retry_after := None\<rparr> else e) key entries))"

definition data_ok :: "peer_book \<Rightarrow> bytes \<Rightarrow> peer_book" where
  "data_ok entries key =
     update_entry (\<lambda>e. e\<lparr>entry_state := PeerOk, retry_after := None\<rparr>) key (ensure_entry entries key)"

definition last_seen_at :: "ip_addr \<Rightarrow> book_entry \<Rightarrow> bool" where
  "last_seen_at ip e = (case addr e of None \<Rightarrow> False | Some a \<Rightarrow> sa_ip a = ip)"

definition wrong_password_at :: "peer_book \<Rightarrow> ip_addr \<Rightarrow> bool \<Rightarrow> instant \<Rightarrow> nat \<times> peer_book" where
  "wrong_password_at entries ip we_connected now =
     (let after = checked_add now (from_secs PASSWORD_RETRY)
      in (length (filter (last_seen_at ip) entries),
          map (\<lambda>e. if last_seen_at ip e
                   then (let e = e\<lparr>entry_state := AuthPasswordDiffers\<rparr>
                         in if we_connected then e\<lparr>retry_after := after\<rparr> else e)
                   else e) entries))"

definition set_state :: "peer_book \<Rightarrow> bytes \<Rightarrow> peer_state \<Rightarrow> instant \<Rightarrow> peer_book" where
  "set_state entries key st now =
     (let after = (case st of
                     AuthPasswordDiffers \<Rightarrow> checked_add now (from_secs PASSWORD_RETRY)
                   | DataPasswordDiffers \<Rightarrow> checked_add now (from_secs PASSWORD_RETRY)
                   | _ \<Rightarrow> None)
      in update_entry (\<lambda>e. e\<lparr>entry_state := st, retry_after := after\<rparr>) key (ensure_entry entries key))"

definition state_of :: "peer_book \<Rightarrow> bytes \<Rightarrow> peer_state" where
  "state_of entries key = (case find_entry entries key of None \<Rightarrow> PeerUnknown | Some e \<Rightarrow> entry_state e)"

definition target :: "peer_book \<Rightarrow> instant \<Rightarrow> trusted_peer \<Rightarrow> (trusted_peer \<times> socket_addr) option" where
  "target entries now peer =
     (case find_entry entries (x25519_pub_key peer) of
        None \<Rightarrow> None
      | Some entry \<Rightarrow>
          (let paused = (case retry_after entry of None \<Rightarrow> False | Some after \<Rightarrow> now < after)
           in if paused then None else map_option (\<lambda>a. (peer, a)) (addr entry)))"

definition targets :: "peer_book \<Rightarrow> instant \<Rightarrow> trusted_peer list \<Rightarrow> (trusted_peer \<times> socket_addr) list" where
  "targets entries now peers = List.map_filter (target entries now) peers"

definition keys_changed :: "peer_book \<Rightarrow> peer_book" where
  "keys_changed entries =
     map (\<lambda>e. (if entry_state e = AuthPasswordDiffers \<or> entry_state e = DataPasswordDiffers
               then e\<lparr>entry_state := PeerUnknown\<rparr> else e)\<lparr>retry_after := None\<rparr>) entries"

definition book_remove :: "peer_book \<Rightarrow> bytes \<Rightarrow> peer_book" where
  "book_remove entries key = filter (\<lambda>e. peer_id e \<noteq> key) entries"

definition book_clear :: "peer_book \<Rightarrow> peer_book" where
  "book_clear entries = []"

definition encode_addr :: "bytes \<times> socket_addr \<Rightarrow> bytes" where
  "encode_addr ka =
     fst ka @
     (case sa_ip (snd ka) of
        V4 ip \<Rightarrow> FAMILY_V4 # v4_octets ip
      | V6 ip \<Rightarrow> FAMILY_V6 # v6_octets ip)
     @ u16_to_le (sa_port (snd ka))"

definition book_saved :: "peer_book \<Rightarrow> trusted_peer list \<Rightarrow> (bytes \<times> socket_addr) list" where
  "book_saved entries peers =
     take MAX_TRUSTED_PEERS
       (List.map_filter (\<lambda>e. map_option (\<lambda>a. (peer_id e, a)) (addr e))
         (filter (\<lambda>e. list_ex (\<lambda>p. peer_id e = x25519_pub_key p) peers) entries))"

definition encode_saved :: "(bytes \<times> socket_addr) list \<Rightarrow> bytes" where
  "encode_saved recs =
     (let count = (case u16_try_from (length recs) of Some n \<Rightarrow> n | None \<Rightarrow> 0)
      in u16_to_le count @ concat (map encode_addr (take (unat count) recs)))"

definition book_encode :: "peer_book \<Rightarrow> trusted_peer list \<Rightarrow> bytes" where
  "book_encode entries peers = encode_saved (book_saved entries peers)"

definition decode_addr ::
  "(bytes \<times> socket_addr) list \<Rightarrow> bytes \<Rightarrow> ((bytes \<times> socket_addr) \<times> bytes) option" where
  "decode_addr out rest = do {
     (key, after) \<leftarrow> split_first_chunk 32 rest;
     (family, after) \<leftarrow> split_first after;
     (ip, after) \<leftarrow>
       (if family = FAMILY_V4 then do {
          (ip, after) \<leftarrow> split_first_chunk 4 after; Some (v4_from ip, after) }
        else if family = FAMILY_V6 then do {
          (ip, after) \<leftarrow> split_first_chunk 16 after; Some (v6_from ip, after) }
        else None);
     (port, after) \<leftarrow> split_first_chunk 2 after;
     _ \<leftarrow> ensure (\<not> list_ex (\<lambda>s. fst s = key) out);
     Some ((key, \<lparr>sa_ip = ip, sa_port = u16_from_le port\<rparr>), after)
   }"

definition book_decode :: "bytes \<Rightarrow> (bytes \<times> socket_addr) list option" where
  "book_decode bs = do {
     (count, rest) \<leftarrow> split_first_chunk 2 bs;
     let count = unat (u16_from_le count);
     _ \<leftarrow> ensure (\<not> MAX_TRUSTED_PEERS < count);
     (out, rest) \<leftarrow> for_collect decode_addr count rest [];
     then_some (rest = []) out
   }"

definition book_load :: "peer_book \<Rightarrow> (bytes \<times> socket_addr) list \<Rightarrow> peer_book" where
  "book_load entries recs =
     map (\<lambda>(key, a). \<lparr>peer_id = key, addr = Some a, entry_state = PeerUnknown, retry_after = None\<rparr>)
       (take MAX_TRUSTED_PEERS recs)"

section \<open>The saved form\<close>

definition saved_ok :: "(bytes \<times> socket_addr) list \<Rightarrow> bool" where
  "saved_ok recs = (length recs \<le> MAX_TRUSTED_PEERS \<and> list_all (\<lambda>s. length (fst s) = 32) recs
     \<and> distinct (map fst recs))"

interpretation addr_items: item_codec encode_addr decode_addr
  "\<lambda>out s. length (fst s) = 32 \<and> fst s \<notin> fst ` set out"
proof
  show "decode_addr out (encode_addr s @ r) = Some (s, r)"
    if "length (fst s) = 32 \<and> fst s \<notin> fst ` set out" for out s r
    using that
    by (cases s) (auto simp: decode_addr_def encode_addr_def list_ex_key FAMILY_V4_def FAMILY_V6_def
        split: ip_addr.splits)
  show "(length (fst s) = 32 \<and> fst s \<notin> fst ` set out) \<and> bs = encode_addr s @ r"
    if dec: "decode_addr out bs = Some (s, r)" for out bs s r
  proof -
    obtain key port f ip where s: "length key = 32" "key \<notin> fst ` set out" "length port = 2"
      and bs: "(f = FAMILY_V4 \<and> length ip = 4 \<and> s = (key, \<lparr>sa_ip = v4_from ip, sa_port = u16_from_le port\<rparr>)) \<or>
        (f = FAMILY_V6 \<and> length ip = 16 \<and> s = (key, \<lparr>sa_ip = v6_from ip, sa_port = u16_from_le port\<rparr>))"
        "bs = key @ f # ip @ port @ r"
      using dec by (fastforce simp: decode_addr_def list_ex_key decoder_inversion split: if_splits)
    from bs(1) show ?thesis
      by (elim disjE conjE) (simp_all add: s bs(2) encode_addr_def v4_from_def v6_from_def to_from_le)
  qed
qed

lemma encode_saved_eq:
  "length recs \<le> MAX_TRUSTED_PEERS \<Longrightarrow>
   encode_saved recs = u16_to_le (word_of_nat (length recs)) @ concat (map encode_addr recs)"
  by (simp add: encode_saved_def u16_try_from_def unat_word_of_nat_u16 MAX_TRUSTED_PEERS_def Let_def)

interpretation saved_codec: strict_codec encode_saved book_decode saved_ok
proof
  show "book_decode (encode_saved recs) = Some recs" if "saved_ok recs" for recs
  proof -
    have "unat (word_of_nat (length recs) :: u16) = length recs"
      using that by (simp add: unat_word_of_nat_u16 saved_ok_def MAX_TRUSTED_PEERS_def)
    with that addr_items.collect_enc [of "[]" recs "[]"] show ?thesis
      by (simp add: book_decode_def encode_saved_eq saved_ok_def all_fit_distinct Let_def)
  qed
  show "saved_ok recs \<and> encode_saved recs = bs" if dec: "book_decode bs = Some recs" for bs recs
  proof -
    obtain c rest where c: "bs = c @ rest" "length c = 2" "unat (u16_from_le c) \<le> MAX_TRUSTED_PEERS"
      and col: "for_collect decode_addr (unat (u16_from_le c)) rest [] = Some (recs, [])"
      using dec by (auto simp: book_decode_def decoder_inversion Let_def not_less)
    from addr_items.enc_collect [OF col] c show ?thesis
      by (auto simp: saved_ok_def encode_saved_eq all_fit_distinct to_from_le)
  qed
qed

section \<open>The invariant\<close>

definition book_inv :: "peer_book \<Rightarrow> bool" where
  "book_inv es = (length es \<le> MAX_TRUSTED_PEERS \<and> distinct (map peer_id es)
     \<and> (\<forall>k \<in> set (map peer_id es). length k = 32))"

text \<open>The operations as one type, each with the time it happens at.\<close>

datatype book_op =
    Seen bytes socket_addr
  | DataOk bytes
  | WrongPasswordAt ip_addr bool
  | SetState bytes peer_state
  | KeysChanged
  | Remove bytes
  | Clear
  | Load bytes

fun book_apply :: "book_op \<Rightarrow> instant \<Rightarrow> peer_book \<Rightarrow> peer_book" where
  "book_apply (Seen key a) now es = snd (seen es key a)"
| "book_apply (DataOk key) now es = data_ok es key"
| "book_apply (WrongPasswordAt ip we_connected) now es = snd (wrong_password_at es ip we_connected now)"
| "book_apply (SetState key st) now es = set_state es key st now"
| "book_apply KeysChanged now es = keys_changed es"
| "book_apply (Remove key) now es = book_remove es key"
| "book_apply Clear now es = book_clear es"
| "book_apply (Load bs) now es = (case book_decode bs of None \<Rightarrow> es | Some recs \<Rightarrow> book_load es recs)"

text \<open>Keys are the 32-byte arrays of Rust's types.\<close>

fun book_op_ok :: "book_op \<Rightarrow> bool" where
  "book_op_ok (Seen key a) = (length key = 32)"
| "book_op_ok (DataOk key) = (length key = 32)"
| "book_op_ok (SetState key st) = (length key = 32)"
| "book_op_ok _ = True"

inductive book_reachable :: "peer_book \<Rightarrow> bool" where
  empty: "book_reachable []"
| step: "book_reachable es \<Longrightarrow> book_op_ok op \<Longrightarrow> book_reachable (book_apply op now es)"

lemma update_entry_ids: "(\<And>e. peer_id (f e) = peer_id e) \<Longrightarrow> map peer_id (update_entry f key es) = map peer_id es"
  by (induction es) auto

lemma book_inv_ids: "map peer_id es = map peer_id es' \<Longrightarrow> book_inv es \<longleftrightarrow> book_inv es'"
  unfolding book_inv_def using map_eq_imp_length_eq by metis

lemma book_inv_Nil [simp]: "book_inv []"
  by (simp add: book_inv_def)

lemma book_inv_update:
  "(\<And>e. peer_id (f e) = peer_id e) \<Longrightarrow> book_inv (update_entry f key es) \<longleftrightarrow> book_inv es"
  by (rule book_inv_ids) (rule update_entry_ids)

lemma book_inv_map: "(\<And>e. peer_id (f e) = peer_id e) \<Longrightarrow> book_inv (map f es) \<longleftrightarrow> book_inv es"
  by (rule book_inv_ids) simp

lemma book_inv_ensure: "book_inv es \<Longrightarrow> length key = 32 \<Longrightarrow> book_inv (ensure_entry es key)"
  by (cases es) (auto simp: ensure_entry_def book_inv_def list_ex_key blank_entry_def MAX_TRUSTED_PEERS_def)

lemma book_inv_load: "saved_ok recs \<Longrightarrow> book_inv (book_load es recs)"
  by (auto simp: book_load_def saved_ok_def book_inv_def list_all_iff comp_def case_prod_beta)

lemma book_apply_inv: "book_inv es \<Longrightarrow> book_op_ok op \<Longrightarrow> book_inv (book_apply op now es)"
proof (cases op)
  case (Load bs)
  then show "book_inv es \<Longrightarrow> book_op_ok op \<Longrightarrow> book_inv (book_apply op now es)"
    using saved_codec.enc_dec book_inv_load by (auto split: option.splits)
next
  case (Remove key)
  then show "book_inv es \<Longrightarrow> book_op_ok op \<Longrightarrow> book_inv (book_apply op now es)"
    by (auto simp: book_remove_def book_inv_def list_all_iff distinct_map_filter intro: order.trans [OF length_filter_le])
qed (auto simp: seen_def data_ok_def wrong_password_at_def set_state_def keys_changed_def book_clear_def
      book_inv_update book_inv_map book_inv_ensure Let_def split: option.splits)

lemma book_reachable_inv: "book_reachable es \<Longrightarrow> book_inv es"
  by (induction rule: book_reachable.induct) (simp, rule book_apply_inv)

section \<open>Lookups after an operation\<close>

lemma find_entry_simps [simp]:
  "find_entry [] key = None"
  "find_entry (e # es) key = (if peer_id e = key then Some e else find_entry es key)"
  by (simp_all add: find_entry_def)

lemma find_entry_append:
  "find_entry (xs @ ys) key = (case find_entry xs key of None \<Rightarrow> find_entry ys key | Some e \<Rightarrow> Some e)"
  by (induction xs) auto

lemma find_entry_None: "find_entry es key = None \<longleftrightarrow> key \<notin> peer_id ` set es"
  by (induction es) auto

lemma find_entry_Some: "find_entry es key = Some e \<Longrightarrow> e \<in> set es \<and> peer_id e = key"
  by (induction es) (auto split: if_splits)

lemma find_entry_in: "distinct (map peer_id es) \<Longrightarrow> e \<in> set es \<Longrightarrow> find_entry es (peer_id e) = Some e"
  by (induction es) auto

lemma find_entry_map: "(\<And>e. peer_id (f e) = peer_id e) \<Longrightarrow> find_entry (map f es) key = map_option f (find_entry es key)"
  by (induction es) auto

lemma find_entry_update:
  "(\<And>e. peer_id (f e) = peer_id e) \<Longrightarrow>
   find_entry (update_entry f key es) k = (if k = key then map_option f (find_entry es k) else find_entry es k)"
  by (induction es) auto

lemma find_entry_ensure:
  "find_entry (ensure_entry es key) key =
     Some (case find_entry es key of None \<Rightarrow> blank_entry key | Some e \<Rightarrow> e)"
proof (cases "find_entry es key")
  case None
  moreover from None have "find_entry (tl es) key = None" by (cases es) (auto split: if_splits)
  ultimately show ?thesis
    by (auto simp: ensure_entry_def list_ex_key find_entry_append find_entry_None blank_entry_def
        simp flip: find_entry_None)
qed (auto simp: ensure_entry_def list_ex_key dest: find_entry_Some)

lemma book_saved_inv:
  assumes inv: "book_inv es"
  shows "saved_ok (book_saved es peers)"
proof -
  define pick where "pick = (\<lambda>e :: book_entry. map_option (\<lambda>a. (peer_id e, a)) (addr e))"
  have keys: "map fst (List.map_filter pick xs) = map peer_id (filter (\<lambda>e. addr e \<noteq> None) xs)" for xs
    by (induction xs) (auto simp: pick_def List.map_filter_simps split: option.splits)
  let ?xs = "filter (\<lambda>e. list_ex (\<lambda>p. peer_id e = x25519_pub_key p) peers) es"
  have "distinct (map peer_id (filter (\<lambda>e. addr e \<noteq> None) ?xs))"
    using inv by (intro distinct_map_filter) (simp add: book_inv_def)
  moreover have "length k = 32" if "k \<in> set (map peer_id (filter (\<lambda>e. addr e \<noteq> None) ?xs))" for k
    using inv that by (auto simp: book_inv_def)
  ultimately have "distinct (map fst (List.map_filter pick ?xs))"
    and "\<forall>k \<in> set (map fst (List.map_filter pick ?xs)). length k = 32"
    unfolding keys by auto
  then show ?thesis
    unfolding book_saved_def pick_def [symmetric] saved_ok_def
    by (auto simp: list_all_iff take_map [symmetric] dest: in_set_takeD)
qed

lemma book_saved_ok: "book_reachable es \<Longrightarrow> saved_ok (book_saved es peers)"
  by (intro book_saved_inv book_reachable_inv)

section \<open>Properties\<close>

text \<open>
  Whatever happens to the book (connections, failures, key changes, devices forgotten,
  a saved book loaded), it holds at most 256 devices and no device twice, and what is saved
  of it can be read back.
\<close>
theorem peer_book_invariant:
  assumes "book_reachable es"
  shows "book_inv es \<and> book_decode (book_encode es peers) = Some (book_saved es peers)"
  using book_reachable_inv [OF assms] book_saved_ok [OF assms]
  by (simp add: book_encode_def saved_codec.dec_enc)

text \<open>
  A stranger cannot stop sync: a connection to us that fails the password check marks
  the devices last seen at its address, but the places sync sends to stay exactly the same.
\<close>
theorem incoming_failure_keeps_targets:
  "targets (snd (wrong_password_at es ip False now)) t peers = targets es t peers"
proof -
  have "target (snd (wrong_password_at es ip False now)) t = target es t"
    by (rule ext) (auto simp: target_def wrong_password_at_def find_entry_map Let_def split: option.splits)
  then show ?thesis by (simp add: targets_def)
qed

text \<open>
  After we connected to an address and the password differed, sync leaves every device
  last seen there alone for five minutes.
\<close>
theorem outgoing_failure_pauses:
  assumes "(p, a) \<in> set (targets (snd (wrong_password_at es ip True now)) t peers)"
    and "sa_ip a = ip" "now + from_secs PASSWORD_RETRY \<le> INSTANT_MAX"
  shows "now + from_secs PASSWORD_RETRY \<le> t"
proof -
  from assms(1) have "target (snd (wrong_password_at es ip True now)) t p = Some (p, a)"
    by (auto simp: targets_def in_set_map_filter target_def split: option.splits if_splits)
  with assms(2,3) show ?thesis
    by (auto simp: target_def wrong_password_at_def find_entry_map last_seen_at_def checked_add_def Let_def
        split: option.splits if_splits)
qed

definition sample_addr :: socket_addr where "sample_addr = \<lparr>sa_ip = V4 0x0A000002, sa_port = 3232\<rparr>"

definition sample_book :: peer_book where
  "sample_book = book_apply (Seen (replicate 32 1) sample_addr) 0 []"

lemma sample_book_eq:
  "sample_book = [\<lparr>peer_id = replicate 32 1, addr = Some sample_addr, entry_state = PeerOk, retry_after = None\<rparr>]"
  by (simp add: sample_book_def seen_def ensure_entry_def blank_entry_def MAX_TRUSTED_PEERS_def Let_def)

theorem peer_book_invariant_witness:
  "book_inv sample_book \<and>
   book_decode (book_encode sample_book [sample_peer 1]) = Some (book_saved sample_book [sample_peer 1])"
proof (rule peer_book_invariant)
  show "book_reachable sample_book"
    unfolding sample_book_def by (intro book_reachable.step book_reachable.empty) simp
qed

theorem outgoing_failure_pauses_witness:
  "(0::nat) + from_secs PASSWORD_RETRY \<le> from_secs 301"
proof (rule outgoing_failure_pauses)
  show "(sample_peer 1, sample_addr) \<in> set (targets (snd (wrong_password_at sample_book (V4 0x0A000002) True 0))
      (from_secs 301) [sample_peer 1])"
    by (simp add: targets_def in_set_map_filter target_def sample_book_eq sample_peer_def
        wrong_password_at_def last_seen_at_def sample_addr_def checked_add_def from_secs_def
        PASSWORD_RETRY_def INSTANT_MAX_def)
qed (simp_all add: sample_addr_def from_secs_def PASSWORD_RETRY_def INSTANT_MAX_def)

lemma book_saved_all:
  "book_inv es \<Longrightarrow>
   book_saved es peers =
     List.map_filter (\<lambda>e. map_option (\<lambda>a. (peer_id e, a)) (addr e))
       (filter (\<lambda>e. list_ex (\<lambda>p. peer_id e = x25519_pub_key p) peers) es)"
proof -
  assume inv: "book_inv es"
  let ?xs = "filter (\<lambda>e. list_ex (\<lambda>p. peer_id e = x25519_pub_key p) peers) es"
  let ?ys = "List.map_filter (\<lambda>e. map_option (\<lambda>a. (peer_id e, a)) (addr e)) ?xs"
  have "length ?ys \<le> length ?xs"
    unfolding List.map_filter_def length_map by (rule length_filter_le)
  also have "\<dots> \<le> length es" by (rule length_filter_le)
  finally have "length ?ys \<le> MAX_TRUSTED_PEERS" using inv by (simp add: book_inv_def)
  then show ?thesis by (simp add: book_saved_def)
qed

lemma map_of_saved:
  assumes "distinct (map peer_id es)" "K k"
  shows "map_of (List.map_filter (\<lambda>e. map_option (\<lambda>a. (peer_id e, a)) (addr e)) (filter (\<lambda>e. K (peer_id e)) es)) k
    = Option.bind (find_entry es k) addr"
  using assms(1)
proof (induction es)
  case (Cons e es)
  show ?case
  proof (cases "peer_id e = k")
    case True
    then have "find_entry es k = None" using Cons.prems by (auto simp: find_entry_None)
    with Cons True assms(2) show ?thesis by (auto simp: List.map_filter_simps split: option.splits)
  qed (use Cons in \<open>auto simp: List.map_filter_simps split: option.splits\<close>)
qed (simp add: List.map_filter_simps)

lemma find_entry_load:
  "length recs \<le> MAX_TRUSTED_PEERS \<Longrightarrow>
   find_entry (book_load es recs) k =
     map_option (\<lambda>a. \<lparr>peer_id = k, addr = Some a, entry_state = PeerUnknown, retry_after = None\<rparr>) (map_of recs k)"
proof -
  assume short: "length recs \<le> MAX_TRUSTED_PEERS"
  have "find_entry (map (\<lambda>(key, a). \<lparr>peer_id = key, addr = Some a, entry_state = PeerUnknown,
      retry_after = None\<rparr>) recs) k =
    map_option (\<lambda>a. \<lparr>peer_id = k, addr = Some a, entry_state = PeerUnknown, retry_after = None\<rparr>) (map_of recs k)"
    by (induction recs) auto
  with short show ?thesis by (simp add: book_load_def)
qed

text \<open>
  A restart forgets pauses and states but no address: the book that is saved for the
  paired devices and loaded again sends sync to exactly the addresses that were known,
  device by device.
\<close>
theorem restart_keeps_addresses:
  assumes "book_reachable es"
  shows "\<exists>recs. book_decode (book_encode es peers) = Some recs \<and>
    targets (book_load [] recs) t peers =
      List.map_filter (\<lambda>p. map_option (Pair p) (Option.bind (find_entry es (x25519_pub_key p)) addr)) peers"
proof (intro exI conjI)
  let ?recs = "book_saved es peers"
  have inv: "book_inv es" using assms by (rule book_reachable_inv)
  have ok: "saved_ok ?recs" using assms by (rule book_saved_ok)
  then show "book_decode (book_encode es peers) = Some ?recs"
    by (simp add: book_encode_def saved_codec.dec_enc)
  have "map_of ?recs (x25519_pub_key p) = Option.bind (find_entry es (x25519_pub_key p)) addr"
    if "p \<in> set peers" for p
    using map_of_saved [of es "\<lambda>k. list_ex (\<lambda>p. k = x25519_pub_key p) peers" "x25519_pub_key p"] inv that
    by (auto simp: book_saved_all [OF inv] book_inv_def list_ex_iff)
  then have "target (book_load [] ?recs) t p =
      map_option (Pair p) (Option.bind (find_entry es (x25519_pub_key p)) addr)" if "p \<in> set peers" for p
    using ok that
    by (auto simp: target_def find_entry_load saved_ok_def option.map_comp split: option.splits)
  then show "targets (book_load [] ?recs) t peers =
      List.map_filter (\<lambda>p. map_option (Pair p) (Option.bind (find_entry es (x25519_pub_key p)) addr)) peers"
    unfolding targets_def List.map_filter_def by (auto cong: filter_cong map_cong)
qed

theorem restart_keeps_addresses_witness:
  "\<exists>recs. book_decode (book_encode sample_book [sample_peer 1]) = Some recs \<and>
    targets (book_load [] recs) 7 [sample_peer 1] =
      List.map_filter (\<lambda>p. map_option (Pair p) (Option.bind (find_entry sample_book (x25519_pub_key p)) addr))
        [sample_peer 1]"
proof (rule restart_keeps_addresses)
  show "book_reachable sample_book"
    unfolding sample_book_def by (intro book_reachable.step book_reachable.empty) simp
qed

text \<open>
  What each operation shows the user of a device: authenticating records the address and
  clears everything but a differing data password; data that goes through clears that too.
\<close>
theorem states_shown:
  "state_of (snd (seen es key a)) key =
     (if state_of es key = DataPasswordDiffers then DataPasswordDiffers else PeerOk) \<and>
   state_of (data_ok es key) key = PeerOk \<and>
   map_option addr (find_entry (snd (seen es key a)) key) = Some (Some a)"
  by (auto simp: state_of_def seen_def data_ok_def find_entry_update find_entry_ensure blank_entry_def
      Let_def split: option.splits)

end
