(* ===== verification/Udp_Networker.thy ===== *)
theory Udp_Networker
  imports Cesa_Prelude
begin

text \<open>
  LAN discovery (\<open>cesa_conn_networker/src/udp_networker.rs\<close>): the announcement and its
  parser, the announcing loop and the two searches.

  A search is given what happens before its deadline, in order (\<open>udp_event\<close>); the end of
  the list is the deadline. The kernel cuts a datagram that is longer than the buffer to
  the buffer's length. Binding the socket and each send have their outcome as an argument.
\<close>

section \<open>The model\<close>

definition DISCOVERY_PORT :: u16 where "DISCOVERY_PORT = 3636"
definition MAX_BROADCAST_DURATION :: nat where "MAX_BROADCAST_DURATION = 20"
definition MAGIC :: bytes where "MAGIC = ascii ''CESACONN''"
definition VERSION :: u8 where "VERSION = 1"
definition ANNOUNCEMENT_LEN :: nat where "ANNOUNCEMENT_LEN = 8 + 1 + 16"
definition MAX_FOUND_DEVICES :: nat where "MAX_FOUND_DEVICES = 16"

type_synonym instance_id = bytes

datatype udp_error =
    FailedToBindSocket | FailedToSetBroadcastMode | FailedToSendBroadcast | Timeout
  | FailedToFetchResult | FailedToGenerateId

definition announcement :: "instance_id \<Rightarrow> bytes" where
  "announcement i = overwrite (replicate ANNOUNCEMENT_LEN 0) (MAGIC @ [VERSION] @ i)"

definition parse_announcement :: "bytes \<Rightarrow> instance_id option" where
  "parse_announcement packet = do {
     packet \<leftarrow> to_array ANNOUNCEMENT_LEN packet;
     (magic, rest) \<leftarrow> split_first_chunk 8 packet;
     (version, i) \<leftarrow> split_first rest;
     _ \<leftarrow> ensure (\<not> (magic \<noteq> MAGIC \<or> version \<noteq> VERSION));
     to_array 16 i
   }"

text \<open>\<open>udp_broadcast_presence\<close>: the packets sent, and the result. \<open>bind_ok\<close> and \<open>mode_ok\<close> are
  the outcomes of binding and of enabling broadcast, \<open>send_ok tick\<close> that of each send.\<close>

primrec broadcast_ticks :: "(nat \<Rightarrow> bool) \<Rightarrow> bytes \<Rightarrow> nat \<Rightarrow> nat \<Rightarrow> bytes list \<times> (udp_error + unit)" where
  "broadcast_ticks send_ok packet tick 0 = ([], Inr ())"
| "broadcast_ticks send_ok packet tick (Suc n) =
     (if send_ok tick then
        (case broadcast_ticks send_ok packet (Suc tick) n of (sent, r) \<Rightarrow> (packet # sent, r))
      else ([], Inl FailedToSendBroadcast))"

definition udp_broadcast_presence ::
  "bool \<Rightarrow> bool \<Rightarrow> (nat \<Rightarrow> bool) \<Rightarrow> nat \<Rightarrow> instance_id \<Rightarrow> bytes list \<times> (udp_error + unit)" where
  "udp_broadcast_presence bind_ok mode_ok send_ok duration i =
     (let duration = min duration MAX_BROADCAST_DURATION;
          packet = announcement i
      in if \<not> bind_ok then ([], Inl FailedToBindSocket)
         else if \<not> mode_ok then ([], Inl FailedToSetBroadcastMode)
         else broadcast_ticks send_ok packet 0 duration)"

datatype udp_event = Packet bytes socket_addr | RecvFailed

text \<open>\<open>buf.get(..len).and_then(parse_announcement)\<close> after \<open>recv_from\<close> into the buffer.\<close>

definition received :: "bytes \<Rightarrow> instance_id option" where
  "received packet = parse_announcement (take (ANNOUNCEMENT_LEN + 1) packet)"

fun find_one :: "instance_id \<Rightarrow> udp_event list \<Rightarrow> udp_error + socket_addr" where
  "find_one own_id [] = Inl Timeout"
| "find_one own_id (RecvFailed # evs) = Inl FailedToFetchResult"
| "find_one own_id (Packet packet a # evs) =
     (case received packet of
        Some i \<Rightarrow> if i = own_id then find_one own_id evs else Inr a
      | None \<Rightarrow> find_one own_id evs)"

definition search_duration :: "nat \<Rightarrow> nat" where
  "search_duration duration = min duration MAX_BROADCAST_DURATION"

definition udp_find_broadcaster ::
  "instant \<Rightarrow> bool \<Rightarrow> nat \<Rightarrow> instance_id \<Rightarrow> udp_event list \<Rightarrow> udp_error + socket_addr" where
  "udp_find_broadcaster now bind_ok duration own_id evs =
     (case checked_add now (from_secs (search_duration duration)) of
        None \<Rightarrow> Inl Timeout
      | Some deadline \<Rightarrow> if bind_ok then find_one own_id evs else Inl FailedToBindSocket)"

fun find_all ::
  "instance_id \<Rightarrow> (socket_addr \<times> instance_id) list \<Rightarrow> udp_event list \<Rightarrow>
   udp_error + (socket_addr \<times> instance_id) list" where
  "find_all own_id found [] = Inr found"
| "find_all own_id found (RecvFailed # evs) = Inl FailedToFetchResult"
| "find_all own_id found (Packet packet a # evs) =
     (case received packet of
        Some i \<Rightarrow>
          if i = own_id then find_all own_id found evs
          else if list_ex (\<lambda>k. sa_ip (fst k) = sa_ip a) found then find_all own_id found evs
          else if MAX_FOUND_DEVICES \<le> length found then find_all own_id found evs
          else find_all own_id (found @ [(a, i)]) evs
      | None \<Rightarrow> find_all own_id found evs)"

definition udp_find_broadcasters ::
  "instant \<Rightarrow> bool \<Rightarrow> nat \<Rightarrow> instance_id \<Rightarrow> udp_event list \<Rightarrow>
   udp_error + (socket_addr \<times> instance_id) list" where
  "udp_find_broadcasters now bind_ok duration own_id evs =
     (case checked_add now (from_secs (search_duration duration)) of
        None \<Rightarrow> Inl Timeout
      | Some deadline \<Rightarrow> if bind_ok then find_all own_id [] evs else Inl FailedToBindSocket)"

section \<open>Lemmas\<close>

definition id_ok :: "instance_id \<Rightarrow> bool" where
  "id_ok i = (length i = 16)"

lemma length_MAGIC [simp]: "length MAGIC = 8"
  by (simp add: MAGIC_def)

lemma announcement_eq: "id_ok i \<Longrightarrow> announcement i = MAGIC @ [VERSION] @ i"
  by (simp add: announcement_def overwrite_def id_ok_def ANNOUNCEMENT_LEN_def)

interpretation announce: strict_codec announcement parse_announcement id_ok
proof
  show "parse_announcement (announcement i) = Some i" if "id_ok i" for i
    using that
    by (simp add: announcement_eq parse_announcement_def) (simp add: id_ok_def to_array_def ANNOUNCEMENT_LEN_def)
  show "id_ok i \<and> announcement i = p" if "parse_announcement p = Some i" for p i
    using that by (auto simp: parse_announcement_def decoder_inversion announcement_eq id_ok_def)
qed

text \<open>One byte more than an announcement in the buffer is enough: a longer packet is never
  taken for one.\<close>

lemma take_longer:
  assumes "length y = n"
  shows "take (Suc n) x = y \<longleftrightarrow> x = y"
proof
  assume "take (Suc n) x = y"
  moreover from this assms have "length x = n" by (auto simp: min_def split: if_splits)
  ultimately show "x = y" by simp
qed (use assms in simp)

lemma received_iff: "received packet = Some i \<longleftrightarrow> id_ok i \<and> packet = announcement i"
proof -
  have "take (Suc 25) packet = announcement j \<longleftrightarrow> packet = announcement j" if "id_ok j" for j
    using that by (intro take_longer) (simp add: announcement_eq id_ok_def)
  then show ?thesis
    unfolding received_def announce.dec_eq_Some_iff by (auto simp: ANNOUNCEMENT_LEN_def)
qed

text \<open>The announcements of other devices among the events.\<close>

definition announced :: "instance_id \<Rightarrow> udp_event list \<Rightarrow> (socket_addr \<times> instance_id) set" where
  "announced own_id evs = {(a, i). Packet (announcement i) a \<in> set evs \<and> id_ok i \<and> i \<noteq> own_id}"

definition ips :: "(socket_addr \<times> instance_id) set \<Rightarrow> ip_addr set" where
  "ips A = (sa_ip \<circ> fst) ` A"

definition found_inv :: "instance_id \<Rightarrow> (socket_addr \<times> instance_id) set \<Rightarrow> (socket_addr \<times> instance_id) list \<Rightarrow> bool" where
  "found_inv own_id A found = (length found \<le> MAX_FOUND_DEVICES \<and> distinct (map (sa_ip \<circ> fst) found)
     \<and> set found \<subseteq> A \<and> (ips A \<subseteq> ips (set found) \<or> length found = MAX_FOUND_DEVICES))"

lemma announced_Cons:
  "announced own_id (Packet p a # evs) =
     (case received p of
        Some i \<Rightarrow> if i = own_id then announced own_id evs else insert (a, i) (announced own_id evs)
      | None \<Rightarrow> announced own_id evs)"
proof (cases "received p")
  case None
  then have "p \<noteq> announcement j" if "id_ok j" for j using received_iff [of p j] that by auto
  with None show ?thesis by (auto simp: announced_def)
next
  case (Some i)
  then have p: "p = announcement i" "id_ok i" using received_iff by auto
  then have "announcement j = p \<longleftrightarrow> j = i" if "id_ok j" for j using announce.enc_inj that by auto
  with Some p show ?thesis by (auto simp: announced_def)
qed

lemma found_inv_skip: "found_inv own A found \<Longrightarrow> sa_ip a \<in> ips (set found) \<Longrightarrow> found_inv own (insert (a, i) A) found"
  by (auto simp: found_inv_def ips_def)

lemma found_inv_full: "found_inv own A found \<Longrightarrow> MAX_FOUND_DEVICES \<le> length found \<Longrightarrow> found_inv own (insert (a, i) A) found"
  by (auto simp: found_inv_def)

lemma found_inv_add:
  "found_inv own A found \<Longrightarrow> sa_ip a \<notin> ips (set found) \<Longrightarrow> length found < MAX_FOUND_DEVICES \<Longrightarrow>
   found_inv own (insert (a, i) A) (found @ [(a, i)])"
  by (auto simp: found_inv_def ips_def)

lemma find_all_inv:
  "find_all own_id found evs = Inr result \<Longrightarrow> found_inv own_id A found \<Longrightarrow>
   found_inv own_id (A \<union> announced own_id evs) result"
proof (induction own_id found evs arbitrary: A rule: find_all.induct)
  case (1 own_id found)
  then show ?case by (simp add: announced_def)
next
  case (3 own_id found p a evs)
  have ip: "list_ex (\<lambda>k. sa_ip (fst k) = sa_ip a) found \<longleftrightarrow> sa_ip a \<in> ips (set found)"
    by (auto simp: ips_def list_ex_key image_comp)
  show ?case
  proof (cases "received p")
    case None
    with 3 show ?thesis by (simp add: announced_Cons)
  next
    case (Some i)
    then have "i \<noteq> own_id \<Longrightarrow> found_inv own_id (insert (a, i) A) found' \<Longrightarrow>
        find_all own_id found' evs = Inr result \<Longrightarrow>
        (\<And>B. find_all own_id found' evs = Inr result \<Longrightarrow> found_inv own_id B found' \<Longrightarrow>
           found_inv own_id (B \<union> announced own_id evs) result) \<Longrightarrow> ?thesis" for found'
      by (fastforce simp: announced_Cons)
    with Some 3 show ?thesis
      using found_inv_skip [of own_id A found a i] found_inv_full [of own_id A found a i]
        found_inv_add [of own_id A found a i]
      by (auto simp: announced_Cons ip not_le split: if_splits)
  qed
qed simp

section \<open>Properties\<close>

text \<open>
  A packet is taken for an announcement of instance \<open>i\<close> exactly when it is the 25-byte
  announcement of \<open>i\<close>; a longer datagram, cut to the buffer, never is.
\<close>
theorem announcement_strict:
  "received packet = Some i \<longleftrightarrow> length i = 16 \<and> packet = announcement i"
  using received_iff by (simp add: id_ok_def)

text \<open>
  A search reports at most 16 devices, one per sending address, each of which really
  announced itself, never this device itself; and it misses a device only if 16 addresses
  were found: no flood of made-up ids from one address can push another device out.
\<close>
theorem find_broadcasters_correct:
  assumes "udp_find_broadcasters now bind_ok duration own_id evs = Inr found"
  shows "length found \<le> MAX_FOUND_DEVICES \<and> distinct (map (sa_ip \<circ> fst) found) \<and>
    set found \<subseteq> announced own_id evs \<and>
    (ips (announced own_id evs) \<subseteq> ips (set found) \<or> length found = MAX_FOUND_DEVICES)"
proof -
  have "find_all own_id [] evs = Inr found"
    using assms by (auto simp: udp_find_broadcasters_def split: option.splits if_splits)
  from find_all_inv [OF this, of "{}"] show ?thesis by (simp add: found_inv_def ips_def)
qed

definition lan :: "udp_event list" where
  "lan = [Packet (announcement (replicate 16 1)) \<lparr>sa_ip = V4 1, sa_port = 5000\<rparr>,
          Packet (announcement (replicate 16 2)) \<lparr>sa_ip = V4 2, sa_port = 5001\<rparr>,
          Packet (announcement (replicate 16 3)) \<lparr>sa_ip = V4 2, sa_port = 5002\<rparr>,
          Packet [0] \<lparr>sa_ip = V4 3, sa_port = 5003\<rparr>]"

definition lan_found :: "(socket_addr \<times> instance_id) list" where
  "lan_found = [(\<lparr>sa_ip = V4 2, sa_port = 5001\<rparr>, replicate 16 2)]"

lemma lan_search: "udp_find_broadcasters 0 True 5 (replicate 16 1) lan = Inr lan_found"
proof -
  have "received (announcement (replicate 16 b)) = Some (replicate 16 b)" for b
    by (simp add: received_iff id_ok_def)
  moreover have "received [0] = None"
    by (simp add: received_def parse_announcement_def to_array_def ANNOUNCEMENT_LEN_def)
  ultimately show ?thesis
    by (simp add: udp_find_broadcasters_def checked_add_def lan_def lan_found_def search_duration_def
        from_secs_def MAX_BROADCAST_DURATION_def INSTANT_MAX_def MAX_FOUND_DEVICES_def
        replicate_eq_replicate)
qed

theorem find_broadcasters_correct_witness:
  "length lan_found \<le> MAX_FOUND_DEVICES \<and> distinct (map (sa_ip \<circ> fst) lan_found) \<and>
    set lan_found \<subseteq> announced (replicate 16 1) lan \<and>
    (ips (announced (replicate 16 1) lan) \<subseteq> ips (set lan_found) \<or> length lan_found = MAX_FOUND_DEVICES)"
  by (rule find_broadcasters_correct [OF lan_search])

end
