(* ===== verification/Salt_Service.thy ===== *)
theory Salt_Service
  imports Guess_Limiter Ipc
begin

text \<open>
  The salt query of a joining device (\<open>cesa_conn_networker/src/salt_service.rs\<close>): the
  query, the per-source rate limit \<open>Answered\<close>, the member's answer, the accept loop
  \<open>serve_salt\<close> and the joiner's side \<open>query_salt\<close>.

  \<open>Answered\<close> is a \<open>HashMap<Source, Instant>\<close>: an association list with distinct keys. The
  accept loop is a state machine: the connections that hold a slot, and the memory; its
  steps are an accepted connection and the end of an answer (which gives the slot back).
\<close>

section \<open>The model\<close>

definition SALT_QUERY_MAGIC :: bytes where "SALT_QUERY_MAGIC = ascii ''CESASALT''"
definition SALT_QUERY_VERSION :: u8 where "SALT_QUERY_VERSION = 1"
definition SALT_QUERY_LEN :: nat where "SALT_QUERY_LEN = 8 + 1"
definition MAX_SALT_CLIENTS :: nat where "MAX_SALT_CLIENTS = 4"
definition ANSWER_INTERVAL :: duration where "ANSWER_INTERVAL = from_secs 5"
definition MAX_REMEMBERED :: nat where "MAX_REMEMBERED = 1024"

datatype salt_error = SaltUnreachable | SendFailed | NoAnswer

definition query :: bytes where
  "query = take SALT_QUERY_LEN (SALT_QUERY_MAGIC @ [SALT_QUERY_VERSION])"

type_synonym answered = "(source \<times> instant) list"

definition recently :: "instant \<Rightarrow> instant \<Rightarrow> bool" where
  "recently now since = (saturating_duration_since now since < ANSWER_INTERVAL)"

definition answered_allow :: "answered \<Rightarrow> source \<Rightarrow> instant \<Rightarrow> bool \<times> answered" where
  "answered_allow m source now =
     (if (case map_of m source of None \<Rightarrow> False | Some since \<Rightarrow> recently now since) then (False, m)
      else if MAX_REMEMBERED \<le> length m then
        (let m = filter (\<lambda>(_, since). recently now since) m
         in if MAX_REMEMBERED \<le> length m then (False, m) else (True, AList.update source now m))
      else (True, AList.update source now m))"

text \<open>\<open>answer\<close>: what is written to the stream and the result.\<close>

definition answer :: "in_stream \<Rightarrow> (nat \<Rightarrow> write_outcome) \<Rightarrow> bytes \<Rightarrow> bytes \<times> (salt_error + unit)" where
  "answer s w a_salt =
     (case read_exact SALT_QUERY_LEN s of
        Inl _ \<Rightarrow> ([], Inl NoAnswer)
      | Inr (buf, _) \<Rightarrow>
          if buf \<noteq> query then ([], Inl NoAnswer)
          else if w 0 \<noteq> Written then (a_salt, Inl SendFailed)
          else if w 1 \<noteq> Written then (a_salt, Inl SendFailed)
          else (a_salt, Inr ()))"

text \<open>\<open>query_salt\<close>: the member's answer is a function of what it gets.\<close>

definition query_salt ::
  "bool \<Rightarrow> write_outcome \<Rightarrow> (bytes \<Rightarrow> in_stream) \<Rightarrow> salt_error + bytes" where
  "query_salt connected w member =
     (if \<not> connected then Inl SaltUnreachable
      else if w \<noteq> Written then Inl SendFailed
      else (case read_exact 32 (member query) of
              Inl _ \<Rightarrow> Inl NoAnswer
            | Inr (a_salt, _) \<Rightarrow> Inr a_salt))"

record salt_server =
  slots_used :: nat
  salt_answered :: answered

datatype salt_event = Accepted ip_addr instant | AcceptFailed | Finished

definition salt_server_new :: salt_server where
  "salt_server_new = \<lparr>slots_used = 0, salt_answered = []\<rparr>"

text \<open>One round of the loop of \<open>serve_salt\<close>, or the end of a spawned answer; the result says
  whether a connection goes on to \<open>answer\<close>. A slot taken for a refused connection is given
  back at once.\<close>

fun serve_salt_step :: "salt_event \<Rightarrow> salt_server \<Rightarrow> bool \<times> salt_server" where
  "serve_salt_step AcceptFailed st = (False, st)"
| "serve_salt_step Finished st = (False, st\<lparr>slots_used := slots_used st - 1\<rparr>)"
| "serve_salt_step (Accepted ip now) st =
     (if MAX_SALT_CLIENTS \<le> slots_used st then (False, st)
      else
        (case answered_allow (salt_answered st) (source_of ip) now of
           (False, m) \<Rightarrow> (False, st\<lparr>salt_answered := m\<rparr>)
         | (True, m) \<Rightarrow> (True, st\<lparr>slots_used := slots_used st + 1, salt_answered := m\<rparr>)))"

fun serve_salt_run :: "salt_server \<Rightarrow> salt_event list \<Rightarrow> (ip_addr \<times> instant) list \<times> salt_server" where
  "serve_salt_run st [] = ([], st)"
| "serve_salt_run st (ev # evs) =
     (case serve_salt_step ev st of
        (ok, st') \<Rightarrow>
          (case serve_salt_run st' evs of
             (log, final) \<Rightarrow>
               ((if ok then (case ev of Accepted ip now \<Rightarrow> [(ip, now)] | _ \<Rightarrow> []) else []) @ log,
                final)))"

section \<open>Lemmas\<close>

definition answered_inv :: "answered \<Rightarrow> bool" where
  "answered_inv m = (length m \<le> MAX_REMEMBERED \<and> distinct (map fst m))"

lemma length_query: "length query = SALT_QUERY_LEN"
  by (simp add: query_def SALT_QUERY_MAGIC_def SALT_QUERY_LEN_def)

lemma length_alist_update: "length (AList.update k v m) = (if k \<in> fst ` set m then length m else Suc (length m))"
  by (induction m) auto

lemma map_of_filter_value:
  "distinct (map fst m) \<Longrightarrow>
   map_of (filter (\<lambda>(_, v). P v) m) k = (case map_of m k of None \<Rightarrow> None | Some v \<Rightarrow> if P v then Some v else None)"
proof (induction m)
  case (Cons kv m)
  have "k \<notin> fst ` set m \<Longrightarrow> map_of (filter (\<lambda>(_, v). P v) m) k = None"
    by (auto simp: map_of_eq_None_iff)
  with Cons show ?case by (cases kv) (auto simp: map_of_eq_None_iff split: option.splits)
qed simp

lemma answered_allow_inv:
  assumes "answered_inv m"
  shows "answered_inv (snd (answered_allow m s now))"
proof -
  have "length (AList.update s now m') \<le> MAX_REMEMBERED" if "length m' < MAX_REMEMBERED" for m'
    using that by (simp add: length_alist_update)
  moreover have "length (filter P m) \<le> MAX_REMEMBERED" for P
    using assms le_trans [OF length_filter_le] by (auto simp: answered_inv_def)
  ultimately show ?thesis
    using assms
    by (auto simp: answered_allow_def answered_inv_def Let_def distinct_update distinct_map_filter not_le
        split: option.splits)
qed

text \<open>Allowed means: recorded now, and not answered within the interval before. Every other
  source keeps its record as long as it matters.\<close>

lemma answered_allow_True:
  "answered_inv m \<Longrightarrow> answered_allow m s now = (True, m') \<Longrightarrow>
   map_of m' s = Some now \<and> (\<forall>since. map_of m s = Some since \<longrightarrow> \<not> recently now since)"
  by (auto simp: answered_allow_def Let_def update_conv' split: option.splits if_splits)

lemma answered_allow_keeps:
  assumes "answered_inv m" "map_of m s = Some since"
  shows "map_of (snd (answered_allow m s' now)) s = Some since \<or> s = s' \<and>
      map_of (snd (answered_allow m s' now)) s = Some now \<and> fst (answered_allow m s' now) \<or> \<not> recently now since"
  using assms
  by (auto simp: answered_allow_def answered_inv_def Let_def update_conv' map_of_filter_value
      dest: eq_key_imp_eq_value split: option.splits if_splits)

text \<open>The clock of the accept loop does not run backwards.\<close>

fun ordered :: "instant \<Rightarrow> salt_event list \<Rightarrow> bool" where
  "ordered now [] = True"
| "ordered now (Accepted ip t # evs) = (now \<le> t \<and> ordered t evs)"
| "ordered now (_ # evs) = ordered now evs"

definition spaced :: "instant \<Rightarrow> instant \<Rightarrow> bool" where
  "spaced t t' = (t + ANSWER_INTERVAL \<le> t')"

lemma not_recently: "t \<le> now \<Longrightarrow> \<not> recently now t \<longleftrightarrow> spaced t now"
  by (auto simp: recently_def spaced_def saturating_duration_since_def)

text \<open>What is known of the last answer to a source at a moment.\<close>

definition remembered :: "answered \<Rightarrow> source \<Rightarrow> instant \<Rightarrow> instant option \<Rightarrow> bool" where
  "remembered m s now lst =
     (case lst of None \<Rightarrow> True | Some t \<Rightarrow> t \<le> now \<and> (map_of m s = Some t \<or> spaced t now))"

lemma remembered_later: "remembered m s now lst \<Longrightarrow> now \<le> t \<Longrightarrow> remembered m s t lst"
  by (auto simp: remembered_def spaced_def split: option.splits)

lemma remembered_allow:
  assumes "answered_inv m" "remembered m s t lst" "s \<noteq> s' \<or> \<not> fst (answered_allow m s' t)"
  shows "remembered (snd (answered_allow m s' t)) s t lst"
  using assms answered_allow_keeps [OF assms(1), of s _ s' t]
  by (auto simp: remembered_def not_recently split: option.splits)

lemma serve_salt_spaced:
  assumes "answered_inv (salt_answered st)" "ordered now evs" "remembered (salt_answered st) s now lst"
  shows "successively spaced ((case lst of None \<Rightarrow> [] | Some t \<Rightarrow> [t]) @ times_of s (fst (serve_salt_run st evs)))"
  using assms
proof (induction evs arbitrary: st now lst)
  case Nil
  then show ?case by (simp add: times_of_def split: option.splits)
next
  case (Cons ev evs)
  show ?case
  proof (cases ev)
    case (Accepted ip t)
    let ?m = "salt_answered st"
    obtain ok m where al: "answered_allow ?m (source_of ip) t = (ok, m)" by fastforce
    have rem: "remembered ?m s t lst" and t: "now \<le> t" "ordered t evs"
      using Cons.prems remembered_later Accepted by auto
    have inv: "answered_inv m" using answered_allow_inv [OF Cons.prems(1), of "source_of ip" t] al by simp
    consider "MAX_SALT_CLIENTS \<le> slots_used st"
      | "slots_used st < MAX_SALT_CLIENTS" "s \<noteq> source_of ip \<or> \<not> ok"
      | "slots_used st < MAX_SALT_CLIENTS" "s = source_of ip" ok by fastforce
    then show ?thesis
    proof cases
      case 1
      with Cons.IH [OF Cons.prems(1) t(2) rem] Accepted show ?thesis
        by (simp add: case_prod_beta)
    next
      case 2
      then have "remembered m s t lst"
        using remembered_allow [OF Cons.prems(1) rem, of "source_of ip"] al by simp
      with Cons.IH [of "st\<lparr>slots_used := slots_used st + 1, salt_answered := m\<rparr>" t lst]
        Cons.IH [of "st\<lparr>salt_answered := m\<rparr>" t lst] inv t 2 al Accepted
      show ?thesis
        by (cases ok) (auto simp: case_prod_beta times_of_def)
    next
      case 3
      then have m: "map_of m s = Some t" "\<And>since. map_of ?m s = Some since \<Longrightarrow> \<not> recently t since"
        using answered_allow_True [OF Cons.prems(1)] al by auto
      then have "remembered m s t (Some t)" by (simp add: remembered_def)
      with Cons.IH [of "st\<lparr>slots_used := slots_used st + 1, salt_answered := m\<rparr>" t "Some t"] inv t
      have "successively spaced (t # times_of s (fst (serve_salt_run
          (st\<lparr>slots_used := slots_used st + 1, salt_answered := m\<rparr>) evs)))" by simp
      moreover have "spaced l t" if "lst = Some l" for l
        using rem that m(2) [of l] by (auto simp: remembered_def not_recently)
      ultimately show ?thesis
        using 3 al Accepted by (auto simp: case_prod_beta times_of_def split: option.splits)
    qed
  qed (use Cons.IH [of st now lst] Cons.IH [of "st\<lparr>slots_used := slots_used st - 1\<rparr>" now lst] Cons.prems
       in \<open>auto simp: case_prod_beta\<close>)
qed

lemma serve_salt_bounds:
  "answered_inv (salt_answered st) \<Longrightarrow> slots_used st \<le> MAX_SALT_CLIENTS \<Longrightarrow>
   answered_inv (salt_answered (snd (serve_salt_run st evs))) \<and>
   slots_used (snd (serve_salt_run st evs)) \<le> MAX_SALT_CLIENTS"
proof (induction evs arbitrary: st)
  case (Cons ev evs)
  have "answered_inv (salt_answered (snd (serve_salt_step ev st))) \<and>
      slots_used (snd (serve_salt_step ev st)) \<le> MAX_SALT_CLIENTS"
  proof (cases ev)
    case (Accepted ip now)
    then show ?thesis
      using Cons.prems answered_allow_inv [OF Cons.prems(1), of "source_of ip" now]
      by (auto split: prod.splits bool.splits)
  qed (use Cons.prems in auto)
  with Cons.IH show ?case by (auto simp: case_prod_beta)
qed simp

section \<open>Properties\<close>

text \<open>
  During an invite window every source (an IPv4 address or an IPv6 /64) is answered at
  most once per five seconds, however many queries arrive, whatever the other sources do
  and even when the memory is full.
\<close>
theorem salt_rate_limit:
  assumes "ordered 0 evs"
  shows "successively spaced (times_of s (fst (serve_salt_run salt_server_new evs)))"
  using serve_salt_spaced [of salt_server_new 0 evs s None] assms
  by (simp add: salt_server_new_def answered_inv_def remembered_def)

theorem salt_rate_limit_witness:
  "successively spaced (times_of (source_of (V4 1)) (fst (serve_salt_run salt_server_new
     [Accepted (V4 1) 0, Accepted (V4 1) 1, Finished, Accepted (V4 1) (from_secs 6)])))"
  by (rule salt_rate_limit) (simp add: from_secs_def)

text \<open>
  The service is bounded: never more than four connections are served at once and never
  more than 1024 sources remembered, for any sequence of events.
\<close>
theorem salt_service_bounded:
  "slots_used (snd (serve_salt_run salt_server_new evs)) \<le> MAX_SALT_CLIENTS \<and>
   answered_inv (salt_answered (snd (serve_salt_run salt_server_new evs)))"
  using serve_salt_bounds [of salt_server_new evs] by (simp add: salt_server_new_def answered_inv_def)

text \<open>
  A joining device that reaches a member gets exactly the member's salt, and a member
  writes its salt only in answer to the exact nine-byte query.
\<close>
theorem salt_exchange:
  assumes "length a_salt = 32"
  shows "query_salt True Written (\<lambda>q. \<lparr>incoming = fst (answer \<lparr>incoming = q, ending = e\<rparr> w a_salt), ending = e'\<rparr>)
      = Inr a_salt \<and>
    (fst (answer s w a_salt) = [] \<or> take SALT_QUERY_LEN (incoming s) = query)"
  using assms
  by (auto simp: query_salt_def answer_def read_exact_def length_query split: sum.splits if_splits)

theorem salt_exchange_witness:
  "query_salt True Written (\<lambda>q. \<lparr>incoming = fst (answer \<lparr>incoming = q, ending = Closed\<rparr> (\<lambda>_. Written)
      (replicate 32 7)), ending = Closed\<rparr>) = Inr (replicate 32 7)"
  by (rule salt_exchange [THEN conjunct1]) simp

end
