(* ===== verification/Cesa_Crypto.thy ===== *)
theory Cesa_Crypto
  imports Cesa_Prelude
begin

text \<open>
  The thin layer over the cryptographic crates (\<open>cesa_conn_crypto/src/aes.rs\<close>,
  \<open>pswd_manager.rs\<close>, \<open>crand.rs\<close>). AES-256-GCM (\<open>aes_gcm\<close>), Argon2id (\<open>argon2\<close>), HKDF
  (\<open>hkdf\<close>) and the operating system's random bytes are not code of the repository: they are
  arguments. The \<open>record\<close> \<open>gcm\<close> holds the cipher's two functions (key, nonce, associated
  data, message); \<open>gcm_ok\<close> names what the code relies on of it, which is its documented
  behaviour: the ciphertext is 16 bytes longer than the plaintext, and decrypting it with the
  same key, nonce and associated data gives the plaintext back. Random bytes are an
  \<open>option\<close>: \<open>None\<close> when the operating system fails.
\<close>

section \<open>AES-256-GCM\<close>

record gcm =
  gcm_encrypt :: "bytes \<Rightarrow> bytes \<Rightarrow> bytes \<Rightarrow> bytes \<Rightarrow> bytes option"
  gcm_decrypt :: "bytes \<Rightarrow> bytes \<Rightarrow> bytes \<Rightarrow> bytes \<Rightarrow> bytes option"

definition gcm_ok :: "gcm \<Rightarrow> bool" where
  "gcm_ok G = (\<forall>k n a d c. gcm_encrypt G k n a d = Some c \<longrightarrow>
     length c = length d + 16 \<and> gcm_decrypt G k n a c = Some d)"

datatype aes_error = NonceFailed | EncryptionFailed | DecryptionFailed

definition encrypt_with_aad ::
  "gcm \<Rightarrow> bytes option \<Rightarrow> bytes \<Rightarrow> bytes \<Rightarrow> bytes \<Rightarrow> aes_error + bytes \<times> bytes" where
  "encrypt_with_aad G random key data aad =
     and_then (ok_or NonceFailed random) (\<lambda>nonce.
     and_then (ok_or EncryptionFailed (gcm_encrypt G key nonce aad data)) (\<lambda>ciphertext.
     Inr (ciphertext, nonce)))"

definition decrypt_with_aad ::
  "gcm \<Rightarrow> bytes \<Rightarrow> bytes \<Rightarrow> bytes \<Rightarrow> bytes \<Rightarrow> aes_error + bytes" where
  "decrypt_with_aad G key ciphertext nonce aad =
     ok_or DecryptionFailed (gcm_decrypt G key nonce aad ciphertext)"

text \<open>Without associated data the crate authenticates the empty string.\<close>

definition encrypt :: "gcm \<Rightarrow> bytes option \<Rightarrow> bytes \<Rightarrow> bytes \<Rightarrow> aes_error + bytes \<times> bytes" where
  "encrypt G random key data = encrypt_with_aad G random key data []"

definition decrypt :: "gcm \<Rightarrow> bytes \<Rightarrow> bytes \<Rightarrow> bytes \<Rightarrow> aes_error + bytes" where
  "decrypt G key ciphertext nonce = decrypt_with_aad G key ciphertext nonce []"

lemma encrypt_with_aad_Inr:
  "encrypt_with_aad G r k d a = Inr (c, n) \<longleftrightarrow> r = Some n \<and> gcm_encrypt G k n a d = Some c"
  by (auto simp: encrypt_with_aad_def and_then_eq_Inr)

lemma decrypt_with_aad_Inr:
  "decrypt_with_aad G k c n a = Inr d \<longleftrightarrow> gcm_decrypt G k n a c = Some d"
  by (simp add: decrypt_with_aad_def)

lemma gcm_okD:
  "gcm_ok G \<Longrightarrow> gcm_encrypt G k n a d = Some c \<Longrightarrow> gcm_decrypt G k n a c = Some d"
  "gcm_ok G \<Longrightarrow> gcm_encrypt G k n a d = Some c \<Longrightarrow> length c = length d + 16"
  by (auto simp: gcm_ok_def)

text \<open>A cipher with these properties, for concrete evaluations: the message followed by a
  tag made of the key, the nonce and the associated data.\<close>

definition demo_tag :: "bytes \<Rightarrow> bytes \<Rightarrow> bytes \<Rightarrow> bytes" where
  "demo_tag k n a = replicate 16 (sum_list k + sum_list n + sum_list a)"

definition demo_gcm :: gcm where
  "demo_gcm = \<lparr>
     gcm_encrypt = (\<lambda>k n a d. Some (d @ demo_tag k n a)),
     gcm_decrypt = (\<lambda>k n a c.
       if 16 \<le> length c \<and> drop (length c - 16) c = demo_tag k n a
       then Some (take (length c - 16) c) else None)\<rparr>"

lemma demo_gcm_ok: "gcm_ok demo_gcm"
  by (simp add: gcm_ok_def demo_gcm_def demo_tag_def)

section \<open>Key derivation\<close>

type_synonym argon2 = "nat \<Rightarrow> nat \<Rightarrow> nat \<Rightarrow> bytes \<Rightarrow> bytes \<Rightarrow> nat \<Rightarrow> bytes option"

definition ARGON2_M_COST :: nat where "ARGON2_M_COST = 64 * 1024"
definition ARGON2_T_COST :: nat where "ARGON2_T_COST = 3"
definition ARGON2_P_COST :: nat where "ARGON2_P_COST = 1"

datatype pswd_error = HashFailed

definition derive_key :: "argon2 \<Rightarrow> bytes \<Rightarrow> bytes \<Rightarrow> pswd_error + bytes" where
  "derive_key argon2 pw salt =
     ok_or HashFailed (argon2 ARGON2_M_COST ARGON2_T_COST ARGON2_P_COST pw salt 32)"

text \<open>HKDF-BLAKE2s with a salt: salt, input key material, label, output length.\<close>

type_synonym hkdf_salted = "bytes option \<Rightarrow> bytes \<Rightarrow> bytes \<Rightarrow> nat \<Rightarrow> bytes option"

end
