(* ===== verification/Vault.thy ===== *)
theory Vault
  imports Ipc Cesa_Crypto
begin

text \<open>
  The encrypted vault (\<open>cesa_conn_networker/src/vault.rs\<close>): the keychain salts, the TLV
  contents, wrapping the data-encryption key, sealing, padding and opening, and the file
  operations.

  The cipher, HKDF and random bytes are arguments (see \<open>Cesa_Crypto\<close>). A file operation is
  given the outcome of every system call it makes (\<open>write_calls\<close>, \<open>delete_calls\<close>) and maps the
  directory (\<open>vault_dir\<close>: the vault file and the temporary file of this write) to the
  directory afterwards.
\<close>

section \<open>Constants and data\<close>

definition VAULT_MAGIC :: bytes where "VAULT_MAGIC = ascii ''CESAVLT'' @ [0]"
definition VAULT_VERSION :: u8 where "VAULT_VERSION = 2"
definition HEADER_LEN :: nat where "HEADER_LEN = 9"
definition NONCE_LEN :: nat where "NONCE_LEN = 12"
definition TAG_LEN :: nat where "TAG_LEN = 16"
definition WRAPPED_DEK_LEN :: nat where "WRAPPED_DEK_LEN = 32 + TAG_LEN"
definition WRAP_LEN :: nat where "WRAP_LEN = NONCE_LEN + WRAPPED_DEK_LEN"
definition PAD_BLOCK :: nat where "PAD_BLOCK = 4096"
definition MAX_VAULT_LEN :: nat where "MAX_VAULT_LEN = 4 * 1024 * 1024"
definition MIN_VAULT_LEN :: nat where
  "MIN_VAULT_LEN = HEADER_LEN + WRAP_LEN + NONCE_LEN + PAD_BLOCK + TAG_LEN"
definition KEK_LABEL :: bytes where "KEK_LABEL = ascii ''cesaconn-storage-v1''"
definition WRAP_LABEL :: bytes where "WRAP_LABEL = ascii ''cesaconn-vault-dek''"
definition DATA_LABEL :: bytes where "DATA_LABEL = ascii ''cesaconn-vault-data''"
definition TAG_A_KEY :: u8 where "TAG_A_KEY = 0x01"
definition TAG_A_SALT :: u8 where "TAG_A_SALT = 0x02"
definition TAG_CONFIG :: u8 where "TAG_CONFIG = 0x03"
definition TAG_IDENTITY :: u8 where "TAG_IDENTITY = 0x04"
definition TAG_PEERS :: u8 where "TAG_PEERS = 0x05"
definition MAX_CONFIG_LEN :: nat where "MAX_CONFIG_LEN = 64 * 1024"
definition MAX_PEERS_LEN :: nat where "MAX_PEERS_LEN = 1024 * 1024"
definition IDENTITY_SEED_LEN :: nat where "IDENTITY_SEED_LEN = 64"

lemmas vault_lens = HEADER_LEN_def NONCE_LEN_def TAG_LEN_def WRAPPED_DEK_LEN_def WRAP_LEN_def
  PAD_BLOCK_def MAX_VAULT_LEN_def MIN_VAULT_LEN_def MAX_CONFIG_LEN_def MAX_PEERS_LEN_def
  IDENTITY_SEED_LEN_def

datatype vault_error =
    Vault_Malformed | WrongKey | Corrupt | TooLarge | Crypto | Io | Vault_InsecureDirectory

record salts =
  d_salt :: bytes
  storage_salt :: bytes

definition salts_to_bytes :: "salts \<Rightarrow> bytes" where
  "salts_to_bytes s = d_salt s @ storage_salt s"

definition salts_from_bytes :: "bytes \<Rightarrow> salts option" where
  "salts_from_bytes bs = do {
     (d, s) \<leftarrow> split_first_chunk 32 bs;
     s \<leftarrow> to_array 32 s;
     Some \<lparr>d_salt = d, storage_salt = s\<rparr>
   }"

definition derive_kek :: "hkdf_salted \<Rightarrow> bytes \<Rightarrow> bytes \<Rightarrow> vault_error + bytes" where
  "derive_kek hkdf d_key salt = ok_or Crypto (hkdf (Some salt) d_key KEK_LABEL 32)"

record vault_contents =
  vc_a_key :: bytes
  vc_a_salt :: bytes
  vc_config :: bytes
  vc_identity :: bytes
  vc_peers :: bytes

section \<open>Contents\<close>

definition put_entry :: "u8 \<Rightarrow> bytes \<Rightarrow> vault_error + bytes" where
  "put_entry etag value =
     and_then (ok_or TooLarge (u32_try_from (length value))) (\<lambda>value_len.
     Inr (etag # u32_to_le value_len @ value))"

primrec put_entries :: "(u8 \<times> bytes) list \<Rightarrow> bytes \<Rightarrow> vault_error + bytes" where
  "put_entries [] out = Inr out"
| "put_entries (e # es) out =
     and_then (put_entry (fst e) (snd e)) (\<lambda>bs. put_entries es (out @ bs))"

definition contents_encode :: "vault_contents \<Rightarrow> vault_error + bytes" where
  "contents_encode c =
     (if MAX_CONFIG_LEN < length (vc_config c) \<or> MAX_PEERS_LEN < length (vc_peers c) then Inl TooLarge
      else put_entries
        [(TAG_A_KEY, vc_a_key c), (TAG_A_SALT, vc_a_salt c), (TAG_CONFIG, vc_config c),
         (TAG_IDENTITY, vc_identity c), (TAG_PEERS, vc_peers c)] [])"

definition take_entry :: "bytes \<Rightarrow> u8 \<Rightarrow> (bytes \<times> bytes) option" where
  "take_entry bs etag = do {
     (found, rest) \<leftarrow> split_first bs;
     _ \<leftarrow> ensure (\<not> found \<noteq> etag);
     (len, rest) \<leftarrow> split_first_chunk 4 rest;
     let len = unat (u32_from_le len);
     _ \<leftarrow> ensure (\<not> length rest < len);
     Some (take len rest, drop len rest)
   }"

definition contents_decode :: "bytes \<Rightarrow> vault_contents option" where
  "contents_decode bs = do {
     (a_key, rest) \<leftarrow> take_entry bs TAG_A_KEY;
     (a_salt, rest) \<leftarrow> take_entry rest TAG_A_SALT;
     (config, rest) \<leftarrow> take_entry rest TAG_CONFIG;
     (identity, rest) \<leftarrow> take_entry rest TAG_IDENTITY;
     (peers, rest) \<leftarrow> take_entry rest TAG_PEERS;
     _ \<leftarrow> ensure (\<not> (rest \<noteq> [] \<or> MAX_CONFIG_LEN < length config \<or> MAX_PEERS_LEN < length peers));
     identity \<leftarrow> to_array IDENTITY_SEED_LEN identity;
     a_key \<leftarrow> to_array 32 a_key;
     a_salt \<leftarrow> to_array 32 a_salt;
     Some \<lparr>vc_a_key = a_key, vc_a_salt = a_salt, vc_config = config, vc_identity = identity,
       vc_peers = peers\<rparr>
   }"

definition contents_ok :: "vault_contents \<Rightarrow> bool" where
  "contents_ok c = (length (vc_a_key c) = 32 \<and> length (vc_a_salt c) = 32 \<and>
     length (vc_identity c) = IDENTITY_SEED_LEN \<and> length (vc_config c) \<le> MAX_CONFIG_LEN \<and>
     length (vc_peers c) \<le> MAX_PEERS_LEN)"

section \<open>Sealing and opening\<close>

definition header :: bytes where
  "header = VAULT_MAGIC @ [VAULT_VERSION]"

definition aad :: "bytes \<Rightarrow> bytes \<Rightarrow> bytes" where
  "aad head label = head @ label"

definition generate_dek :: "bytes option \<Rightarrow> vault_error + bytes" where
  "generate_dek random = ok_or Crypto random"

definition wrap_dek :: "gcm \<Rightarrow> bytes option \<Rightarrow> bytes \<Rightarrow> bytes \<Rightarrow> vault_error + bytes" where
  "wrap_dek G random kek dek =
     and_then (map_err Crypto (encrypt_with_aad G random kek dek (aad header WRAP_LABEL)))
       (\<lambda>(ciphertext, nonce).
     and_then (fail_if (length ciphertext \<noteq> WRAP_LEN - NONCE_LEN) Crypto) (\<lambda>_.
     Inr (nonce @ ciphertext)))"

text \<open>\<open>div_ceil\<close> and \<open>Vec::resize(n, 0)\<close>.\<close>

definition div_ceil :: "nat \<Rightarrow> nat \<Rightarrow> nat" where
  "div_ceil a b = (a + b - 1) div b"

definition resize :: "nat \<Rightarrow> bytes \<Rightarrow> bytes" where
  "resize n xs = take n xs @ replicate (n - length xs) 0"

definition padded_len :: "nat \<Rightarrow> nat" where
  "padded_len used = max (div_ceil used PAD_BLOCK) 1 * PAD_BLOCK"

definition seal :: "gcm \<Rightarrow> bytes option \<Rightarrow> bytes \<Rightarrow> bytes \<Rightarrow> vault_contents \<Rightarrow> vault_error + bytes" where
  "seal G random wrapped dek contents =
     and_then (contents_encode contents) (\<lambda>encoded.
     and_then (ok_or TooLarge (u32_try_from (length encoded))) (\<lambda>encoded_len.
     let plaintext = resize (padded_len (length encoded + 4)) (u32_to_le encoded_len @ encoded) in
     and_then (map_err Crypto (encrypt_with_aad G random dek plaintext (aad header DATA_LABEL)))
       (\<lambda>(ciphertext, nonce).
     let total = HEADER_LEN + WRAP_LEN + NONCE_LEN + length ciphertext in
     and_then (fail_if (MAX_VAULT_LEN < total) TooLarge) (\<lambda>_.
     Inr (header @ wrapped @ nonce @ ciphertext)))))"

definition unpad :: "bytes \<Rightarrow> bytes option" where
  "unpad plaintext = do {
     (len, rest) \<leftarrow> split_first_chunk 4 plaintext;
     let len = unat (u32_from_le len);
     _ \<leftarrow> ensure (\<not> length rest < len);
     then_some (list_all (\<lambda>b. b = 0) (drop len rest)) (take len rest)
   }"

record opened =
  op_wrapped :: bytes
  op_dek :: bytes
  op_contents :: vault_contents

definition vault_open :: "gcm \<Rightarrow> bytes \<Rightarrow> bytes \<Rightarrow> vault_error + opened" where
  "vault_open G kek file =
     and_then (fail_if (MAX_VAULT_LEN < length file) TooLarge) (\<lambda>_.
     and_then (fail_if (length file < MIN_VAULT_LEN) Vault_Malformed) (\<lambda>_.
     and_then (ok_or Vault_Malformed (split_first_chunk HEADER_LEN file)) (\<lambda>(head, rest).
     and_then (fail_if (head \<noteq> header) Vault_Malformed) (\<lambda>_.
     and_then (ok_or Vault_Malformed (split_first_chunk WRAP_LEN rest)) (\<lambda>(wrap, rest).
     and_then (ok_or Vault_Malformed (split_first_chunk NONCE_LEN rest)) (\<lambda>(data_nonce, ciphertext).
     and_then (fail_if ((length ciphertext - TAG_LEN) mod PAD_BLOCK \<noteq> 0) Vault_Malformed) (\<lambda>_.
     and_then (ok_or Vault_Malformed (split_first_chunk NONCE_LEN wrap)) (\<lambda>(wrap_nonce, wrapped_dek).
     and_then (map_err WrongKey (decrypt_with_aad G kek wrapped_dek wrap_nonce (aad head WRAP_LABEL))) (\<lambda>dek_bytes.
     and_then (ok_or Corrupt (to_array 32 dek_bytes)) (\<lambda>dek.
     and_then (map_err Corrupt (decrypt_with_aad G dek ciphertext data_nonce (aad head DATA_LABEL))) (\<lambda>plaintext.
     and_then (ok_or Corrupt (unpad plaintext)) (\<lambda>encoded.
     and_then (ok_or Corrupt (contents_decode encoded)) (\<lambda>contents.
     Inr \<lparr>op_wrapped = wrap, op_dek = dek, op_contents = contents\<rparr>)))))))))))))"

section \<open>Lemmas on contents and padding\<close>

definition entry_layout :: "u8 \<Rightarrow> bytes \<Rightarrow> bytes" where
  "entry_layout etag v = etag # u32_to_le (word_of_nat (length v)) @ v"

definition contents_layout :: "vault_contents \<Rightarrow> bytes" where
  "contents_layout c = entry_layout TAG_A_KEY (vc_a_key c) @ entry_layout TAG_A_SALT (vc_a_salt c) @
     entry_layout TAG_CONFIG (vc_config c) @ entry_layout TAG_IDENTITY (vc_identity c) @
     entry_layout TAG_PEERS (vc_peers c)"

lemma put_entry_layout: "length v < 4294967296 \<Longrightarrow> put_entry t v = Inr (entry_layout t v)"
  by (simp add: put_entry_def entry_layout_def u32_try_from_def)

lemma take_entry_layout [simp]:
  "length v < 4294967296 \<Longrightarrow> take_entry (entry_layout t v @ r) t = Some (v, r)"
  "length v < 4294967296 \<Longrightarrow> take_entry (entry_layout t v) t = Some (v, [])"
  by (simp_all add: take_entry_def entry_layout_def unat_word_of_nat_u32 Let_def)

lemma take_entry_eq_Some:
  "take_entry bs t = Some (v, r) \<longleftrightarrow> length v < 4294967296 \<and> bs = entry_layout t v @ r"
proof
  assume "take_entry bs t = Some (v, r)"
  then obtain l rest where l: "bs = t # l @ rest" "length l = 4" "unat (u32_from_le l) \<le> length rest"
    and v: "v = take (unat (u32_from_le l)) rest" "r = drop (unat (u32_from_le l)) rest"
    by (auto simp: take_entry_def decoder_inversion Let_def not_less)
  from l v have len: "length v = unat (u32_from_le l)" by simp
  with l have "u32_to_le (word_of_nat (length v)) = l" by (simp add: to_from_le)
  moreover have "v @ r = rest" using v by simp
  ultimately show "length v < 4294967296 \<and> bs = entry_layout t v @ r"
    using l len unat_u32_less [of "u32_from_le l"] by (simp add: entry_layout_def)
qed auto

lemma contents_encode_layout: "contents_ok c \<Longrightarrow> contents_encode c = Inr (contents_layout c)"
  by (simp add: contents_ok_def contents_encode_def put_entry_layout contents_layout_def vault_lens not_less)

interpretation contents: strict_codec contents_layout contents_decode contents_ok
proof
  show "contents_decode (contents_layout c) = Some c" if "contents_ok c" for c
    using that by (simp add: contents_ok_def contents_decode_def contents_layout_def to_array_def vault_lens)
  show "contents_ok c \<and> contents_layout c = bs" if "contents_decode bs = Some c" for bs c
    using that
    by (auto simp: contents_decode_def contents_layout_def contents_ok_def decoder_inversion
        take_entry_eq_Some vault_lens)
qed

definition salts_ok :: "salts \<Rightarrow> bool" where
  "salts_ok s = (length (d_salt s) = 32 \<and> length (storage_salt s) = 32)"

interpretation salts: strict_codec salts_to_bytes salts_from_bytes salts_ok
  by unfold_locales
     (auto simp: salts_to_bytes_def salts_from_bytes_def salts_ok_def to_array_def decoder_inversion
       split: if_splits)

lemma length_contents_layout:
  "contents_ok c \<Longrightarrow> length (contents_layout c) = 153 + length (vc_config c) + length (vc_peers c)"
  by (simp add: contents_layout_def entry_layout_def contents_ok_def IDENTITY_SEED_LEN_def)

lemma padded_len_ge: "used \<le> padded_len used"
proof -
  have "used \<le> div_ceil used PAD_BLOCK * PAD_BLOCK"
    unfolding div_ceil_def PAD_BLOCK_def
    using div_mult_mod_eq [of "used + 4096 - 1" 4096] mod_less_divisor [of 4096 "used + 4096 - 1"] by linarith
  also have "\<dots> \<le> padded_len used" by (simp add: padded_len_def)
  finally show ?thesis .
qed

lemma padded_len_le: "0 < used \<Longrightarrow> padded_len used < used + PAD_BLOCK"
proof -
  assume "0 < used"
  then have "1 \<le> div_ceil used PAD_BLOCK"
    using div_le_mono [of 4096 "used + 4096 - 1" 4096] by (simp add: div_ceil_def PAD_BLOCK_def)
  then have "max (div_ceil used PAD_BLOCK) 1 = div_ceil used PAD_BLOCK" by simp
  then show ?thesis
    using div_mult_mod_eq [of "used + 4096 - 1" 4096] \<open>0 < used\<close>
    by (simp add: padded_len_def div_ceil_def PAD_BLOCK_def)
qed

lemma padded_len_block: "PAD_BLOCK dvd padded_len used" "PAD_BLOCK \<le> padded_len used"
  by (simp_all add: padded_len_def)

lemma unpad_resize:
  assumes "length xs < 4294967296" "length xs + 4 \<le> n"
  shows "unpad (resize n (u32_to_le (word_of_nat (length xs)) @ xs)) = Some xs"
proof -
  have "resize n (u32_to_le (word_of_nat (length xs)) @ xs) =
      u32_to_le (word_of_nat (length xs)) @ xs @ replicate (n - length xs - 4) 0"
    using assms by (simp add: resize_def)
  then show ?thesis
    using assms(1) by (simp add: unpad_def unat_word_of_nat_u32 Let_def list_all_iff)
qed

section \<open>Lemmas on sealing and opening\<close>

lemma length_header [simp]: "length header = HEADER_LEN"
  by (simp add: header_def VAULT_MAGIC_def HEADER_LEN_def)

lemma length_resize: "length (resize n xs) = n"
  by (simp add: resize_def)

lemma wrap_dek_Inr:
  assumes "wrap_dek G r kek dek = Inr wrapped"
  obtains n c where "r = Some n" "wrapped = n @ c" "gcm_encrypt G kek n (aad header WRAP_LABEL) dek = Some c"
    "length c = WRAPPED_DEK_LEN"
  using assms by (auto simp: wrap_dek_def and_then_eq_Inr encrypt_with_aad_Inr WRAP_LEN_def)

definition sealed_plaintext :: "vault_contents \<Rightarrow> bytes" where
  "sealed_plaintext c =
     resize (padded_len (length (contents_layout c) + 4))
       (u32_to_le (word_of_nat (length (contents_layout c))) @ contents_layout c)"

lemma length_sealed_plaintext: "length (sealed_plaintext c) = padded_len (length (contents_layout c) + 4)"
  by (simp add: sealed_plaintext_def length_resize)

text \<open>The largest contents with their padding fit the vault's limit.\<close>

lemma contents_fit:
  assumes "contents_ok c"
  shows "length (contents_layout c) < 4294967296"
    and "HEADER_LEN + WRAP_LEN + NONCE_LEN + length (sealed_plaintext c) + TAG_LEN \<le> MAX_VAULT_LEN"
proof -
  have len: "length (contents_layout c) \<le> 1114265"
    using assms by (simp add: length_contents_layout contents_ok_def vault_lens)
  then show "length (contents_layout c) < 4294967296" by simp
  show "HEADER_LEN + WRAP_LEN + NONCE_LEN + length (sealed_plaintext c) + TAG_LEN \<le> MAX_VAULT_LEN"
    using padded_len_le [of "length (contents_layout c) + 4"] len
    by (simp add: length_sealed_plaintext vault_lens)
qed

lemma seal_eq:
  assumes "contents_ok c" "gcm_ok G"
  shows "seal G r wrapped dek c = Inr file \<longleftrightarrow>
    (\<exists>n ct. r = Some n \<and> gcm_encrypt G dek n (aad header DATA_LABEL) (sealed_plaintext c) = Some ct \<and>
       file = header @ wrapped @ n @ ct)"
proof -
  have "MAX_VAULT_LEN < HEADER_LEN + WRAP_LEN + NONCE_LEN + length ct \<longleftrightarrow> False"
    if "gcm_encrypt G dek n a (sealed_plaintext c) = Some ct" for n a ct
    using contents_fit(2) [OF assms(1)] gcm_okD(2) [OF assms(2) that] by (simp add: TAG_LEN_def)
  then show ?thesis
    using contents_fit(1) [OF assms(1)]
    by (fastforce simp: seal_def contents_encode_layout [OF assms(1)] u32_try_from_def Let_def
        sealed_plaintext_def and_then_eq_Inr encrypt_with_aad_Inr)
qed

text \<open>A sealed file passes every check of its layout, whatever key it is opened with.\<close>

lemma open_sealed:
  assumes G: "gcm_ok G" and ok: "contents_ok contents"
    and rnd: "length wn = NONCE_LEN" "length dn = NONCE_LEN" "length wc = WRAPPED_DEK_LEN"
    and sealed: "seal G (Some dn) (wn @ wc) dek contents = Inr vault"
  shows "\<exists>ct. gcm_encrypt G dek dn (aad header DATA_LABEL) (sealed_plaintext contents) = Some ct \<and>
    vault_open G kek vault =
      and_then (map_err WrongKey (decrypt_with_aad G kek wc wn (aad header WRAP_LABEL))) (\<lambda>dek_bytes.
      and_then (ok_or Corrupt (to_array 32 dek_bytes)) (\<lambda>dek.
      and_then (map_err Corrupt (decrypt_with_aad G dek ct dn (aad header DATA_LABEL))) (\<lambda>plaintext.
      and_then (ok_or Corrupt (unpad plaintext)) (\<lambda>encoded.
      and_then (ok_or Corrupt (contents_decode encoded)) (\<lambda>contents.
      Inr \<lparr>op_wrapped = wn @ wc, op_dek = dek, op_contents = contents\<rparr>)))))"
proof -
  from sealed obtain ct where enc: "gcm_encrypt G dek dn (aad header DATA_LABEL) (sealed_plaintext contents) = Some ct"
    and vault: "vault = header @ (wn @ wc) @ dn @ ct"
    unfolding seal_eq [OF ok G] by auto
  have len: "length ct = padded_len (length (contents_layout contents) + 4) + 16"
    using gcm_okD(2) [OF G enc] by (simp add: length_sealed_plaintext)
  have "length vault \<le> MAX_VAULT_LEN" "MIN_VAULT_LEN \<le> length vault"
    using contents_fit(2) [OF ok] padded_len_block(2) [of "length (contents_layout contents) + 4"]
    by (simp_all add: vault rnd len length_sealed_plaintext vault_lens)
  moreover have "(length ct - TAG_LEN) mod PAD_BLOCK = 0"
    using padded_len_block(1) by (simp add: len TAG_LEN_def)
  moreover have "split_first_chunk HEADER_LEN vault = Some (header, (wn @ wc) @ dn @ ct)"
    "split_first_chunk WRAP_LEN ((wn @ wc) @ dn @ ct) = Some (wn @ wc, dn @ ct)"
    "split_first_chunk NONCE_LEN (dn @ ct) = Some (dn, ct)" "split_first_chunk NONCE_LEN (wn @ wc) = Some (wn, wc)"
    unfolding vault using rnd by (intro split_first_chunk_append; simp add: WRAP_LEN_def)+
  ultimately have "vault_open G kek vault =
      and_then (map_err WrongKey (decrypt_with_aad G kek wc wn (aad header WRAP_LABEL))) (\<lambda>dek_bytes.
      and_then (ok_or Corrupt (to_array 32 dek_bytes)) (\<lambda>dek.
      and_then (map_err Corrupt (decrypt_with_aad G dek ct dn (aad header DATA_LABEL))) (\<lambda>plaintext.
      and_then (ok_or Corrupt (unpad plaintext)) (\<lambda>encoded.
      and_then (ok_or Corrupt (contents_decode encoded)) (\<lambda>contents.
      Inr \<lparr>op_wrapped = wn @ wc, op_dek = dek, op_contents = contents\<rparr>)))))"
    by (simp add: vault_open_def)
  with enc show ?thesis by blast
qed

lemma unpad_sealed:
  "contents_ok c \<Longrightarrow> unpad (sealed_plaintext c) = Some (contents_layout c)"
  unfolding sealed_plaintext_def using contents_fit(1) padded_len_ge by (intro unpad_resize) auto

lemma open_after_seal:
  assumes "gcm_ok G" "contents_ok contents" "length dek = 32"
    and "length wn = NONCE_LEN" "length dn = NONCE_LEN"
    and "wrap_dek G (Some wn) kek dek = Inr wrapped"
    and "seal G (Some dn) wrapped dek contents = Inr vault"
  shows "vault_open G kek vault = Inr \<lparr>op_wrapped = wrapped, op_dek = dek, op_contents = contents\<rparr>"
proof -
  from assms(6) obtain wc where w: "wrapped = wn @ wc" "length wc = WRAPPED_DEK_LEN"
    and wenc: "gcm_encrypt G kek wn (aad header WRAP_LABEL) dek = Some wc"
    by (elim wrap_dek_Inr) auto
  from open_sealed [OF assms(1,2,4,5) w(2) assms(7) [unfolded w(1)], of kek] obtain ct
    where "gcm_encrypt G dek dn (aad header DATA_LABEL) (sealed_plaintext contents) = Some ct"
      and "vault_open G kek vault =
      and_then (map_err WrongKey (decrypt_with_aad G kek wc wn (aad header WRAP_LABEL))) (\<lambda>dek_bytes.
      and_then (ok_or Corrupt (to_array 32 dek_bytes)) (\<lambda>dek.
      and_then (map_err Corrupt (decrypt_with_aad G dek ct dn (aad header DATA_LABEL))) (\<lambda>plaintext.
      and_then (ok_or Corrupt (unpad plaintext)) (\<lambda>encoded.
      and_then (ok_or Corrupt (contents_decode encoded)) (\<lambda>contents.
      Inr \<lparr>op_wrapped = wn @ wc, op_dek = dek, op_contents = contents\<rparr>)))))" by blast
  then show ?thesis
    using wenc gcm_okD(1) [OF assms(1)] assms(2,3) w(1)
    by (simp add: decrypt_with_aad_def to_array_def unpad_sealed contents.dec_enc)
qed

section \<open>Properties\<close>

text \<open>
  C4. What is sealed opens again: a vault file sealed with a wrapped key opens with the same
  key-encryption key to exactly the contents, the data-encryption key and the wrapping that
  went in, for every contents within the limits.
\<close>
theorem vault_roundtrip:
  assumes "gcm_ok G" "contents_ok contents" "length dek = 32"
    and "length wn = NONCE_LEN" "length dn = NONCE_LEN"
    and "wrap_dek G (Some wn) kek dek = Inr wrapped"
    and "seal G (Some dn) wrapped dek contents = Inr vault"
  shows "vault_open G kek vault = Inr \<lparr>op_wrapped = wrapped, op_dek = dek, op_contents = contents\<rparr>"
  using assms by (rule open_after_seal)

text \<open>
  C34. A wrong data password is reported as such, never as a damaged file: opening a sealed
  vault with a key under which the wrapped key does not authenticate is \<open>WrongKey\<close>.
\<close>
theorem wrong_password_reported:
  assumes "gcm_ok G" "contents_ok contents"
    and "length wn = NONCE_LEN" "length dn = NONCE_LEN" "length wc = WRAPPED_DEK_LEN"
    and "seal G (Some dn) (wn @ wc) dek contents = Inr vault"
    and "gcm_decrypt G kek wn (aad header WRAP_LABEL) wc = None"
  shows "vault_open G kek vault = Inl WrongKey"
  using open_sealed [OF assms(1-6), of kek] assms(7) by (auto simp: decrypt_with_aad_def)

text \<open>
  Saving never fails for a reason of its own: whenever random bytes and the cipher are
  there, every contents within the limits is sealed, and the size of the file says only how many
  4096-byte blocks are inside.
\<close>
theorem seal_total:
  assumes "gcm_ok G" "contents_ok contents"
    and "length wrapped = WRAP_LEN" "random = Some nonce" "length nonce = NONCE_LEN"
    and "gcm_encrypt G dek nonce (aad header DATA_LABEL) (sealed_plaintext contents) = Some ct"
  shows "\<exists>file. seal G random wrapped dek contents = Inr file \<and>
    length file = HEADER_LEN + WRAP_LEN + NONCE_LEN + TAG_LEN
      + padded_len (157 + length (vc_config contents) + length (vc_peers contents))"
proof -
  have "length ct = padded_len (157 + length (vc_config contents) + length (vc_peers contents)) + TAG_LEN"
    using gcm_okD(2) [OF assms(1,6)] length_contents_layout [OF assms(2)]
    by (simp add: length_sealed_plaintext TAG_LEN_def add.commute add.left_commute)
  then show ?thesis
    using assms by (intro exI [of _ "header @ wrapped @ nonce @ ct"]) (auto simp: seal_eq)
qed

definition sample_contents :: vault_contents where
  "sample_contents = \<lparr>vc_a_key = replicate 32 1, vc_a_salt = replicate 32 2, vc_config = [1, 0, 0],
     vc_identity = replicate 64 3, vc_peers = [0, 0]\<rparr>"

definition sample_wrapped :: bytes where
  "sample_wrapped = replicate 12 5 @ replicate 32 6 @ demo_tag (replicate 32 4) (replicate 12 5) (aad header WRAP_LABEL)"

definition sample_vault :: bytes where
  "sample_vault = header @ sample_wrapped @ replicate 12 7 @ sealed_plaintext sample_contents
     @ demo_tag (replicate 32 6) (replicate 12 7) (aad header DATA_LABEL)"

lemma sample_contents_ok: "contents_ok sample_contents"
  by (simp add: contents_ok_def sample_contents_def vault_lens)

lemma sample_wrap: "wrap_dek demo_gcm (Some (replicate 12 5)) (replicate 32 4) (replicate 32 6) = Inr sample_wrapped"
  by (simp add: wrap_dek_def encrypt_with_aad_def demo_gcm_def sample_wrapped_def demo_tag_def vault_lens)

lemma sample_seal:
  "seal demo_gcm (Some (replicate 12 7)) sample_wrapped (replicate 32 6) sample_contents = Inr sample_vault"
  unfolding seal_eq [OF sample_contents_ok demo_gcm_ok] by (simp add: demo_gcm_def sample_vault_def)

theorem vault_roundtrip_witness:
  "vault_open demo_gcm (replicate 32 4) sample_vault =
     Inr \<lparr>op_wrapped = sample_wrapped, op_dek = replicate 32 6, op_contents = sample_contents\<rparr>"
  by (rule vault_roundtrip [OF demo_gcm_ok sample_contents_ok _ _ _ sample_wrap sample_seal])
     (simp_all add: vault_lens)

theorem wrong_password_reported_witness:
  "vault_open demo_gcm (replicate 32 0) sample_vault = Inl WrongKey"
proof -
  let ?wc = "replicate 32 6 @ demo_tag (replicate 32 4) (replicate 12 5) (aad header WRAP_LABEL)"
  have "sum_list (replicate 32 (0 :: u8)) \<noteq> sum_list (replicate 32 4)"
    by (simp add: sum_list_replicate)
  then have "gcm_decrypt demo_gcm (replicate 32 0) (replicate 12 5) (aad header WRAP_LABEL) ?wc = None"
    by (simp add: demo_gcm_def demo_tag_def replicate_eq_replicate)
  then show ?thesis
    using wrong_password_reported [OF demo_gcm_ok sample_contents_ok _ _ _ sample_seal [unfolded sample_wrapped_def], of "replicate 32 0"]
    by (simp add: vault_lens demo_tag_def)
qed

theorem seal_total_witness:
  "\<exists>vault. seal demo_gcm (Some (replicate 12 7)) sample_wrapped (replicate 32 6) sample_contents = Inr vault \<and>
    length vault = HEADER_LEN + WRAP_LEN + NONCE_LEN + TAG_LEN
      + padded_len (157 + length (vc_config sample_contents) + length (vc_peers sample_contents))"
  by (rule seal_total [OF demo_gcm_ok sample_contents_ok _ _ _,
        where ct = "sealed_plaintext sample_contents @ demo_tag (replicate 32 6) (replicate 12 7) (aad header DATA_LABEL)"])
     (simp_all add: demo_gcm_def sample_wrapped_def demo_tag_def vault_lens)

section \<open>The file\<close>

text \<open>\<open>dir_meta\<close> is \<open>None\<close> for a path without a parent; then the metadata of the directory.\<close>

definition check_vault_dir :: "u32 \<Rightarrow> metadata option option \<Rightarrow> vault_error + unit" where
  "check_vault_dir euid dir_meta =
     and_then (ok_or Io dir_meta) (\<lambda>meta. map_err Vault_InsecureDirectory (check_private_dir euid meta))"

text \<open>\<open>prepare_dir\<close>: the outcomes of making the parents and the directory, and its metadata
  afterwards.\<close>

definition prepare_dir :: "bool \<Rightarrow> created \<Rightarrow> u32 \<Rightarrow> metadata option \<Rightarrow> vault_error + unit" where
  "prepare_dir parents_ok create euid meta =
     and_then (fail_if (\<not> parents_ok) Io) (\<lambda>_.
     and_then (fail_if (create = CreateFailed) Io) (\<lambda>_.
     map_err Vault_InsecureDirectory (check_private_dir euid meta)))"

record file_meta =
  fm_is_file :: bool
  fm_uid :: u32
  fm_mode :: u32
  fm_len :: nat

datatype stat = Stat file_meta | NotFound | StatFailed

text \<open>\<open>read_file\<close>: \<open>read\<close> is what opening and reading the file gives (\<open>None\<close> on an error), cut
  to one byte more than the limit.\<close>

definition read_file ::
  "u32 \<Rightarrow> metadata option option \<Rightarrow> stat \<Rightarrow> bytes option \<Rightarrow> vault_error + bytes option" where
  "read_file euid dir_meta st read =
     and_then (check_vault_dir euid dir_meta) (\<lambda>_.
     (case st of
        NotFound \<Rightarrow> Inr None
      | StatFailed \<Rightarrow> Inl Io
      | Stat meta \<Rightarrow>
          and_then (fail_if (\<not> fm_is_file meta \<or> fm_uid meta \<noteq> euid \<or> and (fm_mode meta) 0x3F \<noteq> 0)
            Vault_InsecureDirectory) (\<lambda>_.
          and_then (fail_if (MAX_VAULT_LEN < fm_len meta) TooLarge) (\<lambda>_.
          and_then (ok_or Io read) (\<lambda>content.
          let bs = take (MAX_VAULT_LEN + 1) content in
          and_then (fail_if (MAX_VAULT_LEN < length bs) TooLarge) (\<lambda>_.
          Inr (Some bs)))))))"

text \<open>The vault file and the temporary file of one write.\<close>

record vault_dir =
  vault_file :: "bytes option"
  temp_file :: "bytes option"

text \<open>The outcomes of the system calls of one write: the random suffix, creating the new
  file, how many bytes were written before an error (\<open>None\<close>: all), the three syncs and the
  rename, and removing the temporary file.\<close>

record write_calls =
  suffix_ok :: bool
  create_new_ok :: bool
  written_until :: "nat option"
  sync_file_ok :: bool
  rename_ok :: bool
  sync_dir_ok :: bool
  remove_tmp_ok :: bool

definition write_steps :: "write_calls \<Rightarrow> bytes \<Rightarrow> vault_dir \<Rightarrow> (vault_error + unit) \<times> vault_dir" where
  "write_steps w bs d =
     (if \<not> create_new_ok w \<or> temp_file d \<noteq> None then (Inl Io, d)
      else
        (case written_until w of
           Some n \<Rightarrow> (Inl Io, d\<lparr>temp_file := Some (take n bs)\<rparr>)
         | None \<Rightarrow>
             let d = d\<lparr>temp_file := Some bs\<rparr>
             in if \<not> sync_file_ok w then (Inl Io, d)
                else if \<not> rename_ok w then (Inl Io, d)
                else
                  let d = d\<lparr>vault_file := temp_file d, temp_file := None\<rparr>
                  in (if sync_dir_ok w then Inr () else Inl Io, d)))"

definition write_file_atomic ::
  "u32 \<Rightarrow> metadata option option \<Rightarrow> write_calls \<Rightarrow> bytes \<Rightarrow> vault_dir \<Rightarrow> (vault_error + unit) \<times> vault_dir" where
  "write_file_atomic euid dir_meta w bs d =
     (case check_vault_dir euid dir_meta of
        Inl e \<Rightarrow> (Inl e, d)
      | Inr _ \<Rightarrow>
          if \<not> suffix_ok w then (Inl Crypto, d)
          else
            (case write_steps w bs d of
               (Inr u, d') \<Rightarrow> (Inr u, d')
             | (Inl e, d') \<Rightarrow> (Inl e, if remove_tmp_ok w then d'\<lparr>temp_file := None\<rparr> else d')))"

definition delete_file ::
  "u32 \<Rightarrow> metadata option option \<Rightarrow> bool \<Rightarrow> bool \<Rightarrow> vault_dir \<Rightarrow> (vault_error + unit) \<times> vault_dir" where
  "delete_file euid dir_meta remove_ok sync_ok d =
     (case check_vault_dir euid dir_meta of
        Inl e \<Rightarrow> (Inl e, d)
      | Inr _ \<Rightarrow>
          (case vault_file d of
             None \<Rightarrow> (Inr (), d)
           | Some _ \<Rightarrow>
               if \<not> remove_ok then (Inl Io, d)
               else (if sync_ok then Inr () else Inl Io, d\<lparr>vault_file := None\<rparr>)))"

text \<open>
  C33. Writing the vault is atomic: whatever system call fails, the vault file afterwards is
  the old file or the complete new one, never a part; on success it is the new one and no
  temporary file is left.
\<close>
theorem write_atomic:
  assumes "write_file_atomic euid dir_meta w bs d = (result, d')"
  shows "(vault_file d' = vault_file d \<or> vault_file d' = Some bs) \<and>
    (result = Inr () \<longrightarrow> vault_file d' = Some bs \<and> temp_file d' = None)"
  using assms
  by (auto simp: write_file_atomic_def write_steps_def Let_def split: sum.splits option.splits if_splits)

definition private_dir :: "metadata option option" where
  "private_dir = Some (Some \<lparr>meta_is_dir = True, meta_uid = 501, meta_mode = 0x41C0\<rparr>)"

definition all_calls_ok :: write_calls where
  "all_calls_ok = \<lparr>suffix_ok = True, create_new_ok = True, written_until = None, sync_file_ok = True,
     rename_ok = True, sync_dir_ok = True, remove_tmp_ok = True\<rparr>"

lemma private_dir_ok: "check_vault_dir 501 private_dir = Inr ()"
  by (simp add: check_vault_dir_def private_dir_def check_private_dir_def)

theorem write_atomic_witness:
  "write_file_atomic 501 private_dir (all_calls_ok\<lparr>rename_ok := False\<rparr>) [1, 2] \<lparr>vault_file = Some [0], temp_file = None\<rparr>
     = (Inl Io, \<lparr>vault_file = Some [0], temp_file = None\<rparr>) \<and>
   (Some [0 :: u8] = Some [0] \<or> Some [0 :: u8] = Some [1, 2])"
proof
  let ?d = "\<lparr>vault_file = Some [0], temp_file = None\<rparr> :: vault_dir"
  show run: "write_file_atomic 501 private_dir (all_calls_ok\<lparr>rename_ok := False\<rparr>) [1, 2] ?d = (Inl Io, ?d)"
    by (simp add: write_file_atomic_def write_steps_def private_dir_ok all_calls_ok_def Let_def)
  from write_atomic [OF run] show "Some [0 :: u8] = Some [0] \<or> Some [0 :: u8] = Some [1, 2]" by simp
qed

text \<open>
  An error of a write does not mean that nothing changed: when only the last step, syncing
  the directory, fails, the write is reported as failed although the new vault is in place.
\<close>
theorem failed_write_may_replace:
  assumes "check_vault_dir euid dir_meta = Inr ()" "temp_file d = None"
  shows "\<exists>w d'. write_file_atomic euid dir_meta w bs d = (Inl Io, d') \<and> vault_file d' = Some bs"
  using assms
  by (intro exI [of _ "all_calls_ok\<lparr>sync_dir_ok := False\<rparr>"] exI [of _ "\<lparr>vault_file = Some bs, temp_file = None\<rparr>"])
     (simp add: write_file_atomic_def write_steps_def all_calls_ok_def Let_def)

theorem failed_write_may_replace_witness:
  "\<exists>w d'. write_file_atomic 501 private_dir w [1, 2] \<lparr>vault_file = Some [0], temp_file = None\<rparr> = (Inl Io, d')
     \<and> vault_file d' = Some [1, 2]"
  by (rule failed_write_may_replace) (simp_all add: private_dir_ok)

end
