(* ===== verification/Proc.thy ===== *)
theory Proc
  imports Auth_Errors
begin

text \<open>
  Protocol code as processes. An \<open>async fn\<close> that talks over one connection is a tree of what
  it does next: return, write some bytes, or read an exact number of bytes
  (\<open>write_all\<close> / \<open>read_exact\<close> under a timeout). The continuation of a write or read gets its
  outcome, so every error path of the code is a branch of the tree.

  Two ways to run one: \<open>run\<close> checks a process against a trace of what happened on the
  connection, with an arbitrary peer and an arbitrary network behind it (for what an attacker
  can achieve); \<open>link\<close> connects two processes by two reliable byte streams (for what two honest
  devices achieve). \<open>link\<close> takes fuel; the statements about it say that a given amount is enough.
\<close>

section \<open>Processes\<close>

datatype io_failure = IoFailed | IoTimedOut

datatype 'a proc =
    Ret 'a
  | Put bytes "io_failure + unit \<Rightarrow> 'a proc"
  | Get nat "io_failure + bytes \<Rightarrow> 'a proc"

primrec pbind :: "'a proc \<Rightarrow> ('a \<Rightarrow> 'b proc) \<Rightarrow> 'b proc" where
  "pbind (Ret x) f = f x"
| "pbind (Put m k) f = Put m (\<lambda>r. pbind (k r) f)"
| "pbind (Get n k) f = Get n (\<lambda>r. pbind (k r) f)"

text \<open>\<open>let x = p.await?; f(x)\<close>, and \<open>p.await.map_err(|_| e)\<close>.\<close>

definition attempt :: "('e + 'a) proc \<Rightarrow> ('a \<Rightarrow> ('e + 'b) proc) \<Rightarrow> ('e + 'b) proc" where
  "attempt p f = pbind p (\<lambda>r. case r of Inl e \<Rightarrow> Ret (Inl e) | Inr x \<Rightarrow> f x)"

definition attempt_err :: "'f \<Rightarrow> ('e + 'a) proc \<Rightarrow> ('a \<Rightarrow> ('f + 'b) proc) \<Rightarrow> ('f + 'b) proc" where
  "attempt_err e p f = pbind p (\<lambda>r. case r of Inl _ \<Rightarrow> Ret (Inl e) | Inr x \<Rightarrow> f x)"

text \<open>A plain result inside a process: \<open>let x = r?; f(x)\<close>.\<close>

definition attempt_result :: "'e + 'a \<Rightarrow> ('a \<Rightarrow> ('e + 'b) proc) \<Rightarrow> ('e + 'b) proc" where
  "attempt_result r f = (case r of Inl e \<Rightarrow> Ret (Inl e) | Inr x \<Rightarrow> f x)"

text \<open>The two stream operations with the errors the handshake code gives them.\<close>

definition stream_write :: "bytes \<Rightarrow> (auth_error + unit) proc" where
  "stream_write m = Put m (\<lambda>r. Ret
     (case r of
        Inl IoTimedOut \<Rightarrow> Inl WriteTimeout
      | Inl IoFailed \<Rightarrow> Inl FailedToWriteToStream
      | Inr _ \<Rightarrow> Inr ()))"

definition stream_read :: "nat \<Rightarrow> (auth_error + bytes) proc" where
  "stream_read n = Get n (\<lambda>r. Ret
     (case r of
        Inl IoTimedOut \<Rightarrow> Inl ReadTimeout
      | Inl IoFailed \<Rightarrow> Inl FailedToReadFromStream
      | Inr m \<Rightarrow> Inr m))"

lemma pbind_assoc [simp]: "pbind (pbind p f) g = pbind p (\<lambda>x. pbind (f x) g)"
  by (induction p) simp_all

lemma pbind_Ret: "pbind p Ret = p"
  by (induction p) simp_all

lemma attempt_simps [simp]:
  "attempt (Ret (Inr x)) f = f x" "attempt (Ret (Inl e)) f = Ret (Inl e)"
  "attempt (Put m k) f = Put m (\<lambda>r. attempt (k r) f)" "attempt (Get n h) f = Get n (\<lambda>r. attempt (h r) f)"
  by (simp_all add: attempt_def)

lemma attempt_Ret_Inr: "attempt p (\<lambda>x. Ret (Inr x)) = p"
proof (induction p)
  case (Ret r)
  then show ?case by (cases r) simp_all
qed simp_all

lemma attempt_assoc: "attempt (attempt p f) g = attempt p (\<lambda>x. attempt (f x) g)"
proof (induction p)
  case (Ret r)
  then show ?case by (cases r) simp_all
qed simp_all

lemma attempt_err_simps [simp]:
  "attempt_err e (Ret (Inr x)) f = f x" "attempt_err e (Ret (Inl d)) f = Ret (Inl e)"
  "attempt_err e (Put m k) f = Put m (\<lambda>r. attempt_err e (k r) f)"
  "attempt_err e (Get n h) f = Get n (\<lambda>r. attempt_err e (h r) f)"
  by (simp_all add: attempt_err_def)

lemma attempt_result_simps [simp]:
  "attempt_result (Inr x) f = f x" "attempt_result (Inl e) f = Ret (Inl e)"
  by (simp_all add: attempt_result_def)

section \<open>Traces\<close>

datatype event =
    Sent bytes
  | SendFailed bytes io_failure
  | Got bytes
  | GetFailed io_failure

text \<open>\<open>run p tr = Some x\<close>: \<open>tr\<close> is a complete trace of \<open>p\<close>, which returned \<open>x\<close>. A read of \<open>n\<close>
  bytes gets exactly \<open>n\<close> bytes, any bytes.\<close>

primrec run :: "'a proc \<Rightarrow> event list \<Rightarrow> 'a option" where
  "run (Ret x) tr = (if tr = [] then Some x else None)"
| "run (Put m k) tr =
     (case tr of
        Sent m' # tr' \<Rightarrow> if m' = m then run (k (Inr ())) tr' else None
      | SendFailed m' e # tr' \<Rightarrow> if m' = m then run (k (Inl e)) tr' else None
      | _ \<Rightarrow> None)"
| "run (Get n k) tr =
     (case tr of
        Got m # tr' \<Rightarrow> if length m = n then run (k (Inr m)) tr' else None
      | GetFailed e # tr' \<Rightarrow> run (k (Inl e)) tr'
      | _ \<Rightarrow> None)"

text \<open>A process after a process: the trace splits.\<close>

lemma run_pbind:
  "run (pbind p f) tr = Some y \<longleftrightarrow>
   (\<exists>tr1 tr2 x. tr = tr1 @ tr2 \<and> run p tr1 = Some x \<and> run (f x) tr2 = Some y)"
proof (induction p arbitrary: tr)
  case (Ret x)
  show ?case by auto
next
  case (Put m k)
  have split: "(\<exists>tr1 tr2 x. tr = tr1 @ tr2 \<and> run (Put m k) tr1 = Some x \<and> run (f x) tr2 = Some y) \<longleftrightarrow>
    (\<exists>r e tr'. tr = e # tr' \<and> (e = Sent m \<and> r = Inr () \<or> (\<exists>i. e = SendFailed m i \<and> r = Inl i)) \<and>
      (\<exists>tr1 tr2 x. tr' = tr1 @ tr2 \<and> run (k r) tr1 = Some x \<and> run (f x) tr2 = Some y))"
    (is "?L = ?R")
  proof
    assume ?L
    then obtain tr1 tr2 x where t: "tr = tr1 @ tr2" "run (Put m k) tr1 = Some x" "run (f x) tr2 = Some y"
      by blast
    then obtain e t1 where "tr1 = e # t1" by (cases tr1) auto
    with t show ?R
      by (cases e) (auto split: if_splits intro: exI [of _ "Inr ()"])
  next
    assume ?R
    then obtain r e tr' tr1 tr2 x where "tr = e # tr'" "tr' = tr1 @ tr2" "run (k r) tr1 = Some x"
      "run (f x) tr2 = Some y" "e = Sent m \<and> r = Inr () \<or> (\<exists>i. e = SendFailed m i \<and> r = Inl i)"
      by blast
    then show ?L by (intro exI [of _ "e # tr1"] exI [of _ tr2] exI [of _ x]) auto
  qed
  have "run (pbind (Put m k) f) tr = Some y \<longleftrightarrow>
    (\<exists>r e tr'. tr = e # tr' \<and> (e = Sent m \<and> r = Inr () \<or> (\<exists>i. e = SendFailed m i \<and> r = Inl i)) \<and>
      run (pbind (k r) f) tr' = Some y)"
    by (auto split: list.splits event.splits)
  then show ?case unfolding split using Put.IH by auto
next
  case (Get n k)
  have split: "(\<exists>tr1 tr2 x. tr = tr1 @ tr2 \<and> run (Get n k) tr1 = Some x \<and> run (f x) tr2 = Some y) \<longleftrightarrow>
    (\<exists>r e tr'. tr = e # tr' \<and> ((\<exists>m. e = Got m \<and> r = Inr m \<and> length m = n) \<or> (\<exists>i. e = GetFailed i \<and> r = Inl i)) \<and>
      (\<exists>tr1 tr2 x. tr' = tr1 @ tr2 \<and> run (k r) tr1 = Some x \<and> run (f x) tr2 = Some y))"
    (is "?L = ?R")
  proof
    assume ?L
    then obtain tr1 tr2 x where t: "tr = tr1 @ tr2" "run (Get n k) tr1 = Some x" "run (f x) tr2 = Some y"
      by blast
    then obtain e t1 where "tr1 = e # t1" by (cases tr1) auto
    with t show ?R by (cases e) (auto split: if_splits)
  next
    assume ?R
    then obtain r e tr' tr1 tr2 x where "tr = e # tr'" "tr' = tr1 @ tr2" "run (k r) tr1 = Some x"
      "run (f x) tr2 = Some y"
      "(\<exists>m. e = Got m \<and> r = Inr m \<and> length m = n) \<or> (\<exists>i. e = GetFailed i \<and> r = Inl i)"
      by blast
    then show ?L by (intro exI [of _ "e # tr1"] exI [of _ tr2] exI [of _ x]) auto
  qed
  have "run (pbind (Get n k) f) tr = Some y \<longleftrightarrow>
    (\<exists>r e tr'. tr = e # tr' \<and> ((\<exists>m. e = Got m \<and> r = Inr m \<and> length m = n) \<or> (\<exists>i. e = GetFailed i \<and> r = Inl i)) \<and>
      run (pbind (k r) f) tr' = Some y)"
    by (auto split: list.splits event.splits)
  then show ?case unfolding split using Get.IH by auto
qed

text \<open>A step that succeeds, and its rest.\<close>

lemma run_case_Inr:
  "run (case r of Inl e \<Rightarrow> Ret (Inl (g e)) | Inr x \<Rightarrow> f x) tr = Some (Inr y) \<longleftrightarrow>
   (\<exists>x. r = Inr x \<and> run (f x) tr = Some (Inr y))"
  by (cases r) auto

lemma run_attempt_Inr:
  "run (attempt p f) tr = Some (Inr y) \<longleftrightarrow>
   (\<exists>tr1 tr2 x. tr = tr1 @ tr2 \<and> run p tr1 = Some (Inr x) \<and> run (f x) tr2 = Some (Inr y))"
  unfolding attempt_def run_pbind run_case_Inr by blast

lemma run_attempt_err_Inr:
  "run (attempt_err e p f) tr = Some (Inr y) \<longleftrightarrow>
   (\<exists>tr1 tr2 x. tr = tr1 @ tr2 \<and> run p tr1 = Some (Inr x) \<and> run (f x) tr2 = Some (Inr y))"
  unfolding attempt_err_def run_pbind run_case_Inr by blast

lemma run_attempt_result_Inr:
  "run (attempt_result r f) tr = Some (Inr y) \<longleftrightarrow> (\<exists>x. r = Inr x \<and> run (f x) tr = Some (Inr y))"
  by (cases r) auto

lemma run_stream_write: "run (stream_write m) tr = Some (Inr u) \<longleftrightarrow> tr = [Sent m]"
  by (auto simp: stream_write_def split: list.splits event.splits if_splits io_failure.splits)

lemma run_stream_read: "run (stream_read n) tr = Some (Inr m) \<longleftrightarrow> tr = [Got m] \<and> length m = n"
  by (auto simp: stream_read_def split: list.splits event.splits if_splits io_failure.splits)

lemma run_Ret: "run (Ret x) tr = Some y \<longleftrightarrow> tr = [] \<and> x = y"
  by auto

text \<open>Renaming errors does not change what succeeds.\<close>

lemma relabel_eq_Inr: "(case r of Inl e \<Rightarrow> Inl (g e) | Inr x \<Rightarrow> Inr x) = Inr y \<longleftrightarrow> r = Inr y"
  by (cases r) auto

lemma run_relabel_Inr:
  "run (pbind p (\<lambda>r. Ret (case r of Inl e \<Rightarrow> Inl (g e) | Inr x \<Rightarrow> Inr x))) tr = Some (Inr y) \<longleftrightarrow>
   run p tr = Some (Inr y)"
  unfolding run_pbind run_Ret relabel_eq_Inr by auto

lemmas run_simps = run_attempt_Inr run_attempt_err_Inr run_attempt_result_Inr run_stream_write run_stream_read run_Ret

text \<open>What holds of every value a process can return, whatever happens on the connection.\<close>

definition always :: "('a \<Rightarrow> bool) \<Rightarrow> 'a proc \<Rightarrow> bool" where
  "always P p = (\<forall>tr x. run p tr = Some x \<longrightarrow> P x)"

lemma alwaysD: "always P p \<Longrightarrow> run p tr = Some x \<Longrightarrow> P x"
  by (simp add: always_def)

lemma always_Ret [simp]: "always P (Ret x) \<longleftrightarrow> P x"
  by (auto simp: always_def)

lemma always_pbind: "always Q p \<Longrightarrow> (\<And>x. Q x \<Longrightarrow> always P (f x)) \<Longrightarrow> always P (pbind p f)"
  unfolding always_def run_pbind by blast

lemma always_pbind_any: "(\<And>x. always P (f x)) \<Longrightarrow> always P (pbind p f)"
  by (auto simp: always_def run_pbind)

lemma always_mono: "always Q p \<Longrightarrow> (\<And>x. Q x \<Longrightarrow> P x) \<Longrightarrow> always P p"
  by (auto simp: always_def)

section \<open>Two ends of a connection\<close>

text \<open>\<open>link fuel p q to_q to_p\<close>: both ends run, the left one as long as it can. An end whose
  peer has returned reads a closed connection once the stream is drained.\<close>

fun link :: "nat \<Rightarrow> 'a proc \<Rightarrow> 'b proc \<Rightarrow> bytes \<Rightarrow> bytes \<Rightarrow> ('a \<times> 'b) option" where
  "link 0 p q to_q to_p = None"
| "link (Suc fuel) (Put m k) q to_q to_p = link fuel (k (Inr ())) q (to_q @ m) to_p"
| "link (Suc fuel) (Ret x) (Ret y) to_q to_p = Some (x, y)"
| "link (Suc fuel) (Ret x) (Put m k) to_q to_p = link fuel (Ret x) (k (Inr ())) to_q (to_p @ m)"
| "link (Suc fuel) (Ret x) (Get n k) to_q to_p =
     (if n \<le> length to_q then link fuel (Ret x) (k (Inr (take n to_q))) (drop n to_q) to_p
      else link fuel (Ret x) (k (Inl IoFailed)) to_q to_p)"
| "link (Suc fuel) (Get n k) q to_q to_p =
     (if n \<le> length to_p then link fuel (k (Inr (take n to_p))) q to_q (drop n to_p)
      else
        (case q of
           Ret y \<Rightarrow> link fuel (k (Inl IoFailed)) q to_q to_p
         | Put m h \<Rightarrow> link fuel (Get n k) (h (Inr ())) to_q (to_p @ m)
         | Get l h \<Rightarrow>
             if l \<le> length to_q then link fuel (Get n k) (h (Inr (take l to_q))) (drop l to_q) to_p
             else None))"

text \<open>The same equations for a numeral as fuel, for evaluating a run.\<close>

lemma link_numeral [simp]:
  "link (numeral v) (Put m k) q to_q to_p = link (pred_numeral v) (k (Inr ())) q (to_q @ m) to_p"
  "link (numeral v) (Ret x) (Ret y) to_q to_p = Some (x, y)"
  "link (numeral v) (Ret x) (Put m h) to_q to_p = link (pred_numeral v) (Ret x) (h (Inr ())) to_q (to_p @ m)"
  "link (numeral v) (Ret x) (Get n g) to_q to_p =
     (if n \<le> length to_q then link (pred_numeral v) (Ret x) (g (Inr (take n to_q))) (drop n to_q) to_p
      else link (pred_numeral v) (Ret x) (g (Inl IoFailed)) to_q to_p)"
  "link (numeral v) (Get n f) q to_q to_p =
     (if n \<le> length to_p then link (pred_numeral v) (f (Inr (take n to_p))) q to_q (drop n to_p)
      else
        (case q of
           Ret y \<Rightarrow> link (pred_numeral v) (f (Inl IoFailed)) q to_q to_p
         | Put m h \<Rightarrow> link (pred_numeral v) (Get n f) (h (Inr ())) to_q (to_p @ m)
         | Get l h \<Rightarrow>
             if l \<le> length to_q then link (pred_numeral v) (Get n f) (h (Inr (take l to_q))) (drop l to_q) to_p
             else None))"
  by (simp_all add: numeral_eq_Suc)

section \<open>Conversations\<close>

text \<open>\<open>talks p q to_q to_p x y\<close>: the two ends, scheduled in any order, come to return \<open>x\<close> and \<open>y\<close>
  with everything written also read, and neither read from a closed connection.\<close>

inductive talks :: "'a proc \<Rightarrow> 'b proc \<Rightarrow> bytes \<Rightarrow> bytes \<Rightarrow> 'a \<Rightarrow> 'b \<Rightarrow> bool" where
  talks_Ret: "talks (Ret x) (Ret y) [] [] x y"
| talks_PutL: "talks (k (Inr ())) q (to_q @ m) to_p x y \<Longrightarrow> talks (Put m k) q to_q to_p x y"
| talks_PutR: "talks p (h (Inr ())) to_q (to_p @ m) x y \<Longrightarrow> talks p (Put m h) to_q to_p x y"
| talks_GetL: "n \<le> length to_p \<Longrightarrow> talks (k (Inr (take n to_p))) q to_q (drop n to_p) x y \<Longrightarrow>
    talks (Get n k) q to_q to_p x y"
| talks_GetR: "n \<le> length to_q \<Longrightarrow> talks p (h (Inr (take n to_q))) (drop n to_q) to_p x y \<Longrightarrow>
    talks p (Get n h) to_q to_p x y"

text \<open>Conversations compose.\<close>

lemma talks_pbind:
  assumes "talks p q to_q to_p x y" "talks (f x) (g y) [] [] u v"
  shows "talks (pbind p f) (pbind q g) to_q to_p u v"
  using assms by (induction rule: talks.induct) (auto intro: talks.intros)

lemma talks_attempt:
  assumes "talks p q to_q to_p (Inr x) (Inr y)" "talks (f x) (g y) [] [] u v"
  shows "talks (attempt p f) (attempt q g) to_q to_p u v"
  unfolding attempt_def by (rule talks_pbind [OF assms(1)]) (simp add: assms(2))

lemma talks_sym: "talks p q to_q to_p x y \<Longrightarrow> talks q p to_p to_q y x"
  by (induction rule: talks.induct) (auto intro: talks.intros)

text \<open>The order in which the ends run does not matter: \<open>link\<close>, which lets the left end run first,
  comes to the same result.\<close>

lemma link_PutR_early:
  "link n p (h (Inr ())) to_q (to_p @ m) = Some r \<Longrightarrow> \<exists>n'. link n' p (Put m h) to_q to_p = Some r"
proof (induction n arbitrary: p to_q to_p)
  case (Suc n)
  show ?case
  proof (cases p)
    case (Ret x)
    with Suc.prems have "link (Suc (Suc n)) p (Put m h) to_q to_p = Some r" by simp
    then show ?thesis by blast
  next
    case (Put l k)
    with Suc.prems have "link n (k (Inr ())) (h (Inr ())) (to_q @ l) (to_p @ m) = Some r" by simp
    from Suc.IH [OF this] obtain n' where "link n' (k (Inr ())) (Put m h) (to_q @ l) to_p = Some r" ..
    then have "link (Suc n') p (Put m h) to_q to_p = Some r" by (simp add: Put)
    then show ?thesis ..
  next
    case (Get l k)
    show ?thesis
    proof (cases "l \<le> length to_p")
      case True
      with Suc.prems Get have "link n (k (Inr (take l to_p))) (h (Inr ())) to_q (drop l to_p @ m) = Some r" by simp
      from Suc.IH [OF this] obtain n' where "link n' (k (Inr (take l to_p))) (Put m h) to_q (drop l to_p) = Some r" ..
      then have "link (Suc n') p (Put m h) to_q to_p = Some r" using Get True by simp
      then show ?thesis ..
    next
      case False
      then have "link (Suc (Suc n)) p (Put m h) to_q to_p = Some r" using Suc.prems Get by simp
      then show ?thesis ..
    qed
  qed
qed simp

lemma link_GetR_early:
  "link n p (h (Inr (take l to_q))) (drop l to_q) to_p = Some r \<Longrightarrow> l \<le> length to_q \<Longrightarrow>
   \<exists>n'. link n' p (Get l h) to_q to_p = Some r"
proof (induction n arbitrary: p to_q to_p)
  case (Suc n)
  show ?case
  proof (cases p)
    case (Ret x)
    with Suc.prems have "link (Suc (Suc n)) p (Get l h) to_q to_p = Some r" by simp
    then show ?thesis by blast
  next
    case (Put m k)
    with Suc.prems have "link n (k (Inr ())) (h (Inr (take l (to_q @ m)))) (drop l (to_q @ m)) to_p = Some r" by simp
    from Suc.IH [OF this] Suc.prems(2) obtain n' where "link n' (k (Inr ())) (Get l h) (to_q @ m) to_p = Some r" by auto
    then have "link (Suc n') p (Get l h) to_q to_p = Some r" by (simp add: Put)
    then show ?thesis ..
  next
    case (Get i k)
    show ?thesis
    proof (cases "i \<le> length to_p")
      case True
      with Suc.prems Get have "link n (k (Inr (take i to_p))) (h (Inr (take l to_q))) (drop l to_q) (drop i to_p) = Some r"
        by simp
      from Suc.IH [OF this Suc.prems(2)] obtain n' where
        "link n' (k (Inr (take i to_p))) (Get l h) to_q (drop i to_p) = Some r" ..
      then have "link (Suc n') p (Get l h) to_q to_p = Some r" using Get True by simp
      then show ?thesis ..
    next
      case False
      then have "link (Suc (Suc n)) p (Get l h) to_q to_p = Some r" using Suc.prems Get by simp
      then show ?thesis ..
    qed
  qed
qed simp

lemma talks_link: "talks p q to_q to_p x y \<Longrightarrow> \<exists>n. link n p q to_q to_p = Some (x, y)"
proof (induction rule: talks.induct)
  case (talks_Ret x y)
  have "link 1 (Ret x) (Ret y) [] [] = Some (x, y)" by simp
  then show ?case ..
next
  case (talks_PutL k q to_q m to_p x y)
  then obtain n where "link n (k (Inr ())) q (to_q @ m) to_p = Some (x, y)" by blast
  then have "link (Suc n) (Put m k) q to_q to_p = Some (x, y)" by simp
  then show ?case ..
next
  case (talks_GetL n to_p k q to_q x y)
  then obtain i where "link i (k (Inr (take n to_p))) q to_q (drop n to_p) = Some (x, y)" by blast
  then have "link (Suc i) (Get n k) q to_q to_p = Some (x, y)" using talks_GetL.hyps by simp
  then show ?case ..
qed (blast intro: link_PutR_early link_GetR_early)+

text \<open>Each end of a conversation has a trace.\<close>

lemma talks_run: "talks p q to_q to_p x y \<Longrightarrow> (\<exists>tr. run p tr = Some x) \<and> (\<exists>tr. run q tr = Some y)"
proof (induction rule: talks.induct)
  case (talks_Ret x y)
  have "run (Ret x) [] = Some x" "run (Ret y) [] = Some y" by simp_all
  then show ?case by blast
next
  case (talks_PutL k q to_q m to_p x y)
  then obtain tr tr' where t: "run (k (Inr ())) tr = Some x" "run q tr' = Some y" by blast
  then have "run (Put m k) (Sent m # tr) = Some x" by simp
  with t(2) show ?case by blast
next
  case (talks_PutR p h to_q to_p m x y)
  then obtain tr tr' where t: "run p tr = Some x" "run (h (Inr ())) tr' = Some y" by blast
  then have "run (Put m h) (Sent m # tr') = Some y" by simp
  with t(1) show ?case by blast
next
  case (talks_GetL n to_p k q to_q x y)
  then obtain tr tr' where t: "run (k (Inr (take n to_p))) tr = Some x" "run q tr' = Some y" by blast
  then have "run (Get n k) (Got (take n to_p) # tr) = Some x" using talks_GetL.hyps by simp
  with t(2) show ?case by blast
next
  case (talks_GetR n to_q p h to_p x y)
  then obtain tr tr' where t: "run p tr = Some x" "run (h (Inr (take n to_q))) tr' = Some y" by blast
  then have "run (Get n h) (Got (take n to_q) # tr') = Some y" using talks_GetR.hyps by simp
  with t(1) show ?case by blast
qed

end
