(* ===== verification/Key_Exchange.thy ===== *)
theory Key_Exchange
  imports Proc Cesa_Crypto
begin

text \<open>
  The exchanges before Noise: SPAKE2 with its mutual confirmation
  (\<open>cesa_conn_networker/src/spake2.rs\<close>), the hybrid X25519 + ML-KEM-1024 exchange
  (\<open>hybrid_kex.rs\<close>), X25519 (\<open>cesa_conn_crypto/src/x25519_cesa.rs\<close>) and the derivation of
  the Noise pre-shared key (\<open>derive_secure_psk\<close> in \<open>auth_snow.rs\<close>).

  The crates \<open>spake2\<close>, \<open>hkdf\<close>, \<open>x25519_dalek\<close> and \<open>libcrux_ml_kem\<close> are one record of
  functions, \<open>kex_lib\<close>; \<open>kex_lib_ok\<close> names what the code relies on of them. The random bytes of
  one end are the record \<open>kex_random\<close>.
\<close>

section \<open>The libraries\<close>

record 's kex_lib =
  spake_start_a :: "bytes \<Rightarrow> bytes \<Rightarrow> bytes \<Rightarrow> bytes \<Rightarrow> 's \<times> bytes"
  spake_start_b :: "bytes \<Rightarrow> bytes \<Rightarrow> bytes \<Rightarrow> bytes \<Rightarrow> 's \<times> bytes"
  spake_finish :: "'s \<Rightarrow> bytes \<Rightarrow> bytes option"
  kl_hkdf :: hkdf_salted
  x_public :: "bytes \<Rightarrow> bytes"
  x_dh :: "bytes \<Rightarrow> bytes \<Rightarrow> bytes"
  x_contributory :: "bytes \<Rightarrow> bool"
  kem_generate :: "bytes \<Rightarrow> bytes \<times> bytes"
  kem_validate :: "bytes \<Rightarrow> bool"
  kem_encapsulate :: "bytes \<Rightarrow> bytes \<Rightarrow> bytes \<times> bytes"
  kem_decapsulate :: "bytes \<Rightarrow> bytes \<Rightarrow> bytes"

record kex_random =
  spake_random :: bytes
  x_random :: "bytes option"
  kem_random :: "bytes option"

section \<open>X25519 (x25519_cesa.rs)\<close>

record x25519_key_pair =
  xk_public :: bytes
  xk_private :: bytes

definition calculate_public_key :: "'s kex_lib \<Rightarrow> bytes \<Rightarrow> bytes" where
  "calculate_public_key L private_key = x_public L private_key"

definition calculate_shared_key :: "'s kex_lib \<Rightarrow> bytes \<Rightarrow> bytes \<Rightarrow> bytes option" where
  "calculate_shared_key L private_key their_public =
     (let shared_secret = x_dh L private_key their_public
      in if \<not> x_contributory L shared_secret then None else Some shared_secret)"

definition generate_new_key_pair :: "'s kex_lib \<Rightarrow> bytes \<Rightarrow> x25519_key_pair" where
  "generate_new_key_pair L random_data =
     \<lparr>xk_public = calculate_public_key L random_data, xk_private = random_data\<rparr>"

section \<open>Packet tags\<close>

datatype kex_tags = OutboundMsg | X25519Pub | ConfirmByte | MlKeyPub

text \<open>SPAKE2 and the hybrid exchange have their own tag enums; both start at 1.\<close>

primrec kex_tag_byte :: "kex_tags \<Rightarrow> u8" where
  "kex_tag_byte OutboundMsg = 0x01"
| "kex_tag_byte X25519Pub = 0x01"
| "kex_tag_byte ConfirmByte = 0x02"
| "kex_tag_byte MlKeyPub = 0x03"

definition kex_tag :: "kex_tags \<Rightarrow> bytes \<Rightarrow> bytes" where
  "kex_tag t packet = packet @ [kex_tag_byte t]"

definition kex_untag :: "kex_tags \<Rightarrow> bytes \<Rightarrow> bytes option" where
  "kex_untag t packet = (if packet \<noteq> [] \<and> last packet = kex_tag_byte t then Some (butlast packet) else None)"

lemma length_kex_tag [simp]: "length (kex_tag t m) = Suc (length m)"
  by (simp add: kex_tag_def)

lemma kex_untag_tag [simp]: "kex_untag t (kex_tag t m) = Some m"
  by (simp add: kex_untag_def kex_tag_def)

lemma kex_untag_Some: "kex_untag t p = Some m \<longleftrightarrow> p = kex_tag t m"
  by (auto simp: kex_untag_def kex_tag_def) (metis append_butlast_last_id)

section \<open>SPAKE2 (spake2.rs)\<close>

definition CLIENT_IDENTITY :: bytes where "CLIENT_IDENTITY = ascii ''CesaConn-client''"
definition SERVER_IDENTITY :: bytes where "SERVER_IDENTITY = ascii ''CesaConn-server''"

definition identity :: "bytes \<Rightarrow> bytes \<Rightarrow> bytes" where
  "identity label a_salt = label @ a_salt"

text \<open>Each exchange returns its result and the transcript it appended to.\<close>

definition spake2_exchange_server ::
  "'s kex_lib \<Rightarrow> kex_random \<Rightarrow> bytes \<Rightarrow> bytes \<Rightarrow> bytes \<Rightarrow> (auth_error + bytes \<times> bytes) proc" where
  "spake2_exchange_server L r a_key a_salt transcript =
     (let (s1, msg) = spake_start_b L (spake_random r) a_key
            (identity CLIENT_IDENTITY a_salt) (identity SERVER_IDENTITY a_salt);
          outbound_msg = kex_tag OutboundMsg msg in
      attempt (stream_write outbound_msg) (\<lambda>_.
      attempt (stream_read (length outbound_msg)) (\<lambda>inbound_msg.
      let transcript = transcript @ inbound_msg @ outbound_msg in
      attempt_result (ok_or WrongTag (kex_untag OutboundMsg inbound_msg)) (\<lambda>inbound_msg.
      attempt_result (ok_or FailedToFinishSpake2Exchange (spake_finish L s1 inbound_msg)) (\<lambda>key1.
      Ret (Inr (key1, transcript)))))))"

definition spake2_exchange_client ::
  "'s kex_lib \<Rightarrow> kex_random \<Rightarrow> bytes \<Rightarrow> bytes \<Rightarrow> bytes \<Rightarrow> (auth_error + bytes \<times> bytes) proc" where
  "spake2_exchange_client L r a_key a_salt transcript =
     (let (s1, msg) = spake_start_a L (spake_random r) a_key
            (identity CLIENT_IDENTITY a_salt) (identity SERVER_IDENTITY a_salt);
          outbound_msg = kex_tag OutboundMsg msg in
      attempt (stream_write outbound_msg) (\<lambda>_.
      attempt (stream_read (length outbound_msg)) (\<lambda>inbound_msg.
      let transcript = transcript @ outbound_msg @ inbound_msg in
      attempt_result (ok_or WrongTag (kex_untag OutboundMsg inbound_msg)) (\<lambda>inbound_msg.
      attempt_result (ok_or FailedToFinishSpake2Exchange (spake_finish L s1 inbound_msg)) (\<lambda>key1.
      Ret (Inr (key1, transcript)))))))"

definition CONFIRM_C2S :: bytes where "CONFIRM_C2S = ascii ''CPQHA-confirm-client-to-server''"
definition CONFIRM_S2C :: bytes where "CONFIRM_S2C = ascii ''CPQHA-confirm-server-to-client''"

definition hk_expand :: "'s kex_lib \<Rightarrow> bytes \<Rightarrow> bytes \<Rightarrow> nat \<Rightarrow> auth_error + bytes" where
  "hk_expand L ikm label n = ok_or FailedToExpandHkdf (kl_hkdf L None ikm label n)"

definition spake2_confirm_mutual_auth_server ::
  "'s kex_lib \<Rightarrow> bytes \<Rightarrow> bytes \<Rightarrow> (auth_error + bool \<times> bytes) proc" where
  "spake2_confirm_mutual_auth_server L key1 transcript =
     attempt_result (hk_expand L key1 CONFIRM_C2S 32) (\<lambda>confirm_expect.
     attempt (stream_read 32) (\<lambda>confirm_received.
     if confirm_expect \<noteq> confirm_received then Ret (Inr (False, transcript))
     else
       attempt_result (hk_expand L key1 CONFIRM_S2C 32) (\<lambda>confirm_send.
       attempt (stream_write confirm_send) (\<lambda>_.
       Ret (Inr (True, transcript @ confirm_received @ confirm_send))))))"

definition spake2_confirm_mutual_auth_client ::
  "'s kex_lib \<Rightarrow> bytes \<Rightarrow> bytes \<Rightarrow> (auth_error + bool \<times> bytes) proc" where
  "spake2_confirm_mutual_auth_client L key1 transcript =
     attempt_result (hk_expand L key1 CONFIRM_C2S 32) (\<lambda>confirm_send.
     attempt_result (hk_expand L key1 CONFIRM_S2C 32) (\<lambda>confirm_expect.
     attempt (stream_write confirm_send) (\<lambda>_.
     attempt (stream_read 32) (\<lambda>confirm_received.
     if confirm_expect \<noteq> confirm_received then Ret (Inr (False, transcript))
     else Ret (Inr (True, transcript @ confirm_send @ confirm_received))))))"

section \<open>Hybrid key exchange (hybrid_kex.rs)\<close>

definition MLKEM1024_CIPHERTEXT_LEN :: nat where "MLKEM1024_CIPHERTEXT_LEN = 1568"

record hybrid_kep =
  x25519_ss :: bytes
  mlkem_ss :: bytes

definition send_confirm :: "bool \<Rightarrow> bytes \<Rightarrow> (auth_error + bytes) proc" where
  "send_confirm accepted transcript =
     (let confirm = kex_tag ConfirmByte [of_bool accepted] in
      attempt (stream_write confirm) (\<lambda>_. Ret (Inr (transcript @ confirm))))"

text \<open>Reading the client's confirm byte, the last step of both server exchanges.\<close>

definition recv_confirm :: "bytes \<Rightarrow> (auth_error + bytes) proc" where
  "recv_confirm transcript =
     attempt (stream_read 2) (\<lambda>confirm_buffer.
     attempt_result (ok_or WrongTag (kex_untag ConfirmByte confirm_buffer)) (\<lambda>confirm.
     if confirm = [] \<or> hd confirm \<noteq> 0x01 then Ret (Inl FailedToConfirmKex)
     else Ret (Inr (transcript @ confirm_buffer))))"

definition x25519_kex_server ::
  "'s kex_lib \<Rightarrow> kex_random \<Rightarrow> bytes \<Rightarrow> (auth_error + bytes \<times> bytes) proc" where
  "x25519_kex_server L r transcript =
     attempt_result (ok_or FailedToGenerateRandomData (x_random r)) (\<lambda>random.
     let pair = generate_new_key_pair L random;
         x25519_pub = kex_tag X25519Pub (xk_public pair) in
     attempt (stream_read (32 + 1)) (\<lambda>x25519_recv.
     let transcript = transcript @ x25519_recv @ x25519_pub in
     attempt_result (ok_or WrongTag (kex_untag X25519Pub x25519_recv)) (\<lambda>recv.
     attempt_result (ok_or FailedToConvertToArray (to_array 32 recv)) (\<lambda>recv.
     attempt_result (ok_or FailedToCalculateSharedSecret (calculate_shared_key L (xk_private pair) recv)) (\<lambda>ss.
     attempt (stream_write x25519_pub) (\<lambda>_.
     attempt (recv_confirm transcript) (\<lambda>transcript.
     Ret (Inr (ss, transcript)))))))))"

definition mlkem_kex_server ::
  "'s kex_lib \<Rightarrow> kex_random \<Rightarrow> bytes \<Rightarrow> (auth_error + bytes \<times> bytes) proc" where
  "mlkem_kex_server L r transcript =
     attempt (stream_read (1568 + 1)) (\<lambda>ml_key_recv.
     let transcript = transcript @ ml_key_recv in
     attempt_result (ok_or WrongTag (kex_untag MlKeyPub ml_key_recv)) (\<lambda>recv.
     attempt_result (ok_or FailedToConvertToArray (to_array 1568 recv)) (\<lambda>public_key.
     if \<not> kem_validate L public_key then Ret (Inl MlKemInvalidPublicKey)
     else
       attempt_result (ok_or FailedToGenerateRandomData (kem_random r)) (\<lambda>random.
       let (ct, ss) = kem_encapsulate L public_key random;
           ciphertext = kex_tag MlKeyPub ct;
           transcript = transcript @ ciphertext in
       attempt (stream_write ciphertext) (\<lambda>_.
       attempt (recv_confirm transcript) (\<lambda>transcript.
       Ret (Inr (ss, transcript))))))))"

definition hybrid_kex_server ::
  "'s kex_lib \<Rightarrow> kex_random \<Rightarrow> bytes \<Rightarrow> (auth_error + hybrid_kep \<times> bytes) proc" where
  "hybrid_kex_server L r transcript =
     attempt_err KexFailed (x25519_kex_server L r transcript) (\<lambda>(x, transcript).
     attempt_err KexFailed (mlkem_kex_server L r transcript) (\<lambda>(m, transcript).
     Ret (Inr (\<lparr>x25519_ss = x, mlkem_ss = m\<rparr>, transcript))))"

definition x25519_kex_client ::
  "'s kex_lib \<Rightarrow> kex_random \<Rightarrow> bytes \<Rightarrow> (auth_error + bytes \<times> bytes) proc" where
  "x25519_kex_client L r transcript =
     attempt_result (ok_or FailedToGenerateRandomData (x_random r)) (\<lambda>random.
     let pair = generate_new_key_pair L random;
         x25519_pub = kex_tag X25519Pub (xk_public pair) in
     attempt (stream_write x25519_pub) (\<lambda>_.
     attempt (stream_read (32 + 1)) (\<lambda>x25519_recv.
     let transcript = transcript @ x25519_pub @ x25519_recv in
     attempt_result (ok_or WrongTag (kex_untag X25519Pub x25519_recv)) (\<lambda>recv.
     attempt_result (ok_or FailedToConvertToArray (to_array 32 recv)) (\<lambda>recv.
     let shared = calculate_shared_key L (xk_private pair) recv in
     attempt (send_confirm (shared \<noteq> None) transcript) (\<lambda>transcript.
     attempt_result (ok_or FailedToCalculateSharedSecret shared) (\<lambda>ss.
     Ret (Inr (ss, transcript)))))))))"

definition mlkem_kex_client ::
  "'s kex_lib \<Rightarrow> kex_random \<Rightarrow> bytes \<Rightarrow> (auth_error + bytes \<times> bytes) proc" where
  "mlkem_kex_client L r transcript =
     attempt_result (ok_or FailedToGenerateRandomData (kem_random r)) (\<lambda>random.
     let (sk, pk) = kem_generate L random;
         ml_key_pub = kex_tag MlKeyPub pk;
         transcript = transcript @ ml_key_pub in
     attempt (stream_write ml_key_pub) (\<lambda>_.
     attempt (stream_read (MLKEM1024_CIPHERTEXT_LEN + 1)) (\<lambda>ciphertext_recv.
     let transcript = transcript @ ciphertext_recv in
     attempt_result (ok_or WrongTag (kex_untag MlKeyPub ciphertext_recv)) (\<lambda>recv.
     attempt_result (ok_or FailedToConvertToArray (to_array MLKEM1024_CIPHERTEXT_LEN recv)) (\<lambda>ciphertext.
     let ss = kem_decapsulate L sk ciphertext in
     attempt (send_confirm True transcript) (\<lambda>transcript.
     Ret (Inr (ss, transcript))))))))"

definition hybrid_kex_client ::
  "'s kex_lib \<Rightarrow> kex_random \<Rightarrow> bytes \<Rightarrow> (auth_error + hybrid_kep \<times> bytes) proc" where
  "hybrid_kex_client L r transcript =
     attempt_err KexFailed (x25519_kex_client L r transcript) (\<lambda>(x, transcript).
     attempt_err KexFailed (mlkem_kex_client L r transcript) (\<lambda>(m, transcript).
     Ret (Inr (\<lparr>x25519_ss = x, mlkem_ss = m\<rparr>, transcript))))"

section \<open>The pre-shared key (auth_snow.rs)\<close>

definition derive_secure_psk :: "'s kex_lib \<Rightarrow> bytes \<Rightarrow> hybrid_kep \<Rightarrow> bytes \<Rightarrow> auth_error + bytes" where
  "derive_secure_psk L key1 kep transcript =
     and_then (hk_expand L transcript [] 32) (\<lambda>transcript_hash.
     hk_expand L (key1 @ x25519_ss kep @ mlkem_ss kep @ transcript_hash) (ascii ''CPQHA-psk'') 32)"

text \<open>Steps 1 to 3 of \<open>handshake_server\<close> and \<open>handshake_client\<close>: \<open>None\<close> when the other end does
  not know the password.\<close>

definition key_agreement_server ::
  "'s kex_lib \<Rightarrow> kex_random \<Rightarrow> bytes \<Rightarrow> bytes \<Rightarrow> (auth_error + bytes option) proc" where
  "key_agreement_server L r a_key a_salt =
     attempt_err FailedToExchangeSpake2 (spake2_exchange_server L r a_key a_salt []) (\<lambda>(key1, transcript).
     attempt_err FailedToConfirmMutualAuthSpake2 (spake2_confirm_mutual_auth_server L key1 transcript)
       (\<lambda>(confirmed, transcript).
     if \<not> confirmed then Ret (Inr None)
     else
       attempt_err KexFailed (hybrid_kex_server L r transcript) (\<lambda>(kep, transcript).
       attempt_result (derive_secure_psk L key1 kep transcript) (\<lambda>psk. Ret (Inr (Some psk))))))"

definition key_agreement_client ::
  "'s kex_lib \<Rightarrow> kex_random \<Rightarrow> bytes \<Rightarrow> bytes \<Rightarrow> (auth_error + bytes option) proc" where
  "key_agreement_client L r a_key a_salt =
     attempt_err FailedToExchangeSpake2 (spake2_exchange_client L r a_key a_salt []) (\<lambda>(key1, transcript).
     attempt_err FailedToConfirmMutualAuthSpake2 (spake2_confirm_mutual_auth_client L key1 transcript)
       (\<lambda>(confirmed, transcript).
     if \<not> confirmed then Ret (Inr None)
     else
       attempt_err KexFailed (hybrid_kex_client L r transcript) (\<lambda>(kep, transcript).
       attempt_result (derive_secure_psk L key1 kep transcript) (\<lambda>psk. Ret (Inr (Some psk))))))"

section \<open>What the code relies on of the libraries\<close>

definition spake_ok :: "'s kex_lib \<Rightarrow> bool" where
  "spake_ok L = (\<forall>ra rb pw a b.
     length (snd (spake_start_a L ra pw a b)) = 33 \<and> length (snd (spake_start_b L rb pw a b)) = 33 \<and>
     (\<exists>k. spake_finish L (fst (spake_start_a L ra pw a b)) (snd (spake_start_b L rb pw a b)) = Some k \<and>
          spake_finish L (fst (spake_start_b L rb pw a b)) (snd (spake_start_a L ra pw a b)) = Some k))"

definition hkdf_ok :: "'s kex_lib \<Rightarrow> bool" where
  "hkdf_ok L = (\<forall>ikm label. \<exists>okm. kl_hkdf L None ikm label 32 = Some okm \<and> length okm = 32)"

definition x25519_ok :: "'s kex_lib \<Rightarrow> bool" where
  "x25519_ok L = (\<forall>p q. length (x_public L p) = 32 \<and> x_dh L p (x_public L q) = x_dh L q (x_public L p) \<and>
     x_contributory L (x_dh L p (x_public L q)))"

definition kem_ok :: "'s kex_lib \<Rightarrow> bool" where
  "kem_ok L = (\<forall>r r'. length (snd (kem_generate L r)) = 1568 \<and> kem_validate L (snd (kem_generate L r)) \<and>
     length (fst (kem_encapsulate L (snd (kem_generate L r)) r')) = 1568 \<and>
     kem_decapsulate L (fst (kem_generate L r)) (fst (kem_encapsulate L (snd (kem_generate L r)) r')) =
       snd (kem_encapsulate L (snd (kem_generate L r)) r'))"

definition kex_lib_ok :: "'s kex_lib \<Rightarrow> bool" where
  "kex_lib_ok L = (spake_ok L \<and> hkdf_ok L \<and> x25519_ok L \<and> kem_ok L)"

lemmas kex_steps = key_agreement_client_def key_agreement_server_def spake2_exchange_client_def
  spake2_exchange_server_def spake2_confirm_mutual_auth_client_def spake2_confirm_mutual_auth_server_def
  hybrid_kex_client_def hybrid_kex_server_def x25519_kex_client_def x25519_kex_server_def
  mlkem_kex_client_def mlkem_kex_server_def send_confirm_def recv_confirm_def hk_expand_def
  generate_new_key_pair_def calculate_public_key_def calculate_shared_key_def
  MLKEM1024_CIPHERTEXT_LEN_def to_array_def stream_write_def stream_read_def Let_def

text \<open>Two honest ends come to the same pre-shared key.\<close>

lemma key_agreement_talks:
  assumes "kex_lib_ok L" "x_random rc \<noteq> None" "kem_random rc \<noteq> None" "x_random rs \<noteq> None" "kem_random rs \<noteq> None"
  shows "\<exists>psk. talks (key_agreement_client L rc a_key a_salt) (key_agreement_server L rs a_key a_salt) [] []
    (Inr (Some psk)) (Inr (Some psk))"
proof -
  let ?ci = "identity CLIENT_IDENTITY a_salt" and ?si = "identity SERVER_IDENTITY a_salt"
  obtain sa ma where a: "spake_start_a L (spake_random rc) a_key ?ci ?si = (sa, ma)" by fastforce
  obtain sb mb where b: "spake_start_b L (spake_random rs) a_key ?ci ?si = (sb, mb)" by fastforce
  have spake: "spake_ok L" using assms(1) by (simp add: kex_lib_ok_def)
  from spake [unfolded spake_ok_def, rule_format, of "spake_random rc" a_key ?ci ?si "spake_random rs"] a b
  obtain key1 where sp: "length ma = 33" "length mb = 33" "spake_finish L sa mb = Some key1"
    "spake_finish L sb ma = Some key1" by auto
  have hk: "\<exists>okm. kl_hkdf L None ikm label 32 = Some okm \<and> length okm = 32" for ikm label
    using assms(1) by (simp add: kex_lib_ok_def hkdf_ok_def)
  obtain c1 c2 where c: "kl_hkdf L None key1 CONFIRM_C2S 32 = Some c1" "length c1 = 32"
    "kl_hkdf L None key1 CONFIRM_S2C 32 = Some c2" "length c2 = 32" using hk by metis
  obtain xc xs kc ks where r: "x_random rc = Some xc" "x_random rs = Some xs" "kem_random rc = Some kc"
    "kem_random rs = Some ks" using assms(2-5) by auto
  have x: "length (x_public L p) = 32" "x_dh L p (x_public L q) = x_dh L q (x_public L p)"
    "x_contributory L (x_dh L p (x_public L q))" for p q
    using assms(1) by (auto simp: kex_lib_ok_def x25519_ok_def)
  obtain sk pk where g: "kem_generate L kc = (sk, pk)" by fastforce
  obtain ct ss where e: "kem_encapsulate L pk ks = (ct, ss)" by fastforce
  have kem: "kem_ok L" using assms(1) by (simp add: kex_lib_ok_def)
  from kem [unfolded kem_ok_def, rule_format, of kc ks] g e
  have k: "length pk = 1568" "kem_validate L pk" "length ct = 1568" "kem_decapsulate L sk ct = ss"
    by auto
  obtain psk where psk: "derive_secure_psk L key1 \<lparr>x25519_ss = x_dh L xs (x_public L xc), mlkem_ss = ss\<rparr>
      (((((kex_tag OutboundMsg ma @ kex_tag OutboundMsg mb) @ c1 @ c2) @
        kex_tag X25519Pub (x_public L xc) @ kex_tag X25519Pub (x_public L xs)) @ kex_tag ConfirmByte [1]) @
        kex_tag MlKeyPub pk @ kex_tag MlKeyPub ct @ kex_tag ConfirmByte [1]) = Inr psk"
    unfolding derive_secure_psk_def hk_expand_def by (metis hk and_then_simps(2) ok_or_simps(1))
  have "talks (key_agreement_client L rc a_key a_salt) (key_agreement_server L rs a_key a_salt) [] []
    (Inr (Some psk)) (Inr (Some psk))"
    using sp c r x g k e a b psk
    apply (simp add: kex_steps)
    apply ((rule talks_Ret | (rule talks_PutL, simp add: kex_steps)
        | (rule talks_GetL, (simp; fail), simp add: kex_steps) | (rule talks_PutR, simp add: kex_steps)
        | (rule talks_GetR, (simp; fail), simp add: kex_steps))+)
    done
  then show ?thesis ..
qed

section \<open>Properties\<close>

text \<open>
  C35. Two honest devices with the same auth password and salt always agree: whatever random
  bytes they draw, both ends of the exchanges finish with the same pre-shared key, which means
  with the same SPAKE2 key, the same two shared secrets and the same transcript. Neither end
  deadlocks, and no byte is left unread.
\<close>
theorem key_agreement:
  assumes "kex_lib_ok L"
    and "x_random rc \<noteq> None" "kem_random rc \<noteq> None" "x_random rs \<noteq> None" "kem_random rs \<noteq> None"
  shows "\<exists>psk fuel. link fuel (key_agreement_client L rc a_key a_salt) (key_agreement_server L rs a_key a_salt) [] []
      = Some (Inr (Some psk), Inr (Some psk)) \<and>
    talks (key_agreement_client L rc a_key a_salt) (key_agreement_server L rs a_key a_salt) [] []
      (Inr (Some psk)) (Inr (Some psk))"
  using key_agreement_talks [OF assms, of a_key a_salt] by (blast dest: talks_link)

text \<open>Libraries with these properties, for concrete runs: the shared values are computed from
  sums of bytes.\<close>

definition fill :: "nat \<Rightarrow> bytes \<Rightarrow> bytes" where
  "fill n bs = replicate n (sum_list bs)"

definition demo_lib :: "bytes kex_lib" where
  "demo_lib = \<lparr>
     spake_start_a = (\<lambda>r pw a b. (pw @ a @ b, fill 33 r)),
     spake_start_b = (\<lambda>r pw a b. (pw @ a @ b, fill 33 r)),
     spake_finish = (\<lambda>s m. if length m = 33 then Some s else None),
     kl_hkdf = (\<lambda>salt ikm label n. Some (fill n (ikm @ label))),
     x_public = fill 32,
     x_dh = (\<lambda>p q. fill 32 [sum_list p * hd q]),
     x_contributory = (\<lambda>_. True),
     kem_generate = (\<lambda>r. (r, fill 1568 r)),
     kem_validate = (\<lambda>_. True),
     kem_encapsulate = (\<lambda>pk r. (fill 1568 r, fill 32 r)),
     kem_decapsulate = (\<lambda>sk ct. replicate 32 (hd ct))\<rparr>"

lemma demo_lib_ok: "kex_lib_ok demo_lib"
  by (simp add: kex_lib_ok_def spake_ok_def hkdf_ok_def x25519_ok_def kem_ok_def demo_lib_def fill_def
      mult.commute)

definition demo_random :: "u8 \<Rightarrow> kex_random" where
  "demo_random b = \<lparr>spake_random = [b], x_random = Some [b], kem_random = Some [b]\<rparr>"

theorem key_agreement_witness:
  "\<exists>psk fuel. link fuel (key_agreement_client demo_lib (demo_random 3) [1] [2])
      (key_agreement_server demo_lib (demo_random 4) [1] [2]) [] []
      = Some (Inr (Some psk), Inr (Some psk)) \<and>
    talks (key_agreement_client demo_lib (demo_random 3) [1] [2])
      (key_agreement_server demo_lib (demo_random 4) [1] [2]) [] [] (Inr (Some psk)) (Inr (Some psk))"
  by (rule key_agreement [OF demo_lib_ok]) (simp_all add: demo_random_def)

definition client_start :: "'s kex_lib \<Rightarrow> kex_random \<Rightarrow> bytes \<Rightarrow> bytes \<Rightarrow> 's \<times> bytes" where
  "client_start L r a_key a_salt = spake_start_a L (spake_random r) a_key
     (identity CLIENT_IDENTITY a_salt) (identity SERVER_IDENTITY a_salt)"

definition server_start :: "'s kex_lib \<Rightarrow> kex_random \<Rightarrow> bytes \<Rightarrow> bytes \<Rightarrow> 's \<times> bytes" where
  "server_start L r a_key a_salt = spake_start_b L (spake_random r) a_key
     (identity CLIENT_IDENTITY a_salt) (identity SERVER_IDENTITY a_salt)"

text \<open>
  Different passwords (or salts) fail explicitly: when the two ends derive SPAKE2 keys
  whose confirmation values differ, the server reports a failed confirmation and stops, and the
  client sees a failed exchange; neither gets to the key exchange.
\<close>
theorem password_mismatch_fails:
  assumes "length (snd (client_start L rc a_key a_salt)) = 33" "length (snd (server_start L rs a_key' a_salt')) = 33"
    and "spake_finish L (fst (client_start L rc a_key a_salt)) (snd (server_start L rs a_key' a_salt')) = Some kc" "spake_finish L (fst (server_start L rs a_key' a_salt')) (snd (client_start L rc a_key a_salt)) = Some ks"
    and "hkdf_ok L" "kl_hkdf L None kc CONFIRM_C2S 32 \<noteq> kl_hkdf L None ks CONFIRM_C2S 32"
  shows "link 20 (key_agreement_client L rc a_key a_salt) (key_agreement_server L rs a_key' a_salt') [] []
    = Some (Inl FailedToConfirmMutualAuthSpake2, Inr None)"
proof -
  have hk: "\<exists>okm. kl_hkdf L None ikm label 32 = Some okm \<and> length okm = 32" for ikm label
    using assms(5) by (simp add: hkdf_ok_def)
  obtain c1 c2 d1 where c: "kl_hkdf L None kc CONFIRM_C2S 32 = Some c1" "length c1 = 32"
    "kl_hkdf L None kc CONFIRM_S2C 32 = Some c2" "length c2 = 32"
    "kl_hkdf L None ks CONFIRM_C2S 32 = Some d1" using hk by metis
  obtain sa ma sb mb where ab: "client_start L rc a_key a_salt = (sa, ma)" "server_start L rs a_key' a_salt' = (sb, mb)" by fastforce
  with assms(6) c have "d1 \<noteq> c1" by simp
  with assms(1-4) c ab show ?thesis
    unfolding client_start_def server_start_def
    by (simp add: key_agreement_client_def key_agreement_server_def spake2_exchange_client_def
        spake2_exchange_server_def spake2_confirm_mutual_auth_client_def spake2_confirm_mutual_auth_server_def
        hk_expand_def stream_write_def stream_read_def Let_def)
qed

theorem password_mismatch_fails_witness:
  "link 20 (key_agreement_client demo_lib (demo_random 3) [1] [2])
      (key_agreement_server demo_lib (demo_random 4) [9] [2]) [] []
    = Some (Inl FailedToConfirmMutualAuthSpake2, Inr None)"
proof (rule password_mismatch_fails)
  let ?k = "\<lambda>pw. [pw] @ identity CLIENT_IDENTITY [2] @ identity SERVER_IDENTITY [2 :: u8]"
  show "kl_hkdf demo_lib None (?k 1) CONFIRM_C2S 32 \<noteq> kl_hkdf demo_lib None (?k 9) CONFIRM_C2S 32"
    by (simp add: demo_lib_def fill_def replicate_eq_replicate)
qed (use demo_lib_ok in \<open>simp_all add: demo_lib_def demo_random_def fill_def kex_lib_ok_def client_start_def server_start_def\<close>)

text \<open>
  The server proves nothing to a peer that has not proved itself: whatever arrives and
  whatever fails on the connection, the confirmation step writes something only after it read
  exactly the value that knowledge of the SPAKE2 key gives.
\<close>
theorem server_confirms_second:
  assumes "run (spake2_confirm_mutual_auth_server L key1 transcript) tr = Some result" "Sent m \<in> set tr"
  shows "\<exists>proof_value rest. tr = Got proof_value # rest \<and>
    kl_hkdf L None key1 CONFIRM_C2S 32 = Some proof_value"
  using assms
  by (auto simp: spake2_confirm_mutual_auth_server_def hk_expand_def attempt_result_def stream_read_def
      ok_or_def split: option.splits list.splits event.splits if_splits io_failure.splits sum.splits)

theorem server_confirms_second_witness:
  "\<exists>proof_value rest. [Got (fill 32 CONFIRM_C2S), Sent (fill 32 CONFIRM_S2C)] = Got proof_value # rest \<and>
    kl_hkdf demo_lib None [] CONFIRM_C2S 32 = Some proof_value"
  by (rule server_confirms_second [where transcript = "[]" and result = "Inr (True, fill 32 CONFIRM_C2S @ fill 32 CONFIRM_S2C)"
        and m = "fill 32 CONFIRM_S2C"])
     (simp_all add: spake2_confirm_mutual_auth_server_def hk_expand_def stream_read_def stream_write_def
       demo_lib_def fill_def)

end
