(* ===== verification/Auth_Snow.thy ===== *)
theory Auth_Snow
  imports Key_Exchange Trusted_Peers Pairing_Code Clip_Sync
begin

text \<open>
  The authenticated connection (\<open>cesa_conn_networker/src/auth_snow.rs\<close>): messages, chunks and
  the data layer of \<open>SecureConnection\<close>, the Noise handshake, identifying the peer, pairing, and
  \<open>auth_incoming\<close> / \<open>auth_outgoing\<close>.

  The crates \<open>snow\<close> (Noise) and \<open>libcrux_ml_dsa\<close> (signatures) are records of functions,
  \<open>snow_lib\<close> and \<open>mldsa_lib\<close>. The user's decision about a new device is the argument
  \<open>user_decision\<close>. The shared list of trusted devices is read once when the peer is
  identified and once, possibly changed by other connections, when pairing is decided; \<open>finish_auth\<close>
  returns the list afterwards. The code reads the second time twice, for the check that the list
  is not full before the user is asked and for the save after; here both see one list, so a list
  that fills up while the user decides is left out. A connection that failed is closed by its owner, so its state is
  returned on success only.
\<close>

section \<open>Constants and libraries\<close>

definition SNOW_MSG1_LEN :: nat where "SNOW_MSG1_LEN = 48"
definition SNOW_MSG2_LEN :: nat where "SNOW_MSG2_LEN = 96"
definition SNOW_MSG3_LEN :: nat where "SNOW_MSG3_LEN = 64"
definition SNOW_MSG_MAX_LEN :: nat where "SNOW_MSG_MAX_LEN = 65535"
definition SNOW_TAG_LEN :: nat where "SNOW_TAG_LEN = 16"
definition SECURE_MSG_MAX_PAYLOAD :: nat where
  "SECURE_MSG_MAX_PAYLOAD = SNOW_MSG_MAX_LEN - SNOW_TAG_LEN - 1"

lemma SECURE_MSG_MAX_PAYLOAD_eq: "SECURE_MSG_MAX_PAYLOAD = 65518"
  by (simp add: SECURE_MSG_MAX_PAYLOAD_def SNOW_MSG_MAX_LEN_def SNOW_TAG_LEN_def)

record ('b, 'h, 't) snow_lib =
  nb_parse :: "'b option"
  nb_private :: "'b \<Rightarrow> bytes \<Rightarrow> 'b option"
  nb_psk :: "'b \<Rightarrow> nat \<Rightarrow> bytes \<Rightarrow> 'b option"
  nb_responder :: "'b \<Rightarrow> 'h option"
  nb_initiator :: "'b \<Rightarrow> 'h option"
  hs_write :: "'h \<Rightarrow> bytes \<Rightarrow> ('h \<times> bytes) option"
  hs_read :: "'h \<Rightarrow> bytes \<Rightarrow> ('h \<times> bytes) option"
  hs_remote_static :: "'h \<Rightarrow> bytes option"
  hs_hash :: "'h \<Rightarrow> bytes"
  hs_transport :: "'h \<Rightarrow> 't option"
  t_write :: "'t \<Rightarrow> bytes \<Rightarrow> ('t \<times> bytes) option"
  t_read :: "'t \<Rightarrow> bytes \<Rightarrow> ('t \<times> bytes) option"

text \<open>\<open>sign(signing key, message, context, randomness)\<close> and \<open>verify(key, message, context, signature)\<close>.\<close>

record mldsa_lib =
  dsa_sign :: "bytes \<Rightarrow> bytes \<Rightarrow> bytes \<Rightarrow> bytes \<Rightarrow> bytes option"
  dsa_verify :: "bytes \<Rightarrow> bytes \<Rightarrow> bytes \<Rightarrow> bytes \<Rightarrow> bool"

record device_keypairs =
  static_private :: bytes
  mldsa_signing :: bytes
  mldsa_verification :: bytes

section \<open>Secure connections\<close>

record 't secure_connection =
  sc_name :: bytes
  sc_ts :: 't
  sc_hash :: bytes
  is_initiator :: bool

definition secure_write ::
  "('b, 'h, 't) snow_lib \<Rightarrow> 't secure_connection \<Rightarrow> bytes \<Rightarrow> tags \<Rightarrow>
   (auth_error + 't secure_connection) proc" where
  "secure_write S sc src t =
     (if SECURE_MSG_MAX_PAYLOAD < length src then Ret (Inl MessageTooLarge)
      else
        let plaintext = tag t src in
        attempt_result (ok_or FailedToWriteSnowMessage (t_write S (sc_ts sc) plaintext)) (\<lambda>(ts, message).
        let buffer = overwrite (replicate (length plaintext + SNOW_TAG_LEN) 0) message in
        attempt (stream_write buffer) (\<lambda>_.
        Ret (Inr (sc\<lparr>sc_ts := ts\<rparr>)))))"

text \<open>\<open>read\<close> into a buffer of \<open>len\<close> bytes; the payload without the tag byte.\<close>

definition secure_read ::
  "('b, 'h, 't) snow_lib \<Rightarrow> 't secure_connection \<Rightarrow> nat \<Rightarrow> tags \<Rightarrow>
   (auth_error + 't secure_connection \<times> bytes) proc" where
  "secure_read S sc len t =
     (if SECURE_MSG_MAX_PAYLOAD + 1 < len then Ret (Inl MessageTooLarge)
      else
        attempt (stream_read (len + SNOW_TAG_LEN)) (\<lambda>message.
        attempt_result (ok_or FailedToReadSnowMessage (t_read S (sc_ts sc) message)) (\<lambda>(ts, plaintext).
        let buffer = overwrite (replicate len 0) plaintext in
        let (matches, payload) = untag t buffer in
        if \<not> matches then Ret (Inl WrongTag)
        else Ret (Inr (sc\<lparr>sc_ts := ts\<rparr>, payload)))))"

text \<open>\<open>send_secure\<close> and \<open>recv_secure\<close>: a timeout stays a timeout, every other error becomes one.\<close>

definition send_secure ::
  "('b, 'h, 't) snow_lib \<Rightarrow> 't secure_connection \<Rightarrow> bytes \<Rightarrow> tags \<Rightarrow>
   (auth_error + 't secure_connection) proc" where
  "send_secure S sc data t = pbind (secure_write S sc data t) (\<lambda>r. Ret
     (case r of
        Inl e \<Rightarrow> Inl (if e = WriteTimeout then WriteTimeout else FailedToWriteToSecureConnection)
      | Inr sc \<Rightarrow> Inr sc))"

definition recv_secure ::
  "('b, 'h, 't) snow_lib \<Rightarrow> 't secure_connection \<Rightarrow> nat \<Rightarrow> tags \<Rightarrow>
   (auth_error + 't secure_connection \<times> bytes) proc" where
  "recv_secure S sc len t = pbind (secure_read S sc (len + 1) t) (\<lambda>r. Ret
     (case r of
        Inl e \<Rightarrow> Inl (if e = ReadTimeout then ReadTimeout else FailedToReadFromSecureConnection)
      | Inr x \<Rightarrow> Inr x))"

text \<open>\<open>data.chunks(SECURE_MSG_MAX_PAYLOAD)\<close>.\<close>

function chunks :: "bytes \<Rightarrow> bytes list" where
  "chunks data =
     (if data = [] then []
      else take SECURE_MSG_MAX_PAYLOAD data # chunks (drop SECURE_MSG_MAX_PAYLOAD data))"
  by pat_completeness auto
termination
  by (relation "measure length") (auto simp: SECURE_MSG_MAX_PAYLOAD_eq)

declare chunks.simps [simp del]

primrec write_chunks ::
  "('b, 'h, 't) snow_lib \<Rightarrow> 't secure_connection \<Rightarrow> tags \<Rightarrow> bytes list \<Rightarrow>
   (auth_error + 't secure_connection) proc" where
  "write_chunks S sc t [] = Ret (Inr sc)"
| "write_chunks S sc t (c # cs) = attempt (send_secure S sc c t) (\<lambda>sc. write_chunks S sc t cs)"

definition write_chunked ::
  "('b, 'h, 't) snow_lib \<Rightarrow> 't secure_connection \<Rightarrow> bytes \<Rightarrow> tags \<Rightarrow>
   (auth_error + 't secure_connection) proc" where
  "write_chunked S sc data t = write_chunks S sc t (chunks data)"

text \<open>The loop of \<open>read_chunked\<close> with \<open>left\<close> = \<open>len - data.len()\<close>: every round reads exactly the
  bytes it asks for, so the loop ends after \<open>len\<close> bytes.\<close>

function read_chunks ::
  "('b, 'h, 't) snow_lib \<Rightarrow> tags \<Rightarrow> nat \<Rightarrow> 't secure_connection \<Rightarrow> bytes \<Rightarrow>
   (auth_error + 't secure_connection \<times> bytes) proc" where
  "read_chunks S t left sc data =
     (if left = 0 then Ret (Inr (sc, data))
      else
        let chunk_len = min left SECURE_MSG_MAX_PAYLOAD in
        attempt (recv_secure S sc chunk_len t) (\<lambda>(sc, chunk).
        read_chunks S t (left - chunk_len) sc (data @ chunk)))"
  by pat_completeness auto
termination
  by (relation "measure (\<lambda>(S, t, left, sc, data). left)") (auto simp: SECURE_MSG_MAX_PAYLOAD_eq)

declare read_chunks.simps [simp del]

definition read_chunked ::
  "('b, 'h, 't) snow_lib \<Rightarrow> 't secure_connection \<Rightarrow> nat \<Rightarrow> tags \<Rightarrow>
   (auth_error + 't secure_connection \<times> bytes) proc" where
  "read_chunked S sc len t = read_chunks S t len sc []"

subsection \<open>The data layer\<close>

definition DATA_C2S :: bytes where "DATA_C2S = ascii ''CPQHA-data-client-to-server''"
definition DATA_S2C :: bytes where "DATA_S2C = ascii ''CPQHA-data-server-to-client''"

definition data_key :: "hkdf_salted \<Rightarrow> 't secure_connection \<Rightarrow> bytes \<Rightarrow> bool \<Rightarrow> auth_error + bytes" where
  "data_key hkdf sc d_key sending =
     (let label = (if sending = is_initiator sc then DATA_C2S else DATA_S2C)
      in ok_or FailedToExpandHkdf (hkdf (Some (sc_hash sc)) d_key label 32))"

definition write_encrypted ::
  "('b, 'h, 't) snow_lib \<Rightarrow> gcm \<Rightarrow> hkdf_salted \<Rightarrow> bytes option \<Rightarrow> 't secure_connection \<Rightarrow> bytes \<Rightarrow> bytes \<Rightarrow>
   tags \<Rightarrow> (auth_error + 't secure_connection) proc" where
  "write_encrypted S G hkdf random sc data d_key t =
     attempt_result (data_key hkdf sc d_key True) (\<lambda>key.
     attempt_result (map_err FailedToEncryptData (encrypt G random key data)) (\<lambda>(ciphertext, nonce).
     write_chunked S sc (nonce @ ciphertext) t))"

text \<open>\<open>read_encrypted\<close> gives the connection back with the result: a packet that does not decrypt was
  still read, and the connection is used to answer.\<close>

definition read_encrypted ::
  "('b, 'h, 't) snow_lib \<Rightarrow> gcm \<Rightarrow> hkdf_salted \<Rightarrow> 't secure_connection \<Rightarrow> nat \<Rightarrow> bytes \<Rightarrow>
   tags \<Rightarrow> ('t secure_connection \<times> (auth_error + bytes)) proc" where
  "read_encrypted S G hkdf sc len d_key t =
     (if len < DATA_LAYER_OVERHEAD then Ret (sc, Inl FailedToDecryptData)
      else
        pbind (read_chunked S sc len t) (\<lambda>r.
        case r of
          Inl e \<Rightarrow> Ret (sc, Inl e)
        | Inr (sc, packet) \<Rightarrow>
            Ret (sc,
              and_then (data_key hkdf sc d_key False) (\<lambda>key.
              and_then (ok_or FailedToConvertToArray (to_array 12 (take 12 packet))) (\<lambda>nonce.
              map_err FailedToDecryptData (decrypt G key (drop 12 packet) nonce))))))"

section \<open>The Noise handshake\<close>

definition noise_builder :: "('b, 'h, 't) snow_lib \<Rightarrow> device_keypairs \<Rightarrow> bytes \<Rightarrow> auth_error + 'b" where
  "noise_builder S dk psk =
     and_then (ok_or FailedToParseText (nb_parse S)) (\<lambda>b.
     and_then (ok_or FailedToSetLocalPrivateKey (nb_private S b (static_private dk))) (\<lambda>b.
     ok_or FailedToSetPsk (nb_psk S b 3 psk)))"

text \<open>Reading and writing a handshake message: snow refuses a message that does not fit the
  buffer.\<close>

definition hs_read_msg :: "('b, 'h, 't) snow_lib \<Rightarrow> 'h \<Rightarrow> bytes \<Rightarrow> auth_error + 'h" where
  "hs_read_msg S h m =
     (case hs_read S h m of
        Some (h', payload) \<Rightarrow> if length payload \<le> SNOW_MSG2_LEN then Inr h' else Inl FailedToReadSnowMessage
      | None \<Rightarrow> Inl FailedToReadSnowMessage)"

definition hs_write_msg :: "('b, 'h, 't) snow_lib \<Rightarrow> 'h \<Rightarrow> auth_error + 'h \<times> bytes" where
  "hs_write_msg S h =
     (case hs_write S h [] of
        Some (h', m) \<Rightarrow> if length m \<le> SNOW_MSG2_LEN then Inr (h', m) else Inl FailedToWriteSnowMessage
      | None \<Rightarrow> Inl FailedToWriteSnowMessage)"

type_synonym 't noise_result = "'t secure_connection \<times> bytes \<times> bytes"

definition noise_finish ::
  "('b, 'h, 't) snow_lib \<Rightarrow> bytes \<Rightarrow> bool \<Rightarrow> 'h \<Rightarrow> auth_error + 't noise_result" where
  "noise_finish S name initiator h =
     and_then (ok_or SnowFailedToGetRemoteStatic (hs_remote_static S h)) (\<lambda>s.
     and_then (ok_or FailedToConvertToArray (to_array 32 s)) (\<lambda>peer_static.
     let handshake_hash = hs_hash S h in
     and_then (ok_or FailedToEnterTransportMode (hs_transport S h)) (\<lambda>transport.
     Inr (\<lparr>sc_name = name, sc_ts = transport, sc_hash = handshake_hash, is_initiator = initiator\<rparr>,
          peer_static, handshake_hash))))"

definition snow_handshake_server ::
  "('b, 'h, 't) snow_lib \<Rightarrow> bytes \<Rightarrow> bytes \<Rightarrow> device_keypairs \<Rightarrow> (auth_error + 't noise_result) proc" where
  "snow_handshake_server S name psk dk =
     attempt_result (noise_builder S dk psk) (\<lambda>b.
     attempt_result (ok_or FailedToBuildSnowResponder (nb_responder S b)) (\<lambda>h.
     attempt (stream_read SNOW_MSG1_LEN) (\<lambda>m1.
     attempt_result (hs_read_msg S h m1) (\<lambda>h.
     attempt_result (hs_write_msg S h) (\<lambda>(h, m2).
     attempt (stream_write (overwrite (replicate SNOW_MSG2_LEN 0) m2)) (\<lambda>_.
     attempt (stream_read SNOW_MSG3_LEN) (\<lambda>m3.
     attempt_result (hs_read_msg S h m3) (\<lambda>h.
     attempt_result (noise_finish S name False h) (\<lambda>r. Ret (Inr r))))))))))"

definition snow_handshake_client ::
  "('b, 'h, 't) snow_lib \<Rightarrow> bytes \<Rightarrow> bytes \<Rightarrow> device_keypairs \<Rightarrow> (auth_error + 't noise_result) proc" where
  "snow_handshake_client S name psk dk =
     attempt_result (noise_builder S dk psk) (\<lambda>b.
     attempt_result (ok_or FailedToBuildSnowInitiator (nb_initiator S b)) (\<lambda>h.
     attempt_result (hs_write_msg S h) (\<lambda>(h, m1).
     if length m1 \<noteq> SNOW_MSG1_LEN then Ret (Inl FailedToWriteSnowMessage) else
     attempt (stream_write m1) (\<lambda>_.
     attempt (stream_read SNOW_MSG2_LEN) (\<lambda>m2.
     attempt_result (hs_read_msg S h m2) (\<lambda>h.
     attempt_result (hs_write_msg S h) (\<lambda>(h, m3).
     if length m3 \<noteq> SNOW_MSG3_LEN then Ret (Inl FailedToWriteSnowMessage) else
     attempt (stream_write m3) (\<lambda>_.
     attempt_result (noise_finish S name True h) (\<lambda>r. Ret (Inr r))))))))))"

section \<open>Identifying the peer\<close>

datatype role = Client | Server

definition CLIENT_CONTEXT :: bytes where "CLIENT_CONTEXT = ascii ''CesaConn Client Handshake''"
definition SERVER_CONTEXT :: bytes where "SERVER_CONTEXT = ascii ''CesaConn Server Handshake''"
definition MLDSA87_SIG_LEN :: nat where "MLDSA87_SIG_LEN = 4627"

primrec own_context :: "role \<Rightarrow> bytes" where
  "own_context Client = CLIENT_CONTEXT"
| "own_context Server = SERVER_CONTEXT"

primrec peer_context :: "role \<Rightarrow> bytes" where
  "peer_context Client = SERVER_CONTEXT"
| "peer_context Server = CLIENT_CONTEXT"

definition exchange_is_saved ::
  "('b, 'h, 't) snow_lib \<Rightarrow> 't secure_connection \<Rightarrow> role \<Rightarrow> bool \<Rightarrow>
   (auth_error + 't secure_connection \<times> bool) proc" where
  "exchange_is_saved S sc role we_have_peer =
     (let ours = [of_bool we_have_peer];
          result = (\<lambda>sc theirs :: bytes. Ret (Inr (sc, we_have_peer \<and> theirs \<noteq> [] \<and> hd theirs = 0x01)))
      in case role of
           Client \<Rightarrow>
             attempt (send_secure S sc ours IsSavedTag) (\<lambda>sc.
             attempt (recv_secure S sc 1 IsSavedTag) (\<lambda>(sc, theirs). result sc theirs))
         | Server \<Rightarrow>
             attempt (recv_secure S sc 1 IsSavedTag) (\<lambda>(sc, theirs).
             attempt (send_secure S sc ours IsSavedTag) (\<lambda>sc. result sc theirs)))"

definition verify_peer_signature ::
  "mldsa_lib \<Rightarrow> bytes \<Rightarrow> bytes \<Rightarrow> bytes option \<Rightarrow> bytes \<Rightarrow> bytes \<Rightarrow> auth_error + unit" where
  "verify_peer_signature D received_key signature stored_key handshake_hash context =
     (if (case stored_key of Some k \<Rightarrow> k \<noteq> received_key | None \<Rightarrow> False) then Inl PeerKeyMismatch
      else if dsa_verify D received_key handshake_hash context signature then Inr ()
      else Inl FailedToVerifySignature)"

definition send_key_and_signature ::
  "('b, 'h, 't) snow_lib \<Rightarrow> 't secure_connection \<Rightarrow> bytes \<Rightarrow> bytes \<Rightarrow>
   (auth_error + 't secure_connection) proc" where
  "send_key_and_signature S sc key signature =
     attempt (send_secure S sc key MLDSA87VerificationKeyTag) (\<lambda>sc.
     send_secure S sc signature MLDSA87SignatureTag)"

definition recv_key_and_signature ::
  "('b, 'h, 't) snow_lib \<Rightarrow> 't secure_connection \<Rightarrow>
   (auth_error + 't secure_connection \<times> bytes \<times> bytes) proc" where
  "recv_key_and_signature S sc =
     attempt (recv_secure S sc MLDSA87_VK_LEN MLDSA87VerificationKeyTag) (\<lambda>(sc, key).
     attempt (recv_secure S sc MLDSA87_SIG_LEN MLDSA87SignatureTag) (\<lambda>(sc, signature).
     Ret (Inr (sc, key, signature))))"

definition exchange_signatures ::
  "('b, 'h, 't) snow_lib \<Rightarrow> mldsa_lib \<Rightarrow> bytes option \<Rightarrow> 't secure_connection \<Rightarrow> role \<Rightarrow> bytes \<Rightarrow>
   bytes option \<Rightarrow> device_keypairs \<Rightarrow> (auth_error + 't secure_connection \<times> bytes) proc" where
  "exchange_signatures S D random sc role handshake_hash stored_key dk =
     attempt_result (ok_or FailedToSignData random) (\<lambda>random.
     attempt_result (ok_or FailedToSignData
       (dsa_sign D (mldsa_signing dk) handshake_hash (own_context role) random)) (\<lambda>our_signature.
     attempt
       (case role of
          Client \<Rightarrow>
            attempt (send_key_and_signature S sc (mldsa_verification dk) our_signature) (\<lambda>sc.
            recv_key_and_signature S sc)
        | Server \<Rightarrow> recv_key_and_signature S sc) (\<lambda>(sc, peer_key, peer_signature).
     attempt_result (ok_or FailedToConvertToArray (to_array MLDSA87_VK_LEN peer_key)) (\<lambda>peer_key.
     attempt_result (ok_or FailedToConvertToArray (to_array MLDSA87_SIG_LEN peer_signature)) (\<lambda>peer_signature.
     attempt_result (verify_peer_signature D peer_key peer_signature stored_key handshake_hash
       (peer_context role)) (\<lambda>_.
     attempt
       (case role of
          Client \<Rightarrow> Ret (Inr sc)
        | Server \<Rightarrow> send_key_and_signature S sc (mldsa_verification dk) our_signature) (\<lambda>sc.
     Ret (Inr (sc, peer_key)))))))))"

definition find_peer :: "trusted_peer list \<Rightarrow> bytes \<Rightarrow> trusted_peer option" where
  "find_peer peers key = find (\<lambda>p. x25519_pub_key p = key) peers"

definition identify_peer ::
  "('b, 'h, 't) snow_lib \<Rightarrow> mldsa_lib \<Rightarrow> bytes option \<Rightarrow> 't secure_connection \<Rightarrow> role \<Rightarrow> bytes \<Rightarrow> bytes \<Rightarrow>
   device_keypairs \<Rightarrow> trusted_peer list \<Rightarrow> (auth_error + 't secure_connection \<times> trusted_peer \<times> bool) proc" where
  "identify_peer S D random sc role peer_static handshake_hash dk trusted =
     (let stored_peer = find_peer trusted peer_static in
      attempt (exchange_is_saved S sc role (stored_peer \<noteq> None)) (\<lambda>(sc, both_saved).
      attempt (exchange_signatures S D random sc role handshake_hash
        (map_option mldsa_verification_key stored_peer) dk) (\<lambda>(sc, peer_key).
      Ret (Inr (sc,
        \<lparr>x25519_pub_key = peer_static, mldsa_verification_key = peer_key,
         peer_name = (case stored_peer of Some p \<Rightarrow> peer_name p | None \<Rightarrow> sc_name sc)\<rparr>,
        both_saved)))))"

section \<open>Pairing\<close>

text \<open>What happens to the question put to the user: the queue is full (or nobody listens, as on
  sync connections), an answer, the request is dropped, or no answer in time.\<close>

datatype user_decision = QueueFull | Decided bool | DroppedUnanswered | NoDecision

definition ask_user :: "hkdf \<Rightarrow> user_decision \<Rightarrow> bytes \<Rightarrow> auth_error + bool" where
  "ask_user hkdf user handshake_hash =
     and_then (pairing_code hkdf handshake_hash) (\<lambda>code.
     (case user of
        QueueFull \<Rightarrow> Inr False
      | Decided accept \<Rightarrow> Inr accept
      | DroppedUnanswered \<Rightarrow> Inr False
      | NoDecision \<Rightarrow> Inl PairingTimeout))"

definition confirm_pairing ::
  "('b, 'h, 't) snow_lib \<Rightarrow> hkdf \<Rightarrow> user_decision \<Rightarrow> 't secure_connection \<Rightarrow> role \<Rightarrow> bytes \<Rightarrow>
   (auth_error + 't secure_connection) proc" where
  "confirm_pairing S hkdf user sc role handshake_hash =
     (let asked = ask_user hkdf user handshake_hash;
          accept = (asked = Inr True);
          (our_tag, peer_tag, peer_rejected) =
            (case role of
               Client \<Rightarrow> (ClientAcceptTag, ServerAcceptTag, NoServerConfirmation)
             | Server \<Rightarrow> (ServerAcceptTag, ClientAcceptTag, NoClientConfirmation)) in
      attempt (send_secure S sc [of_bool accept] our_tag) (\<lambda>sc.
      if \<not> accept then Ret (Inl (case asked of Inl e \<Rightarrow> e | Inr _ \<Rightarrow> FailedToPairNewDevice))
      else
        attempt (recv_secure S sc 1 peer_tag) (\<lambda>(sc, peer_decision).
        if peer_decision = [] \<or> hd peer_decision \<noteq> 0x01 then Ret (Inl peer_rejected)
        else Ret (Inr sc))))"

section \<open>Authentication\<close>

record ('s, 'b, 'h, 't) auth_libs =
  al_kex :: "'s kex_lib"
  al_snow :: "('b, 'h, 't) snow_lib"
  al_dsa :: mldsa_lib

record auth_keys =
  ak_a_key :: bytes
  ak_a_salt :: bytes

text \<open>\<open>Identified\<close>: the connection, the peer, the handshake hash, whether both know each other.\<close>

type_synonym 't identified = "'t secure_connection \<times> trusted_peer \<times> bytes \<times> bool"

definition handshake_server ::
  "('s, 'b, 'h, 't) auth_libs \<Rightarrow> kex_random \<Rightarrow> bytes option \<Rightarrow> bytes \<Rightarrow> auth_keys \<Rightarrow> device_keypairs \<Rightarrow>
   trusted_peer list \<Rightarrow> (auth_error + 't identified option) proc" where
  "handshake_server A r dsa_random name keys dk trusted =
     attempt (key_agreement_server (al_kex A) r (ak_a_key keys) (ak_a_salt keys)) (\<lambda>agreed.
     (case agreed of
        None \<Rightarrow> Ret (Inr None)
      | Some psk \<Rightarrow>
          attempt (snow_handshake_server (al_snow A) name psk dk) (\<lambda>(sc, peer_static, handshake_hash).
          attempt (identify_peer (al_snow A) (al_dsa A) dsa_random sc Server peer_static handshake_hash dk trusted)
            (\<lambda>(sc, peer, both_saved).
          Ret (Inr (Some (sc, peer, handshake_hash, both_saved)))))))"

definition handshake_client ::
  "('s, 'b, 'h, 't) auth_libs \<Rightarrow> kex_random \<Rightarrow> bytes option \<Rightarrow> bytes \<Rightarrow> auth_keys \<Rightarrow> device_keypairs \<Rightarrow>
   trusted_peer list \<Rightarrow> (auth_error + 't identified option) proc" where
  "handshake_client A r dsa_random name keys dk trusted =
     attempt (key_agreement_client (al_kex A) r (ak_a_key keys) (ak_a_salt keys)) (\<lambda>agreed.
     (case agreed of
        None \<Rightarrow> Ret (Inr None)
      | Some psk \<Rightarrow>
          attempt (snow_handshake_client (al_snow A) name psk dk) (\<lambda>(sc, peer_static, handshake_hash).
          attempt (identify_peer (al_snow A) (al_dsa A) dsa_random sc Client peer_static handshake_hash dk trusted)
            (\<lambda>(sc, peer, both_saved).
          Ret (Inr (Some (sc, peer, handshake_hash, both_saved)))))))"

record 't authenticated =
  au_connection :: "'t secure_connection"
  au_peer :: trusted_peer
  newly_paired :: bool

text \<open>\<open>finish_auth\<close>: \<open>elapsed\<close> says that the deadline of the automatic part was hit; \<open>now_trusted\<close> is
  the list when pairing is decided. The result comes with the list afterwards and with whether
  the owner is woken to save it.\<close>

definition finish_auth ::
  "('b, 'h, 't) snow_lib \<Rightarrow> hkdf \<Rightarrow> user_decision \<Rightarrow> role \<Rightarrow> trusted_peer list \<Rightarrow> bool \<Rightarrow>
   auth_error + 't identified option \<Rightarrow>
   ((auth_error + 't authenticated option) \<times> trusted_peer list \<times> bool) proc" where
  "finish_auth S hkdf user role now_trusted elapsed identified =
     (if elapsed then Ret (Inl HandshakeTimeout, now_trusted, False)
      else
        (case identified of
           Inl e \<Rightarrow> Ret (Inl e, now_trusted, False)
         | Inr None \<Rightarrow> Ret (Inr None, now_trusted, False)
         | Inr (Some (sc, peer, handshake_hash, both_saved)) \<Rightarrow>
             if \<not> both_saved then
               (if MAX_TRUSTED_PEERS \<le> length now_trusted
                then Ret (Inl FailedToPairNewDevice, now_trusted, False)
                else
                  pbind (confirm_pairing S hkdf user sc role handshake_hash) (\<lambda>confirmed.
                  (case confirmed of
                     Inl e \<Rightarrow> Ret (Inl e, now_trusted, False)
                   | Inr sc \<Rightarrow>
                       (case save_peer now_trusted peer of
                          (Inl e, ps) \<Rightarrow> Ret (Inl e, ps, False)
                        | (Inr _, ps) \<Rightarrow>
                            Ret (Inr (Some \<lparr>au_connection = sc, au_peer = peer, newly_paired = \<not> both_saved\<rparr>),
                                 ps, True)))))
             else
               Ret (Inr (Some \<lparr>au_connection = sc, au_peer = peer, newly_paired = \<not> both_saved\<rparr>),
                    now_trusted, False)))"

definition auth_incoming ::
  "('s, 'b, 'h, 't) auth_libs \<Rightarrow> kex_random \<Rightarrow> bytes option \<Rightarrow> hkdf \<Rightarrow> bytes \<Rightarrow> auth_keys \<Rightarrow> device_keypairs \<Rightarrow>
   trusted_peer list \<Rightarrow> trusted_peer list \<Rightarrow> bool \<Rightarrow> user_decision \<Rightarrow>
   ((auth_error + 't authenticated option) \<times> trusted_peer list \<times> bool) proc" where
  "auth_incoming A r dsa_random hkdf name keys dk trusted now_trusted elapsed user =
     pbind (handshake_server A r dsa_random name keys dk trusted) (\<lambda>identified.
     finish_auth (al_snow A) hkdf user Server now_trusted elapsed identified)"

definition auth_outgoing ::
  "('s, 'b, 'h, 't) auth_libs \<Rightarrow> kex_random \<Rightarrow> bytes option \<Rightarrow> hkdf \<Rightarrow> bytes \<Rightarrow> auth_keys \<Rightarrow> device_keypairs \<Rightarrow>
   trusted_peer list \<Rightarrow> trusted_peer list \<Rightarrow> bool \<Rightarrow> user_decision \<Rightarrow>
   ((auth_error + 't authenticated option) \<times> trusted_peer list \<times> bool) proc" where
  "auth_outgoing A r dsa_random hkdf name keys dk trusted now_trusted elapsed user =
     pbind (handshake_client A r dsa_random name keys dk trusted) (\<lambda>identified.
     finish_auth (al_snow A) hkdf user Client now_trusted elapsed identified)"

section \<open>Traces of the steps\<close>

text \<open>A received message decrypted and carried the tag.\<close>

lemma run_secure_read:
  assumes "run (secure_read S sc len t) tr = Some (Inr (sc', p))"
  shows "length p + 1 = len \<and> (\<exists>c. tr = [Got c])"
proof -
  obtain c plain where "tr = [Got c]" and u: "untag t (overwrite (replicate len 0) plain) = (True, p)"
    using assms
    by (auto simp: secure_read_def run_simps Let_def case_prod_beta simp del: run.simps split: if_splits)
       (metis prod.collapse)
  moreover from u have "overwrite (replicate len 0) plain = tag t p" by (simp add: untag_True)
  then have "length (tag t p) = len" by (metis length_overwrite length_replicate)
  ultimately show ?thesis by (simp add: tag_def)
qed

lemma run_recv_secure:
  "run (recv_secure S sc len t) tr = Some (Inr (sc', p)) \<Longrightarrow> length p = len \<and> (\<exists>c. tr = [Got c])"
  using run_secure_read [of S sc "len + 1" t tr sc' p] by (simp add: recv_secure_def run_relabel_Inr)

lemma run_recv_keys:
  "run (recv_key_and_signature S sc) tr = Some (Inr (sc', k, sig)) \<Longrightarrow>
   length k = MLDSA87_VK_LEN \<and> length sig = MLDSA87_SIG_LEN"
  by (auto simp: recv_key_and_signature_def run_simps simp del: run.simps dest!: run_recv_secure)

text \<open>The signatures step succeeds only with a valid signature of the peer's role over this
  handshake, under the stored key if there is one.\<close>

lemma run_exchange_signatures:
  assumes "run (exchange_signatures S D random sc role hash stored dk) tr = Some (Inr (sc', key))"
  shows "length key = MLDSA87_VK_LEN \<and> (\<exists>sig. dsa_verify D key hash (peer_context role) sig) \<and>
    (\<forall>k. stored = Some k \<longrightarrow> k = key)"
  using assms
  by (auto simp: exchange_signatures_def run_simps verify_peer_signature_def simp del: run.simps
      split: if_splits option.splits)

lemma run_exchange_is_saved:
  assumes "run (exchange_is_saved S sc role have_peer) tr = Some (Inr (sc', True))"
  shows "have_peer"
  using assms by (cases role) (auto simp: exchange_is_saved_def run_simps Let_def simp del: run.simps)

lemma find_peer_Some: "find_peer ps k = Some p \<Longrightarrow> p \<in> set ps \<and> x25519_pub_key p = k"
  by (auto simp: find_peer_def find_Some_iff)

text \<open>What identifying a peer guarantees, whatever is on the other end.\<close>

lemma run_identify_peer:
  assumes "run (identify_peer S D random sc role peer_static hash dk trusted) tr = Some (Inr (sc', peer, both))"
  shows "x25519_pub_key peer = peer_static \<and>
    (\<exists>sig. dsa_verify D (mldsa_verification_key peer) hash (peer_context role) sig) \<and>
    (\<forall>p. find_peer trusted peer_static = Some p \<longrightarrow>
      mldsa_verification_key p = mldsa_verification_key peer \<and> peer_name p = peer_name peer) \<and>
    (both \<longrightarrow> find_peer trusted peer_static \<noteq> None)"
  using assms
  by (auto simp: identify_peer_def run_simps Let_def simp del: run.simps
      dest!: run_exchange_signatures split: option.splits dest: run_exchange_is_saved)

end
