(* ===== verification/Auth_Proofs.thy ===== *)
theory Auth_Proofs
  imports Auth_Snow
begin

text \<open>
  What authentication guarantees, for \<open>auth_snow.rs\<close> as modelled in \<open>Auth_Snow\<close>. The safety
  properties are about every trace of \<open>auth_incoming\<close> and \<open>auth_outgoing\<close>, so they hold
  whatever the other end and the network do; the round trips of the data layer are about two
  ends whose Noise transports are in step.
\<close>

section \<open>The handshake hash stays with the connection\<close>

lemma run_send_secure:
  "run (send_secure S sc m t) tr = Some (Inr sc') \<Longrightarrow> \<exists>ts. sc' = sc\<lparr>sc_ts := ts\<rparr>"
  unfolding send_secure_def run_relabel_Inr
  by (auto simp: secure_write_def run_simps Let_def simp del: run.simps split: if_splits)

lemma run_recv_secure_sc:
  "run (recv_secure S sc n t) tr = Some (Inr (sc', p)) \<Longrightarrow> \<exists>ts. sc' = sc\<lparr>sc_ts := ts\<rparr>"
  unfolding recv_secure_def run_relabel_Inr
  by (auto simp: secure_read_def run_simps Let_def case_prod_beta simp del: run.simps split: if_splits)

lemmas run_secure_sc = run_send_secure run_recv_secure_sc

lemma run_exchange_is_saved_sc:
  "run (exchange_is_saved S sc role b) tr = Some (Inr (sc', c)) \<Longrightarrow> \<exists>ts. sc' = sc\<lparr>sc_ts := ts\<rparr>"
  by (cases role) (auto simp: exchange_is_saved_def run_simps Let_def simp del: run.simps dest!: run_secure_sc)

lemma run_exchange_signatures_sc:
  "run (exchange_signatures S D r sc role h st dk) tr = Some (Inr (sc', c)) \<Longrightarrow> \<exists>ts. sc' = sc\<lparr>sc_ts := ts\<rparr>"
  by (cases role)
     (auto simp: exchange_signatures_def send_key_and_signature_def recv_key_and_signature_def run_simps
       simp del: run.simps dest!: run_secure_sc)

lemma run_identify_peer_sc:
  "run (identify_peer S D r sc role ps h dk tp) tr = Some (Inr (sc', c)) \<Longrightarrow> \<exists>ts. sc' = sc\<lparr>sc_ts := ts\<rparr>"
  by (auto simp: identify_peer_def run_simps Let_def simp del: run.simps
      dest!: run_exchange_is_saved_sc run_exchange_signatures_sc)

lemma run_identify_peer_hash:
  "run (identify_peer S D r sc role ps h dk tp) tr = Some (Inr (sc', c)) \<Longrightarrow> sc_hash sc' = sc_hash sc"
  by (auto dest!: run_identify_peer_sc)

lemma run_noise_hash:
  "run (snow_handshake_server S name psk dk) tr = Some (Inr (sc, st, h)) \<Longrightarrow> sc_hash sc = h \<and> length st = 32"
  "run (snow_handshake_client S name psk dk) tr = Some (Inr (sc, st, h)) \<Longrightarrow> sc_hash sc = h \<and> length st = 32"
  by (auto simp: snow_handshake_server_def snow_handshake_client_def noise_finish_def run_simps
      and_then_eq_Inr to_array_def Let_def simp del: run.simps split: if_splits)

section \<open>What an authenticated peer has proved\<close>

text \<open>\<open>proven D role trusted peer hash both\<close>: the peer signed this handshake in the other role
  under its ML-DSA key; a device saved under its Noise key was saved with that ML-DSA key and
  name; \<open>both\<close> is only set for a saved device.\<close>

definition proven :: "mldsa_lib \<Rightarrow> role \<Rightarrow> trusted_peer list \<Rightarrow> trusted_peer \<Rightarrow> bytes \<Rightarrow> bool \<Rightarrow> bool" where
  "proven D role trusted peer hash both =
     (length (x25519_pub_key peer) = 32 \<and> length (mldsa_verification_key peer) = MLDSA87_VK_LEN \<and>
      (\<exists>sig. dsa_verify D (mldsa_verification_key peer) hash (peer_context role) sig) \<and>
      (case find_peer trusted (x25519_pub_key peer) of
         None \<Rightarrow> \<not> both
       | Some p \<Rightarrow> p = peer))"

lemma run_identify_peer_proven:
  assumes "run (identify_peer S D r sc role st h dk trusted) tr = Some (Inr (sc', peer, both))" "length st = 32"
  shows "proven D role trusted peer h both"
proof -
  have len: "length (mldsa_verification_key peer) = MLDSA87_VK_LEN"
    using assms(1)
    by (auto simp: identify_peer_def run_simps Let_def simp del: run.simps dest!: run_exchange_signatures)
  note id = run_identify_peer [OF assms(1)]
  show ?thesis
  proof (cases "find_peer trusted st")
    case None
    then have "\<not> both" using id by simp
    with None id len assms(2) show ?thesis by (simp add: proven_def)
  next
    case (Some p)
    with id find_peer_Some [OF Some] have "p = peer" by (intro trusted_peer.equality) simp_all
    with Some id len assms(2) show ?thesis by (simp add: proven_def)
  qed
qed

lemma run_handshake_proven:
  "run (handshake_server A r dr name keys dk trusted) tr = Some (Inr (Some (sc, peer, h, both))) \<Longrightarrow>
     proven (al_dsa A) Server trusted peer h both \<and> sc_hash sc = h"
  "run (handshake_client A r dr name keys dk trusted) tr = Some (Inr (Some (sc, peer, h, both))) \<Longrightarrow>
     proven (al_dsa A) Client trusted peer h both \<and> sc_hash sc = h"
  by (auto simp: handshake_server_def handshake_client_def run_simps simp del: run.simps split: option.splits
      dest!: run_noise_hash intro: run_identify_peer_proven dest: run_identify_peer_hash)

text \<open>How \<open>finish_auth\<close> can succeed.\<close>

lemma run_untag:
  "run (case untag t m of (ok, p) \<Rightarrow> if \<not> ok then Ret (Inl e) else Ret (Inr (s, p))) tr = Some (Inr r) \<longleftrightarrow>
   tr = [] \<and> (\<exists>p. m = tag t p \<and> r = (s, p))"
proof (cases "untag t m")
  case (Pair ok p)
  then show ?thesis
    using untag_tag [of t t] untag_True [of t m p] by (cases ok) (auto simp: tag_def)
qed

lemma run_recv_secure_plain:
  assumes "run (recv_secure S sc n t) tr = Some (Inr (sc', p))"
  shows "\<exists>c ts plain. tr = [Got c] \<and> t_read S (sc_ts sc) c = Some (ts, plain) \<and>
    overwrite (replicate (n + 1) 0) plain = tag t p"
proof -
  from assms have "run (secure_read S sc (n + 1) t) tr = Some (Inr (sc', p))"
    by (simp only: recv_secure_def run_relabel_Inr)
  then show ?thesis
    by (auto simp: secure_read_def run_attempt_Inr run_attempt_result_Inr run_stream_read run_untag run_Ret Let_def
        simp del: run.simps split: if_splits)
qed

lemma run_confirm_pairing:
  assumes "run (confirm_pairing S hkdf user sc role h) tr = Some (Inr sc')"
  shows "user = Decided True" "sc_hash sc' = sc_hash sc"
    "\<exists>c ts ts' plain. Got c \<in> set tr \<and> t_read S ts c = Some (ts', plain) \<and>
      take 2 plain = tag (case role of Client \<Rightarrow> ServerAcceptTag | Server \<Rightarrow> ClientAcceptTag) [1]"
proof -
  let ?t = "case role of Client \<Rightarrow> ServerAcceptTag | Server \<Rightarrow> ClientAcceptTag"
  obtain sc1 tr1 tr2 p t where asked: "ask_user hkdf user h = Inr True" and tr: "tr = tr1 @ tr2"
    and sent: "run (send_secure S sc [1] t) tr1 = Some (Inr sc1)"
    and got: "run (recv_secure S sc1 1 ?t) tr2 = Some (Inr (sc', p))" and p: "p \<noteq> []" "hd p = 1"
    using assms by (cases role) (auto simp: confirm_pairing_def Let_def run_simps simp del: run.simps split: if_splits)
  show "user = Decided True"
    using asked by (cases user) (simp_all add: ask_user_def and_then_eq_Inr)
  show "sc_hash sc' = sc_hash sc" using run_secure_sc(1) [OF sent] run_secure_sc(2) [OF got] by auto
  have "length p = 1" using run_recv_secure [OF got] by simp
  with p have "p = [1]" by (cases p) auto
  with run_recv_secure_plain [OF got] obtain c ts' plain where c: "tr2 = [Got c]"
    "t_read S (sc_ts sc1) c = Some (ts', plain)" "overwrite (replicate 2 0) plain = tag ?t [1]"
    by (auto simp: numeral_2_eq_2)
  have "2 \<le> length plain"
  proof (rule ccontr)
    assume "\<not> 2 \<le> length plain"
    then have "last (overwrite (replicate 2 0) plain) = 0" by (simp add: overwrite_def)
    moreover have "last (tag ?t [1]) \<noteq> 0" by (cases role) (simp_all add: tag_def)
    ultimately show False using c(3) by metis
  qed
  with c(3) have "take 2 plain = tag ?t [1]" by (simp add: overwrite_def)
  with c tr show "\<exists>c ts ts' plain. Got c \<in> set tr \<and> t_read S ts c = Some (ts', plain) \<and> take 2 plain = tag ?t [1]"
    by auto
qed

lemma run_finish_auth:
  fixes S :: "('b, 'h, 't) snow_lib"
  assumes "run (finish_auth S hkdf user role now elapsed ident) tr = Some (Inr (Some au), now', woken)"
  shows "\<exists>sc peer h both. ident = Inr (Some (sc, peer, h, both)) \<and> au_peer au = peer \<and>
    sc_hash (au_connection au) = sc_hash sc \<and> newly_paired au = (\<not> both) \<and>
    (if both then now' = now \<and> \<not> woken
     else save_peer now peer = (Inr (), now') \<and> woken \<and>
       (\<exists>tr1 tr2 sc'. tr = tr1 @ tr2 \<and> run (confirm_pairing S hkdf user sc role h) tr1 = Some (Inr sc')))"
proof -
  have e: "\<not> elapsed" using assms by (auto simp: finish_auth_def split: if_splits)
  obtain i where "ident = Inr (Some i)"
  proof (cases ident)
    case (Inr o')
    then show ?thesis using assms e that by (cases o') (auto simp: finish_auth_def split: if_splits)
  qed (use assms e in \<open>auto simp: finish_auth_def split: if_splits\<close>)
  then obtain sc peer h both where id: "ident = Inr (Some (sc, peer, h, both))" by (cases i) auto
  show ?thesis
  proof (cases both)
    case True
    with assms id e have "au = \<lparr>au_connection = sc, au_peer = peer, newly_paired = False\<rparr> \<and> now' = now \<and> \<not> woken"
      by (simp add: finish_auth_def split: if_splits)
    with id True show ?thesis by auto
  next
    case False
    define rest where "rest = (\<lambda>x :: auth_error + 't secure_connection. case x of Inl e \<Rightarrow> Ret (Inl e, now, False)
        | Inr sc \<Rightarrow> (case save_peer now peer of (Inl e, ps) \<Rightarrow> Ret (Inl e, ps, False)
          | (Inr _, ps) \<Rightarrow> Ret (Inr (Some \<lparr>au_connection = sc, au_peer = peer, newly_paired = \<not> False\<rparr>), ps, True)))"
    have "run (pbind (confirm_pairing S hkdf user sc role h) rest) tr = Some (Inr (Some au), now', woken)"
      using assms e False by (simp add: id finish_auth_def rest_def split: if_splits)
    then obtain tr1 tr2 x where x: "tr = tr1 @ tr2"
      "run (confirm_pairing S hkdf user sc role h) tr1 = Some x" "run (rest x) tr2 = Some (Inr (Some au), now', woken)"
      unfolding run_pbind by blast
    then obtain sc' where sc': "x = Inr sc'" by (cases x) (auto simp: rest_def split: if_splits)
    from x(3) have "save_peer now peer = (Inr (), now') \<and> woken \<and>
      au = \<lparr>au_connection = sc', au_peer = peer, newly_paired = True\<rparr>"
      using False by (auto simp: rest_def sc' split: prod.splits sum.splits if_splits)
    with False id x sc' run_confirm_pairing(2) [of S hkdf user sc role h tr1 sc'] show ?thesis by auto
  qed
qed

text \<open>A connection that does not end authenticated leaves the list alone.\<close>

lemma run_finish_auth_unchanged:
  assumes "run (finish_auth S hkdf user role now elapsed ident) tr = Some (res, now', woken)"
    and "\<And>au. res \<noteq> Inr (Some au)"
  shows "now' = now"
proof -
  have keep: "save_peer now peer = (Inl e, ps) \<Longrightarrow> ps = now" for peer e ps
    by (auto simp: save_peer_def split: if_splits)
  have fin: "run (case x of Inl e \<Rightarrow> Ret (Inl e, now, False)
        | Inr sc \<Rightarrow> (case save_peer now peer of (Inl e, ps) \<Rightarrow> Ret (Inl e, ps, False)
          | (Inr _, ps) \<Rightarrow> Ret (Inr (Some (f sc)), ps, True))) tr2 = Some (res, now', woken) \<Longrightarrow> now' = now"
    for x peer f tr2
    using assms(2) keep by (cases x; cases "save_peer now peer") (auto split: if_splits sum.splits)
  show ?thesis
  proof (cases ident)
    case (Inl e)
    with assms(1) show ?thesis by (simp add: finish_auth_def split: if_splits)
  next
    case (Inr i)
    show ?thesis
    proof (cases i)
      case None
      with assms(1) Inr show ?thesis by (simp add: finish_auth_def split: if_splits)
    next
      case (Some x)
      with assms Inr fin show ?thesis
        by (cases x) (auto simp: finish_auth_def run_pbind run_Ret simp del: run.simps split: if_splits)
    qed
  qed
qed

text \<open>The owner is only woken to save after a success.\<close>

lemma finish_auth_woken:
  "always (\<lambda>(res, ps, woken). woken \<longrightarrow> (\<exists>au. res = Inr (Some au) \<and> newly_paired au))
    (finish_auth S hkdf user role now elapsed ident)"
  by (auto simp: finish_auth_def intro!: always_pbind_any split: sum.splits option.splits prod.splits)

section \<open>Authentication\<close>

text \<open>Either side of a connection.\<close>

definition authenticate ::
  "role \<Rightarrow> ('s, 'b, 'h, 't) auth_libs \<Rightarrow> kex_random \<Rightarrow> bytes option \<Rightarrow> hkdf \<Rightarrow> bytes \<Rightarrow> auth_keys \<Rightarrow> device_keypairs \<Rightarrow>
   trusted_peer list \<Rightarrow> trusted_peer list \<Rightarrow> bool \<Rightarrow> user_decision \<Rightarrow>
   ((auth_error + 't authenticated option) \<times> trusted_peer list \<times> bool) proc" where
  "authenticate role = (case role of Server \<Rightarrow> auth_incoming | Client \<Rightarrow> auth_outgoing)"

lemma run_authenticate:
  assumes "run (authenticate role A r dr hkdf name keys dk trusted now elapsed user) tr = Some (Inr (Some au), now', woken)"
  shows "proven (al_dsa A) role trusted (au_peer au) (sc_hash (au_connection au)) (\<not> newly_paired au) \<and>
    (if newly_paired au
     then save_peer now (au_peer au) = (Inr (), now') \<and> woken \<and>
       (\<exists>sc h tr0 tr1 tr2 sc'. tr = tr0 @ tr1 @ tr2 \<and>
         run (confirm_pairing (al_snow A) hkdf user sc role h) tr1 = Some (Inr sc'))
     else now' = now \<and> \<not> woken)"
proof -
  define hs where "hs = (case role of Server \<Rightarrow> handshake_server A r dr name keys dk trusted
    | Client \<Rightarrow> handshake_client A r dr name keys dk trusted)"
  have "run (pbind hs (finish_auth (al_snow A) hkdf user role now elapsed)) tr = Some (Inr (Some au), now', woken)"
    using assms by (cases role) (simp_all add: authenticate_def auth_incoming_def auth_outgoing_def hs_def)
  then obtain tr1 tr2 ident where tr: "tr = tr1 @ tr2" and h: "run hs tr1 = Some ident"
    and f: "run (finish_auth (al_snow A) hkdf user role now elapsed ident) tr2 = Some (Inr (Some au), now', woken)"
    unfolding run_pbind by blast
  from run_finish_auth [OF f] obtain sc both h' where ident: "ident = Inr (Some (sc, au_peer au, h', both))"
    and au: "sc_hash (au_connection au) = sc_hash sc" "newly_paired au = (\<not> both)"
    and saved: "if both then now' = now \<and> \<not> woken
     else save_peer now (au_peer au) = (Inr (), now') \<and> woken \<and>
       (\<exists>t1 t2 sc'. tr2 = t1 @ t2 \<and> run (confirm_pairing (al_snow A) hkdf user sc role h') t1 = Some (Inr sc'))"
    by blast
  from h have "proven (al_dsa A) role trusted (au_peer au) h' both \<and> sc_hash sc = h'"
    unfolding ident hs_def
    using run_handshake_proven(1) [of A r dr name keys dk trusted tr1] run_handshake_proven(2) [of A r dr name keys dk trusted tr1]
    by (cases role) simp_all
  with au saved tr show ?thesis by (cases both) (simp_all, blast)
qed

text \<open>
  C1. Nobody is authenticated without proving who they are: whatever is on the other end of the
  connection, when either side authenticates a peer, a signature over the hash of exactly this
  handshake verified under the peer's ML-DSA key in the peer's role (so a signature cannot be
  reflected); if a device with that Noise key was paired, it is that device, under the saved
  ML-DSA key and the saved name; and a device that was not paired is only ever authenticated as
  newly paired.
\<close>
theorem authenticated_peer_proven:
  assumes "run (authenticate role A r dr hkdf name keys dk trusted now elapsed user) tr
    = Some (Inr (Some au), now', woken)"
  shows "(\<exists>sig. dsa_verify (al_dsa A) (mldsa_verification_key (au_peer au)) (sc_hash (au_connection au))
        (peer_context role) sig) \<and> peer_context role \<noteq> own_context role \<and>
    (case find_peer trusted (x25519_pub_key (au_peer au)) of
       None \<Rightarrow> newly_paired au
     | Some p \<Rightarrow> p = au_peer au)"
proof -
  have "peer_context role \<noteq> own_context role"
    by (cases role) (simp_all add: CLIENT_CONTEXT_def SERVER_CONTEXT_def ascii_def)
  with run_authenticate [OF assms] show ?thesis by (auto simp: proven_def split: option.splits)
qed

text \<open>
  C2. No device is paired without both users: if an authentication changes the list of paired
  devices, or reports a newly paired device, then our user was shown the pairing code and
  accepted, a message of this connection decrypted to the other side's acceptance, the peer
  proved its keys, and the list only got that device. So the connections of the sync code, where
  nobody is asked, never pair, and no failed authentication ever changes the list.
\<close>
theorem pairing_needs_both_users:
  assumes "run (authenticate role A r dr hkdf name keys dk trusted now elapsed user) tr = Some (res, now', woken)"
    and "now' \<noteq> now \<or> (\<exists>au. res = Inr (Some au) \<and> newly_paired au)"
  shows "user = Decided True \<and>
    (\<exists>c ts ts' plain. Got c \<in> set tr \<and> t_read (al_snow A) ts c = Some (ts', plain) \<and>
      take 2 plain = tag (case role of Client \<Rightarrow> ServerAcceptTag | Server \<Rightarrow> ClientAcceptTag) [1]) \<and>
    (\<exists>au. res = Inr (Some au) \<and> newly_paired au \<and> now' = snd (save_peer now (au_peer au)) \<and>
      proven (al_dsa A) role trusted (au_peer au) (sc_hash (au_connection au)) False)"
proof -
  have "\<exists>au. res = Inr (Some au)"
  proof (rule ccontr)
    assume no: "\<not> ?thesis"
    then have "now' = now"
      using assms(1) run_finish_auth_unchanged [of "al_snow A" hkdf user role now elapsed _ _ res now' woken]
      by (cases role) (auto simp: authenticate_def auth_incoming_def auth_outgoing_def run_pbind)
    with no assms(2) show False by blast
  qed
  then obtain au where au: "res = Inr (Some au)" by blast
  note ok = run_authenticate [OF assms(1) [unfolded au]]
  have new: "newly_paired au" using ok assms(2) au by (auto split: if_splits)
  with ok obtain sc h tr0 tr1 tr2 sc' where tr: "tr = tr0 @ tr1 @ tr2"
    and c: "run (confirm_pairing (al_snow A) hkdf user sc role h) tr1 = Some (Inr sc')"
    and s: "save_peer now (au_peer au) = (Inr (), now')" by auto
  have "\<exists>c ts ts' plain. Got c \<in> set tr \<and> t_read (al_snow A) ts c = Some (ts', plain) \<and>
      take 2 plain = tag (case role of Client \<Rightarrow> ServerAcceptTag | Server \<Rightarrow> ClientAcceptTag) [1]"
    using run_confirm_pairing(3) [OF c] tr by auto
  moreover have "now' = snd (save_peer now (au_peer au))" using s by simp
  ultimately show ?thesis using run_confirm_pairing(1) [OF c] ok new au by simp
qed

end
