(* ===== verification/Auth_Honest.thy ===== *)
theory Auth_Honest
  imports Auth_Proofs
begin

text \<open>
  What two honest devices achieve over a connection that works: the data layer delivers exactly
  the data, a wrong data password is noticed, and two devices that do not know each other pair.
  \<open>transport_ok\<close>, \<open>noise_ok\<close> and \<open>dsa_ok\<close> name what the code relies on of \<open>snow\<close> and
  \<open>libcrux_ml_dsa\<close>, which is their documented behaviour. In \<open>transport_ok S dir\<close>, \<open>dir a b\<close>
  stands for ``the next message that \<open>a\<close> writes is the one \<open>b\<close> expects''.
\<close>

section \<open>The libraries\<close>

definition transport_ok :: "('b, 'h, 't) snow_lib \<Rightarrow> ('t \<Rightarrow> 't \<Rightarrow> bool) \<Rightarrow> bool" where
  "transport_ok S dir = (\<forall>a b m. dir a b \<and> length m + SNOW_TAG_LEN \<le> SNOW_MSG_MAX_LEN \<longrightarrow>
     (\<exists>a' b' c. t_write S a m = Some (a', c) \<and> length c = length m + SNOW_TAG_LEN \<and>
       t_read S b c = Some (b', m) \<and> dir a' b' \<and>
       (\<forall>x. dir x a \<longrightarrow> dir x a') \<and> (\<forall>x. dir b x \<longrightarrow> dir b' x)))"

definition noise_ok :: "('b, 'h, 't) snow_lib \<Rightarrow> (device_keypairs \<Rightarrow> bytes) \<Rightarrow> ('t \<Rightarrow> 't \<Rightarrow> bool) \<Rightarrow> bool" where
  "noise_ok S pub dir = (\<forall>dc ds psk. length (pub dc) = 32 \<and>
     (\<exists>bc bs ic ir i1 r1 r2 i2 i3 r3 m1 m2 m3 tc ts.
       noise_builder S dc psk = Inr bc \<and> noise_builder S ds psk = Inr bs \<and>
       nb_initiator S bc = Some ic \<and> nb_responder S bs = Some ir \<and>
       hs_write S ic [] = Some (i1, m1) \<and> length m1 = 48 \<and> hs_read S ir m1 = Some (r1, []) \<and>
       hs_write S r1 [] = Some (r2, m2) \<and> length m2 = 96 \<and> hs_read S i1 m2 = Some (i2, []) \<and>
       hs_write S i2 [] = Some (i3, m3) \<and> length m3 = 64 \<and> hs_read S r2 m3 = Some (r3, []) \<and>
       hs_remote_static S i3 = Some (pub ds) \<and> hs_remote_static S r3 = Some (pub dc) \<and>
       hs_hash S i3 = hs_hash S r3 \<and> hs_transport S i3 = Some tc \<and> hs_transport S r3 = Some ts \<and>
       dir tc ts \<and> dir ts tc))"

definition dsa_ok :: "mldsa_lib \<Rightarrow> device_keypairs \<Rightarrow> bool" where
  "dsa_ok D dk = (length (mldsa_verification dk) = MLDSA87_VK_LEN \<and>
     (\<forall>m c r. \<exists>sig. dsa_sign D (mldsa_signing dk) m c r = Some sig \<and> length sig = MLDSA87_SIG_LEN \<and>
       dsa_verify D (mldsa_verification dk) m c sig))"

section \<open>One message\<close>

text \<open>Two ends of a connection in step, and what messages leave of a connection.\<close>

definition in_step :: "('t \<Rightarrow> 't \<Rightarrow> bool) \<Rightarrow> 't secure_connection \<Rightarrow> 't secure_connection \<Rightarrow> bool" where
  "in_step dir a b = (dir (sc_ts a) (sc_ts b) \<and> dir (sc_ts b) (sc_ts a))"

definition same_peer :: "'t secure_connection \<Rightarrow> 't secure_connection \<Rightarrow> bool" where
  "same_peer a a' = (sc_name a' = sc_name a \<and> sc_hash a' = sc_hash a \<and> is_initiator a' = is_initiator a)"

text \<open>The two ends of one handshake, the initiator first.\<close>

definition connected :: "('t \<Rightarrow> 't \<Rightarrow> bool) \<Rightarrow> 't secure_connection \<Rightarrow> 't secure_connection \<Rightarrow> bool" where
  "connected dir a b = (in_step dir a b \<and> sc_hash a = sc_hash b \<and> is_initiator a \<and> \<not> is_initiator b)"

lemma in_step_sym: "in_step dir a b \<Longrightarrow> in_step dir b a"
  by (simp add: in_step_def)

lemma same_peer_trans: "same_peer a b \<Longrightarrow> same_peer b c \<Longrightarrow> same_peer a c"
  by (simp add: same_peer_def)

lemma transport_step:
  assumes "transport_ok S dir" "dir a b" "length m + 16 \<le> 65535"
  shows "\<exists>a' b' c. t_write S a m = Some (a', c) \<and> length c = length m + 16 \<and> t_read S b c = Some (b', m) \<and>
    dir a' b' \<and> (\<forall>x. dir x a \<longrightarrow> dir x a') \<and> (\<forall>x. dir b x \<longrightarrow> dir b' x)"
  using assms(1) [unfolded transport_ok_def SNOW_MSG_MAX_LEN_def SNOW_TAG_LEN_def, rule_format, of a b m] assms(2,3)
  by blast

lemmas secure_steps = send_secure_def recv_secure_def secure_write_def secure_read_def
  SECURE_MSG_MAX_PAYLOAD_eq SNOW_TAG_LEN_def stream_write_def stream_read_def Let_def

lemma talks_message:
  assumes "transport_ok S dir" "in_step dir a b" "length m \<le> SECURE_MSG_MAX_PAYLOAD"
  shows "\<exists>a' b'. in_step dir a' b' \<and> same_peer a a' \<and> same_peer b b' \<and>
    talks (send_secure S a m t) (recv_secure S b (length m) t) [] [] (Inr a') (Inr (b', m))"
proof -
  have len: "length (tag t m) + 16 \<le> 65535" using assms(3) by (simp add: tag_def SECURE_MSG_MAX_PAYLOAD_eq)
  from transport_step [OF assms(1) _ len, of "sc_ts a" "sc_ts b"] assms(2)
  obtain ta tb c where c: "t_write S (sc_ts a) (tag t m) = Some (ta, c)" "length c = length (tag t m) + 16"
    "t_read S (sc_ts b) c = Some (tb, tag t m)" "dir ta tb" and k: "\<forall>x. dir x (sc_ts a) \<longrightarrow> dir x ta"
    "\<forall>x. dir (sc_ts b) x \<longrightarrow> dir tb x"
    unfolding in_step_def by metis
  have "dir tb ta" using assms(2) k unfolding in_step_def by blast
  moreover have "talks (send_secure S a m t) (recv_secure S b (length m) t) [] []
    (Inr (a\<lparr>sc_ts := ta\<rparr>)) (Inr (b\<lparr>sc_ts := tb\<rparr>, m))"
    using c assms(3)
    by (auto simp: secure_steps tag_def untag_def intro!: talks_PutL talks_GetR talks_Ret)
  ultimately show ?thesis
    using c(4)
    by (intro exI [of _ "a\<lparr>sc_ts := ta\<rparr>"] exI [of _ "b\<lparr>sc_ts := tb\<rparr>"]) (simp add: in_step_def same_peer_def)
qed

section \<open>Chunks\<close>

lemma talks_chunked:
  assumes "transport_ok S dir" "in_step dir a b"
  shows "\<exists>a' b'. in_step dir a' b' \<and> same_peer a a' \<and> same_peer b b' \<and>
    talks (write_chunked S a data t) (read_chunks S t (length data) b got) [] [] (Inr a') (Inr (b', got @ data))"
  using assms(2)
proof (induction data arbitrary: a b got rule: chunks.induct)
  case (1 data)
  show ?case
  proof (cases "data = []")
    case True
    then show ?thesis
      using 1(2)
      by (intro exI [of _ a] exI [of _ b])
        (simp add: write_chunked_def chunks.simps read_chunks.simps same_peer_def talks_Ret)
  next
    case False
    let ?c = "take SECURE_MSG_MAX_PAYLOAD data" and ?r = "drop SECURE_MSG_MAX_PAYLOAD data"
    obtain a1 b1 where 1: "in_step dir a1 b1" "same_peer a a1" "same_peer b b1"
      and m: "talks (send_secure S a ?c t) (recv_secure S b (length ?c) t) [] [] (Inr a1) (Inr (b1, ?c))"
      using talks_message [OF assms(1) 1(2), of ?c t] by auto
    obtain a2 b2 where 2: "in_step dir a2 b2" "same_peer a1 a2" "same_peer b1 b2"
      and r: "talks (write_chunked S a1 ?r t) (read_chunks S t (length ?r) b1 (got @ ?c)) [] []
        (Inr a2) (Inr (b2, (got @ ?c) @ ?r))"
      using "1.IH" [OF False 1(1), of "got @ ?c"] by blast
    have w: "write_chunked S a data t = attempt (send_secure S a ?c t) (\<lambda>sc. write_chunked S sc ?r t)"
      using False by (simp add: write_chunked_def chunks.simps [of data])
    have l: "min (length data) SECURE_MSG_MAX_PAYLOAD = length ?c" "length data - length ?c = length ?r"
      by simp_all
    have d: "read_chunks S t (length data) b got = attempt (recv_secure S b (length ?c) t)
      (\<lambda>(sc, chunk). read_chunks S t (length ?r) sc (got @ chunk))"
      using False by (subst read_chunks.simps) (simp only: Let_def l length_0_conv if_False)
    have "talks (write_chunked S a data t) (read_chunks S t (length data) b got) [] [] (Inr a2) (Inr (b2, got @ data))"
      unfolding w d by (rule talks_attempt [OF m]) (use r in simp)
    with 1 2 show ?thesis by (meson same_peer_trans)
  qed
qed

section \<open>The data layer\<close>

text \<open>Both directions of the data layer have their own key, and both ends derive the same one.\<close>

lemma data_key_both_ends:
  "sc_hash a = sc_hash b \<Longrightarrow> is_initiator a \<noteq> is_initiator b \<Longrightarrow>
   data_key hkdf a d_key True = data_key hkdf b d_key False"
  by (auto simp: data_key_def)

lemma data_key_same_peer: "same_peer a a' \<Longrightarrow> data_key hkdf a' d_key s = data_key hkdf a d_key s"
  by (simp add: data_key_def same_peer_def)

text \<open>A packet arrives; what the reader makes of it depends on its key.\<close>

lemma talks_encrypted:
  assumes "transport_ok S dir" "in_step dir a b" "gcm_ok G" "length nonce = 12"
    and "data_key hkdf a d_key True = Inr k" "gcm_encrypt G k nonce [] data = Some c"
    and "data_key hkdf b d_key' False = Inr k'"
  shows "\<exists>a' b'. in_step dir a' b' \<and> same_peer a a' \<and> same_peer b b' \<and>
    talks (write_encrypted S G hkdf (Some nonce) a data d_key t)
      (read_encrypted S G hkdf b (length data + DATA_LAYER_OVERHEAD) d_key' t) [] [] (Inr a')
      (b', case gcm_decrypt G k' nonce [] c of None \<Rightarrow> Inl FailedToDecryptData | Some d \<Rightarrow> Inr d)"
proof -
  have c: "length (nonce @ c) = length data + DATA_LAYER_OVERHEAD"
    using gcm_okD(2) [OF assms(3,6)] assms(4) by (simp add: DATA_LAYER_OVERHEAD_def)
  obtain a' b' where s: "in_step dir a' b'" "same_peer a a'" "same_peer b b'"
    and m: "talks (write_chunked S a (nonce @ c) t) (read_chunked S b (length data + DATA_LAYER_OVERHEAD) t) [] []
      (Inr a') (Inr (b', nonce @ c))"
    using talks_chunked [OF assms(1,2), of "nonce @ c" t "[]"] unfolding c read_chunked_def by auto
  have w: "write_encrypted S G hkdf (Some nonce) a data d_key t = pbind (write_chunked S a (nonce @ c) t) Ret"
    using assms(5,6) by (simp add: write_encrypted_def encrypt_def encrypt_with_aad_def pbind_Ret)
  have "talks (write_encrypted S G hkdf (Some nonce) a data d_key t)
      (read_encrypted S G hkdf b (length data + DATA_LAYER_OVERHEAD) d_key' t) [] [] (Inr a')
      (b', case gcm_decrypt G k' nonce [] c of None \<Rightarrow> Inl FailedToDecryptData | Some d \<Rightarrow> Inr d)"
    unfolding w read_encrypted_def
    using assms(4,7) data_key_same_peer [OF s(3), of hkdf d_key' False]
    by (auto simp: to_array_def decrypt_def decrypt_with_aad_def split: option.splits
        intro!: talks_pbind [OF m] talks_Ret)
  with s show ?thesis by blast
qed

text \<open>
  The data layer delivers: when two devices with the same data password are connected,
  data of any length, however many Noise messages it takes, arrives complete and unchanged, both
  ends stay in step for the next message, and no byte is left over.
\<close>
theorem data_layer_roundtrip:
  assumes "transport_ok S dir" "in_step dir a b" "gcm_ok G" "length nonce = 12"
    and "sc_hash a = sc_hash b" "is_initiator a \<noteq> is_initiator b"
    and "data_key hkdf a d_key True = Inr k" "gcm_encrypt G k nonce [] data \<noteq> None"
  shows "\<exists>a' b'. in_step dir a' b' \<and>
    talks (write_encrypted S G hkdf (Some nonce) a data d_key t)
      (read_encrypted S G hkdf b (length data + DATA_LAYER_OVERHEAD) d_key t) [] [] (Inr a') (b', Inr data)"
proof -
  obtain c where c: "gcm_encrypt G k nonce [] data = Some c" using assms(8) by blast
  have "data_key hkdf b d_key False = Inr k" using data_key_both_ends [OF assms(5,6)] assms(7) by simp
  from talks_encrypted [OF assms(1-4,7) c this, of t] gcm_okD(1) [OF assms(3) c] show ?thesis by auto
qed

text \<open>
  Two devices with different data passwords notice: the connection itself works, and the
  reader reports exactly \<open>FailedToDecryptData\<close>, the error the sync code turns into ``the data
  passwords differ'', provided the cipher rejects a ciphertext made under another key.
\<close>
theorem different_data_password_reported:
  assumes "transport_ok S dir" "in_step dir a b" "gcm_ok G" "length nonce = 12"
    and "data_key hkdf a d_key True = Inr k" "gcm_encrypt G k nonce [] data = Some c"
    and "data_key hkdf b d_key' False = Inr k'" "gcm_decrypt G k' nonce [] c = None"
  shows "\<exists>a' b'. in_step dir a' b' \<and> talks (write_encrypted S G hkdf (Some nonce) a data d_key t)
      (read_encrypted S G hkdf b (length data + DATA_LAYER_OVERHEAD) d_key' t) [] [] (Inr a') (b', Inl FailedToDecryptData)"
  using talks_encrypted [OF assms(1-7), of t] assms(8) by auto

section \<open>Pairing two devices\<close>

lemmas noise_steps = snow_handshake_client_def snow_handshake_server_def hs_write_msg_def hs_read_msg_def
  noise_finish_def to_array_def SNOW_MSG1_LEN_def SNOW_MSG2_LEN_def SNOW_MSG3_LEN_def stream_write_def
  stream_read_def Let_def

lemma talks_noise:
  assumes "noise_ok S pub dir"
  shows "\<exists>a b. connected dir a b \<and> sc_name a = nc \<and> sc_name b = ns \<and>
    talks (snow_handshake_client S nc psk dc) (snow_handshake_server S ns psk ds) [] []
      (Inr (a, pub ds, sc_hash a)) (Inr (b, pub dc, sc_hash b))"
proof -
  have pub: "length (pub d) = 32" for d using assms unfolding noise_ok_def by blast
  from assms [unfolded noise_ok_def, rule_format, of dc psk ds, THEN conjunct2]
  obtain bc bs ic ir i1 r1 r2 i2 i3 r3 m1 m2 m3 tc ts where n:
    "noise_builder S dc psk = Inr bc" "noise_builder S ds psk = Inr bs"
    "nb_initiator S bc = Some ic" "nb_responder S bs = Some ir"
    "hs_write S ic [] = Some (i1, m1)" "length m1 = 48" "hs_read S ir m1 = Some (r1, [])"
    "hs_write S r1 [] = Some (r2, m2)" "length m2 = 96" "hs_read S i1 m2 = Some (i2, [])"
    "hs_write S i2 [] = Some (i3, m3)" "length m3 = 64" "hs_read S r2 m3 = Some (r3, [])"
    "hs_remote_static S i3 = Some (pub ds)" "hs_remote_static S r3 = Some (pub dc)"
    "hs_hash S i3 = hs_hash S r3" "hs_transport S i3 = Some tc" "hs_transport S r3 = Some ts"
    and d: "dir tc ts" "dir ts tc"
    by (elim exE conjE) (rule that)
  let ?a = "\<lparr>sc_name = nc, sc_ts = tc, sc_hash = hs_hash S i3, is_initiator = True\<rparr>"
  let ?b = "\<lparr>sc_name = ns, sc_ts = ts, sc_hash = hs_hash S r3, is_initiator = False\<rparr>"
  have "talks (snow_handshake_client S nc psk dc) (snow_handshake_server S ns psk ds) [] []
      (Inr (?a, pub ds, hs_hash S i3)) (Inr (?b, pub dc, hs_hash S r3))"
    using n pub
    apply (simp add: noise_steps)
    apply ((rule talks_Ret | (rule talks_PutL, simp add: noise_steps)
        | (rule talks_GetL, (simp; fail), simp add: noise_steps) | (rule talks_PutR, simp add: noise_steps)
        | (rule talks_GetR, (simp; fail), simp add: noise_steps))+)
    done
  with d n(16) show ?thesis
    by (intro exI [of _ ?a] exI [of _ ?b]) (simp add: connected_def in_step_def)
qed

text \<open>A conversation of two ends in step that leaves them in step; what the ends return may depend
  on their connections afterwards.\<close>

definition dialogue ::
  "('t \<Rightarrow> 't \<Rightarrow> bool) \<Rightarrow> 't secure_connection \<Rightarrow> 't secure_connection \<Rightarrow> 'x proc \<Rightarrow> 'y proc \<Rightarrow>
   ('t secure_connection \<Rightarrow> 'x) \<Rightarrow> ('t secure_connection \<Rightarrow> 'y) \<Rightarrow> bool" where
  "dialogue dir a b p q x y =
     (\<exists>a' b'. in_step dir a' b' \<and> same_peer a a' \<and> same_peer b b' \<and> talks p q [] [] (x a') (y b'))"

lemma dialogue_Ret:
  "in_step dir a b \<Longrightarrow> u = x a \<Longrightarrow> v = y b \<Longrightarrow> dialogue dir a b (Ret u) (Ret v) x y"
  unfolding dialogue_def by (intro exI [of _ a] exI [of _ b]) (simp add: same_peer_def talks_Ret)

lemma dialogue_pbind:
  assumes "dialogue dir a b p q u v"
    and "\<And>a' b'. in_step dir a' b' \<Longrightarrow> same_peer a a' \<Longrightarrow> same_peer b b' \<Longrightarrow>
      dialogue dir a' b' (f (u a')) (g (v b')) x y"
  shows "dialogue dir a b (pbind p f) (pbind q g) x y"
  using assms unfolding dialogue_def by (meson same_peer_trans talks_pbind)

lemma dialogue_attempt:
  assumes "dialogue dir a b p q (\<lambda>a. Inr (u a)) (\<lambda>b. Inr (v b))"
    and "\<And>a' b'. in_step dir a' b' \<Longrightarrow> same_peer a a' \<Longrightarrow> same_peer b b' \<Longrightarrow>
      dialogue dir a' b' (f (u a')) (g (v b')) x y"
  shows "dialogue dir a b (attempt p f) (attempt q g) x y"
  using assms unfolding dialogue_def by (meson same_peer_trans talks_attempt)

lemma dialogue_send:
  assumes "transport_ok S dir" "in_step dir a b" "length m = n" "n \<le> SECURE_MSG_MAX_PAYLOAD"
  shows "dialogue dir a b (send_secure S a m t) (recv_secure S b n t) (\<lambda>a. Inr a) (\<lambda>b. Inr (b, m))"
  using talks_message [OF assms(1,2), of m t] assms(3,4) by (simp add: dialogue_def)

lemma dialogue_recv:
  assumes "transport_ok S dir" "in_step dir a b" "length m = n" "n \<le> SECURE_MSG_MAX_PAYLOAD"
  shows "dialogue dir a b (recv_secure S a n t) (send_secure S b m t) (\<lambda>a. Inr (a, m)) (\<lambda>b. Inr b)"
  using talks_message [OF assms(1) in_step_sym [OF assms(2)], of m t] assms(3,4)
  unfolding dialogue_def by (metis in_step_sym talks_sym)

lemma dialogue_send_byte:
  assumes "transport_ok S dir" "in_step dir a b"
  shows "dialogue dir a b (send_secure S a [x] t) (recv_secure S b 1 t) (\<lambda>a. Inr a) (\<lambda>b. Inr (b, [x]))"
  by (rule dialogue_send [OF assms]) (simp_all add: SECURE_MSG_MAX_PAYLOAD_eq)

lemma dialogue_recv_byte:
  assumes "transport_ok S dir" "in_step dir a b"
  shows "dialogue dir a b (recv_secure S a 1 t) (send_secure S b [x] t) (\<lambda>a. Inr (a, [x])) (\<lambda>b. Inr b)"
  by (rule dialogue_recv [OF assms]) (simp_all add: SECURE_MSG_MAX_PAYLOAD_eq)

lemma dialogue_is_saved:
  assumes "transport_ok S dir" "in_step dir a b"
  shows "dialogue dir a b (exchange_is_saved S a Client hc) (exchange_is_saved S b Server hs)
    (\<lambda>a. Inr (a, hc \<and> hs)) (\<lambda>b. Inr (b, hc \<and> hs))"
  unfolding exchange_is_saved_def Let_def role.case
  by (rule dialogue_attempt [OF dialogue_send_byte [OF assms]], simp only: prod.case,
      rule dialogue_attempt [OF dialogue_recv_byte [OF assms(1)]], assumption, simp only: prod.case,
      rule dialogue_Ret, assumption)
    (cases hc; cases hs; simp)+

lemma dialogue_sym: "dialogue dir a b p q x y \<Longrightarrow> dialogue dir b a q p y x"
  unfolding dialogue_def by (meson in_step_sym talks_sym)

lemma dialogue_keys:
  assumes "transport_ok S dir" "in_step dir a b" "length k = MLDSA87_VK_LEN" "length sig = MLDSA87_SIG_LEN"
  shows "dialogue dir a b (send_key_and_signature S a k sig) (recv_key_and_signature S b)
    (\<lambda>a. Inr a) (\<lambda>b. Inr (b, k, sig))"
proof -
  have w: "send_secure S a sig t = attempt (send_secure S a sig t) (\<lambda>sc. Ret (Inr sc))" for a t
    by (simp add: attempt_Ret_Inr)
  show ?thesis
    unfolding send_key_and_signature_def recv_key_and_signature_def
    by (rule dialogue_attempt [OF dialogue_send [OF assms(1,2,3)]],
        simp add: MLDSA87_VK_LEN_def SECURE_MSG_MAX_PAYLOAD_eq, simp only: prod.case, subst w,
        rule dialogue_attempt [OF dialogue_send [OF assms(1) _ assms(4)]])
      (simp_all add: MLDSA87_SIG_LEN_def SECURE_MSG_MAX_PAYLOAD_eq dialogue_Ret)
qed

text \<open>Both devices sign and check: each ends with the other's verification key.\<close>

lemma dialogue_signatures:
  assumes "transport_ok S dir" "in_step dir a b" "dsa_ok D dc" "dsa_ok D ds"
    and "\<And>k. kc = Some k \<Longrightarrow> k = mldsa_verification ds" "\<And>k. ks = Some k \<Longrightarrow> k = mldsa_verification dc"
  shows "dialogue dir a b (exchange_signatures S D (Some rc) a Client h kc dc)
    (exchange_signatures S D (Some rs) b Server h ks ds)
    (\<lambda>a. Inr (a, mldsa_verification ds)) (\<lambda>b. Inr (b, mldsa_verification dc))"
proof -
  obtain gc gs where
    c: "dsa_sign D (mldsa_signing dc) h CLIENT_CONTEXT rc = Some gc" "length gc = MLDSA87_SIG_LEN"
      "dsa_verify D (mldsa_verification dc) h CLIENT_CONTEXT gc"
    and s: "dsa_sign D (mldsa_signing ds) h SERVER_CONTEXT rs = Some gs" "length gs = MLDSA87_SIG_LEN"
      "dsa_verify D (mldsa_verification ds) h SERVER_CONTEXT gs"
    using assms(3,4) unfolding dsa_ok_def by metis
  have vk: "length (mldsa_verification dc) = MLDSA87_VK_LEN" "length (mldsa_verification ds) = MLDSA87_VK_LEN"
    using assms(3,4) by (simp_all add: dsa_ok_def)
  have v: "verify_peer_signature D (mldsa_verification ds) gs kc h SERVER_CONTEXT = Inr ()"
    "verify_peer_signature D (mldsa_verification dc) gc ks h CLIENT_CONTEXT = Inr ()"
    using c(3) s(3) assms(5,6) by (auto simp: verify_peer_signature_def split: option.splits)
  have e: "exchange_signatures S D (Some rc) a Client h kc dc =
      attempt (send_key_and_signature S a (mldsa_verification dc) gc) (\<lambda>a.
      attempt (recv_key_and_signature S a) (\<lambda>(sc, k, g).
        attempt_result (ok_or FailedToConvertToArray (to_array MLDSA87_VK_LEN k)) (\<lambda>k.
        attempt_result (ok_or FailedToConvertToArray (to_array MLDSA87_SIG_LEN g)) (\<lambda>g.
        attempt_result (verify_peer_signature D k g kc h SERVER_CONTEXT) (\<lambda>_. Ret (Inr (sc, k)))))))"
    "exchange_signatures S D (Some rs) b Server h ks ds =
      attempt (recv_key_and_signature S b) (\<lambda>(sc, k, g).
        attempt_result (ok_or FailedToConvertToArray (to_array MLDSA87_VK_LEN k)) (\<lambda>k.
        attempt_result (ok_or FailedToConvertToArray (to_array MLDSA87_SIG_LEN g)) (\<lambda>g.
        attempt_result (verify_peer_signature D k g ks h CLIENT_CONTEXT) (\<lambda>_.
        attempt (send_key_and_signature S sc (mldsa_verification ds) gs) (\<lambda>sc. Ret (Inr (sc, k)))))))"
    using c(1) s(1) by (simp_all add: exchange_signatures_def attempt_assoc)
  show ?thesis
    unfolding e
  proof (rule dialogue_attempt [OF dialogue_keys [OF assms(1,2) vk(1) c(2)]])
    fix a' b'
    assume step: "in_step dir a' b'"
    show "dialogue dir a' b' (attempt (recv_key_and_signature S a') (\<lambda>(sc, k, g).
        attempt_result (ok_or FailedToConvertToArray (to_array MLDSA87_VK_LEN k)) (\<lambda>k.
        attempt_result (ok_or FailedToConvertToArray (to_array MLDSA87_SIG_LEN g)) (\<lambda>g.
        attempt_result (verify_peer_signature D k g kc h SERVER_CONTEXT) (\<lambda>_. Ret (Inr (sc, k)))))))
      (case (b', mldsa_verification dc, gc) of (sc, k, g) \<Rightarrow>
        attempt_result (ok_or FailedToConvertToArray (to_array MLDSA87_VK_LEN k)) (\<lambda>k.
        attempt_result (ok_or FailedToConvertToArray (to_array MLDSA87_SIG_LEN g)) (\<lambda>g.
        attempt_result (verify_peer_signature D k g ks h CLIENT_CONTEXT) (\<lambda>_.
        attempt (send_key_and_signature S sc (mldsa_verification ds) gs) (\<lambda>sc. Ret (Inr (sc, k)))))))
      (\<lambda>a. Inr (a, mldsa_verification ds)) (\<lambda>b. Inr (b, mldsa_verification dc))"
      using vk c(2) s(2) v
      by (simp add: to_array_def)
         (rule dialogue_attempt [OF dialogue_sym [OF dialogue_keys [OF assms(1) in_step_sym [OF step] vk(2) s(2)]]],
          auto simp: to_array_def intro: dialogue_Ret)
  qed
qed

text \<open>Two bytes that cross on the way: both ends write before they read.\<close>

lemma dialogue_cross:
  assumes "transport_ok S dir" "in_step dir a b"
  shows "dialogue dir a b (attempt (send_secure S a [x] t) (\<lambda>sc. recv_secure S sc 1 u))
    (attempt (send_secure S b [y] u) (\<lambda>sc. recv_secure S sc 1 t)) (\<lambda>a. Inr (a, [y])) (\<lambda>b. Inr (b, [x]))"
proof -
  have len: "length (tag t [x]) + 16 \<le> 65535" "length (tag u [y]) + 16 \<le> 65535" by (simp_all add: tag_def)
  obtain a1 c where a1: "t_write S (sc_ts a) (tag t [x]) = Some (a1, c)" "length c = length (tag t [x]) + 16"
    "\<And>z. dir z (sc_ts a) \<Longrightarrow> dir z a1"
    using transport_step [OF assms(1) _ len(1)] assms(2) unfolding in_step_def by metis
  obtain b1 d where b1: "t_write S (sc_ts b) (tag u [y]) = Some (b1, d)" "length d = length (tag u [y]) + 16"
    "\<And>z. dir z (sc_ts b) \<Longrightarrow> dir z b1"
    using transport_step [OF assms(1) _ len(2)] assms(2) unfolding in_step_def by metis
  have "dir (sc_ts a) b1" "dir (sc_ts b) a1" using assms(2) a1(3) b1(3) by (auto simp: in_step_def)
  from transport_step [OF assms(1) this(1) len(1)] transport_step [OF assms(1) this(2) len(2)] a1(1) b1(1)
  obtain b2 a2 where r: "t_read S b1 c = Some (b2, tag t [x])" "t_read S a1 d = Some (a2, tag u [y])"
    "dir a1 b2" "dir b1 a2" "\<And>z. dir b1 z \<Longrightarrow> dir b2 z" "\<And>z. dir a1 z \<Longrightarrow> dir a2 z" by auto
  have "talks (attempt (send_secure S a [x] t) (\<lambda>sc. recv_secure S sc 1 u))
    (attempt (send_secure S b [y] u) (\<lambda>sc. recv_secure S sc 1 t)) [] []
    (Inr (a\<lparr>sc_ts := a2\<rparr>, [y])) (Inr (b\<lparr>sc_ts := b2\<rparr>, [x]))"
    using a1(1,2) b1(1,2) r(1,2)
    by (auto simp: secure_steps tag_def untag_def intro!: talks_PutL talks_PutR talks_GetL talks_GetR talks_Ret)
  with r(3-6) show ?thesis
    unfolding dialogue_def
    by (intro exI [of _ "a\<lparr>sc_ts := a2\<rparr>"] exI [of _ "b\<lparr>sc_ts := b2\<rparr>"]) (simp add: in_step_def same_peer_def)
qed

lemma dialogue_confirm:
  assumes "transport_ok S dir" "in_step dir a b" "pairing_code hkdf h = Inr code"
  shows "dialogue dir a b (confirm_pairing S hkdf (Decided True) a Client h)
    (confirm_pairing S hkdf (Decided True) b Server h) (\<lambda>a. Inr a) (\<lambda>b. Inr b)"
  using dialogue_attempt [OF dialogue_cross [OF assms(1,2), where x = 1 and y = 1 and t = ClientAcceptTag
        and u = ServerAcceptTag], where x = "\<lambda>a. Inr a" and y = "\<lambda>b. Inr b"
      and f = "\<lambda>(sc, m). if m = [] \<or> hd m \<noteq> 1 then Ret (Inl NoServerConfirmation) else Ret (Inr sc)"
      and g = "\<lambda>(sc, m). if m = [] \<or> hd m \<noteq> 1 then Ret (Inl NoClientConfirmation) else Ret (Inr sc)"]
    assms(3)
  by (simp add: confirm_pairing_def ask_user_def attempt_assoc dialogue_Ret)

text \<open>The peer as the other end identifies it.\<close>

definition peer_of :: "(device_keypairs \<Rightarrow> bytes) \<Rightarrow> device_keypairs \<Rightarrow> bytes \<Rightarrow> trusted_peer list \<Rightarrow> trusted_peer" where
  "peer_of pub dk name trusted = \<lparr>x25519_pub_key = pub dk, mldsa_verification_key = mldsa_verification dk,
     peer_name = (case find_peer trusted (pub dk) of Some p \<Rightarrow> peer_name p | None \<Rightarrow> name)\<rparr>"

definition knows :: "(device_keypairs \<Rightarrow> bytes) \<Rightarrow> trusted_peer list \<Rightarrow> device_keypairs \<Rightarrow> bool" where
  "knows pub trusted dk = (find_peer trusted (pub dk) \<noteq> None)"

text \<open>A list that does not hold a device's Noise key with a different signature key.\<close>

definition no_impostor :: "(device_keypairs \<Rightarrow> bytes) \<Rightarrow> trusted_peer list \<Rightarrow> device_keypairs \<Rightarrow> bool" where
  "no_impostor pub trusted dk =
     (\<forall>p. find_peer trusted (pub dk) = Some p \<longrightarrow> mldsa_verification_key p = mldsa_verification dk)"

lemma dialogue_identify:
  assumes "transport_ok S dir" "in_step dir a b" "dsa_ok D dc" "dsa_ok D ds"
    and "no_impostor pub tc ds" "no_impostor pub ts dc"
  shows "dialogue dir a b (identify_peer S D (Some rc) a Client (pub ds) h dc tc)
    (identify_peer S D (Some rs) b Server (pub dc) h ds ts)
    (\<lambda>a'. Inr (a', peer_of pub ds (sc_name a) tc, knows pub tc ds \<and> knows pub ts dc))
    (\<lambda>b'. Inr (b', peer_of pub dc (sc_name b) ts, knows pub tc ds \<and> knows pub ts dc))"
  unfolding identify_peer_def Let_def
  by (rule dialogue_attempt [OF dialogue_is_saved [OF assms(1,2)]], simp only: prod.case,
      rule dialogue_attempt [OF dialogue_signatures [OF assms(1) _ assms(3,4)]])
    (use assms(5,6) in \<open>auto simp: no_impostor_def peer_of_def knows_def same_peer_def intro!: dialogue_Ret
      split: option.splits\<close>)

text \<open>Two honest devices with working libraries.\<close>

definition honest_setup ::
  "('s, 'b, 'h, 't) auth_libs \<Rightarrow> (device_keypairs \<Rightarrow> bytes) \<Rightarrow> ('t \<Rightarrow> 't \<Rightarrow> bool) \<Rightarrow> kex_random \<Rightarrow> kex_random \<Rightarrow>
   device_keypairs \<Rightarrow> device_keypairs \<Rightarrow> trusted_peer list \<Rightarrow> trusted_peer list \<Rightarrow> bool" where
  "honest_setup A pub dir rc rs dc ds tc ts =
     (kex_lib_ok (al_kex A) \<and> x_random rc \<noteq> None \<and> kem_random rc \<noteq> None \<and> x_random rs \<noteq> None \<and> kem_random rs \<noteq> None \<and>
      noise_ok (al_snow A) pub dir \<and> transport_ok (al_snow A) dir \<and> dsa_ok (al_dsa A) dc \<and> dsa_ok (al_dsa A) ds \<and>
      no_impostor pub tc ds \<and> no_impostor pub ts dc)"

definition code_hkdf_ok :: "hkdf \<Rightarrow> bool" where
  "code_hkdf_ok hkdf = (\<forall>h. \<exists>okm. hkdf h PAIRING_CODE_LABEL 6 = Some okm \<and> length okm = 6)"

lemma talks_handshake:
  assumes "honest_setup A pub dir rc rs dc ds tc ts"
  shows "\<exists>a b. connected dir a b \<and>
    talks (handshake_client A rc (Some drc) nc keys dc tc) (handshake_server A rs (Some drs) ns keys ds ts) [] []
      (Inr (Some (a, peer_of pub ds nc tc, sc_hash a, knows pub tc ds \<and> knows pub ts dc)))
      (Inr (Some (b, peer_of pub dc ns ts, sc_hash a, knows pub tc ds \<and> knows pub ts dc)))"
proof -
  note h = assms [unfolded honest_setup_def]
  obtain psk where k: "talks (key_agreement_client (al_kex A) rc (ak_a_key keys) (ak_a_salt keys))
    (key_agreement_server (al_kex A) rs (ak_a_key keys) (ak_a_salt keys)) [] [] (Inr (Some psk)) (Inr (Some psk))"
    using key_agreement_talks [of "al_kex A" rc rs] h by blast
  obtain a b where c: "connected dir a b" and names: "sc_name a = nc" "sc_name b = ns"
    and n: "talks (snow_handshake_client (al_snow A) nc psk dc) (snow_handshake_server (al_snow A) ns psk ds) [] []
      (Inr (a, pub ds, sc_hash a)) (Inr (b, pub dc, sc_hash b))"
    using talks_noise [of "al_snow A" pub dir nc ns psk dc ds] h by blast
  note ab = c [unfolded connected_def, THEN conjunct1] c [unfolded connected_def, THEN conjunct2, THEN conjunct1] names
  from dialogue_identify [of "al_snow A" dir a b "al_dsa A" dc ds pub tc ts drc "sc_hash a" drs] h ab(1)
  obtain a' b' where ab': "in_step dir a' b'" "same_peer a a'" "same_peer b b'"
    and i: "talks (identify_peer (al_snow A) (al_dsa A) (Some drc) a Client (pub ds) (sc_hash a) dc tc)
      (identify_peer (al_snow A) (al_dsa A) (Some drs) b Server (pub dc) (sc_hash b) ds ts) [] []
      (Inr (a', peer_of pub ds nc tc, knows pub tc ds \<and> knows pub ts dc))
      (Inr (b', peer_of pub dc ns ts, knows pub tc ds \<and> knows pub ts dc))"
    unfolding dialogue_def ab(2-4) by auto
  have "talks (handshake_client A rc (Some drc) nc keys dc tc) (handshake_server A rs (Some drs) ns keys ds ts) [] []
      (Inr (Some (a', peer_of pub ds nc tc, sc_hash a, knows pub tc ds \<and> knows pub ts dc)))
      (Inr (Some (b', peer_of pub dc ns ts, sc_hash b, knows pub tc ds \<and> knows pub ts dc)))"
    unfolding handshake_client_def handshake_server_def
    by (rule talks_attempt [OF k], simp only: option.case, rule talks_attempt [OF n], simp only: prod.case,
        rule talks_attempt [OF i], simp add: talks_Ret)
  moreover have "sc_hash a' = sc_hash a" "sc_hash b' = sc_hash a" using ab ab' by (simp_all add: same_peer_def)
  moreover have "connected dir a' b'" using c ab' by (simp add: connected_def same_peer_def)
  ultimately show ?thesis using ab(2) by (intro exI [of _ a'] exI [of _ b']) simp
qed

text \<open>First contact: both users accept.\<close>

lemma talks_pairing:
  assumes "honest_setup A pub dir rc rs dc ds tc ts" "\<not> (knows pub tc ds \<and> knows pub ts dc)"
    and "code_hkdf_ok hkdf"
    and "length now_c < MAX_TRUSTED_PEERS" "length now_s < MAX_TRUSTED_PEERS"
  shows "\<exists>a b. connected dir a b \<and>
    talks (auth_outgoing A rc (Some drc) hkdf nc keys dc tc now_c False (Decided True))
      (auth_incoming A rs (Some drs) hkdf ns keys ds ts now_s False (Decided True)) [] []
      (Inr (Some \<lparr>au_connection = a, au_peer = peer_of pub ds nc tc, newly_paired = True\<rparr>),
        snd (save_peer now_c (peer_of pub ds nc tc)), True)
      (Inr (Some \<lparr>au_connection = b, au_peer = peer_of pub dc ns ts, newly_paired = True\<rparr>),
        snd (save_peer now_s (peer_of pub dc ns ts)), True)"
proof -
  let ?pc = "peer_of pub ds nc tc" and ?ps = "peer_of pub dc ns ts"
  have both: "(knows pub tc ds \<and> knows pub ts dc) = False" using assms(2) by simp
  obtain a b where ab: "connected dir a b"
    and h: "talks (handshake_client A rc (Some drc) nc keys dc tc) (handshake_server A rs (Some drs) ns keys ds ts) [] []
      (Inr (Some (a, ?pc, sc_hash a, False))) (Inr (Some (b, ?ps, sc_hash a, False)))"
    using talks_handshake [OF assms(1), where drc = drc and drs = drs and nc = nc and ns = ns and keys = keys] unfolding both by blast
  obtain code where "pairing_code hkdf (sc_hash a) = Inr code"
    using assms(3) [unfolded code_hkdf_ok_def, rule_format, of "sc_hash a"] pairing_code_eq [of hkdf "sc_hash a"] by blast
  from dialogue_confirm [OF _ _ this, of "al_snow A" dir a b] ab assms(1)
  obtain a' b' where ab': "in_step dir a' b'" "same_peer a a'" "same_peer b b'"
    and c: "talks (confirm_pairing (al_snow A) hkdf (Decided True) a Client (sc_hash a))
      (confirm_pairing (al_snow A) hkdf (Decided True) b Server (sc_hash a)) [] [] (Inr a') (Inr b')"
    by (auto simp: dialogue_def honest_setup_def connected_def)
  have save: "save_peer now_c ?pc = (Inr (), snd (save_peer now_c ?pc))"
    "save_peer now_s ?ps = (Inr (), snd (save_peer now_s ?ps))"
    using assms(4,5) by (simp_all add: save_peer_def)
  have "talks (auth_outgoing A rc (Some drc) hkdf nc keys dc tc now_c False (Decided True))
      (auth_incoming A rs (Some drs) hkdf ns keys ds ts now_s False (Decided True)) [] []
      (Inr (Some \<lparr>au_connection = a', au_peer = ?pc, newly_paired = True\<rparr>), snd (save_peer now_c ?pc), True)
      (Inr (Some \<lparr>au_connection = b', au_peer = ?ps, newly_paired = True\<rparr>), snd (save_peer now_s ?ps), True)"
    unfolding auth_outgoing_def auth_incoming_def
    apply (rule talks_pbind [OF h])
    using assms(4,5)
    apply (simp add: finish_auth_def)
    apply (rule talks_pbind [OF c])
    apply (simp, subst save(1), subst save(2), simp add: talks_Ret)
    done
  moreover have "connected dir a' b'" using ab ab' by (simp add: connected_def same_peer_def)
  ultimately show ?thesis by blast
qed

text \<open>
  C19. Two honest devices that have not paired can pair: with the same auth password, room in
  both lists and both users accepting, the two ends of one connection both finish, each
  authenticates the other as newly paired with its real keys, each saves it, and the connections
  they are left with are in step over the same handshake. Nothing deadlocks.
\<close>
theorem honest_pairing:
  assumes "honest_setup A pub dir rc rs dc ds tc ts" "\<not> (knows pub tc ds \<and> knows pub ts dc)"
    and "code_hkdf_ok hkdf"
    and "length now_c < MAX_TRUSTED_PEERS" "length now_s < MAX_TRUSTED_PEERS"
  shows "\<exists>fuel a b. connected dir a b \<and>
    link fuel (auth_outgoing A rc (Some drc) hkdf nc keys dc tc now_c False (Decided True))
      (auth_incoming A rs (Some drs) hkdf ns keys ds ts now_s False (Decided True)) [] []
    = Some
      ((Inr (Some \<lparr>au_connection = a, au_peer = peer_of pub ds nc tc, newly_paired = True\<rparr>),
        snd (save_peer now_c (peer_of pub ds nc tc)), True),
       (Inr (Some \<lparr>au_connection = b, au_peer = peer_of pub dc ns ts, newly_paired = True\<rparr>),
        snd (save_peer now_s (peer_of pub dc ns ts)), True))"
    (is "\<exists>fuel a b. _ \<and> link fuel ?p ?q [] [] = Some (?x a, ?y b)")
proof -
  obtain a b where ab: "connected dir a b" and t: "talks ?p ?q [] [] (?x a) (?y b)"
    using talks_pairing [OF assms, where drc = drc and drs = drs and nc = nc and ns = ns and keys = keys]
    by blast
  from talks_link [OF t] ab show ?thesis by blast
qed

text \<open>Reconnecting asks nobody.\<close>

lemma talks_reconnect:
  assumes "honest_setup A pub dir rc rs dc ds tc ts" "knows pub tc ds" "knows pub ts dc"
  shows "\<exists>a b. connected dir a b \<and>
    talks (auth_outgoing A rc (Some drc) hkdf nc keys dc tc now_c False user_c)
      (auth_incoming A rs (Some drs) hkdf ns keys ds ts now_s False user_s) [] []
      (Inr (Some \<lparr>au_connection = a, au_peer = peer_of pub ds nc tc, newly_paired = False\<rparr>), now_c, False)
      (Inr (Some \<lparr>au_connection = b, au_peer = peer_of pub dc ns ts, newly_paired = False\<rparr>), now_s, False)"
proof -
  have both: "(knows pub tc ds \<and> knows pub ts dc) = True" using assms(2,3) by simp
  obtain a b where ab: "connected dir a b"
    and h: "talks (handshake_client A rc (Some drc) nc keys dc tc) (handshake_server A rs (Some drs) ns keys ds ts) [] []
      (Inr (Some (a, peer_of pub ds nc tc, sc_hash a, True))) (Inr (Some (b, peer_of pub dc ns ts, sc_hash a, True)))"
    using talks_handshake [OF assms(1), where drc = drc and drs = drs and nc = nc and ns = ns and keys = keys] unfolding both by blast
  have "talks (auth_outgoing A rc (Some drc) hkdf nc keys dc tc now_c False user_c)
      (auth_incoming A rs (Some drs) hkdf ns keys ds ts now_s False user_s) [] []
      (Inr (Some \<lparr>au_connection = a, au_peer = peer_of pub ds nc tc, newly_paired = False\<rparr>), now_c, False)
      (Inr (Some \<lparr>au_connection = b, au_peer = peer_of pub dc ns ts, newly_paired = False\<rparr>), now_s, False)"
    unfolding auth_outgoing_def auth_incoming_def
    by (rule talks_pbind [OF h]) (simp add: finish_auth_def talks_Ret)
  with ab show ?thesis by blast
qed

text \<open>
  Two honest devices that are paired always reconnect, without asking anybody: whatever the
  users would answer, both ends finish with the other authenticated as the saved device, nothing
  newly paired and both lists unchanged.
\<close>
theorem honest_reconnect:
  assumes "honest_setup A pub dir rc rs dc ds tc ts" "knows pub tc ds" "knows pub ts dc"
  shows "\<exists>fuel a b. connected dir a b \<and>
    link fuel (auth_outgoing A rc (Some drc) hkdf nc keys dc tc now_c False user_c)
      (auth_incoming A rs (Some drs) hkdf ns keys ds ts now_s False user_s) [] []
    = Some
      ((Inr (Some \<lparr>au_connection = a, au_peer = peer_of pub ds nc tc, newly_paired = False\<rparr>), now_c, False),
       (Inr (Some \<lparr>au_connection = b, au_peer = peer_of pub dc ns ts, newly_paired = False\<rparr>), now_s, False))"
    (is "\<exists>fuel a b. _ \<and> link fuel ?p ?q [] [] = Some (?x a, ?y b)")
proof -
  obtain a b where ab: "connected dir a b" and t: "talks ?p ?q [] [] (?x a) (?y b)"
    using talks_reconnect [OF assms, where drc = drc and drs = drs and nc = nc and ns = ns and keys = keys]
    by blast
  from talks_link [OF t] ab show ?thesis by blast
qed

section \<open>Concrete runs\<close>

text \<open>Small libraries with the assumed properties: Noise messages that carry the static keys, a
  transport that appends a tag, signatures that depend on the context.\<close>

definition demo_snow :: "(bytes, bytes \<times> bytes option \<times> nat, unit) snow_lib" where
  "demo_snow = \<lparr>
     nb_parse = Some [],
     nb_private = (\<lambda>b k. Some (fill 32 k)),
     nb_psk = (\<lambda>b n k. Some b),
     nb_responder = (\<lambda>b. Some (b, None, 0)),
     nb_initiator = (\<lambda>b. Some (b, None, 0)),
     hs_write = (\<lambda>(own, remote, n) p. Some ((own, remote, n + 1),
       if n = 0 then replicate 48 0 else if n = 1 then own @ replicate 64 0 else own @ replicate 32 0)),
     hs_read = (\<lambda>(own, remote, n) m. Some ((own, if n = 0 then remote else Some (take 32 m), n + 1), [])),
     hs_remote_static = (\<lambda>(own, remote, n). remote),
     hs_hash = (\<lambda>_. fill 32 [5]),
     hs_transport = (\<lambda>_. Some ()),
     t_write = (\<lambda>_ m. Some ((), m @ replicate 16 0)),
     t_read = (\<lambda>_ c. Some ((), take (length c - 16) c))\<rparr>"

definition demo_dsa :: mldsa_lib where
  "demo_dsa = \<lparr>
     dsa_sign = (\<lambda>k m c r. Some (replicate MLDSA87_SIG_LEN (sum_list c))),
     dsa_verify = (\<lambda>k m c sig. sig = replicate MLDSA87_SIG_LEN (sum_list c))\<rparr>"

definition demo_device :: "u8 \<Rightarrow> device_keypairs" where
  "demo_device b = \<lparr>static_private = [b], mldsa_signing = [b], mldsa_verification = replicate MLDSA87_VK_LEN b\<rparr>"

definition demo_pub :: "device_keypairs \<Rightarrow> bytes" where
  "demo_pub dk = fill 32 (static_private dk)"

definition demo_auth :: "(bytes, bytes, bytes \<times> bytes option \<times> nat, unit) auth_libs" where
  "demo_auth = \<lparr>al_kex = demo_lib, al_snow = demo_snow, al_dsa = demo_dsa\<rparr>"

definition demo_keys :: auth_keys where
  "demo_keys = \<lparr>ak_a_key = [1], ak_a_salt = [2]\<rparr>"

definition demo_dir :: "unit \<Rightarrow> unit \<Rightarrow> bool" where
  "demo_dir a b = True"

lemma demo_transport_ok: "transport_ok demo_snow demo_dir"
  by (simp add: transport_ok_def demo_snow_def demo_dir_def SNOW_TAG_LEN_def)

lemma demo_noise_ok: "noise_ok demo_snow demo_pub demo_dir"
  by (simp add: noise_ok_def noise_builder_def demo_snow_def demo_dir_def demo_pub_def fill_def)

lemma demo_dsa_ok: "dsa_ok demo_dsa (demo_device b)"
  by (simp add: dsa_ok_def demo_dsa_def demo_device_def)

lemma demo_setup:
  assumes "no_impostor demo_pub tc (demo_device 2)" "no_impostor demo_pub ts (demo_device 1)"
  shows "honest_setup demo_auth demo_pub demo_dir (demo_random 3) (demo_random 4) (demo_device 1) (demo_device 2) tc ts"
  using assms demo_lib_ok demo_noise_ok demo_transport_ok demo_dsa_ok
  by (simp add: honest_setup_def demo_auth_def demo_random_def)

definition demo_end :: "bool \<Rightarrow> unit secure_connection" where
  "demo_end initiator = \<lparr>sc_name = [], sc_ts = (), sc_hash = [5], is_initiator = initiator\<rparr>"

definition demo_hkdf :: hkdf_salted where
  "demo_hkdf salt ikm label n = Some (fill n (ikm @ label))"

theorem data_layer_roundtrip_witness:
  "\<exists>a' b'. in_step demo_dir a' b' \<and>
    talks (write_encrypted demo_snow demo_gcm demo_hkdf (Some (replicate 12 7)) (demo_end True) (replicate 100000 9) [1] Regular)
      (read_encrypted demo_snow demo_gcm demo_hkdf (demo_end False)
        (length (replicate 100000 (9 :: u8)) + DATA_LAYER_OVERHEAD) [1] Regular) [] []
      (Inr a') (b', Inr (replicate 100000 9))"
  by (rule data_layer_roundtrip [OF demo_transport_ok _ demo_gcm_ok, where k = "fill 32 ([1] @ DATA_C2S)"])
     (simp_all add: in_step_def demo_dir_def demo_end_def data_key_def demo_hkdf_def demo_gcm_def)

theorem different_data_password_reported_witness:
  "\<exists>a' b'. in_step demo_dir a' b' \<and> talks (write_encrypted demo_snow demo_gcm demo_hkdf (Some (replicate 12 7)) (demo_end True) [9, 8] [1] Regular)
      (read_encrypted demo_snow demo_gcm demo_hkdf (demo_end False) (length [9 :: u8, 8 :: u8] + DATA_LAYER_OVERHEAD) [2] Regular) [] []
      (Inr a') (b', Inl FailedToDecryptData)"
proof (rule different_data_password_reported [OF demo_transport_ok _ demo_gcm_ok])
  show "gcm_encrypt demo_gcm (fill 32 ([1] @ DATA_C2S)) (replicate 12 7) [] [9, 8]
    = Some ([9, 8] @ demo_tag (fill 32 ([1] @ DATA_C2S)) (replicate 12 7) [])" by (simp add: demo_gcm_def)
  show "gcm_decrypt demo_gcm (fill 32 ([2] @ DATA_C2S)) (replicate 12 7) []
    ([9, 8] @ demo_tag (fill 32 ([1] @ DATA_C2S)) (replicate 12 7) []) = None"
    by (simp add: demo_gcm_def demo_tag_def fill_def replicate_eq_replicate sum_list_replicate)
qed (simp_all add: in_step_def demo_dir_def demo_end_def data_key_def demo_hkdf_def)

lemma demo_pairing_code: "code_hkdf_ok sample_hkdf"
  by (auto simp: code_hkdf_ok_def sample_hkdf_def min_def)

lemma demo_strangers: "honest_setup demo_auth demo_pub demo_dir (demo_random 3) (demo_random 4) (demo_device 1) (demo_device 2) [] []"
  "\<not> (knows demo_pub [] (demo_device 2) \<and> knows demo_pub [] (demo_device 1))"
  by (simp_all add: demo_setup no_impostor_def knows_def find_peer_def)

theorem honest_pairing_witness:
  "\<exists>fuel a b. connected demo_dir a b \<and>
    link fuel (auth_outgoing demo_auth (demo_random 3) (Some []) sample_hkdf [98] demo_keys (demo_device 1) [] [] False (Decided True))
      (auth_incoming demo_auth (demo_random 4) (Some []) sample_hkdf [97] demo_keys (demo_device 2) [] [] False (Decided True)) [] []
    = Some
      ((Inr (Some \<lparr>au_connection = a, au_peer = peer_of demo_pub (demo_device 2) [98] [], newly_paired = True\<rparr>),
        snd (save_peer [] (peer_of demo_pub (demo_device 2) [98] [])), True),
       (Inr (Some \<lparr>au_connection = b, au_peer = peer_of demo_pub (demo_device 1) [97] [], newly_paired = True\<rparr>),
        snd (save_peer [] (peer_of demo_pub (demo_device 1) [97] [])), True))"
  by (rule honest_pairing [OF demo_strangers demo_pairing_code]) (simp_all add: MAX_TRUSTED_PEERS_def)

text \<open>Two lists in which the devices know each other.\<close>

definition demo_known :: "u8 \<Rightarrow> trusted_peer list" where
  "demo_known b = [peer_of demo_pub (demo_device b) [97] []]"

theorem honest_reconnect_witness:
  "\<exists>fuel a b. connected demo_dir a b \<and>
    link fuel (auth_outgoing demo_auth (demo_random 3) (Some []) sample_hkdf [98] demo_keys (demo_device 1) (demo_known 2) (demo_known 2) False QueueFull)
      (auth_incoming demo_auth (demo_random 4) (Some []) sample_hkdf [98] demo_keys (demo_device 2) (demo_known 1) (demo_known 1) False NoDecision) [] []
    = Some
      ((Inr (Some \<lparr>au_connection = a, au_peer = peer_of demo_pub (demo_device 2) [98] (demo_known 2), newly_paired = False\<rparr>), demo_known 2, False),
       (Inr (Some \<lparr>au_connection = b, au_peer = peer_of demo_pub (demo_device 1) [98] (demo_known 1), newly_paired = False\<rparr>), demo_known 1, False))"
  by (rule honest_reconnect [OF demo_setup])
     (simp_all add: no_impostor_def knows_def find_peer_def demo_known_def peer_of_def)

text \<open>A trace of the client of the first contact.\<close>

lemma demo_trace:
  obtains tr au where "run (authenticate Client demo_auth (demo_random 3) (Some []) sample_hkdf [98] demo_keys (demo_device 1)
      [] [] False (Decided True)) tr = Some (Inr (Some au), [au_peer au], True)" "newly_paired au"
proof -
  from talks_pairing [OF demo_strangers demo_pairing_code, of "[]" "[]" "[]" "[98]" demo_keys "[]" "[]"]
  obtain a where "\<exists>tr. run (auth_outgoing demo_auth (demo_random 3) (Some []) sample_hkdf [98] demo_keys (demo_device 1)
      [] [] False (Decided True)) tr = Some
      (Inr (Some \<lparr>au_connection = a, au_peer = peer_of demo_pub (demo_device 2) [98] [], newly_paired = True\<rparr>),
        snd (save_peer [] (peer_of demo_pub (demo_device 2) [98] [])), True)"
    by (auto simp: MAX_TRUSTED_PEERS_def dest!: talks_run)
  then obtain tr where "run (authenticate Client demo_auth (demo_random 3) (Some []) sample_hkdf [98] demo_keys (demo_device 1)
      [] [] False (Decided True)) tr = Some
      (Inr (Some \<lparr>au_connection = a, au_peer = peer_of demo_pub (demo_device 2) [98] [], newly_paired = True\<rparr>),
        [peer_of demo_pub (demo_device 2) [98] []], True)"
    by (auto simp: authenticate_def save_peer_def MAX_TRUSTED_PEERS_def)
  then show thesis
    by (intro that [of tr "\<lparr>au_connection = a, au_peer = peer_of demo_pub (demo_device 2) [98] [], newly_paired = True\<rparr>"])
      simp_all
qed

theorem authenticated_peer_proven_witness:
  "\<exists>tr au. run (authenticate Client demo_auth (demo_random 3) (Some []) sample_hkdf [98] demo_keys (demo_device 1)
      [] [] False (Decided True)) tr = Some (Inr (Some au), [au_peer au], True) \<and>
    (\<exists>sig. dsa_verify (al_dsa demo_auth) (mldsa_verification_key (au_peer au)) (sc_hash (au_connection au))
        (peer_context Client) sig) \<and> peer_context Client \<noteq> own_context Client \<and>
    (case find_peer [] (x25519_pub_key (au_peer au)) of None \<Rightarrow> newly_paired au | Some p \<Rightarrow> p = au_peer au)"
proof (rule demo_trace)
  fix tr au
  assume tr: "run (authenticate Client demo_auth (demo_random 3) (Some []) sample_hkdf [98] demo_keys (demo_device 1)
      [] [] False (Decided True)) tr = Some (Inr (Some au), [au_peer au], True)"
  from authenticated_peer_proven [OF tr] tr show ?thesis by (intro exI [of _ tr] exI [of _ au]) simp
qed

theorem pairing_needs_both_users_witness:
  "\<exists>tr (au :: unit authenticated). (\<exists>c ts ts' plain. Got c \<in> set tr \<and> t_read (al_snow demo_auth) ts c = Some (ts', plain) \<and>
      take 2 plain = tag (case Client of Client \<Rightarrow> ServerAcceptTag | Server \<Rightarrow> ClientAcceptTag) [1]) \<and>
    newly_paired au \<and> [au_peer au] = snd (save_peer [] (au_peer au)) \<and>
    proven (al_dsa demo_auth) Client [] (au_peer au) (sc_hash (au_connection au)) False"
proof (rule demo_trace)
  fix tr au
  assume "run (authenticate Client demo_auth (demo_random 3) (Some []) sample_hkdf [98] demo_keys (demo_device 1)
      [] [] False (Decided True)) tr = Some (Inr (Some au), [au_peer au], True)" "newly_paired au"
  from pairing_needs_both_users [OF this(1) disjI1] this(2) show ?thesis
    by (intro exI [of _ tr] exI [of _ au]) auto
qed

end
