(* ===== verification/Tcp_Networker.thy ===== *)
theory Tcp_Networker
  imports Auth_Honest Guess_Limiter Peer_Book
begin

text \<open>
  Connections between devices (\<open>cesa_conn_networker/src/tcp_networker.rs\<close>): the handlers of an
  incoming and of an outgoing connection, what they send and answer, and the accept loop.

  A handler is a process on one connection. What it does to the state shared by all
  connections (guess limiter, peer book, list of paired devices, the daemon's clipboard inbox)
  is an effect: the handlers return their effects in order, and \<open>tcp_apply\<close> carries one out.
  What a handler reads of the shared state is an argument, as it was at that moment:
  whether the source is locked out, the lists of paired devices, the keys, the salt offer.
  \<open>handler_is_guess_step\<close> takes the limiter's answer for the first and follows the limiter to
  the end of the connection.
  Names shown to the user are addresses; their text form is the argument \<open>cn_name\<close>.
\<close>

section \<open>Data\<close>

datatype action_type = Default | Debug | ConnectNewDevice | ClipboardSync | GroupSalt | Hello

primrec action_byte :: "action_type \<Rightarrow> u8" where
  "action_byte Default = 0x00"
| "action_byte Debug = 0x01"
| "action_byte ConnectNewDevice = 0x02"
| "action_byte ClipboardSync = 0x03"
| "action_byte GroupSalt = 0x04"
| "action_byte Hello = 0x05"

definition action_from_u8 :: "u8 \<Rightarrow> action_type option" where
  "action_from_u8 v =
     (if v = 0x00 then Some Default
      else if v = 0x01 then Some Debug
      else if v = 0x02 then Some ConnectNewDevice
      else if v = 0x03 then Some ClipboardSync
      else if v = 0x04 then Some GroupSalt
      else if v = 0x05 then Some Hello
      else None)"

definition TCP_PORT :: u16 where "TCP_PORT = 3232"
definition HELLO_PAYLOAD :: bytes where "HELLO_PAYLOAD = ascii ''CESAHELO''"
definition INIT_HEADER_LEN :: nat where "INIT_HEADER_LEN = 9"
definition MAX_DATA_PACKET_LEN :: nat where "MAX_DATA_PACKET_LEN = 16 * 1024 * 1024"
definition MAX_CONCURRENT_CONNECTIONS :: nat where "MAX_CONCURRENT_CONNECTIONS = 16"
definition GROUP_SALT_LEN :: nat where "GROUP_SALT_LEN = 32"

datatype tcp_error =
    TcpAcceptFailed | TcpReadFailed | TcpAuthFailed | TcpNoLocalAddr | TcpConnectFailed
  | TcpWriteFailed | DataTooLarge | TcpDecryptFailed | TcpLockedOut | NotInvited | TcpWrongPassword

record ('s, 'b, 'h, 't) networker_context =
  cx_libs :: "('s, 'b, 'h, 't) auth_libs"
  cx_gcm :: gcm
  cx_data_hkdf :: hkdf_salted
  cx_code_hkdf :: hkdf
  cx_keys :: auth_keys
  cx_d_key :: bytes
  cx_device :: device_keypairs
  cx_salt_offer :: "bytes option"
  cx_peer_port :: u16

text \<open>What belongs to one connection: random bytes, the peer's name, the paired devices when the
  peer is identified and when pairing is decided, the handshake deadline and the user.\<close>

record connection =
  cn_kex_random :: kex_random
  cn_dsa_random :: "bytes option"
  cn_nonce :: "bytes option"
  cn_name :: bytes
  cn_trusted :: "trusted_peer list"
  cn_now_trusted :: "trusted_peer list"
  cn_elapsed :: bool
  cn_user :: user_decision

record received_packet =
  rp_peer :: trusted_peer
  rp_action :: action_type
  rp_data :: bytes

datatype tcp_effect =
    GuessFailed ip_addr
  | GuessPassed ip_addr
  | Book book_op
  | TrustedNow "trusted_peer list"
  | Deliver trusted_peer bytes

text \<open>The daemon's inbox as one update finds it.\<close>

datatype clip_sink = NoSink | InboxFull | ClipAnswered data_ack | ClipUnanswered

section \<open>Processes with effects\<close>

definition perform :: "tcp_effect list \<Rightarrow> ('r \<times> tcp_effect list) proc \<Rightarrow> ('r \<times> tcp_effect list) proc" where
  "perform es p = pbind p (\<lambda>(r, es'). Ret (r, es @ es'))"

definition tcp_try ::
  "tcp_error \<Rightarrow> ('e + 'a) proc \<Rightarrow> ('a \<Rightarrow> ((tcp_error + 'r) \<times> tcp_effect list) proc) \<Rightarrow>
   ((tcp_error + 'r) \<times> tcp_effect list) proc" where
  "tcp_try e p f = pbind p (\<lambda>r. case r of Inl _ \<Rightarrow> Ret (Inl e, []) | Inr x \<Rightarrow> f x)"

definition tcp_result ::
  "'e + 'a \<Rightarrow> tcp_error \<Rightarrow> ('a \<Rightarrow> ((tcp_error + 'r) \<times> tcp_effect list) proc) \<Rightarrow>
   ((tcp_error + 'r) \<times> tcp_effect list) proc" where
  "tcp_result r e f = (case r of Inl _ \<Rightarrow> Ret (Inl e, []) | Inr x \<Rightarrow> f x)"

text \<open>\<open>let x = p.await?\<close> for a step that has effects of its own.\<close>

definition tcp_bind ::
  "((tcp_error + 'a) \<times> tcp_effect list) proc \<Rightarrow> ('a \<Rightarrow> ((tcp_error + 'r) \<times> tcp_effect list) proc) \<Rightarrow>
   ((tcp_error + 'r) \<times> tcp_effect list) proc" where
  "tcp_bind p f = pbind p (\<lambda>(r, es). case r of Inl e \<Rightarrow> Ret (Inl e, es) | Inr x \<Rightarrow> perform es (f x))"

section \<open>Messages\<close>

definition read_secure ::
  "('b, 'h, 't) snow_lib \<Rightarrow> 't secure_connection \<Rightarrow> nat \<Rightarrow> (tcp_error + 't secure_connection \<times> bytes) proc" where
  "read_secure S sc len =
     attempt_err TcpReadFailed (recv_secure S sc len Regular) (\<lambda>x. Ret (Inr x))"

definition init_header :: "action_type \<Rightarrow> nat \<Rightarrow> bytes" where
  "init_header action wire_len = action_byte action # le_nat 8 wire_len"

definition answered_len_ok :: "action_type \<Rightarrow> nat \<Rightarrow> bool" where
  "answered_len_ok action wire_len =
     (case action of
        Hello \<Rightarrow> wire_len = length HELLO_PAYLOAD + DATA_LAYER_OVERHEAD
      | ClipboardSync \<Rightarrow> CLIP_MIN_WIRE_LEN \<le> wire_len \<and> wire_len \<le> CLIP_MAX_WIRE_LEN
      | _ \<Rightarrow> False)"

definition send_ack ::
  "('b, 'h, 't) snow_lib \<Rightarrow> 't secure_connection \<Rightarrow> data_ack \<Rightarrow> (tcp_error + 't secure_connection) proc" where
  "send_ack S sc ack =
     attempt_err TcpWriteFailed (send_secure S sc [ack_byte ack] Regular) (\<lambda>sc. Ret (Inr sc))"

definition deliver_clip :: "clip_sink \<Rightarrow> trusted_peer \<Rightarrow> bytes \<Rightarrow> data_ack \<times> tcp_effect list" where
  "deliver_clip sink peer payload =
     (case sink of
        NoSink \<Rightarrow> (Ignored, [])
      | InboxFull \<Rightarrow> (Ignored, [])
      | ClipAnswered ack \<Rightarrow> (ack, [Deliver peer payload])
      | ClipUnanswered \<Rightarrow> (Ignored, [Deliver peer payload]))"

section \<open>Incoming connections\<close>

definition receive_answered ::
  "('s, 'b, 'h, 't) networker_context \<Rightarrow> clip_sink \<Rightarrow> 't secure_connection \<Rightarrow> trusted_peer \<Rightarrow> action_type \<Rightarrow> nat \<Rightarrow>
   ((tcp_error + received_packet) \<times> tcp_effect list) proc" where
  "receive_answered cx sink sc peer action wire_len =
     (let S = al_snow (cx_libs cx); key = x25519_pub_key peer in
      if \<not> answered_len_ok action wire_len then Ret (Inl DataTooLarge, [])
      else
        pbind (read_encrypted S (cx_gcm cx) (cx_data_hkdf cx) sc wire_len (cx_d_key cx) Regular) (\<lambda>r.
        case r of
          (sc, Inl e) \<Rightarrow>
            if e = FailedToDecryptData then
              perform [Book (SetState key DataPasswordDiffers)]
                (tcp_try TcpWriteFailed (send_ack S sc DataKeyDiffers) (\<lambda>_. Ret (Inl TcpDecryptFailed, [])))
            else Ret (Inl TcpReadFailed, [])
        | (sc, Inr data) \<Rightarrow>
            let (ack, delivered, kept) =
              (if action = ClipboardSync then
                 let (ack, es) = deliver_clip sink peer data in (ack, es, [])
               else if data = HELLO_PAYLOAD then (Applied, [], data)
               else (Ignored, [], data))
            in perform (Book (DataOk key) # delivered)
                 (tcp_try TcpWriteFailed (send_ack S sc ack) (\<lambda>_.
                  Ret (Inr \<lparr>rp_peer = peer, rp_action = action, rp_data = kept\<rparr>, [])))))"

definition send_group_salt ::
  "('b, 'h, 't) snow_lib \<Rightarrow> 't secure_connection \<Rightarrow> bool \<Rightarrow> bytes option \<Rightarrow>
   (tcp_error + 't secure_connection) proc" where
  "send_group_salt S sc newly offer =
     (case (if newly then offer else None) of
        None \<Rightarrow> Ret (Inl NotInvited)
      | Some d_salt \<Rightarrow>
          attempt_err TcpWriteFailed (write_chunked S sc d_salt Regular) (\<lambda>sc. Ret (Inr sc)))"

text \<open>What follows the header, by action; then the header. Unknown actions are \<open>Default\<close>.\<close>

definition recv_action ::
  "('s, 'b, 'h, 't) networker_context \<Rightarrow> clip_sink \<Rightarrow> 't authenticated \<Rightarrow> 't secure_connection \<Rightarrow> action_type \<Rightarrow> nat \<Rightarrow>
   ((tcp_error + received_packet option) \<times> tcp_effect list) proc" where
  "recv_action cx sink au sc action wire_len =
     (let S = al_snow (cx_libs cx); peer = au_peer au in
      if action = Hello \<or> action = ClipboardSync then
        tcp_bind (receive_answered cx sink sc peer action wire_len) (\<lambda>p. Ret (Inr (Some p), []))
      else if action = GroupSalt then
        (if wire_len \<noteq> 0 then Ret (Inl DataTooLarge, [])
         else
           pbind (send_group_salt S sc (newly_paired au) (cx_salt_offer cx)) (\<lambda>r.
           case r of
             Inl e \<Rightarrow> Ret (Inl e, [])
           | Inr _ \<Rightarrow> Ret (Inr (Some \<lparr>rp_peer = peer, rp_action = action, rp_data = []\<rparr>), [])))
      else if wire_len = 0 then
        Ret (Inr (Some \<lparr>rp_peer = peer, rp_action = action, rp_data = []\<rparr>), [])
      else
        pbind (read_encrypted S (cx_gcm cx) (cx_data_hkdf cx) sc wire_len (cx_d_key cx) Regular) (\<lambda>r.
        case r of
          (_, Inl e) \<Rightarrow> Ret (Inl (if e = FailedToDecryptData then TcpDecryptFailed else TcpReadFailed), [])
        | (_, Inr data) \<Rightarrow>
            Ret (Inr (Some \<lparr>rp_peer = peer, rp_action = action, rp_data = data\<rparr>), [])))"

definition recv_packet ::
  "('s, 'b, 'h, 't) networker_context \<Rightarrow> clip_sink \<Rightarrow> 't authenticated \<Rightarrow>
   ((tcp_error + received_packet option) \<times> tcp_effect list) proc" where
  "recv_packet cx sink au =
     pbind (read_secure (al_snow (cx_libs cx)) (au_connection au) INIT_HEADER_LEN) (\<lambda>r.
     case r of
       Inl e \<Rightarrow> Ret (Inl e, [])
     | Inr (sc, init_buf) \<Rightarrow>
         tcp_result (ok_or () (split_first init_buf)) TcpReadFailed (\<lambda>(action_u8, size_bytes).
         tcp_result (ok_or () (to_array 8 size_bytes)) TcpReadFailed (\<lambda>size_bytes.
         let wire_len = unat (u64_from_le size_bytes) in
         if MAX_DATA_PACKET_LEN + DATA_LAYER_OVERHEAD < wire_len then Ret (Inl DataTooLarge, [])
         else
           recv_action cx sink au sc
             (case action_from_u8 action_u8 of Some a \<Rightarrow> a | None \<Rightarrow> Default) wire_len)))"

definition saved_effect :: "trusted_peer list \<Rightarrow> bool \<Rightarrow> tcp_effect list" where
  "saved_effect ps woken = (if woken then [TrustedNow ps] else [])"

definition recv_handler ::
  "('s, 'b, 'h, 't) networker_context \<Rightarrow> connection \<Rightarrow> bool \<Rightarrow> clip_sink \<Rightarrow> socket_addr \<Rightarrow>
   ((tcp_error + received_packet option) \<times> tcp_effect list) proc" where
  "recv_handler cx cn is_locked_out sink peer_addr =
     (if is_locked_out then Ret (Inl TcpLockedOut, [])
      else
        pbind (auth_incoming (cx_libs cx) (cn_kex_random cn) (cn_dsa_random cn) (cx_code_hkdf cx) (cn_name cn)
          (cx_keys cx) (cx_device cx) (cn_trusted cn) (cn_now_trusted cn) (cn_elapsed cn) (cn_user cn))
          (\<lambda>(res, ps, woken).
        perform (saved_effect ps woken)
          (case res of
             Inl e \<Rightarrow> Ret (Inl TcpAuthFailed, [])
           | Inr None \<Rightarrow>
               Ret (Inr None, [GuessFailed (sa_ip peer_addr), Book (WrongPasswordAt (sa_ip peer_addr) False)])
           | Inr (Some au) \<Rightarrow>
               perform [GuessPassed (sa_ip peer_addr),
                   Book (Seen (x25519_pub_key (au_peer au)) (peer_addr\<lparr>sa_port := cx_peer_port cx\<rparr>))]
                 (recv_packet cx sink au))))"

section \<open>Outgoing connections\<close>

definition authenticate_outgoing ::
  "('s, 'b, 'h, 't) networker_context \<Rightarrow> connection \<Rightarrow> bool \<Rightarrow> socket_addr \<Rightarrow>
   ((tcp_error + 't authenticated) \<times> tcp_effect list) proc" where
  "authenticate_outgoing cx cn is_locked_out connect_addr =
     (if is_locked_out then Ret (Inl TcpLockedOut, [])
      else
        pbind (auth_outgoing (cx_libs cx) (cn_kex_random cn) (cn_dsa_random cn) (cx_code_hkdf cx) (cn_name cn)
          (cx_keys cx) (cx_device cx) (cn_trusted cn) (cn_now_trusted cn) (cn_elapsed cn) (cn_user cn))
          (\<lambda>(res, ps, woken).
        perform (saved_effect ps woken)
          (case res of
             Inl e \<Rightarrow>
               Ret (Inl (if e = FailedToConfirmMutualAuthSpake2 then TcpWrongPassword else TcpAuthFailed),
                 (if e = FailedToConfirmMutualAuthSpake2 \<or> e = HandshakeTimeout
                  then [GuessFailed (sa_ip connect_addr)] else []) @
                 (if e = FailedToConfirmMutualAuthSpake2
                  then [Book (WrongPasswordAt (sa_ip connect_addr) True)] else []))
           | Inr None \<Rightarrow>
               Ret (Inl TcpWrongPassword,
                 [GuessFailed (sa_ip connect_addr), Book (WrongPasswordAt (sa_ip connect_addr) True)])
           | Inr (Some au) \<Rightarrow>
               Ret (Inr au, [GuessPassed (sa_ip connect_addr),
                 Book (Seen (x25519_pub_key (au_peer au)) connect_addr)]))))"

definition connect_handler ::
  "('s, 'b, 'h, 't) networker_context \<Rightarrow> connection \<Rightarrow> bool \<Rightarrow> socket_addr \<Rightarrow> action_type \<Rightarrow> bytes \<Rightarrow>
   ((tcp_error + unit) \<times> tcp_effect list) proc" where
  "connect_handler cx cn is_locked_out connect_addr action data =
     (let S = al_snow (cx_libs cx) in
      if MAX_DATA_PACKET_LEN < length data then Ret (Inl DataTooLarge, [])
      else
        tcp_bind (authenticate_outgoing cx cn is_locked_out connect_addr) (\<lambda>au.
        let wire_len = (if action = ConnectNewDevice \<or> data = [] then 0 else length data + DATA_LAYER_OVERHEAD) in
        tcp_try TcpWriteFailed (send_secure S (au_connection au) (init_header action wire_len) Regular) (\<lambda>sc.
        if 0 < wire_len then
          tcp_try TcpWriteFailed
            (write_encrypted S (cx_gcm cx) (cx_data_hkdf cx) (cn_nonce cn) sc data (cx_d_key cx) Regular)
            (\<lambda>_. Ret (Inr (), []))
        else Ret (Inr (), []))))"

definition send_answered ::
  "('s, 'b, 'h, 't) networker_context \<Rightarrow> connection \<Rightarrow> bool \<Rightarrow> socket_addr \<Rightarrow> action_type \<Rightarrow> bytes \<Rightarrow>
   ((tcp_error + trusted_peer \<times> data_ack) \<times> tcp_effect list) proc" where
  "send_answered cx cn is_locked_out connect_addr action payload =
     (let S = al_snow (cx_libs cx); wire_len = length payload + DATA_LAYER_OVERHEAD in
      if \<not> answered_len_ok action wire_len then Ret (Inl DataTooLarge, [])
      else
        tcp_bind (authenticate_outgoing cx (cn\<lparr>cn_user := QueueFull\<rparr>) is_locked_out connect_addr) (\<lambda>au.
        if newly_paired au then Ret (Inl TcpAuthFailed, [])
        else
          tcp_try TcpWriteFailed (send_secure S (au_connection au) (init_header action wire_len) Regular) (\<lambda>sc.
          tcp_try TcpWriteFailed
            (write_encrypted S (cx_gcm cx) (cx_data_hkdf cx) (cn_nonce cn) sc payload (cx_d_key cx) Regular) (\<lambda>sc.
          tcp_try TcpReadFailed (read_secure S sc 1) (\<lambda>(sc, answer).
          case (if length answer = 1 then ack_from_u8 (hd answer) else None) of
            None \<Rightarrow> Ret (Inl TcpReadFailed, [])
          | Some ack \<Rightarrow>
              Ret (Inr (au_peer au, ack),
                [Book (if ack = DataKeyDiffers then SetState (x25519_pub_key (au_peer au)) DataPasswordDiffers
                       else DataOk (x25519_pub_key (au_peer au)))]))))))"

definition join_handler ::
  "('s, 'b, 'h, 't) networker_context \<Rightarrow> connection \<Rightarrow> bool \<Rightarrow> socket_addr \<Rightarrow>
   ((tcp_error + trusted_peer \<times> bytes) \<times> tcp_effect list) proc" where
  "join_handler cx cn is_locked_out connect_addr =
     (let S = al_snow (cx_libs cx) in
      tcp_bind (authenticate_outgoing cx cn is_locked_out connect_addr) (\<lambda>au.
      if \<not> newly_paired au then Ret (Inl NotInvited, [])
      else
        tcp_try TcpWriteFailed (send_secure S (au_connection au) (init_header GroupSalt 0) Regular) (\<lambda>sc.
        tcp_try TcpReadFailed (read_chunked S sc GROUP_SALT_LEN Regular) (\<lambda>(sc, received).
        if length received = GROUP_SALT_LEN then Ret (Inr (au_peer au, received), [])
        else Ret (Inl TcpReadFailed, [])))))"

section \<open>The shared state\<close>

record tcp_state =
  ts_limiter :: limiter
  ts_book :: peer_book
  ts_trusted :: "trusted_peer list"
  ts_inbox :: "(trusted_peer \<times> bytes) list"

fun tcp_apply :: "instant \<Rightarrow> tcp_effect \<Rightarrow> tcp_state \<Rightarrow> tcp_state" where
  "tcp_apply now (GuessFailed ip) st = st\<lparr>ts_limiter := record_failure (ts_limiter st) ip now\<rparr>"
| "tcp_apply now (GuessPassed ip) st = st\<lparr>ts_limiter := record_success (ts_limiter st) ip\<rparr>"
| "tcp_apply now (Book op) st = st\<lparr>ts_book := book_apply op now (ts_book st)\<rparr>"
| "tcp_apply now (TrustedNow ps) st = st\<lparr>ts_trusted := ps\<rparr>"
| "tcp_apply now (Deliver peer payload) st = st\<lparr>ts_inbox := ts_inbox st @ [(peer, payload)]\<rparr>"

text \<open>The accept loop: a connection is handled if a slot is free, a handler that ends frees its
  slot. Cancelling ends the loop and drops the handlers; an error of the listener ends the loop
  and leaves the handlers running. The first component says whether a handler is started.\<close>

datatype listen_event = ConnAccepted | ConnFinished | AcceptError | ListenCancelled

record listening =
  ls_used :: nat
  ls_ended :: "(tcp_error + unit) option"

definition recv_start :: listening where
  "recv_start = \<lparr>ls_used = 0, ls_ended = None\<rparr>"

definition recv_step :: "listen_event \<Rightarrow> listening \<Rightarrow> bool \<times> listening" where
  "recv_step ev ls =
     (case ev of
        ConnAccepted \<Rightarrow>
          if ls_ended ls \<noteq> None \<or> MAX_CONCURRENT_CONNECTIONS \<le> ls_used ls then (False, ls)
          else (True, ls\<lparr>ls_used := ls_used ls + 1\<rparr>)
      | ConnFinished \<Rightarrow> (False, ls\<lparr>ls_used := ls_used ls - 1\<rparr>)
      | AcceptError \<Rightarrow>
          (False, if ls_ended ls = None then ls\<lparr>ls_ended := Some (Inl TcpAcceptFailed)\<rparr> else ls)
      | ListenCancelled \<Rightarrow>
          (False, ls\<lparr>ls_used := 0, ls_ended := Some (case ls_ended ls of None \<Rightarrow> Inr () | Some r \<Rightarrow> r)\<rparr>))"

definition recv_run :: "listen_event list \<Rightarrow> listening" where
  "recv_run evs = fold (\<lambda>ev ls. snd (recv_step ev ls)) evs recv_start"

lemma recv_run_bounded: "ls_used (recv_run evs) \<le> MAX_CONCURRENT_CONNECTIONS"
proof -
  have "ls_used (fold (\<lambda>ev ls. snd (recv_step ev ls)) evs ls) \<le> MAX_CONCURRENT_CONNECTIONS"
    if "ls_used ls \<le> MAX_CONCURRENT_CONNECTIONS" for ls
    using that by (induction evs arbitrary: ls) (auto simp: recv_step_def split: listen_event.splits)
  then show ?thesis unfolding recv_run_def by (simp add: recv_start_def)
qed

section \<open>What the handlers do to the shared state\<close>

lemma always_perform: "always (\<lambda>(r, es'). P (r, es @ es')) p \<Longrightarrow> always P (perform es p)"
  unfolding perform_def by (erule always_pbind) auto

lemma always_tcp_try:
  "P (Inl e, []) \<Longrightarrow> (\<And>x. always P (f x)) \<Longrightarrow> always P (tcp_try e p f)"
  unfolding tcp_try_def by (rule always_pbind_any) (auto split: sum.splits)

lemma always_tcp_result:
  "P (Inl e, []) \<Longrightarrow> (\<And>x. r = Inr x \<Longrightarrow> always P (f x)) \<Longrightarrow> always P (tcp_result r e f)"
  by (auto simp: tcp_result_def split: sum.splits)

lemmas always_tcp = always_perform always_tcp_try always_tcp_result

text \<open>Effects on the guess limiter.\<close>

fun is_guess :: "tcp_effect \<Rightarrow> bool" where
  "is_guess (GuessFailed ip) = True"
| "is_guess (GuessPassed ip) = True"
| "is_guess _ = False"

abbreviation guesses :: "tcp_effect list \<Rightarrow> tcp_effect list" where
  "guesses \<equiv> filter is_guess"

definition trusted_untouched :: "tcp_effect list \<Rightarrow> bool" where
  "trusted_untouched es = list_all (\<lambda>e. case e of TrustedNow ps \<Rightarrow> False | _ \<Rightarrow> True) es"

lemma trusted_untouched_simps [simp]:
  "trusted_untouched []" "trusted_untouched (es @ fs) \<longleftrightarrow> trusted_untouched es \<and> trusted_untouched fs"
  "trusted_untouched (e # es) \<longleftrightarrow> (case e of TrustedNow ps \<Rightarrow> False | _ \<Rightarrow> True) \<and> trusted_untouched es"
  by (simp_all add: trusted_untouched_def)

lemma saved_effect_simps [simp]: "guesses (saved_effect ps woken) = []" "trusted_untouched (saved_effect ps woken) \<longleftrightarrow> \<not> woken"
  by (simp_all add: saved_effect_def)

lemma deliver_clip_effects: "deliver_clip sink peer data = (ack, es) \<Longrightarrow> guesses es = [] \<and> trusted_untouched es"
  by (auto simp: deliver_clip_def split: clip_sink.splits)

text \<open>After authentication nothing touches the guess limiter or the paired devices.\<close>

definition after_auth :: "((tcp_error + received_packet) \<times> tcp_effect list) \<Rightarrow> bool" where
  "after_auth x = (guesses (snd x) = [] \<and> trusted_untouched (snd x) \<and> fst x \<noteq> Inl TcpAuthFailed \<and> fst x \<noteq> Inl TcpLockedOut)"

lemma always_receive_answered:
  "always (\<lambda>x. after_auth x \<and> (\<forall>p. fst x = Inr p \<longrightarrow> rp_peer p = peer \<and> rp_action p = action))
    (receive_answered cx sink sc peer action len)"
  unfolding receive_answered_def Let_def
  by (auto intro!: always_pbind_any always_tcp split: prod.splits sum.splits if_splits
      simp: after_auth_def deliver_clip_effects)

lemma always_tcp_bind:
  assumes "always Q p" "\<And>e es. Q (Inl e, es) \<Longrightarrow> P (Inl e, es)"
    and "\<And>x es. Q (Inr x, es) \<Longrightarrow> always (\<lambda>(r, es'). P (r, es @ es')) (f x)"
  shows "always P (tcp_bind p f)"
  unfolding tcp_bind_def
  by (rule always_pbind [OF assms(1)]) (auto split: sum.splits intro!: always_perform assms(2,3))

text \<open>What follows authentication, and who it says the packet is from.\<close>

definition packet_ok :: "('s, 'b, 'h, 't) networker_context \<Rightarrow> 't authenticated \<Rightarrow> tcp_error + received_packet option \<Rightarrow> bool" where
  "packet_ok cx au r = (r \<noteq> Inl TcpAuthFailed \<and> r \<noteq> Inl TcpLockedOut \<and> r \<noteq> Inr None \<and>
     (\<forall>p. r = Inr (Some p) \<longrightarrow> rp_peer p = au_peer au \<and>
       (rp_action p = GroupSalt \<longrightarrow> newly_paired au \<and> cx_salt_offer cx \<noteq> None)))"

lemma packet_ok_simps [simp]:
  "packet_ok cx au (Inl e) \<longleftrightarrow> e \<noteq> TcpAuthFailed \<and> e \<noteq> TcpLockedOut"
  "\<not> packet_ok cx au (Inr None)"
  "packet_ok cx au (Inr (Some p)) \<longleftrightarrow> rp_peer p = au_peer au \<and>
     (rp_action p = GroupSalt \<longrightarrow> newly_paired au \<and> cx_salt_offer cx \<noteq> None)"
  by (auto simp: packet_ok_def)

lemma always_send_group_salt:
  "always (\<lambda>r. (\<forall>e. r = Inl e \<longrightarrow> e = NotInvited \<or> e = TcpWriteFailed) \<and>
    (\<forall>sc. r = Inr sc \<longrightarrow> newly \<and> offer \<noteq> None)) (send_group_salt S sc newly offer)"
  by (auto simp: send_group_salt_def attempt_err_def intro!: always_pbind_any split: option.splits sum.splits)

lemma always_read_secure: "always (\<lambda>r. \<forall>e. r = Inl e \<longrightarrow> e = TcpReadFailed) (read_secure S sc len)"
  by (auto simp: read_secure_def attempt_err_def intro!: always_pbind_any split: sum.splits)

lemma always_answer_group_salt:
  "always (\<lambda>(r, es). packet_ok cx au r \<and> guesses es = [] \<and> trusted_untouched es)
    (pbind (send_group_salt S sc (newly_paired au) (cx_salt_offer cx)) (\<lambda>r.
      case r of Inl e \<Rightarrow> Ret (Inl e, [])
      | Inr _ \<Rightarrow> Ret (Inr (Some \<lparr>rp_peer = au_peer au, rp_action = GroupSalt, rp_data = []\<rparr>), [])))"
  by (rule always_pbind [OF always_send_group_salt]) (auto split: sum.splits)

lemma always_recv_action:
  "always (\<lambda>(r, es). packet_ok cx au r \<and> guesses es = [] \<and> trusted_untouched es)
    (recv_action cx sink au sc action len)"
proof (cases "action = Hello \<or> action = ClipboardSync")
  case True
  then show ?thesis
    unfolding recv_action_def Let_def
    by (simp, intro always_tcp_bind [OF always_receive_answered]) (auto simp: after_auth_def)
next
  case other: False
  show ?thesis
  proof (cases "action = GroupSalt")
    case True
    show ?thesis
      unfolding recv_action_def Let_def True using always_answer_group_salt [of cx au] by auto
  next
    case False
    with other show ?thesis
      unfolding recv_action_def Let_def by (auto intro!: always_pbind_any split: sum.splits)
  qed
qed

lemma always_recv_packet:
  "always (\<lambda>(r, es). packet_ok cx au r \<and> guesses es = [] \<and> trusted_untouched es) (recv_packet cx sink au)"
  unfolding recv_packet_def Let_def
  by (rule always_pbind [OF always_read_secure])
     (auto split: sum.splits prod.splits intro!: always_tcp_result always_recv_action)

text \<open>The ways authentication can go, as far as the handlers see it.\<close>

lemma always_authenticate:
  "always (\<lambda>(res, ps, woken). (woken \<longrightarrow> (\<exists>au. res = Inr (Some au) \<and> newly_paired au)) \<and>
    (\<forall>au. res = Inr (Some au) \<longrightarrow>
      proven (al_dsa A) role trusted (au_peer au) (sc_hash (au_connection au)) (\<not> newly_paired au) \<and>
      (newly_paired au \<longrightarrow> user = Decided True)))
    (authenticate role A r dr hkdf name keys dk trusted now elapsed user)"
proof -
  have "always (\<lambda>(res, ps, woken). woken \<longrightarrow> (\<exists>au. res = Inr (Some au) \<and> newly_paired au))
    (authenticate role A r dr hkdf name keys dk trusted now elapsed user)"
    by (cases role) (auto simp: authenticate_def auth_incoming_def auth_outgoing_def
        intro!: always_pbind_any finish_auth_woken)
  moreover have "proven (al_dsa A) role trusted (au_peer au) (sc_hash (au_connection au)) (\<not> newly_paired au) \<and>
      (newly_paired au \<longrightarrow> user = Decided True)"
    if "run (authenticate role A r dr hkdf name keys dk trusted now elapsed user) tr = Some (Inr (Some au), ps, woken)"
    for tr au ps woken
    using run_authenticate [OF that] run_confirm_pairing(1) by (auto split: if_splits)
  ultimately show ?thesis unfolding always_def by auto
qed

lemma always_recv_handler:
  "always (\<lambda>(r, es). guesses es = (if r = Inl TcpLockedOut \<or> r = Inl TcpAuthFailed then []
      else if r = Inr None then [GuessFailed (sa_ip pa)] else [GuessPassed (sa_ip pa)]) \<and>
    (\<forall>p. r = Inr (Some p) \<longrightarrow>
      (\<exists>au :: 't authenticated. rp_peer p = au_peer au \<and> packet_ok cx au r \<and> (newly_paired au \<longrightarrow> cn_user cn = Decided True) \<and>
        proven (al_dsa (cx_libs cx)) Server (cn_trusted cn) (rp_peer p) (sc_hash (au_connection au)) (\<not> newly_paired au))))
    (recv_handler (cx :: ('s, 'b, 'h, 't) networker_context) cn False sink pa)"
  (is "always ?P _")
  unfolding recv_handler_def if_False
proof (rule always_pbind [OF always_authenticate [where role = Server, unfolded authenticate_def role.case]])
  fix x :: "(auth_error + 't authenticated option) \<times> trusted_peer list \<times> bool"
  assume x: "case x of (res, ps, woken) \<Rightarrow> (woken \<longrightarrow> (\<exists>au. res = Inr (Some au) \<and> newly_paired au)) \<and>
    (\<forall>au. res = Inr (Some au) \<longrightarrow>
      proven (al_dsa (cx_libs cx)) Server (cn_trusted cn) (au_peer au) (sc_hash (au_connection au)) (\<not> newly_paired au) \<and>
      (newly_paired au \<longrightarrow> cn_user cn = Decided True))"
  obtain res ps woken where t: "x = (res, ps, woken)" by (cases x)
  show "always ?P (case x of (res, ps, woken) \<Rightarrow> perform (saved_effect ps woken)
      (case res of
         Inl e \<Rightarrow> Ret (Inl TcpAuthFailed, [])
       | Inr None \<Rightarrow> Ret (Inr None, [GuessFailed (sa_ip pa), Book (WrongPasswordAt (sa_ip pa) False)])
       | Inr (Some au) \<Rightarrow>
           perform [GuessPassed (sa_ip pa), Book (Seen (x25519_pub_key (au_peer au)) (pa\<lparr>sa_port := cx_peer_port cx\<rparr>))]
             (recv_packet cx sink au)))"
  proof (cases res)
    case (Inl e)
    then show ?thesis unfolding t by (auto intro!: always_perform)
  next
    case (Inr o')
    show ?thesis
    proof (cases o')
      case None
      with Inr show ?thesis unfolding t by (auto intro!: always_perform)
    next
      case (Some au)
      with Inr x t have "proven (al_dsa (cx_libs cx)) Server (cn_trusted cn) (au_peer au) (sc_hash (au_connection au)) (\<not> newly_paired au)"
        "newly_paired au \<longrightarrow> cn_user cn = Decided True" by auto
      with Inr Some show ?thesis
        unfolding t by (auto intro!: always_perform always_mono [OF always_recv_packet])
    qed
  qed
qed

text \<open>
  C22. What an incoming connection can do: a locked-out source does not even get a handshake; a
  wrong password counts as exactly one failed guess of its address and gives no packet; any
  other failure before authentication counts nothing; and every packet comes from a peer
  that proved its keys and counts as exactly one passed guess.
\<close>
theorem recv_handler_guesses:
  assumes "run (recv_handler cx cn lk sink pa) tr = Some (r, es)"
  shows "(lk \<longrightarrow> tr = []) \<and>
    guesses es = (if r = Inl TcpLockedOut \<or> r = Inl TcpAuthFailed then []
      else if r = Inr None then [GuessFailed (sa_ip pa)] else [GuessPassed (sa_ip pa)]) \<and>
    (\<forall>p. r = Inr (Some p) \<longrightarrow>
      (\<exists>h both. proven (al_dsa (cx_libs cx)) Server (cn_trusted cn) (rp_peer p) h both))"
proof (cases lk)
  case True
  with assms have "tr = [] \<and> r = Inl TcpLockedOut \<and> es = []" by (simp add: recv_handler_def split: if_splits)
  then show ?thesis by simp
next
  case False
  with alwaysD [OF always_recv_handler, of cx cn sink pa tr "(r, es)"] assms show ?thesis by fastforce
qed

text \<open>The handler and the steps of \<open>guess_step\<close>: it starts with the limiter's own answer for its
  source, and at its end the limiter is what \<open>guess_step\<close> makes of the way it went.\<close>

definition handler_event :: "tcp_error + received_packet option \<Rightarrow> ip_addr \<Rightarrow> guess_event" where
  "handler_event r ip =
     (if r = Inl TcpLockedOut \<or> r = Inl TcpAuthFailed then GivesUp ip
      else if r = Inr None then Fails ip else Succeeds ip)"

lemma fold_apply_limiter:
  "ts_limiter st = ts_limiter st' \<Longrightarrow>
   ts_limiter (fold (tcp_apply now) es st) = ts_limiter (fold (tcp_apply now) es st')"
proof (induction es arbitrary: st st')
  case (Cons e es)
  have "ts_limiter (tcp_apply now e st) = ts_limiter (tcp_apply now e st')"
    using Cons.prems by (cases e) simp_all
  from Cons.IH [OF this] show ?case by simp
qed simp

lemma limiter_of_guesses:
  "ts_limiter (fold (tcp_apply now) es st) = ts_limiter (fold (tcp_apply now) (guesses es) st)"
proof (induction es arbitrary: st)
  case (Cons e es)
  show ?case
  proof (cases "is_guess e")
    case False
    then have "ts_limiter (tcp_apply now e st) = ts_limiter st" by (cases e) simp_all
    from fold_apply_limiter [OF this, of now "guesses es"] False show ?thesis by (simp add: Cons.IH)
  qed (simp add: Cons.IH)
qed simp

theorem handler_is_guess_step:
  assumes "run (recv_handler cx cn (is_locked (ts_limiter st0) (sa_ip pa) now0) sink pa) tr = Some (r, es)"
    and "gs_limiter gs = ts_limiter st" "0 < gs_open gs (source_of (sa_ip pa))"
  shows "if is_locked (ts_limiter st0) (sa_ip pa) now0 then tr = [] \<and> r = Inl TcpLockedOut \<and> es = []
    else ts_limiter (fold (tcp_apply now) es st) = gs_limiter (guess_step c (handler_event r (sa_ip pa), now) gs)"
proof (cases "is_locked (ts_limiter st0) (sa_ip pa) now0")
  case True
  with assms(1) show ?thesis by (simp add: recv_handler_def split: if_splits)
next
  case False
  from alwaysD [OF always_recv_handler, of cx cn sink pa tr "(r, es)"] assms(1) False
  have "guesses es = (if r = Inl TcpLockedOut \<or> r = Inl TcpAuthFailed then []
      else if r = Inr None then [GuessFailed (sa_ip pa)] else [GuessPassed (sa_ip pa)])" by simp
  then show ?thesis
    using False assms(2,3)
    by (subst limiter_of_guesses) (simp add: handler_event_def close_one_def)
qed

text \<open>Without a newly paired device, or without an offer, the rest of the connection is what it is
  on a device that offers nothing: the same writes, reads, results and effects.\<close>

lemma receive_answered_no_offer:
  "receive_answered (cx\<lparr>cx_salt_offer := o'\<rparr>) = receive_answered cx"
  by (intro ext) (simp add: receive_answered_def Let_def cong: if_cong)

lemma recv_action_no_offer:
  assumes "\<not> newly_paired au \<or> cx_salt_offer cx = None"
  shows "recv_action (cx\<lparr>cx_salt_offer := None\<rparr>) sink au = recv_action cx sink au"
proof -
  have "send_group_salt (al_snow (cx_libs cx)) sc (newly_paired au) None =
      send_group_salt (al_snow (cx_libs cx)) sc (newly_paired au) (cx_salt_offer cx)" for sc
    using assms by (auto simp: send_group_salt_def)
  then show ?thesis
    by (intro ext) (simp add: recv_action_def receive_answered_no_offer Let_def cong: if_cong)
qed

lemma recv_packet_no_offer:
  assumes "\<not> newly_paired au \<or> cx_salt_offer cx = None"
  shows "recv_packet (cx\<lparr>cx_salt_offer := None\<rparr>) sink au = recv_packet cx sink au"
  unfolding recv_packet_def recv_action_no_offer [OF assms] by simp

lemma perform_effects: "run (perform es p) tr = Some (r, es') \<Longrightarrow> set es \<subseteq> set es'"
  by (auto simp: perform_def run_pbind run_Ret simp del: run.simps split: prod.splits)

text \<open>
  C23. The group's data salt leaves this device only by invitation. Whatever is on the other end of
  an incoming connection: either a device was paired on this very connection, with our user
  accepting, its keys proven and the list saved with it, while the invite window offered the
  salt; or every byte written, every byte read, the result and the effects are those of a
  device that offers no salt at all.
\<close>
theorem group_salt_only_by_invitation:
  assumes "run (recv_handler cx cn lk sink pa) tr = Some (r, es)"
  shows "cx_salt_offer cx \<noteq> None \<and> cn_user cn = Decided True \<and>
      (\<exists>peer ps h. TrustedNow ps \<in> set es \<and> save_peer (cn_now_trusted cn) peer = (Inr (), ps) \<and>
        proven (al_dsa (cx_libs cx)) Server (cn_trusted cn) peer h False) \<or>
    run (recv_handler (cx\<lparr>cx_salt_offer := None\<rparr>) cn lk sink pa) tr = Some (r, es)"
proof (cases lk)
  case True
  with assms show ?thesis by (simp add: recv_handler_def)
next
  case False
  define auth where "auth = auth_incoming (cx_libs cx) (cn_kex_random cn) (cn_dsa_random cn) (cx_code_hkdf cx)
    (cn_name cn) (cx_keys cx) (cx_device cx) (cn_trusted cn) (cn_now_trusted cn) (cn_elapsed cn) (cn_user cn)"
  define rest where "rest cx = (\<lambda>(res :: auth_error + 'd authenticated option, ps, woken). perform (saved_effect ps woken)
      (case res of
         Inl e \<Rightarrow> Ret (Inl TcpAuthFailed, [])
       | Inr None \<Rightarrow> Ret (Inr None, [GuessFailed (sa_ip pa), Book (WrongPasswordAt (sa_ip pa) False)])
       | Inr (Some au) \<Rightarrow>
           perform [GuessPassed (sa_ip pa), Book (Seen (x25519_pub_key (au_peer au)) (pa\<lparr>sa_port := cx_peer_port cx\<rparr>))]
             (recv_packet cx sink au)))" for cx :: "('a, 'b, 'c, 'd) networker_context"
  have "recv_handler cx cn lk sink pa = pbind auth (rest cx)"
    "recv_handler (cx\<lparr>cx_salt_offer := None\<rparr>) cn lk sink pa = pbind auth (rest (cx\<lparr>cx_salt_offer := None\<rparr>))"
    using False by (simp_all add: recv_handler_def auth_def rest_def)
  note handler = this
  obtain tr1 tr2 x where tr: "tr = tr1 @ tr2" and ax: "run auth tr1 = Some x" and fx: "run (rest cx x) tr2 = Some (r, es)"
    using assms unfolding handler(1) run_pbind by blast
  obtain res ps woken where x: "x = (res, ps, woken)" by (cases x)
  note a = ax [unfolded x] and f = fx [unfolded x]
  show ?thesis
  proof (cases "\<exists>au. res = Inr (Some au) \<and> newly_paired au \<and> cx_salt_offer cx \<noteq> None")
    case True
    then obtain au where au: "res = Inr (Some au)" "newly_paired au" "cx_salt_offer cx \<noteq> None" by blast
    have "run (authenticate Server (cx_libs cx) (cn_kex_random cn) (cn_dsa_random cn) (cx_code_hkdf cx) (cn_name cn)
      (cx_keys cx) (cx_device cx) (cn_trusted cn) (cn_now_trusted cn) (cn_elapsed cn) (cn_user cn)) tr1 =
      Some (Inr (Some au), ps, woken)"
      using a by (simp add: authenticate_def auth_def au)
    note ok = run_authenticate [OF this]
    then have "cn_user cn = Decided True" using au run_confirm_pairing(1) by (auto split: if_splits)
    moreover have "TrustedNow ps \<in> set es"
      using perform_effects [of "saved_effect ps woken" _ tr2 r es] f ok au
      by (auto simp: rest_def saved_effect_def)
    ultimately show ?thesis using ok au by auto
  next
    case False
    then have "rest (cx\<lparr>cx_salt_offer := None\<rparr>) (res, ps, woken) = rest cx (res, ps, woken)"
      by (auto simp: rest_def recv_packet_no_offer split: sum.splits option.splits)
    with f tr a have "run (recv_handler (cx\<lparr>cx_salt_offer := None\<rparr>) cn lk sink pa) tr = Some (r, es)"
      unfolding handler(2) run_pbind by metis
    then show ?thesis ..
  qed
qed

lemma always_authenticate_outgoing:
  "always (\<lambda>(r, es). (cn_user cn \<noteq> Decided True \<longrightarrow> trusted_untouched es) \<and>
    (\<forall>au. r = Inr au \<longrightarrow> (newly_paired au \<longrightarrow> cn_user cn = Decided True) \<and>
      proven (al_dsa (cx_libs cx)) Client (cn_trusted cn) (au_peer au) (sc_hash (au_connection au)) (\<not> newly_paired au)))
    (authenticate_outgoing cx cn lk ca)"
  unfolding authenticate_outgoing_def
  by (auto intro!: always_perform always_pbind [OF always_authenticate [where role = Client, unfolded authenticate_def role.case]]
      split: sum.splits option.splits)

text \<open>
  C24. Sync never pairs and never talks to a stranger: whatever the other end does, a hello or a
  clipboard update leaves the list of paired devices alone, and an answer is only reported
  from a device that was paired before, with the keys it was paired with, and that proved them.
\<close>
theorem sync_never_pairs:
  assumes "run (send_answered cx cn lk ca action payload) tr = Some (r, es)"
  shows "trusted_untouched es \<and> (\<forall>peer ack. r = Inr (peer, ack) \<longrightarrow>
    find_peer (cn_trusted cn) (x25519_pub_key peer) = Some peer \<and>
    (\<exists>h sig. dsa_verify (al_dsa (cx_libs cx)) (mldsa_verification_key peer) h (peer_context Client) sig))"
proof -
  let ?P = "\<lambda>(r, es). trusted_untouched es \<and> (\<forall>peer ack. r = Inr (peer, ack) \<longrightarrow>
    (\<exists>h. proven (al_dsa (cx_libs cx)) Client (cn_trusted cn) peer h True))"
  have "always ?P (send_answered cx cn lk ca action payload)"
    unfolding send_answered_def Let_def
    by (auto intro!: always_tcp_bind [OF always_authenticate_outgoing] always_tcp_try split: option.splits)
       blast
  from alwaysD [OF this assms] show ?thesis
    by (fastforce simp: proven_def split: option.splits)
qed

section \<open>Two honest devices\<close>

lemma dialogue_read_secure:
  assumes "transport_ok S dir" "in_step dir a b" "length m = n" "n \<le> SECURE_MSG_MAX_PAYLOAD"
  shows "dialogue dir a b (send_secure S a m Regular) (read_secure S b n) (\<lambda>a. Inr a) (\<lambda>b. Inr (b, m))"
  using dialogue_pbind [OF dialogue_send [OF assms, of Regular], where f = Ret and
      g = "\<lambda>r. case r of Inl _ \<Rightarrow> Ret (Inl TcpReadFailed) | Inr x \<Rightarrow> Ret (Inr x)" and
      x = "\<lambda>a. Inr a" and y = "\<lambda>b. Inr (b, m)"]
  by (simp add: read_secure_def attempt_err_def pbind_Ret dialogue_Ret)

lemma dialogue_send_ack:
  assumes "transport_ok S dir" "in_step dir a b"
  shows "dialogue dir a b (read_secure S a 1) (send_ack S b ack) (\<lambda>a. Inr (a, [ack_byte ack])) (\<lambda>b. Inr b)"
proof -
  have "send_ack S b ack = pbind (send_secure S b [ack_byte ack] Regular)
      (\<lambda>r. case r of Inl _ \<Rightarrow> Ret (Inl TcpWriteFailed) | Inr x \<Rightarrow> Ret (Inr x))"
    by (simp add: send_ack_def attempt_err_def)
  moreover have "read_secure S a 1 = pbind (recv_secure S a 1 Regular)
      (\<lambda>r. case r of Inl _ \<Rightarrow> Ret (Inl TcpReadFailed) | Inr x \<Rightarrow> Ret (Inr x))"
    by (simp add: read_secure_def attempt_err_def)
  ultimately show ?thesis
    by (simp only:, intro dialogue_pbind [OF dialogue_recv_byte [OF assms]]) (simp add: dialogue_Ret)
qed

lemma dialogue_encrypted:
  assumes "transport_ok S dir" "in_step dir a b" "gcm_ok G" "length nonce = 12"
    and "data_key hkdf a d_key True = Inr k" "gcm_encrypt G k nonce [] data = Some c"
    and "data_key hkdf b d_key' False = Inr k'"
  shows "dialogue dir a b (write_encrypted S G hkdf (Some nonce) a data d_key t)
      (read_encrypted S G hkdf b (length data + DATA_LAYER_OVERHEAD) d_key' t) (\<lambda>a. Inr a)
      (\<lambda>b. (b, case gcm_decrypt G k' nonce [] c of None \<Rightarrow> Inl FailedToDecryptData | Some d \<Rightarrow> Inr d))"
  using talks_encrypted [OF assms] unfolding dialogue_def by blast

end
