(* ===== verification/Tcp_Sync.thy ===== *)
theory Tcp_Sync
  imports Tcp_Networker
begin

text \<open>
  Sync between two honest paired devices, end to end: the sender's \<open>send_answered\<close> against
  the receiver's \<open>recv_handler\<close>, from the first byte of the handshake to the answer, and a
  joining device's \<open>join_handler\<close> against a member.
\<close>

section \<open>Two devices\<close>

text \<open>The two ends share the group's passwords; their libraries work.\<close>

definition tcp_pair ::
  "(device_keypairs \<Rightarrow> bytes) \<Rightarrow> ('t \<Rightarrow> 't \<Rightarrow> bool) \<Rightarrow> ('s, 'b, 'h, 't) networker_context \<Rightarrow> connection \<Rightarrow>
   ('s, 'b, 'h, 't) networker_context \<Rightarrow> connection \<Rightarrow> bool" where
  "tcp_pair pub dir cx cn cx' cn' =
     (cx_libs cx' = cx_libs cx \<and> cx_gcm cx' = cx_gcm cx \<and> cx_data_hkdf cx' = cx_data_hkdf cx \<and>
      cx_code_hkdf cx' = cx_code_hkdf cx \<and> cx_keys cx' = cx_keys cx \<and>
      honest_setup (cx_libs cx) pub dir (cn_kex_random cn) (cn_kex_random cn') (cx_device cx) (cx_device cx')
        (cn_trusted cn) (cn_trusted cn') \<and>
      gcm_ok (cx_gcm cx) \<and> cn_dsa_random cn \<noteq> None \<and> cn_dsa_random cn' \<noteq> None \<and>
      \<not> cn_elapsed cn \<and> \<not> cn_elapsed cn')"

text \<open>The data layer of the sender: the key of this handshake and a nonce are there.\<close>

definition data_layer_ok :: "('s, 'b, 'h, 't) networker_context \<Rightarrow> connection \<Rightarrow> bool" where
  "data_layer_ok cx cn =
     ((\<exists>nonce. cn_nonce cn = Some nonce \<and> length nonce = 12) \<and>
      (\<forall>salt label. cx_data_hkdf cx salt (cx_d_key cx) label 32 \<noteq> None) \<and>
      (\<forall>k n d. gcm_encrypt (cx_gcm cx) k n [] d \<noteq> None))"

text \<open>What the receiver answers to a payload that decrypts, and what it hands on.\<close>

definition data_answer :: "clip_sink \<Rightarrow> action_type \<Rightarrow> trusted_peer \<Rightarrow> bytes \<Rightarrow> data_ack \<times> tcp_effect list \<times> bytes" where
  "data_answer sink action peer data =
     (if action = ClipboardSync then let (ack, es) = deliver_clip sink peer data in (ack, es, [])
      else if data = HELLO_PAYLOAD then (Applied, [], data)
      else (Ignored, [], data))"

lemma ack_from_byte [simp]: "ack_from_u8 (ack_byte ack) = Some ack"
  by (cases ack) (simp_all add: ack_from_u8_def)

lemma action_from_byte [simp]: "action_from_u8 (action_byte action) = Some action"
  by (cases action) (simp_all add: action_from_u8_def)

lemma answered_len_bound: "answered_len_ok action len \<Longrightarrow> len \<le> MAX_DATA_PACKET_LEN + DATA_LAYER_OVERHEAD"
  by (auto simp: answered_len_ok_def HELLO_PAYLOAD_def MAX_DATA_PACKET_LEN_def DATA_LAYER_OVERHEAD_def
      CLIP_MAX_WIRE_LEN_def CLIP_HEADER_LEN_def CLIP_MAX_LEN_def ascii_def split: action_type.splits)

text \<open>The header as the receiver reads it.\<close>

lemma init_header_read:
  assumes "len < 2 ^ 64"
  shows "length (init_header action len) = 9" "split_first (init_header action len) = Some (action_byte action, le_nat 8 len)"
    "to_array 8 (le_nat 8 len) = Some (le_nat 8 len)" "unat (u64_from_le (le_nat 8 len)) = len"
  using assms
  by (simp_all add: init_header_def split_first_def to_array_def u64_from_le_def nat_le_le_nat_id unat_of_nat)

section \<open>Data that is answered\<close>

text \<open>The sender after authentication, and what both ends return once the receiver has tried to
  decrypt.\<close>

definition send_rest ::
  "('s, 'b, 'h, 't) networker_context \<Rightarrow> connection \<Rightarrow> action_type \<Rightarrow> bytes \<Rightarrow> trusted_peer \<Rightarrow> 't secure_connection \<Rightarrow>
   ((tcp_error + trusted_peer \<times> data_ack) \<times> tcp_effect list) proc" where
  "send_rest cx cn action payload peer a =
     (let S = al_snow (cx_libs cx) in
      tcp_try TcpWriteFailed (send_secure S a (init_header action (length payload + DATA_LAYER_OVERHEAD)) Regular) (\<lambda>sc.
      tcp_try TcpWriteFailed
        (write_encrypted S (cx_gcm cx) (cx_data_hkdf cx) (cn_nonce cn) sc payload (cx_d_key cx) Regular) (\<lambda>sc.
      tcp_try TcpReadFailed (read_secure S sc 1) (\<lambda>(sc, answer).
      case (if length answer = 1 then ack_from_u8 (hd answer) else None) of
        None \<Rightarrow> Ret (Inl TcpReadFailed, [])
      | Some ack \<Rightarrow>
          Ret (Inr (peer, ack),
            [Book (if ack = DataKeyDiffers then SetState (x25519_pub_key peer) DataPasswordDiffers
                   else DataOk (x25519_pub_key peer))])))))"

definition sender_result :: "clip_sink \<Rightarrow> action_type \<Rightarrow> trusted_peer \<Rightarrow> trusted_peer \<Rightarrow> bytes option \<Rightarrow>
    (tcp_error + trusted_peer \<times> data_ack) \<times> tcp_effect list" where
  "sender_result sink action us them decrypted =
     (let ack = (case decrypted of None \<Rightarrow> DataKeyDiffers | Some d \<Rightarrow> fst (data_answer sink action us d))
      in (Inr (them, ack),
          [Book (if ack = DataKeyDiffers then SetState (x25519_pub_key them) DataPasswordDiffers
                 else DataOk (x25519_pub_key them))]))"

definition receiver_result :: "clip_sink \<Rightarrow> action_type \<Rightarrow> trusted_peer \<Rightarrow> bytes option \<Rightarrow>
    (tcp_error + received_packet option) \<times> tcp_effect list" where
  "receiver_result sink action us decrypted =
     (case decrypted of
        None \<Rightarrow> (Inl TcpDecryptFailed, [Book (SetState (x25519_pub_key us) DataPasswordDiffers)])
      | Some d \<Rightarrow>
          (Inr (Some \<lparr>rp_peer = us, rp_action = action, rp_data = snd (snd (data_answer sink action us d))\<rparr>),
           Book (DataOk (x25519_pub_key us)) # fst (snd (data_answer sink action us d))))"

lemma receive_answered_eq:
  assumes "answered_len_ok action len"
  shows "receive_answered cx sink b us action len =
    pbind (read_encrypted (al_snow (cx_libs cx)) (cx_gcm cx) (cx_data_hkdf cx) b len (cx_d_key cx) Regular) (\<lambda>(sc, r).
      case r of
        Inl e \<Rightarrow>
          if e = FailedToDecryptData then
            perform [Book (SetState (x25519_pub_key us) DataPasswordDiffers)]
              (tcp_try TcpWriteFailed (send_ack (al_snow (cx_libs cx)) sc DataKeyDiffers) (\<lambda>_. Ret (Inl TcpDecryptFailed, [])))
          else Ret (Inl TcpReadFailed, [])
      | Inr d \<Rightarrow>
          perform (Book (DataOk (x25519_pub_key us)) # fst (snd (data_answer sink action us d)))
            (tcp_try TcpWriteFailed (send_ack (al_snow (cx_libs cx)) sc (fst (data_answer sink action us d))) (\<lambda>_.
             Ret (Inr \<lparr>rp_peer = us, rp_action = action, rp_data = snd (snd (data_answer sink action us d))\<rparr>, []))))"
  using assms unfolding receive_answered_def Let_def data_answer_def
  by (auto simp: case_prod_beta intro!: arg_cong2 [where f = pbind] split: sum.splits)

text \<open>The receiver, from the header on: one read, one acknowledgement, one result.\<close>

definition receiver_ack :: "clip_sink \<Rightarrow> action_type \<Rightarrow> trusted_peer \<Rightarrow> auth_error + bytes \<Rightarrow> data_ack" where
  "receiver_ack sink action us r =
     (case r of Inl _ \<Rightarrow> DataKeyDiffers | Inr d \<Rightarrow> fst (data_answer sink action us d))"

lemma perform_Ret: "perform es (Ret (r, es')) = Ret (r, es @ es')"
  by (simp add: perform_def)

lemma perform_map: "perform es p = pbind p (\<lambda>x. Ret (map_prod id (\<lambda>es'. es @ es') x))"
  by (simp add: perform_def case_prod_unfold map_prod_def)

lemma tcp_bind_perform:
  "tcp_bind (perform es (tcp_try e p (\<lambda>x. Ret (r, [])))) f =
   pbind p (\<lambda>x. case x of Inl _ \<Rightarrow> Ret (Inl e, es) | Inr _ \<Rightarrow>
     (case r of Inl e \<Rightarrow> Ret (Inl e, es) | Inr y \<Rightarrow> perform es (f y)))"
  unfolding tcp_bind_def perform_def tcp_try_def
  by (auto simp: pbind_assoc intro!: arg_cong2 [where f = pbind] split: sum.splits)


definition received_of :: "auth_error + bytes \<Rightarrow> bytes option" where
  "received_of r = (case r of Inl _ \<Rightarrow> None | Inr d \<Rightarrow> Some d)"

lemma receiver_steps:
  assumes "answered_len_ok action len" "\<And>e. r = Inl e \<Longrightarrow> e = FailedToDecryptData"
  shows "tcp_bind (case r of
        Inl e \<Rightarrow>
          if e = FailedToDecryptData then
            perform [Book (SetState (x25519_pub_key us) DataPasswordDiffers)]
              (tcp_try TcpWriteFailed (send_ack S sc DataKeyDiffers) (\<lambda>_. Ret (Inl TcpDecryptFailed, [])))
          else Ret (Inl TcpReadFailed, [])
      | Inr d \<Rightarrow>
          perform (Book (DataOk (x25519_pub_key us)) # fst (snd (data_answer sink action us d)))
            (tcp_try TcpWriteFailed (send_ack S sc (fst (data_answer sink action us d))) (\<lambda>_.
             Ret (Inr \<lparr>rp_peer = us, rp_action = action, rp_data = snd (snd (data_answer sink action us d))\<rparr>, []))))
      (\<lambda>p. Ret (Inr (Some p), [])) =
    pbind (send_ack S sc (receiver_ack sink action us r)) (\<lambda>x. case x of
      Inl _ \<Rightarrow> Ret (Inl TcpWriteFailed, snd (receiver_result sink action us (received_of r)))
    | Inr _ \<Rightarrow> Ret (receiver_result sink action us (received_of r)))"
  using assms(2)
  by (auto simp: tcp_bind_perform receiver_ack_def receiver_result_def received_of_def perform_Ret
      intro!: arg_cong2 [where f = pbind] split: sum.splits)

lemma recv_answered_steps:
  assumes "answered_len_ok action len"
  shows "recv_action cx sink \<lparr>au_connection = sc0, au_peer = us, newly_paired = np\<rparr> b action len =
    pbind (read_encrypted (al_snow (cx_libs cx)) (cx_gcm cx) (cx_data_hkdf cx) b len (cx_d_key cx) Regular) (\<lambda>(sc, r).
      tcp_bind (case r of
        Inl e \<Rightarrow>
          if e = FailedToDecryptData then
            perform [Book (SetState (x25519_pub_key us) DataPasswordDiffers)]
              (tcp_try TcpWriteFailed (send_ack (al_snow (cx_libs cx)) sc DataKeyDiffers) (\<lambda>_. Ret (Inl TcpDecryptFailed, [])))
          else Ret (Inl TcpReadFailed, [])
      | Inr d \<Rightarrow>
          perform (Book (DataOk (x25519_pub_key us)) # fst (snd (data_answer sink action us d)))
            (tcp_try TcpWriteFailed (send_ack (al_snow (cx_libs cx)) sc (fst (data_answer sink action us d))) (\<lambda>_.
             Ret (Inr \<lparr>rp_peer = us, rp_action = action, rp_data = snd (snd (data_answer sink action us d))\<rparr>, []))))
      (\<lambda>p. Ret (Inr (Some p), [])))"
proof -
  have "action = Hello \<or> action = ClipboardSync"
    using assms by (auto simp: answered_len_ok_def split: action_type.splits)
  then show ?thesis
    unfolding recv_action_def Let_def by (simp add: receive_answered_eq [OF assms] tcp_bind_def case_prod_unfold)
qed

lemma dialogue_data:
  assumes "transport_ok (al_snow (cx_libs cx)) dir" "in_step dir a b" "gcm_ok (cx_gcm cx)"
    and "cx_libs cx' = cx_libs cx" "cx_gcm cx' = cx_gcm cx" "cx_data_hkdf cx' = cx_data_hkdf cx"
    and "cn_nonce cn = Some nonce" "length nonce = 12"
    and "data_key (cx_data_hkdf cx) a (cx_d_key cx) True = Inr k" "gcm_encrypt (cx_gcm cx) k nonce [] payload = Some c"
    and "data_key (cx_data_hkdf cx) b (cx_d_key cx') False = Inr k'"
    and "answered_len_ok action (length payload + DATA_LAYER_OVERHEAD)"
  shows "dialogue dir a b (send_rest cx cn action payload them a)
    (recv_packet cx' sink \<lparr>au_connection = b, au_peer = us, newly_paired = np\<rparr>)
    (\<lambda>_. sender_result sink action us them (gcm_decrypt (cx_gcm cx) k' nonce [] c))
    (\<lambda>_. receiver_result sink action us (gcm_decrypt (cx_gcm cx) k' nonce [] c))"
proof -
  let ?S = "al_snow (cx_libs cx)" and ?len = "length payload + DATA_LAYER_OVERHEAD"
  let ?dec = "gcm_decrypt (cx_gcm cx) k' nonce [] c"
  let ?r = "case ?dec of None \<Rightarrow> Inl FailedToDecryptData | Some d \<Rightarrow> Inr d"
  have bound: "?len \<le> MAX_DATA_PACKET_LEN + DATA_LAYER_OVERHEAD" by (rule answered_len_bound [OF assms(12)])
  then have len: "?len < 2 ^ 64" by (simp add: MAX_DATA_PACKET_LEN_def DATA_LAYER_OVERHEAD_def)
  note hdr = init_header_read [OF len]
  have max: "INIT_HEADER_LEN \<le> SECURE_MSG_MAX_PAYLOAD" by (simp add: INIT_HEADER_LEN_def SECURE_MSG_MAX_PAYLOAD_eq)
  have r: "received_of ?r = ?dec" by (simp add: received_of_def split: option.splits)
  have ack: "dialogue dir a b
      (tcp_try TcpReadFailed (read_secure ?S a 1) (\<lambda>(sc, answer).
        case (if length answer = 1 then ack_from_u8 (hd answer) else None) of
          None \<Rightarrow> Ret (Inl TcpReadFailed, [])
        | Some ack \<Rightarrow> Ret (Inr (them, ack),
            [Book (if ack = DataKeyDiffers then SetState (x25519_pub_key them) DataPasswordDiffers
                   else DataOk (x25519_pub_key them))])))
      (pbind (send_ack ?S b (receiver_ack sink action us ?r)) (\<lambda>x. case x of
        Inl _ \<Rightarrow> Ret (Inl TcpWriteFailed, snd (receiver_result sink action us ?dec))
      | Inr _ \<Rightarrow> Ret (receiver_result sink action us ?dec)))
      (\<lambda>_. sender_result sink action us them ?dec) (\<lambda>_. receiver_result sink action us ?dec)"
    if "in_step dir a b" for a b
    unfolding tcp_try_def
    by (rule dialogue_pbind [OF dialogue_send_ack [OF assms(1) that]])
       (auto intro!: dialogue_Ret simp: sender_result_def receiver_ack_def Let_def split: option.splits)
  have body: "dialogue dir a' b'
      (tcp_try TcpWriteFailed
        (write_encrypted ?S (cx_gcm cx) (cx_data_hkdf cx) (cn_nonce cn) a' payload (cx_d_key cx) Regular) (\<lambda>sc.
       tcp_try TcpReadFailed (read_secure ?S sc 1) (\<lambda>(sc, answer).
        case (if length answer = 1 then ack_from_u8 (hd answer) else None) of
          None \<Rightarrow> Ret (Inl TcpReadFailed, [])
        | Some ack \<Rightarrow> Ret (Inr (them, ack),
            [Book (if ack = DataKeyDiffers then SetState (x25519_pub_key them) DataPasswordDiffers
                   else DataOk (x25519_pub_key them))]))))
      (recv_action cx' sink \<lparr>au_connection = b, au_peer = us, newly_paired = np\<rparr> b' action ?len)
      (\<lambda>_. sender_result sink action us them ?dec) (\<lambda>_. receiver_result sink action us ?dec)"
    if s: "in_step dir a' b'" "same_peer a a'" "same_peer b b'" for a' b'
    unfolding tcp_try_def [of TcpWriteFailed "write_encrypted _ _ _ _ _ _ _ _"] recv_answered_steps [OF assms(12)] assms(4-7)
    apply (rule dialogue_pbind [OF dialogue_encrypted [OF assms(1) s(1) assms(3,8) _ assms(10)]])
      apply (simp add: data_key_same_peer [OF s(2)] assms(9))
     apply (simp add: data_key_same_peer [OF s(3)] assms(11))
    apply (simp only: prod.case sum.case)
    apply (subst receiver_steps [OF assms(12)])
     apply (simp split: option.splits)
    apply (unfold r)
    apply (erule ack)
    done
  show ?thesis
    unfolding send_rest_def recv_packet_def Let_def tcp_try_def [of TcpWriteFailed "send_secure _ _ _ _"] assms(4)
      authenticated.select_convs
    apply (rule dialogue_pbind [OF dialogue_read_secure [OF assms(1)]])
       apply (rule assms(2))
      apply (simp add: hdr(1) INIT_HEADER_LEN_def)
     apply (rule max)
    using body bound
    apply (simp add: hdr tcp_result_def)
    done
qed

section \<open>Whole connections\<close>

lemma data_key_exists:
  assumes "\<forall>salt label. hkdf salt d_key label 32 \<noteq> None"
  shows "\<exists>k. data_key hkdf a d_key s = Inr k"
proof -
  obtain k where "hkdf (Some (sc_hash a)) d_key (if s = is_initiator a then DATA_C2S else DATA_S2C) 32 = Some k"
    using assms by blast
  then show ?thesis by (simp add: data_key_def)
qed

text \<open>What the sender does with the result of authentication.\<close>

definition outgoing_step ::
  "socket_addr \<Rightarrow> (auth_error + 't authenticated option) \<times> trusted_peer list \<times> bool \<Rightarrow>
   ((tcp_error + 't authenticated) \<times> tcp_effect list) proc" where
  "outgoing_step ca = (\<lambda>(res, ps, woken). perform (saved_effect ps woken) (case res of
       Inl e \<Rightarrow>
         Ret (Inl (if e = FailedToConfirmMutualAuthSpake2 then TcpWrongPassword else TcpAuthFailed),
           (if e = FailedToConfirmMutualAuthSpake2 \<or> e = HandshakeTimeout then [GuessFailed (sa_ip ca)] else []) @
           (if e = FailedToConfirmMutualAuthSpake2 then [Book (WrongPasswordAt (sa_ip ca) True)] else []))
     | Inr None \<Rightarrow> Ret (Inl TcpWrongPassword, [GuessFailed (sa_ip ca), Book (WrongPasswordAt (sa_ip ca) True)])
     | Inr (Some au) \<Rightarrow>
         Ret (Inr au, [GuessPassed (sa_ip ca), Book (Seen (x25519_pub_key (au_peer au)) ca)])))"

lemma authenticate_outgoing_eq:
  "authenticate_outgoing cx cn False ca =
   pbind (auth_outgoing (cx_libs cx) (cn_kex_random cn) (cn_dsa_random cn) (cx_code_hkdf cx) (cn_name cn)
      (cx_keys cx) (cx_device cx) (cn_trusted cn) (cn_now_trusted cn) (cn_elapsed cn) (cn_user cn)) (outgoing_step ca)"
  by (simp add: authenticate_outgoing_def outgoing_step_def)

lemma tcp_bind_pbind: "tcp_bind (pbind p g) f = pbind p (\<lambda>x. tcp_bind (g x) f)"
  by (simp add: tcp_bind_def)

lemma send_answered_eq:
  assumes "answered_len_ok action (length payload + DATA_LAYER_OVERHEAD)"
  shows "send_answered cx cn lk ca action payload =
    tcp_bind (authenticate_outgoing cx (cn\<lparr>cn_user := QueueFull\<rparr>) lk ca) (\<lambda>au.
      if newly_paired au then Ret (Inl TcpAuthFailed, [])
      else send_rest cx cn action payload (au_peer au) (au_connection au))"
  unfolding send_answered_def send_rest_def Let_def by (simp only: assms simp_thms if_False)

text \<open>The two ends of an authenticated connection between paired devices, with their effects.\<close>

definition sync_effects :: "socket_addr \<Rightarrow> socket_addr \<Rightarrow> trusted_peer \<Rightarrow> tcp_effect list" where
  "sync_effects guessed seen_at p = [GuessPassed (sa_ip guessed), Book (Seen (x25519_pub_key p) seen_at)]"

definition sync_outcome ::
  "(device_keypairs \<Rightarrow> bytes) \<Rightarrow> ('s, 'b, 'h, 't) networker_context \<Rightarrow> connection \<Rightarrow>
   ('s, 'b, 'h, 't) networker_context \<Rightarrow> connection \<Rightarrow> socket_addr \<Rightarrow> socket_addr \<Rightarrow> clip_sink \<Rightarrow> action_type \<Rightarrow> bytes option \<Rightarrow>
   ((tcp_error + trusted_peer \<times> data_ack) \<times> tcp_effect list) \<times> ((tcp_error + received_packet option) \<times> tcp_effect list)" where
  "sync_outcome pub cx cn cx' cn' ca pa sink action decrypted =
     (let them = peer_of pub (cx_device cx') (cn_name cn) (cn_trusted cn);
          us = peer_of pub (cx_device cx) (cn_name cn') (cn_trusted cn')
      in (map_prod id (\<lambda>es. sync_effects ca ca them @ es) (sender_result sink action us them decrypted),
          map_prod id (\<lambda>es. sync_effects pa (pa\<lparr>sa_port := cx_peer_port cx'\<rparr>) us @ es) (receiver_result sink action us decrypted)))"

lemma talks_sync:
  assumes "tcp_pair pub dir cx cn cx' cn'" "data_layer_ok cx cn" "\<forall>salt label. cx_data_hkdf cx salt (cx_d_key cx') label 32 \<noteq> None"
    and "knows pub (cn_trusted cn) (cx_device cx')" "knows pub (cn_trusted cn') (cx_device cx)"
    and "answered_len_ok action (length payload + DATA_LAYER_OVERHEAD)"
  obtains a b k k' nonce c where "connected dir a b" "data_key (cx_data_hkdf cx) a (cx_d_key cx) True = Inr k"
    "data_key (cx_data_hkdf cx) b (cx_d_key cx') False = Inr k'" "gcm_encrypt (cx_gcm cx) k nonce [] payload = Some c"
    "talks (send_answered cx cn False ca action payload) (recv_handler cx' cn' False sink pa) [] []
      (fst (sync_outcome pub cx cn cx' cn' ca pa sink action (gcm_decrypt (cx_gcm cx) k' nonce [] c)))
      (snd (sync_outcome pub cx cn cx' cn' ca pa sink action (gcm_decrypt (cx_gcm cx) k' nonce [] c)))"
proof -
  define them us where "them = peer_of pub (cx_device cx') (cn_name cn) (cn_trusted cn)"
    and "us = peer_of pub (cx_device cx) (cn_name cn') (cn_trusted cn')"
  note pr = assms(1) [unfolded tcp_pair_def]
  obtain drc drs nonce where r: "cn_dsa_random cn = Some drc" "cn_dsa_random cn' = Some drs"
    and n: "cn_nonce cn = Some nonce" "length nonce = 12"
    using pr assms(2) unfolding data_layer_ok_def by blast
  have "honest_setup (cx_libs cx) pub dir (cn_kex_random cn) (cn_kex_random cn') (cx_device cx) (cx_device cx')
        (cn_trusted cn) (cn_trusted cn')" using pr by blast
  from talks_reconnect [OF this assms(4,5)]
  obtain a b where ab: "connected dir a b" and h:
    "talks (auth_outgoing (cx_libs cx) (cn_kex_random cn) (Some drc) (cx_code_hkdf cx) (cn_name cn) (cx_keys cx)
        (cx_device cx) (cn_trusted cn) (cn_now_trusted cn) False QueueFull)
      (auth_incoming (cx_libs cx) (cn_kex_random cn') (Some drs) (cx_code_hkdf cx) (cn_name cn') (cx_keys cx)
        (cx_device cx') (cn_trusted cn') (cn_now_trusted cn') False (cn_user cn')) [] []
      (Inr (Some \<lparr>au_connection = a, au_peer = them, newly_paired = False\<rparr>), cn_now_trusted cn, False)
      (Inr (Some \<lparr>au_connection = b, au_peer = us, newly_paired = False\<rparr>), cn_now_trusted cn', False)"
    unfolding them_def us_def by blast
  obtain k k' where k: "data_key (cx_data_hkdf cx) a (cx_d_key cx) True = Inr k"
    "data_key (cx_data_hkdf cx) b (cx_d_key cx') False = Inr k'"
    using data_key_exists [of "cx_data_hkdf cx" "cx_d_key cx" a True]
      data_key_exists [of "cx_data_hkdf cx" "cx_d_key cx'" b False] assms(2,3)
    unfolding data_layer_ok_def by blast
  obtain c where c: "gcm_encrypt (cx_gcm cx) k nonce [] payload = Some c"
    using assms(2) unfolding data_layer_ok_def by blast
  let ?dec = "gcm_decrypt (cx_gcm cx) k' nonce [] c"
  from pr ab dialogue_data [OF _ _ _ _ _ _ n k(1) c k(2) assms(6), where dir = dir and sink = sink and us = us and them = them and np = False]
  have d: "talks (send_rest cx cn action payload them a)
    (recv_packet cx' sink \<lparr>au_connection = b, au_peer = us, newly_paired = False\<rparr>) [] []
    (sender_result sink action us them ?dec) (receiver_result sink action us ?dec)"
    by (auto simp: dialogue_def honest_setup_def connected_def)
  have send: "send_answered cx cn False ca action payload =
    pbind (auth_outgoing (cx_libs cx) (cn_kex_random cn) (Some drc) (cx_code_hkdf cx) (cn_name cn) (cx_keys cx)
        (cx_device cx) (cn_trusted cn) (cn_now_trusted cn) False QueueFull)
      (\<lambda>x. tcp_bind (outgoing_step ca x) (\<lambda>au. if newly_paired au then Ret (Inl TcpAuthFailed, [])
          else send_rest cx cn action payload (au_peer au) (au_connection au)))"
    using pr r(1)
    by (simp add: send_answered_eq [OF assms(6)] authenticate_outgoing_eq tcp_bind_pbind)
  have "talks (send_answered cx cn False ca action payload) (recv_handler cx' cn' False sink pa) [] []
      (map_prod id (\<lambda>es. sync_effects ca ca them @ es) (sender_result sink action us them ?dec))
      (map_prod id (\<lambda>es. sync_effects pa (pa\<lparr>sa_port := cx_peer_port cx'\<rparr>) us @ es) (receiver_result sink action us ?dec))"
    unfolding send recv_handler_def if_False
    using pr r
    apply simp
    apply (rule talks_pbind [OF h])
    apply (simp add: outgoing_step_def saved_effect_def tcp_bind_def perform_map)
    apply (rule talks_pbind [OF d])
    apply (simp add: sync_effects_def map_prod_def case_prod_unfold talks_Ret)
    done
  with that [OF ab k c] show thesis
    by (simp add: sync_outcome_def Let_def them_def us_def)
qed

lemma talks_delivers:
  assumes "tcp_pair pub dir cx cn cx' cn'" "data_layer_ok cx cn" "cx_d_key cx' = cx_d_key cx"
    and "knows pub (cn_trusted cn) (cx_device cx')" "knows pub (cn_trusted cn') (cx_device cx)"
    and "answered_len_ok action (length payload + DATA_LAYER_OVERHEAD)"
  defines "them \<equiv> peer_of pub (cx_device cx') (cn_name cn) (cn_trusted cn)"
    and "us \<equiv> peer_of pub (cx_device cx) (cn_name cn') (cn_trusted cn')"
  shows "talks (send_answered cx cn False ca action payload) (recv_handler cx' cn' False sink pa) [] []
    (let (ack, delivered, kept) = data_answer sink action us payload
     in (Inr (them, ack),
        [GuessPassed (sa_ip ca), Book (Seen (x25519_pub_key them) ca),
         Book (if ack = DataKeyDiffers then SetState (x25519_pub_key them) DataPasswordDiffers
               else DataOk (x25519_pub_key them))]))
    (let (ack, delivered, kept) = data_answer sink action us payload
     in (Inr (Some \<lparr>rp_peer = us, rp_action = action, rp_data = kept\<rparr>),
        [GuessPassed (sa_ip pa), Book (Seen (x25519_pub_key us) (pa\<lparr>sa_port := cx_peer_port cx'\<rparr>)),
         Book (DataOk (x25519_pub_key us))] @ delivered))"
proof -
  have "\<forall>salt label. cx_data_hkdf cx salt (cx_d_key cx') label 32 \<noteq> None"
    using assms(2,3) by (simp add: data_layer_ok_def)
  from talks_sync [OF assms(1,2) this assms(4-6), of ca sink pa]
  obtain a b k k' nonce c where ab: "connected dir a b"
    and k: "data_key (cx_data_hkdf cx) a (cx_d_key cx) True = Inr k"
      "data_key (cx_data_hkdf cx) b (cx_d_key cx') False = Inr k'" "gcm_encrypt (cx_gcm cx) k nonce [] payload = Some c"
    and l: "talks (send_answered cx cn False ca action payload) (recv_handler cx' cn' False sink pa) [] []
      (fst (sync_outcome pub cx cn cx' cn' ca pa sink action (gcm_decrypt (cx_gcm cx) k' nonce [] c)))
      (snd (sync_outcome pub cx cn cx' cn' ca pa sink action (gcm_decrypt (cx_gcm cx) k' nonce [] c)))" .
  have "k' = k" using k(1,2) data_key_both_ends [of a b] ab assms(3) by (auto simp: connected_def)
  then have "gcm_decrypt (cx_gcm cx) k' nonce [] c = Some payload"
    using gcm_okD(1) [OF _ k(3)] assms(1) by (simp add: tcp_pair_def)
  moreover obtain ack es kept where "data_answer sink action us payload = (ack, es, kept)" by (metis prod_cases3)
  ultimately show ?thesis
    using l by (cases "ack = DataKeyDiffers")
      (simp_all add: sync_outcome_def sync_effects_def sender_result_def receiver_result_def Let_def them_def us_def)
qed

text \<open>
  Sync works end to end: when two honest paired devices share both passwords, a hello or a
  clipboard update within its size limit, sent over one new connection, is received complete and
  unchanged. Both handlers finish; the sender gets exactly the answer the receiver's daemon gave;
  both sides note that the other is reachable and that the data passwords agree; nothing
  is paired and no guess fails.
\<close>
theorem sync_delivers:
  assumes "tcp_pair pub dir cx cn cx' cn'" "data_layer_ok cx cn" "cx_d_key cx' = cx_d_key cx"
    and "knows pub (cn_trusted cn) (cx_device cx')" "knows pub (cn_trusted cn') (cx_device cx)"
    and "answered_len_ok action (length payload + DATA_LAYER_OVERHEAD)"
  shows "\<exists>fuel. link fuel (send_answered cx cn False ca action payload) (recv_handler cx' cn' False sink pa) [] [] =
    (let them = peer_of pub (cx_device cx') (cn_name cn) (cn_trusted cn);
         us = peer_of pub (cx_device cx) (cn_name cn') (cn_trusted cn');
         (ack, delivered, kept) = data_answer sink action us payload
     in Some
      ((Inr (them, ack),
        [GuessPassed (sa_ip ca), Book (Seen (x25519_pub_key them) ca),
         Book (if ack = DataKeyDiffers then SetState (x25519_pub_key them) DataPasswordDiffers
               else DataOk (x25519_pub_key them))]),
       (Inr (Some \<lparr>rp_peer = us, rp_action = action, rp_data = kept\<rparr>),
        [GuessPassed (sa_ip pa), Book (Seen (x25519_pub_key us) (pa\<lparr>sa_port := cx_peer_port cx'\<rparr>)),
         Book (DataOk (x25519_pub_key us))] @ delivered)))"
  using talks_link [OF talks_delivers [OF assms, of ca sink pa]] by (simp add: Let_def case_prod_unfold)

text \<open>Two data passwords whose keys the cipher tells apart.\<close>

definition keys_apart :: "hkdf_salted \<Rightarrow> gcm \<Rightarrow> bytes \<Rightarrow> bytes \<Rightarrow> bool" where
  "keys_apart hkdf G d d' =
     (\<forall>salt label. \<exists>k k'. hkdf salt d label 32 = Some k \<and> hkdf salt d' label 32 = Some k' \<and>
        (\<forall>n m c. gcm_encrypt G k n [] m = Some c \<longrightarrow> gcm_decrypt G k' n [] c = None))"

text \<open>
  Different data passwords are noticed by both ends and nothing is applied: the receiver
  delivers nothing, answers that the key differs, and reports \<open>DecryptFailed\<close>; the sender
  gets that answer; both peer books then show the device with ``data password differs''.
\<close>
theorem sync_password_differs:
  assumes "tcp_pair pub dir cx cn cx' cn'" "data_layer_ok cx cn"
    and "keys_apart (cx_data_hkdf cx) (cx_gcm cx) (cx_d_key cx) (cx_d_key cx')"
    and "knows pub (cn_trusted cn) (cx_device cx')" "knows pub (cn_trusted cn') (cx_device cx)"
    and "answered_len_ok action (length payload + DATA_LAYER_OVERHEAD)"
  shows "\<exists>fuel. link fuel (send_answered cx cn False ca action payload) (recv_handler cx' cn' False sink pa) [] [] =
    (let them = peer_of pub (cx_device cx') (cn_name cn) (cn_trusted cn);
         us = peer_of pub (cx_device cx) (cn_name cn') (cn_trusted cn')
     in Some
      ((Inr (them, DataKeyDiffers),
        [GuessPassed (sa_ip ca), Book (Seen (x25519_pub_key them) ca), Book (SetState (x25519_pub_key them) DataPasswordDiffers)]),
       (Inl TcpDecryptFailed,
        [GuessPassed (sa_ip pa), Book (Seen (x25519_pub_key us) (pa\<lparr>sa_port := cx_peer_port cx'\<rparr>)),
         Book (SetState (x25519_pub_key us) DataPasswordDiffers)])))"
proof -
  have "\<forall>salt label. cx_data_hkdf cx salt (cx_d_key cx') label 32 \<noteq> None"
    using assms(3) unfolding keys_apart_def by (metis option.distinct(1))
  from talks_sync [OF assms(1,2) this assms(4-6), of ca sink pa]
  obtain a b k k' nonce c where ab: "connected dir a b"
    and k: "data_key (cx_data_hkdf cx) a (cx_d_key cx) True = Inr k"
      "data_key (cx_data_hkdf cx) b (cx_d_key cx') False = Inr k'" "gcm_encrypt (cx_gcm cx) k nonce [] payload = Some c"
    and l: "talks (send_answered cx cn False ca action payload) (recv_handler cx' cn' False sink pa) [] []
      (fst (sync_outcome pub cx cn cx' cn' ca pa sink action (gcm_decrypt (cx_gcm cx) k' nonce [] c)))
      (snd (sync_outcome pub cx cn cx' cn' ca pa sink action (gcm_decrypt (cx_gcm cx) k' nonce [] c)))" .
  have "cx_data_hkdf cx (Some (sc_hash a)) (cx_d_key cx) DATA_C2S 32 = Some k"
    "cx_data_hkdf cx (Some (sc_hash a)) (cx_d_key cx') DATA_C2S 32 = Some k'"
    using k(1,2) ab by (auto simp: data_key_def connected_def)
  with assms(3) k(3) have "gcm_decrypt (cx_gcm cx) k' nonce [] c = None"
    unfolding keys_apart_def by (metis option.inject)
  with talks_link [OF l] show ?thesis
    by (simp add: sync_outcome_def sync_effects_def sender_result_def receiver_result_def Let_def case_prod_unfold)
qed

section \<open>Joining a group\<close>

lemma dialogue_chunked:
  assumes "transport_ok S dir" "in_step dir a b"
  shows "dialogue dir a b (read_chunked S a (length data) t) (write_chunked S b data t) (\<lambda>a. Inr (a, data)) (\<lambda>b. Inr b)"
  using talks_chunked [OF assms(1) in_step_sym [OF assms(2)], of data t "[]"]
  unfolding dialogue_def read_chunked_def by (metis append_Nil in_step_sym talks_sym)

definition join_rest ::
  "('b, 'h, 't) snow_lib \<Rightarrow> trusted_peer \<Rightarrow> 't secure_connection \<Rightarrow> ((tcp_error + trusted_peer \<times> bytes) \<times> tcp_effect list) proc" where
  "join_rest S them a =
     tcp_try TcpWriteFailed (send_secure S a (init_header GroupSalt 0) Regular) (\<lambda>sc.
     tcp_try TcpReadFailed (read_chunked S sc GROUP_SALT_LEN Regular) (\<lambda>(sc, received).
     if length received = GROUP_SALT_LEN then Ret (Inr (them, received), []) else Ret (Inl TcpReadFailed, [])))"

lemma join_handler_eq:
  "join_handler cx cn lk ca = tcp_bind (authenticate_outgoing cx cn lk ca) (\<lambda>au.
     if \<not> newly_paired au then Ret (Inl NotInvited, [])
     else join_rest (al_snow (cx_libs cx)) (au_peer au) (au_connection au))"
  unfolding join_handler_def join_rest_def Let_def by (rule refl)

text \<open>After both users accepted: the joining device asks for the data salt, the member gives it.\<close>

lemma dialogue_group_salt:
  assumes "transport_ok (al_snow (cx_libs cx)) dir" "in_step dir a b" "cx_libs cx' = cx_libs cx"
    and "cx_salt_offer cx' = Some d_salt" "length d_salt = GROUP_SALT_LEN"
  shows "dialogue dir a b
    (join_rest (al_snow (cx_libs cx)) them a)
    (recv_packet cx' sink \<lparr>au_connection = b, au_peer = us, newly_paired = True\<rparr>)
    (\<lambda>_. (Inr (them, d_salt), [])) (\<lambda>_. (Inr (Some \<lparr>rp_peer = us, rp_action = GroupSalt, rp_data = []\<rparr>), []))"
proof -
  let ?S = "al_snow (cx_libs cx)"
  have hdr: "length (init_header GroupSalt 0) = 9" "split_first (init_header GroupSalt 0) = Some (action_byte GroupSalt, le_nat 8 0)"
    "to_array 8 (le_nat 8 0) = Some (le_nat 8 0)" "unat (u64_from_le (le_nat 8 0)) = 0"
    by (rule init_header_read, simp)+
  have act: "recv_action cx' sink \<lparr>au_connection = b, au_peer = us, newly_paired = True\<rparr> b' GroupSalt 0 =
    pbind (write_chunked ?S b' d_salt Regular) (\<lambda>r. case r of Inl _ \<Rightarrow> Ret (Inl TcpWriteFailed, [])
        | Inr _ \<Rightarrow> Ret (Inr (Some \<lparr>rp_peer = us, rp_action = GroupSalt, rp_data = []\<rparr>), []))" for b'
    by (auto simp: recv_action_def send_group_salt_def assms(3,4) attempt_err_def
        intro!: arg_cong2 [where f = pbind] split: sum.splits)
  have max: "INIT_HEADER_LEN \<le> SECURE_MSG_MAX_PAYLOAD" by (simp add: INIT_HEADER_LEN_def SECURE_MSG_MAX_PAYLOAD_eq)
  have body: "dialogue dir a' b'
      (pbind (read_chunked ?S a' (length d_salt) Regular) (\<lambda>r. case r of Inl _ \<Rightarrow> Ret (Inl TcpReadFailed, []) | Inr (sc, received) \<Rightarrow>
        if length received = GROUP_SALT_LEN then Ret (Inr (them, received), []) else Ret (Inl TcpReadFailed, [])))
      (pbind (write_chunked ?S b' d_salt Regular) (\<lambda>r. case r of Inl _ \<Rightarrow> Ret (Inl TcpWriteFailed, [])
        | Inr _ \<Rightarrow> Ret (Inr (Some \<lparr>rp_peer = us, rp_action = GroupSalt, rp_data = []\<rparr>), [])))
      (\<lambda>_. (Inr (them, d_salt), [])) (\<lambda>_. (Inr (Some \<lparr>rp_peer = us, rp_action = GroupSalt, rp_data = []\<rparr>), []))"
    if "in_step dir a' b'" for a' b'
    by (rule dialogue_pbind [OF dialogue_chunked [OF assms(1) that]]) (simp add: assms(5) dialogue_Ret)
  show ?thesis
    unfolding join_rest_def recv_packet_def Let_def tcp_try_def [of TcpWriteFailed "send_secure _ _ _ _"] assms(3)
      authenticated.select_convs
    apply (rule dialogue_pbind [OF dialogue_read_secure [OF assms(1,2)]])
      apply (simp add: hdr(1) INIT_HEADER_LEN_def)
     apply (rule max)
    apply (simp add: hdr tcp_result_def tcp_try_def act del: action_byte.simps)
    apply (erule body [unfolded assms(5)])
    done
qed

lemma talks_join:
  assumes "tcp_pair pub dir cx cn cx' cn'" "code_hkdf_ok (cx_code_hkdf cx)"
    and "\<not> (knows pub (cn_trusted cn) (cx_device cx') \<and> knows pub (cn_trusted cn') (cx_device cx))"
    and "length (cn_now_trusted cn) < MAX_TRUSTED_PEERS" "length (cn_now_trusted cn') < MAX_TRUSTED_PEERS"
    and "cn_user cn = Decided True" "cn_user cn' = Decided True"
    and "cx_salt_offer cx' = Some d_salt" "length d_salt = GROUP_SALT_LEN"
  defines "them \<equiv> peer_of pub (cx_device cx') (cn_name cn) (cn_trusted cn)"
    and "us \<equiv> peer_of pub (cx_device cx) (cn_name cn') (cn_trusted cn')"
  shows "talks (join_handler cx cn False ca) (recv_handler cx' cn' False sink pa) [] []
      (Inr (them, d_salt),
        [TrustedNow (snd (save_peer (cn_now_trusted cn) them)), GuessPassed (sa_ip ca), Book (Seen (x25519_pub_key them) ca)])
      (Inr (Some \<lparr>rp_peer = us, rp_action = GroupSalt, rp_data = []\<rparr>),
        [TrustedNow (snd (save_peer (cn_now_trusted cn') us)), GuessPassed (sa_ip pa),
         Book (Seen (x25519_pub_key us) (pa\<lparr>sa_port := cx_peer_port cx'\<rparr>))])"
proof -
  note pr = assms(1) [unfolded tcp_pair_def]
  obtain drc drs where r: "cn_dsa_random cn = Some drc" "cn_dsa_random cn' = Some drs" using pr by blast
  have "honest_setup (cx_libs cx) pub dir (cn_kex_random cn) (cn_kex_random cn') (cx_device cx) (cx_device cx')
        (cn_trusted cn) (cn_trusted cn')" using pr by blast
  from talks_pairing [OF this assms(3,2,4,5)]
  obtain a b where ab: "connected dir a b" and h:
    "talks (auth_outgoing (cx_libs cx) (cn_kex_random cn) (Some drc) (cx_code_hkdf cx) (cn_name cn) (cx_keys cx)
        (cx_device cx) (cn_trusted cn) (cn_now_trusted cn) False (Decided True))
      (auth_incoming (cx_libs cx) (cn_kex_random cn') (Some drs) (cx_code_hkdf cx) (cn_name cn') (cx_keys cx)
        (cx_device cx') (cn_trusted cn') (cn_now_trusted cn') False (Decided True)) [] []
      (Inr (Some \<lparr>au_connection = a, au_peer = them, newly_paired = True\<rparr>), snd (save_peer (cn_now_trusted cn) them), True)
      (Inr (Some \<lparr>au_connection = b, au_peer = us, newly_paired = True\<rparr>), snd (save_peer (cn_now_trusted cn') us), True)"
    unfolding them_def us_def by blast
  from pr ab dialogue_group_salt [OF _ _ _ assms(8,9), of cx dir a b them sink us]
  have d: "talks (join_rest (al_snow (cx_libs cx)) them a)
    (recv_packet cx' sink \<lparr>au_connection = b, au_peer = us, newly_paired = True\<rparr>) [] []
    (Inr (them, d_salt), []) (Inr (Some \<lparr>rp_peer = us, rp_action = GroupSalt, rp_data = []\<rparr>), [])"
    by (auto simp: dialogue_def honest_setup_def connected_def)
  show ?thesis
    unfolding join_handler_eq recv_handler_def if_False authenticate_outgoing_eq tcp_bind_pbind
    using pr r assms(6,7)
    apply simp
    apply (rule talks_pbind [OF h])
    apply (simp add: outgoing_step_def saved_effect_def tcp_bind_def perform_map)
    apply (rule talks_pbind [OF d])
    apply (simp add: talks_Ret)
    done
qed

text \<open>
  Joining a group works end to end: a device that shares the auth password, connecting while a
  member offers its data salt, with both users accepting and room in both lists, receives exactly
  the salt of the group; each side saves the other with its real keys and both handlers finish.
\<close>
theorem join_receives_salt:
  assumes "tcp_pair pub dir cx cn cx' cn'" "code_hkdf_ok (cx_code_hkdf cx)"
    and "\<not> (knows pub (cn_trusted cn) (cx_device cx') \<and> knows pub (cn_trusted cn') (cx_device cx))"
    and "length (cn_now_trusted cn) < MAX_TRUSTED_PEERS" "length (cn_now_trusted cn') < MAX_TRUSTED_PEERS"
    and "cn_user cn = Decided True" "cn_user cn' = Decided True"
    and "cx_salt_offer cx' = Some d_salt" "length d_salt = GROUP_SALT_LEN"
  shows "\<exists>fuel. link fuel (join_handler cx cn False ca) (recv_handler cx' cn' False sink pa) [] [] =
    (let them = peer_of pub (cx_device cx') (cn_name cn) (cn_trusted cn);
         us = peer_of pub (cx_device cx) (cn_name cn') (cn_trusted cn')
     in Some
      ((Inr (them, d_salt),
        [TrustedNow (snd (save_peer (cn_now_trusted cn) them)), GuessPassed (sa_ip ca), Book (Seen (x25519_pub_key them) ca)]),
       (Inr (Some \<lparr>rp_peer = us, rp_action = GroupSalt, rp_data = []\<rparr>),
        [TrustedNow (snd (save_peer (cn_now_trusted cn') us)), GuessPassed (sa_ip pa),
         Book (Seen (x25519_pub_key us) (pa\<lparr>sa_port := cx_peer_port cx'\<rparr>))])))"
  using talks_link [OF talks_join [OF assms]] by (simp add: Let_def)

section \<open>Concrete runs\<close>

definition demo_cx :: "u8 \<Rightarrow> bytes \<Rightarrow> (bytes, bytes, bytes \<times> bytes option \<times> nat, unit) networker_context" where
  "demo_cx b d_key = \<lparr>cx_libs = demo_auth, cx_gcm = demo_gcm, cx_data_hkdf = demo_hkdf, cx_code_hkdf = sample_hkdf,
     cx_keys = demo_keys, cx_d_key = d_key, cx_device = demo_device b, cx_salt_offer = Some (replicate 32 8),
     cx_peer_port = TCP_PORT\<rparr>"

definition demo_cn :: "u8 \<Rightarrow> trusted_peer list \<Rightarrow> connection" where
  "demo_cn r trusted = \<lparr>cn_kex_random = demo_random r, cn_dsa_random = Some [], cn_nonce = Some (replicate 12 7),
     cn_name = [98], cn_trusted = trusted, cn_now_trusted = trusted, cn_elapsed = False, cn_user = Decided True\<rparr>"

definition demo_at :: "32 word \<Rightarrow> socket_addr" where
  "demo_at b = \<lparr>sa_ip = V4 b, sa_port = 40000\<rparr>"

lemma demo_known_setup: "no_impostor demo_pub (demo_known b) (demo_device b)" "knows demo_pub (demo_known b) (demo_device b)"
  by (simp_all add: no_impostor_def knows_def find_peer_def demo_known_def peer_of_def)

lemma demo_tcp_pair:
  "tcp_pair demo_pub demo_dir (demo_cx 1 d) (demo_cn 3 (demo_known 2)) (demo_cx 2 d') (demo_cn 4 (demo_known 1))"
  "tcp_pair demo_pub demo_dir (demo_cx 1 d) (demo_cn 3 []) (demo_cx 2 d') (demo_cn 4 [])"
  using demo_setup [OF demo_known_setup(1) demo_known_setup(1)] demo_strangers(1) demo_gcm_ok
  by (simp_all add: tcp_pair_def demo_cx_def demo_cn_def)

lemma demo_data_layer: "data_layer_ok (demo_cx b d) (demo_cn r trusted)"
  by (simp add: data_layer_ok_def demo_cx_def demo_cn_def demo_hkdf_def demo_gcm_def)

lemma demo_keys_apart: "keys_apart demo_hkdf demo_gcm [1] [2]"
  by (simp add: keys_apart_def demo_hkdf_def demo_gcm_def demo_tag_def fill_def replicate_eq_replicate sum_list_replicate)

lemma demo_lens: "answered_len_ok Hello (length HELLO_PAYLOAD + DATA_LAYER_OVERHEAD)"
  "answered_len_ok ClipboardSync (length (replicate 100 (7 :: u8)) + DATA_LAYER_OVERHEAD)"
  by (simp_all add: answered_len_ok_def CLIP_MIN_WIRE_LEN_def CLIP_MAX_WIRE_LEN_def CLIP_HEADER_LEN_def CLIP_MAX_LEN_def
      DATA_LAYER_OVERHEAD_def)

theorem sync_delivers_witness:
  "\<exists>fuel. link fuel (send_answered (demo_cx 1 [1]) (demo_cn 3 (demo_known 2)) False (demo_at 2) ClipboardSync (replicate 100 7))
      (recv_handler (demo_cx 2 [1]) (demo_cn 4 (demo_known 1)) False (ClipAnswered Applied) (demo_at 1)) [] [] =
    (let them = peer_of demo_pub (demo_device 2) [98] (demo_known 2);
         us = peer_of demo_pub (demo_device 1) [98] (demo_known 1)
     in Some
      ((Inr (them, Applied),
        [GuessPassed (V4 2), Book (Seen (x25519_pub_key them) (demo_at 2)), Book (DataOk (x25519_pub_key them))]),
       (Inr (Some \<lparr>rp_peer = us, rp_action = ClipboardSync, rp_data = []\<rparr>),
        [GuessPassed (V4 1), Book (Seen (x25519_pub_key us) (demo_at 1\<lparr>sa_port := TCP_PORT\<rparr>)),
         Book (DataOk (x25519_pub_key us)), Deliver us (replicate 100 7)])))"
  using sync_delivers [OF demo_tcp_pair(1) [of "[1]" "[1]"] demo_data_layer _ _ _ demo_lens(2),
      where ca = "demo_at 2" and pa = "demo_at 1" and sink = "ClipAnswered Applied"]
  by (simp add: demo_known_setup demo_cx_def demo_cn_def demo_at_def data_answer_def deliver_clip_def Let_def)

theorem sync_password_differs_witness:
  "\<exists>fuel. link fuel (send_answered (demo_cx 1 [1]) (demo_cn 3 (demo_known 2)) False (demo_at 2) Hello HELLO_PAYLOAD)
      (recv_handler (demo_cx 2 [2]) (demo_cn 4 (demo_known 1)) False NoSink (demo_at 1)) [] [] =
    (let them = peer_of demo_pub (demo_device 2) [98] (demo_known 2);
         us = peer_of demo_pub (demo_device 1) [98] (demo_known 1)
     in Some
      ((Inr (them, DataKeyDiffers),
        [GuessPassed (V4 2), Book (Seen (x25519_pub_key them) (demo_at 2)), Book (SetState (x25519_pub_key them) DataPasswordDiffers)]),
       (Inl TcpDecryptFailed,
        [GuessPassed (V4 1), Book (Seen (x25519_pub_key us) (demo_at 1\<lparr>sa_port := TCP_PORT\<rparr>)),
         Book (SetState (x25519_pub_key us) DataPasswordDiffers)])))"
  using sync_password_differs [OF demo_tcp_pair(1) [of "[1]" "[2]"] demo_data_layer _ _ _ demo_lens(1),
      where ca = "demo_at 2" and pa = "demo_at 1" and sink = NoSink] demo_keys_apart
  by (simp add: demo_known_setup demo_cx_def demo_cn_def demo_at_def Let_def)

theorem join_receives_salt_witness:
  "\<exists>fuel. link fuel (join_handler (demo_cx 1 [1]) (demo_cn 3 []) False (demo_at 2))
      (recv_handler (demo_cx 2 [2]) (demo_cn 4 []) False NoSink (demo_at 1)) [] [] =
    (let them = peer_of demo_pub (demo_device 2) [98] []; us = peer_of demo_pub (demo_device 1) [98] []
     in Some
      ((Inr (them, replicate 32 8),
        [TrustedNow [them], GuessPassed (V4 2), Book (Seen (x25519_pub_key them) (demo_at 2))]),
       (Inr (Some \<lparr>rp_peer = us, rp_action = GroupSalt, rp_data = []\<rparr>),
        [TrustedNow [us], GuessPassed (V4 1), Book (Seen (x25519_pub_key us) (demo_at 1\<lparr>sa_port := TCP_PORT\<rparr>))])))"
  using join_receives_salt [OF demo_tcp_pair(2) [of "[1]" "[2]"], where ca = "demo_at 2" and pa = "demo_at 1" and sink = NoSink
      and d_salt = "replicate 32 8"] demo_pairing_code
  by (simp add: knows_def find_peer_def demo_cx_def demo_cn_def demo_at_def Let_def MAX_TRUSTED_PEERS_def GROUP_SALT_LEN_def
      save_peer_def)

text \<open>Traces of the two handlers above.\<close>

lemma demo_join_trace:
  obtains tr where "run (recv_handler (demo_cx 2 [2]) (demo_cn 4 []) False NoSink (demo_at 1)) tr =
    Some (Inr (Some \<lparr>rp_peer = peer_of demo_pub (demo_device 1) [98] [], rp_action = GroupSalt, rp_data = []\<rparr>),
      [TrustedNow [peer_of demo_pub (demo_device 1) [98] []], GuessPassed (V4 1),
       Book (Seen (x25519_pub_key (peer_of demo_pub (demo_device 1) [98] [])) (demo_at 1\<lparr>sa_port := TCP_PORT\<rparr>))])"
  using talks_join [OF demo_tcp_pair(2) [of "[1]" "[2]"], where ca = "demo_at 2" and pa = "demo_at 1" and sink = NoSink
      and d_salt = "replicate 32 8", THEN talks_run] demo_pairing_code
  by (auto simp add: knows_def find_peer_def demo_cx_def demo_cn_def demo_at_def Let_def MAX_TRUSTED_PEERS_def GROUP_SALT_LEN_def
      save_peer_def simp del: run.simps)

lemma demo_sync_trace:
  obtains tr where "run (send_answered (demo_cx 1 [1]) (demo_cn 3 (demo_known 2)) False (demo_at 2) Hello HELLO_PAYLOAD) tr =
    Some (Inr (peer_of demo_pub (demo_device 2) [98] (demo_known 2), Applied),
      [GuessPassed (V4 2), Book (Seen (x25519_pub_key (peer_of demo_pub (demo_device 2) [98] (demo_known 2))) (demo_at 2)),
       Book (DataOk (x25519_pub_key (peer_of demo_pub (demo_device 2) [98] (demo_known 2))))])"
proof -
  have h: "\<forall>salt label. cx_data_hkdf (demo_cx 1 [1]) salt (cx_d_key (demo_cx 2 [1])) label 32 \<noteq> None"
    by (simp add: demo_cx_def demo_hkdf_def)
  have kn: "knows demo_pub (cn_trusted (demo_cn 3 (demo_known 2))) (cx_device (demo_cx 2 [1]))"
    "knows demo_pub (cn_trusted (demo_cn 4 (demo_known 1))) (cx_device (demo_cx 1 [1]))"
    by (simp_all add: demo_cx_def demo_cn_def demo_known_setup)
  from talks_sync [OF demo_tcp_pair(1) [of "[1]" "[1]"] demo_data_layer h kn demo_lens(1),
      where ca = "demo_at 2" and pa = "demo_at 1" and sink = NoSink]
  obtain a b k k' nonce c where ab: "connected demo_dir a b"
    and k: "data_key (cx_data_hkdf (demo_cx 1 [1])) a (cx_d_key (demo_cx 1 [1])) True = Inr k"
      "data_key (cx_data_hkdf (demo_cx 1 [1])) b (cx_d_key (demo_cx 2 [1])) False = Inr k'"
      "gcm_encrypt (cx_gcm (demo_cx 1 [1])) k nonce [] HELLO_PAYLOAD = Some c"
    and l: "talks (send_answered (demo_cx 1 [1]) (demo_cn 3 (demo_known 2)) False (demo_at 2) Hello HELLO_PAYLOAD)
      (recv_handler (demo_cx 2 [1]) (demo_cn 4 (demo_known 1)) False NoSink (demo_at 1)) [] []
      (fst (sync_outcome demo_pub (demo_cx 1 [1]) (demo_cn 3 (demo_known 2)) (demo_cx 2 [1]) (demo_cn 4 (demo_known 1))
        (demo_at 2) (demo_at 1) NoSink Hello (gcm_decrypt (cx_gcm (demo_cx 1 [1])) k' nonce [] c)))
      (snd (sync_outcome demo_pub (demo_cx 1 [1]) (demo_cn 3 (demo_known 2)) (demo_cx 2 [1]) (demo_cn 4 (demo_known 1))
        (demo_at 2) (demo_at 1) NoSink Hello (gcm_decrypt (cx_gcm (demo_cx 1 [1])) k' nonce [] c)))"
    .
  have "k' = k" using k(1,2) data_key_both_ends [of a b] ab by (auto simp: connected_def demo_cx_def)
  then have "gcm_decrypt (cx_gcm (demo_cx 1 [1])) k' nonce [] c = Some HELLO_PAYLOAD"
    using gcm_okD(1) [OF _ k(3)] demo_gcm_ok by (simp add: demo_cx_def)
  then show thesis
    using talks_run [OF l] that
    by (auto simp add: sync_outcome_def sync_effects_def sender_result_def data_answer_def Let_def demo_cx_def demo_cn_def demo_at_def
        simp del: run.simps)
qed

theorem recv_handler_guesses_witness:
  "\<exists>tr p es. run (recv_handler (demo_cx 2 [2]) (demo_cn 4 []) False NoSink (demo_at 1)) tr = Some (Inr (Some p), es) \<and>
    guesses es = [GuessPassed (sa_ip (demo_at 1))] \<and>
    (\<exists>h both. proven (al_dsa (cx_libs (demo_cx 2 [2]))) Server (cn_trusted (demo_cn 4 [])) (rp_peer p) h both)"
proof (rule demo_join_trace)
  fix tr
  let ?p = "\<lparr>rp_peer = peer_of demo_pub (demo_device 1) [98] [], rp_action = GroupSalt, rp_data = []\<rparr>"
  let ?es = "[TrustedNow [peer_of demo_pub (demo_device 1) [98] []], GuessPassed (V4 1),
       Book (Seen (x25519_pub_key (peer_of demo_pub (demo_device 1) [98] [])) (demo_at 1\<lparr>sa_port := TCP_PORT\<rparr>))]"
  assume tr: "run (recv_handler (demo_cx 2 [2]) (demo_cn 4 []) False NoSink (demo_at 1)) tr = Some (Inr (Some ?p), ?es)"
  from recv_handler_guesses [OF tr] tr show ?thesis by (intro exI [of _ tr] exI [of _ ?p] exI [of _ ?es]) simp
qed

theorem group_salt_only_by_invitation_witness:
  "\<exists>tr p es. run (recv_handler (demo_cx 2 [2]) (demo_cn 4 []) False NoSink (demo_at 1)) tr = Some (Inr (Some p), es) \<and>
    rp_action p = GroupSalt \<and>
    (cx_salt_offer (demo_cx 2 [2]) \<noteq> None \<and> cn_user (demo_cn 4 []) = Decided True \<and>
      (\<exists>peer ps h. TrustedNow ps \<in> set es \<and> save_peer (cn_now_trusted (demo_cn 4 [])) peer = (Inr (), ps) \<and>
        proven (al_dsa (cx_libs (demo_cx 2 [2]))) Server (cn_trusted (demo_cn 4 [])) peer h False) \<or>
     run (recv_handler (demo_cx 2 [2]\<lparr>cx_salt_offer := None\<rparr>) (demo_cn 4 []) False NoSink (demo_at 1)) tr =
       Some (Inr (Some p), es))"
proof (rule demo_join_trace)
  fix tr
  let ?p = "\<lparr>rp_peer = peer_of demo_pub (demo_device 1) [98] [], rp_action = GroupSalt, rp_data = []\<rparr>"
  let ?es = "[TrustedNow [peer_of demo_pub (demo_device 1) [98] []], GuessPassed (V4 1),
       Book (Seen (x25519_pub_key (peer_of demo_pub (demo_device 1) [98] [])) (demo_at 1\<lparr>sa_port := TCP_PORT\<rparr>))]"
  assume tr: "run (recv_handler (demo_cx 2 [2]) (demo_cn 4 []) False NoSink (demo_at 1)) tr = Some (Inr (Some ?p), ?es)"
  from group_salt_only_by_invitation [OF tr] tr show ?thesis
    by (intro exI [of _ tr] exI [of _ ?p] exI [of _ ?es]) (simp del: run.simps)
qed

theorem sync_never_pairs_witness:
  "\<exists>tr peer ack es. run (send_answered (demo_cx 1 [1]) (demo_cn 3 (demo_known 2)) False (demo_at 2) Hello HELLO_PAYLOAD) tr =
      Some (Inr (peer, ack), es) \<and> trusted_untouched es \<and>
    find_peer (cn_trusted (demo_cn 3 (demo_known 2))) (x25519_pub_key peer) = Some peer \<and>
    (\<exists>h sig. dsa_verify (al_dsa (cx_libs (demo_cx 1 [1]))) (mldsa_verification_key peer) h (peer_context Client) sig)"
proof (rule demo_sync_trace)
  fix tr
  let ?p = "peer_of demo_pub (demo_device 2) [98] (demo_known 2)"
  let ?es = "[GuessPassed (V4 2), Book (Seen (x25519_pub_key ?p) (demo_at 2)), Book (DataOk (x25519_pub_key ?p))]"
  assume tr: "run (send_answered (demo_cx 1 [1]) (demo_cn 3 (demo_known 2)) False (demo_at 2) Hello HELLO_PAYLOAD) tr =
    Some (Inr (?p, Applied), ?es)"
  from sync_never_pairs [OF tr] tr show ?thesis
    by (intro exI [of _ tr] exI [of _ ?p] exI [of _ Applied] exI [of _ ?es]) simp
qed

end
