(* ===== verification/Clip_Task.thy ===== *)
theory Clip_Task
  imports Clip_Sync
begin

text \<open>
  The clipboard task of the daemon (\<open>clipboard_task\<close>, \<open>read_clip\<close>, \<open>apply_clip\<close> and
  \<open>ClipWatch\<close> in \<open>cesa_conn_networker/src/daemon.rs\<close>) and the macOS clipboard
  (\<open>cesa_conn_system/src/clipboard.rs\<close>).

  What the pasteboard returns is an argument. The task is a step function on its state (own
  sequence number, ordering memory, watch); \<open>clip_reach\<close> puts it beside a clipboard that the user
  and the task both write.
\<close>

section \<open>The OS clipboard\<close>

type_synonym i64 = "64 word"

datatype clip_read = ClipText bytes | Concealed | TextTooLarge | NoText

definition CONCEALED_MARKERS :: "bytes list" where
  "CONCEALED_MARKERS = [ascii ''org.nspasteboard.ConcealedType'', ascii ''org.nspasteboard.TransientType'']"

text \<open>The types on the pasteboard and its text are what the framework returned.\<close>

definition read_text :: "bytes list option \<Rightarrow> bytes option \<Rightarrow> nat \<Rightarrow> clip_read" where
  "read_text types text max_len =
     (if (case types of Some ts \<Rightarrow> list_ex (\<lambda>kind. list_ex (\<lambda>marker. kind = marker) CONCEALED_MARKERS) ts
          | None \<Rightarrow> False) then Concealed
      else
        (case text of
           None \<Rightarrow> NoText
         | Some t \<Rightarrow>
             if length t = 0 then NoText
             else if max_len < length t then TextTooLarge
             else ClipText t))"

text \<open>\<open>clearContents\<close> returned \<open>count\<close>, then the string was set or refused.\<close>

definition write_text :: "i64 \<Rightarrow> bool \<Rightarrow> i64 option" where
  "write_text count was_set = (if was_set then Some count else None)"

section \<open>Watching the change counter\<close>

datatype clip_tick = Wait | SendNow

record clip_watch =
  last_count :: i64
  pending :: bool

definition watch_new :: "i64 \<Rightarrow> clip_watch" where
  "watch_new count = \<lparr>last_count = count, pending = False\<rparr>"

definition watch_tick :: "clip_watch \<Rightarrow> bool \<Rightarrow> i64 \<Rightarrow> bool \<Rightarrow> clip_tick \<times> clip_watch" where
  "watch_tick w on count busy =
     (if count \<noteq> last_count w then (Wait, w\<lparr>last_count := count, pending := on\<rparr>)
      else if \<not> on then (Wait, w\<lparr>pending := False\<rparr>)
      else if \<not> pending w \<or> busy then (Wait, w)
      else (SendNow, w\<lparr>pending := False\<rparr>))"

definition watch_written :: "clip_watch \<Rightarrow> i64 \<Rightarrow> clip_watch" where
  "watch_written w count = w\<lparr>last_count := count\<rparr>"

section \<open>The task\<close>

record clip_task =
  ct_epoch :: bytes
  ct_seq :: u64
  ct_order :: update_order
  ct_watch :: clip_watch

text \<open>Before the loop: the random epoch and the counter, either of which may fail.\<close>

definition task_start :: "bytes option \<Rightarrow> i64 option \<Rightarrow> clip_task option" where
  "task_start random count = do {
     epoch \<leftarrow> random;
     start \<leftarrow> count;
     Some \<lparr>ct_epoch = epoch, ct_seq = 0, ct_order = [], ct_watch = watch_new start\<rparr>
   }"

text \<open>\<open>None\<close> is a read that failed.\<close>

definition read_clip :: "clip_read option \<Rightarrow> clip_task \<Rightarrow> bytes option \<times> clip_task" where
  "read_clip content t =
     (case content of
        Some (ClipText txt) \<Rightarrow>
          let seq = saturating_add (ct_seq t) 1
          in (clip_encode (ct_epoch t) seq txt, t\<lparr>ct_seq := seq\<rparr>)
      | Some Concealed \<Rightarrow> (None, t)
      | Some TextTooLarge \<Rightarrow> (None, t)
      | Some NoText \<Rightarrow> (None, t)
      | None \<Rightarrow> (None, t))"

text \<open>The write is an argument: what the clipboard returned for the text.\<close>

definition apply_clip ::
  "bool \<Rightarrow> (bytes \<Rightarrow> i64 option) \<Rightarrow> trusted_peer \<Rightarrow> bytes \<Rightarrow> clip_task \<Rightarrow> data_ack \<times> clip_task" where
  "apply_clip on write peer payload t =
     (if \<not> on then (Ignored, t)
      else
        (case clip_decode payload of
           None \<Rightarrow> (Ignored, t)
         | Some message \<Rightarrow>
             (case order_accept (ct_order t) (x25519_pub_key peer) (clip_epoch message) (clip_seq message) of
                (False, order) \<Rightarrow> (Ignored, t\<lparr>ct_order := order\<rparr>)
              | (True, order) \<Rightarrow>
                  let t = t\<lparr>ct_order := order\<rparr>
                  in (case write (clip_text message) of
                        Some count \<Rightarrow> (Applied, t\<lparr>ct_watch := watch_written (ct_watch t) count\<rparr>)
                      | None \<Rightarrow> (Ignored, t)))))"

text \<open>One poll: the payload of the send round it starts, if any.\<close>

definition clip_poll :: "bool \<Rightarrow> i64 option \<Rightarrow> bool \<Rightarrow> clip_read option \<Rightarrow> clip_task \<Rightarrow> bytes option \<times> clip_task" where
  "clip_poll on count busy content t =
     (case count of
        None \<Rightarrow> (None, t)
      | Some count \<Rightarrow>
          (case watch_tick (ct_watch t) on count busy of
             (Wait, w) \<Rightarrow> (None, t\<lparr>ct_watch := w\<rparr>)
           | (SendNow, w) \<Rightarrow> read_clip content (t\<lparr>ct_watch := w\<rparr>)))"

section \<open>When a change is sent\<close>

text \<open>A poll: the switch, the counter, whether a round still runs.\<close>

type_synonym poll = "bool \<times> i64 \<times> bool"

fun watch_run :: "clip_watch \<Rightarrow> poll list \<Rightarrow> clip_watch" where
  "watch_run w [] = w"
| "watch_run w ((on, count, busy) # ps) = watch_run (snd (watch_tick w on count busy)) ps"

text \<open>What the polls before mean for the next one, newest first: a change is due if the newest polls
  all saw the counter \<open>c\<close> with the switch on and a round running, back to the poll that found it
  changed while the switch was on.\<close>

definition newest_count :: "i64 \<Rightarrow> poll list \<Rightarrow> i64" where
  "newest_count start ps = (case ps of [] \<Rightarrow> start | (_, count, _) # _ \<Rightarrow> count)"

fun change_due :: "i64 \<Rightarrow> i64 \<Rightarrow> poll list \<Rightarrow> bool" where
  "change_due start c [] = False"
| "change_due start c ((on, count, busy) # earlier) =
     (count = c \<and> on \<and> (newest_count start earlier \<noteq> c \<or> busy \<and> change_due start c earlier))"

lemma watch_run_append: "watch_run w (ps @ qs) = watch_run (watch_run w ps) qs"
  by (induction w ps rule: watch_run.induct) simp_all

lemma watch_run_rev:
  "last_count (watch_run (watch_new start) (rev ps)) = newest_count start ps \<and>
   (pending (watch_run (watch_new start) (rev ps)) \<longleftrightarrow> change_due start (newest_count start ps) ps)"
proof (induction ps)
  case Nil
  then show ?case by (simp add: watch_new_def newest_count_def)
next
  case (Cons p ps)
  obtain on c busy where p: "p = (on, c, busy)" by (cases p)
  define w where "w = watch_run (watch_new start) (rev ps)"
  have new: "newest_count start (p # ps) = c" by (simp add: newest_count_def p)
  have w: "last_count w = newest_count start ps" "pending w \<longleftrightarrow> change_due start (newest_count start ps) ps"
    using Cons.IH by (simp_all add: w_def)
  have run: "watch_run (watch_new start) (rev (p # ps)) = snd (watch_tick w on c busy)"
    by (simp add: watch_run_append w_def p)
  show ?case
    unfolding run new using w by (cases "c = newest_count start ps") (auto simp: p watch_tick_def)
qed

text \<open>
  When the watch sends, as long as only others write to the clipboard: whatever the polls showed, a
  poll starts a send if and only if the switch is on, no round is running, and the counter has
  held still since a change that was found while the switch was on, with the switch on and an
  earlier round running at every poll in between (so that it was not sent by one of them).
\<close>
theorem watch_sends_exactly:
  "fst (watch_tick (watch_run (watch_new start) (rev earlier)) on count busy) = SendNow \<longleftrightarrow>
   on \<and> \<not> busy \<and> count = newest_count start earlier \<and> change_due start count earlier"
  using watch_run_rev [of start earlier] by (auto simp: watch_tick_def)

section \<open>The task beside the clipboard\<close>

text \<open>The clipboard: its counter, what a read gives, whether that is an update the task wrote, and
  whether that update overwrote a copy of the user that was waiting to be sent.\<close>

record clip_world =
  cw_task :: clip_task
  cw_count :: i64
  cw_content :: clip_read
  cw_received :: bool
  cw_overwrote :: bool

text \<open>The counter changes whenever something is put on the clipboard.\<close>

inductive clip_reach :: "clip_world \<Rightarrow> bool" where
  start: "task_start (Some epoch) (Some count) = Some t \<Longrightarrow>
    clip_reach \<lparr>cw_task = t, cw_count = count, cw_content = content, cw_received = False, cw_overwrote = False\<rparr>"
| copied: "clip_reach w \<Longrightarrow> count \<noteq> cw_count w \<Longrightarrow>
    clip_reach (w\<lparr>cw_count := count, cw_content := content, cw_received := False, cw_overwrote := False\<rparr>)"
| polled: "clip_reach w \<Longrightarrow> clip_poll on (Some (cw_count w)) busy (Some (cw_content w)) (cw_task w) = (sent, t) \<Longrightarrow>
    clip_reach (w\<lparr>cw_task := t\<rparr>)"
| applied: "clip_reach w \<Longrightarrow> count \<noteq> cw_count w \<Longrightarrow>
    apply_clip on (\<lambda>_. Some count) peer payload (cw_task w) = (Applied, t) \<Longrightarrow> clip_decode payload = Some m \<Longrightarrow>
    clip_reach (w\<lparr>cw_task := t, cw_count := count, cw_content := ClipText (clip_text m), cw_received := True,
      cw_overwrote := pending (ct_watch (cw_task w))\<rparr>)"
| ignored: "clip_reach w \<Longrightarrow> apply_clip on (\<lambda>_. Some count) peer payload (cw_task w) = (Ignored, t) \<Longrightarrow>
    clip_reach (w\<lparr>cw_task := t\<rparr>)"
| refused: "clip_reach w \<Longrightarrow> count \<noteq> cw_count w \<Longrightarrow> apply_clip on (\<lambda>_. None) peer payload (cw_task w) = (ack, t) \<Longrightarrow>
    clip_reach (w\<lparr>cw_task := t, cw_count := count, cw_content := NoText, cw_received := False, cw_overwrote := False\<rparr>)"

text \<open>A received text is on the clipboard only with its counter taken as seen.\<close>

definition clip_inv :: "clip_world \<Rightarrow> bool" where
  "clip_inv w =
     (cw_received w \<longrightarrow> last_count (ct_watch (cw_task w)) = cw_count w \<and>
       (pending (ct_watch (cw_task w)) \<longrightarrow> cw_overwrote w))"

lemma clip_reach_inv: "clip_reach w \<Longrightarrow> clip_inv w"
proof (induction rule: clip_reach.induct)
  case (polled w on busy sent t)
  then show ?case
    by (auto simp: clip_inv_def clip_poll_def watch_tick_def read_clip_def Let_def
        split: if_splits clip_read.splits clip_tick.splits)
next
  case (applied w count on peer payload t m)
  then show ?case
    by (auto simp: clip_inv_def apply_clip_def watch_written_def Let_def split: if_splits prod.splits bool.splits)
next
  case (ignored w on count peer payload t)
  then show ?case
    by (auto simp: clip_inv_def apply_clip_def Let_def split: if_splits option.splits prod.splits bool.splits)
qed (auto simp: clip_inv_def)

text \<open>
  C38. No echo: in every state the task and the clipboard can reach, however copies, polls and updates
  from other devices interleave, a poll that sends, sends exactly the text on the clipboard under the
  next sequence number, with the switch on, and this text is not one the task received, unless
  the received text overwrote a copy of the user that was still waiting to be sent.
\<close>
theorem received_text_not_sent:
  assumes "clip_reach w" "clip_poll on (Some (cw_count w)) busy (Some (cw_content w)) (cw_task w) = (Some payload, t)"
  shows "on \<and> \<not> busy \<and> (cw_received w \<longrightarrow> cw_overwrote w) \<and>
    (\<exists>txt. cw_content w = ClipText txt \<and>
      clip_encode (ct_epoch (cw_task w)) (saturating_add (ct_seq (cw_task w)) 1) txt = Some payload) \<and>
    ct_seq t = saturating_add (ct_seq (cw_task w)) 1 \<and> \<not> pending (ct_watch t)"
  using clip_reach_inv [OF assms(1)] assms(2)
  by (auto simp: clip_inv_def clip_poll_def watch_tick_def read_clip_def Let_def
      split: if_splits clip_read.splits clip_tick.splits)

text \<open>A user copies, the task notices, and before the next poll an update arrives.\<close>

definition demo_task :: clip_task where
  "demo_task = \<lparr>ct_epoch = replicate 8 1, ct_seq = 0, ct_order = [], ct_watch = \<lparr>last_count = 5, pending = True\<rparr>\<rparr>"

definition demo_copied :: clip_world where
  "demo_copied = \<lparr>cw_task = demo_task, cw_count = 5, cw_content = ClipText [104], cw_received = False, cw_overwrote = False\<rparr>"

definition demo_sender :: trusted_peer where
  "demo_sender = \<lparr>x25519_pub_key = [9], mldsa_verification_key = [], peer_name = []\<rparr>"

definition demo_update :: bytes where
  "demo_update = clip_layout \<lparr>clip_epoch = replicate 8 2, clip_seq = 1, clip_text = [105]\<rparr>"

lemma demo_clip_decode:
  "clip_decode (clip_layout \<lparr>clip_epoch = replicate 8 b, clip_seq = s, clip_text = [105]\<rparr>) =
    Some \<lparr>clip_epoch = replicate 8 b, clip_seq = s, clip_text = [105]\<rparr>"
  by (rule clip.dec_enc) (simp add: clip_ok_def CLIP_MAX_LEN_def utf8_valid_def utf8_chars.simps)

lemma demo_update_decode: "clip_decode demo_update = Some \<lparr>clip_epoch = replicate 8 2, clip_seq = 1, clip_text = [105]\<rparr>"
  by (simp add: demo_update_def demo_clip_decode)

lemma demo_copied_reach: "clip_reach demo_copied"
proof -
  let ?t = "\<lparr>ct_epoch = replicate 8 1, ct_seq = 0, ct_order = [], ct_watch = watch_new 4\<rparr>"
  have "clip_reach \<lparr>cw_task = ?t, cw_count = 4, cw_content = NoText, cw_received = False, cw_overwrote = False\<rparr>"
    by (rule clip_reach.start [of "replicate 8 1"]) (simp add: task_start_def)
  from clip_reach.copied [OF this, of 5 "ClipText [104]"]
  have "clip_reach \<lparr>cw_task = ?t, cw_count = 5, cw_content = ClipText [104], cw_received = False, cw_overwrote = False\<rparr>"
    by simp
  from clip_reach.polled [OF this, of True False None demo_task] show ?thesis
    by (simp add: clip_poll_def watch_tick_def watch_new_def demo_task_def demo_copied_def)
qed

theorem received_text_not_sent_witness:
  "\<exists>payload t. clip_poll True (Some (cw_count demo_copied)) False (Some (cw_content demo_copied)) (cw_task demo_copied) = (Some payload, t) \<and>
    clip_encode (ct_epoch (cw_task demo_copied)) (saturating_add (ct_seq (cw_task demo_copied)) 1) [104] = Some payload \<and>
    \<not> pending (ct_watch t)"
proof -
  obtain payload t where p: "clip_poll True (Some (cw_count demo_copied)) False (Some (cw_content demo_copied)) (cw_task demo_copied) = (Some payload, t)"
    by (simp add: demo_copied_def clip_poll_def watch_tick_def demo_task_def read_clip_def clip_encode_layout CLIP_MAX_LEN_def
        Let_def)
  from received_text_not_sent [OF demo_copied_reach p] p show ?thesis
    by (intro exI [of _ payload] exI [of _ t]) (auto simp: demo_copied_def)
qed

text \<open>
  C39. The exception is real: in any reachable state with a copy of the user waiting to be sent, let any
  update of another device be applied. It overwrites the copy, and the next poll with the switch on
  and no round running sends the received text back to the devices, as a message of this device
  under its next sequence number.
\<close>
theorem overwritten_copy_echoes:
  assumes "clip_reach w" "pending (ct_watch (cw_task w))" "length (ct_epoch (cw_task w)) = 8" "count \<noteq> cw_count w"
    and "apply_clip on (\<lambda>_. Some count) peer payload (cw_task w) = (Applied, t)" "clip_decode payload = Some m"
  shows "let w' = w\<lparr>cw_task := t, cw_count := count, cw_content := ClipText (clip_text m), cw_received := True, cw_overwrote := True\<rparr>
    in clip_reach w' \<and>
      (\<exists>sent t'. clip_poll True (Some (cw_count w')) False (Some (cw_content w')) (cw_task w') = (Some sent, t') \<and>
        clip_decode sent = Some \<lparr>clip_epoch = ct_epoch (cw_task w), clip_seq = saturating_add (ct_seq (cw_task w)) 1,
          clip_text = clip_text m\<rparr>)"
proof -
  let ?m = "\<lparr>clip_epoch = ct_epoch (cw_task w), clip_seq = saturating_add (ct_seq (cw_task w)) 1, clip_text = clip_text m\<rparr>"
  have t: "ct_epoch t = ct_epoch (cw_task w)" "ct_seq t = ct_seq (cw_task w)" "ct_watch t = \<lparr>last_count = count, pending = True\<rparr>"
    using assms(2,5,6) by (auto simp: apply_clip_def watch_written_def Let_def split: if_splits prod.splits bool.splits)
  have "clip_ok m" using clip.dec_eq_Some_iff [of payload m] assms(6) by simp
  then have ok: "clip_ok ?m" using assms(3) by (simp add: clip_ok_def)
  then have "clip_encode (clip_epoch ?m) (clip_seq ?m) (clip_text ?m) = Some (clip_layout ?m)"
    by (simp add: clip_encode_layout clip_ok_def)
  then have "clip_poll True (Some count) False (Some (ClipText (clip_text m))) t =
      (Some (clip_layout ?m), t\<lparr>ct_seq := clip_seq ?m, ct_watch := \<lparr>last_count = count, pending = False\<rparr>\<rparr>)"
    by (simp add: clip_poll_def watch_tick_def read_clip_def t Let_def)
  moreover note clip.dec_enc [OF ok] clip_reach.applied [OF assms(1,4,5,6)]
  ultimately show ?thesis using assms(2) by (simp add: Let_def)
qed

theorem overwritten_copy_echoes_witness:
  "\<exists>t sent t'. apply_clip True (\<lambda>_. Some 6) demo_sender demo_update demo_task = (Applied, t) \<and>
    clip_poll True (Some 6) False (Some (ClipText [105])) t = (Some sent, t') \<and>
    clip_decode sent = Some \<lparr>clip_epoch = replicate 8 1, clip_seq = saturating_add 0 1, clip_text = [105]\<rparr>"
proof -
  have "\<exists>t. apply_clip True (\<lambda>_. Some 6) demo_sender demo_update (cw_task demo_copied) = (Applied, t)"
    by (simp add: apply_clip_def demo_update_decode demo_copied_def demo_task_def order_accept_def)
  then obtain t where t: "apply_clip True (\<lambda>_. Some 6) demo_sender demo_update (cw_task demo_copied) = (Applied, t)" by blast
  have "pending (ct_watch (cw_task demo_copied))" "length (ct_epoch (cw_task demo_copied)) = 8" "6 \<noteq> cw_count demo_copied"
    by (simp_all add: demo_copied_def demo_task_def)
  from overwritten_copy_echoes [OF demo_copied_reach this t demo_update_decode] t show ?thesis
    by (auto simp: demo_copied_def demo_task_def Let_def)
qed

end
