(* ===== verification/Daemon_Config.thy ===== *)
theory Daemon_Config
  imports Vault Peer_Book Salt_Service Udp_Networker
begin

text \<open>
  The pure parts of the daemon (\<open>cesa_conn_networker/src/daemon.rs\<close>): the saved settings, the
  delay after wrong unlock passwords, password lengths, error mapping, and what the invite window
  does with a device it found.
\<close>

unbundle bit_operations_syntax

section \<open>Settings\<close>

definition CONFIG_VERSION_1 :: u8 where "CONFIG_VERSION_1 = 0x01"
definition CONFIG_VERSION :: u8 where "CONFIG_VERSION = 0x02"
definition CONFIG_SYNC :: u8 where "CONFIG_SYNC = 0x01"
definition CONFIG_CLIPBOARD :: u8 where "CONFIG_CLIPBOARD = 0x02"
definition CONFIG_FLAGS :: u8 where "CONFIG_FLAGS = CONFIG_SYNC OR CONFIG_CLIPBOARD"

record config =
  cfg_sync :: bool
  cfg_clipboard :: bool

definition config_default :: config where
  "config_default = \<lparr>cfg_sync = False, cfg_clipboard = False\<rparr>"

definition config_encode :: "config \<Rightarrow> bytes \<Rightarrow> bytes" where
  "config_encode c addresses =
     (let flags = (if cfg_sync c then CONFIG_SYNC else 0) OR (if cfg_clipboard c then CONFIG_CLIPBOARD else 0)
      in CONFIG_VERSION # flags # addresses)"

definition config_decode :: "bytes \<Rightarrow> (config \<times> (bytes \<times> socket_addr) list) option" where
  "config_decode bs =
     (case bs of
        [] \<Rightarrow> Some (config_default, [])
      | [_] \<Rightarrow> None
      | version # flags # addresses \<Rightarrow>
          if version = CONFIG_VERSION_1 \<and> addresses = [] \<and> flags AND NOT CONFIG_SYNC = 0 then
            Some (\<lparr>cfg_sync = flags AND CONFIG_SYNC \<noteq> 0, cfg_clipboard = False\<rparr>, [])
          else if version = CONFIG_VERSION \<and> flags AND NOT CONFIG_FLAGS = 0 then
            map_option (Pair \<lparr>cfg_sync = flags AND CONFIG_SYNC \<noteq> 0, cfg_clipboard = flags AND CONFIG_CLIPBOARD \<noteq> 0\<rparr>)
              (book_decode addresses)
          else None)"

section \<open>Unlock guessing\<close>

definition FREE_UNLOCK_ATTEMPTS :: u32 where "FREE_UNLOCK_ATTEMPTS = 5"
definition MAX_UNLOCK_DELAY :: u64 where "MAX_UNLOCK_DELAY = 60"

definition unlock_delay :: "u32 \<Rightarrow> duration" where
  "unlock_delay n =
     (let over = saturating_sub n FREE_UNLOCK_ATTEMPTS
      in if n < FREE_UNLOCK_ATTEMPTS then 0
         else
           let secs = min (case checked_shl 1 over of None \<Rightarrow> - 1 | Some s \<Rightarrow> s) MAX_UNLOCK_DELAY
           in from_secs (unat secs))"

definition wait_secs :: "instant option \<Rightarrow> instant \<Rightarrow> u16" where
  "wait_secs not_before now =
     (let left = (case not_before of None \<Rightarrow> 0 | Some t \<Rightarrow> saturating_duration_since t now);
          secs = min (as_secs left + (if 0 < subsec_nanos left then 1 else 0)) (2 ^ 64 - 1)
      in case u16_try_from secs of None \<Rightarrow> - 1 | Some s \<Rightarrow> s)"

section \<open>Helpers\<close>

datatype key_kind = AuthKind | DataKind

definition password_chars :: "bytes \<Rightarrow> nat" where
  "password_chars pw = (case utf8_chars pw of None \<Rightarrow> length pw | Some cs \<Rightarrow> length cs)"

definition storage_error :: "vault_error \<Rightarrow> daemon_error" where
  "storage_error e = (if e = WrongKey then WrongPassword else StorageFailed)"

definition peer_fingerprint :: "trusted_peer \<Rightarrow> bytes" where
  "peer_fingerprint p = take 8 (x25519_pub_key p @ replicate 8 0)"

section \<open>Devices found by the invite window\<close>

definition MAX_TRIED_PER_WINDOW :: nat where "MAX_TRIED_PER_WINDOW = 16"

datatype group_check = SameGroup | DifferentGroup | UnknownGroup

datatype found_action = ConnectNow | TheyConnect | OtherGroup

text \<open>The result of the salt query is an argument (see \<open>Salt_Service\<close>).\<close>

definition check_group :: "bytes \<Rightarrow> salt_error + bytes \<Rightarrow> group_check" where
  "check_group own_a_salt reply =
     (case reply of
        Inr theirs \<Rightarrow> if theirs = own_a_salt then SameGroup else DifferentGroup
      | Inl _ \<Rightarrow> UnknownGroup)"

text \<open>The derived order of \<open>InstanceId\<close>.\<close>

definition id_less :: "instance_id \<Rightarrow> instance_id \<Rightarrow> bool" where
  "id_less a b = ord_class.lexordp a b"

definition on_found :: "bytes \<Rightarrow> salt_error + bytes \<Rightarrow> instance_id \<Rightarrow> instance_id \<Rightarrow> bool \<Rightarrow> found_action \<times> bool" where
  "on_found own_a_salt reply own_id their_id other_group =
     (if check_group own_a_salt reply = DifferentGroup then (OtherGroup, True)
      else if id_less own_id their_id then (ConnectNow, other_group)
      else (TheyConnect, other_group))"

text \<open>The loop over the devices of one search: the addresses tried so far, and those to handle now.\<close>

fun take_found ::
  "ip_addr list \<Rightarrow> (socket_addr \<times> instance_id) list \<Rightarrow> ip_addr list \<times> (ip_addr \<times> instance_id) list" where
  "take_found tried [] = (tried, [])"
| "take_found tried ((a, their_id) # found) =
     (if sa_ip a \<in> set tried \<or> MAX_TRIED_PER_WINDOW \<le> length tried then take_found tried found
      else
        let (tried', now) = take_found (tried @ [sa_ip a]) found
        in (tried', (sa_ip a, their_id) # now))"

text \<open>The rounds of one window.\<close>

fun search_rounds ::
  "ip_addr list \<Rightarrow> (socket_addr \<times> instance_id) list list \<Rightarrow> (ip_addr \<times> instance_id) list" where
  "search_rounds tried [] = []"
| "search_rounds tried (found # rounds) =
     (let (tried', now) = take_found tried found in now @ search_rounds tried' rounds)"

section \<open>Lemmas\<close>

lemma and_flag: "(f :: 'a::len word) AND push_bit k 1 = (if bit f k then push_bit k 1 else 0)"
  by (rule bit_eqI) (auto simp: bit_simps)

lemma and_not_0: "f AND NOT m = 0 \<longleftrightarrow> f = f AND (m :: 'a::len word)"
  by (auto simp: bit_eq_iff bit_simps)

lemma and_config_flag:
  "f AND CONFIG_SYNC = (if bit f 0 then CONFIG_SYNC else 0)" "f AND CONFIG_CLIPBOARD = (if bit f 1 then CONFIG_CLIPBOARD else 0)"
  using and_flag [of f 0] and_flag [of f 1] by (simp_all add: CONFIG_SYNC_def CONFIG_CLIPBOARD_def)

lemma config_flags_exact:
  "f AND NOT CONFIG_FLAGS = 0 \<longleftrightarrow> f = (if bit f 0 then CONFIG_SYNC else 0) OR (if bit f 1 then CONFIG_CLIPBOARD else 0)"
  unfolding and_not_0 CONFIG_FLAGS_def bit.conj_disj_distrib and_config_flag ..

lemma config_flag_values:
  "bit CONFIG_SYNC 0" "\<not> bit CONFIG_SYNC (Suc 0)" "\<not> bit CONFIG_CLIPBOARD 0" "bit CONFIG_CLIPBOARD (Suc 0)"
  "CONFIG_SYNC \<noteq> 0" "CONFIG_CLIPBOARD \<noteq> 0" "CONFIG_VERSION \<noteq> CONFIG_VERSION_1"
  by (simp_all add: CONFIG_SYNC_def CONFIG_CLIPBOARD_def CONFIG_VERSION_def CONFIG_VERSION_1_def)

lemma config_decode_encode:
  "saved_ok recs \<Longrightarrow> config_decode (config_encode c (encode_saved recs)) = Some (c, recs)"
  by (cases c) (auto simp: config_decode_def config_encode_def Let_def config_flags_exact and_config_flag config_flag_values
      bit_or_iff saved_codec.dec_enc)

lemma config_decode_v2:
  assumes "config_decode (CONFIG_VERSION # flags # addresses) = Some (c, recs)"
  shows "saved_ok recs \<and> CONFIG_VERSION # flags # addresses = config_encode c (encode_saved recs)"
proof -
  have f: "flags AND NOT CONFIG_FLAGS = 0" and r: "book_decode addresses = Some recs"
    and c: "c = \<lparr>cfg_sync = flags AND CONFIG_SYNC \<noteq> 0, cfg_clipboard = flags AND CONFIG_CLIPBOARD \<noteq> 0\<rparr>"
    using assms by (auto simp: config_decode_def config_flag_values split: if_splits)
  have bits: "cfg_sync c = bit flags 0" "cfg_clipboard c = bit flags 1"
    unfolding c and_config_flag by (simp_all add: config_flag_values)
  have "flags = (if cfg_sync c then CONFIG_SYNC else 0) OR (if cfg_clipboard c then CONFIG_CLIPBOARD else 0)"
    using f [unfolded config_flags_exact] bits by (simp only:)
  with saved_codec.enc_dec [OF r] show ?thesis by (simp add: config_encode_def Let_def)
qed

text \<open>
  The saved settings: what this version writes is read back exactly, switches and addresses;
  the decoder accepts beyond that only an empty entry (all off) and the two forms of
  version 1, and never two encodings of the current version for the same settings.
\<close>
theorem config_codec:
  "config_decode bs = Some (c, recs) \<longleftrightarrow>
   saved_ok recs \<and> bs = config_encode c (encode_saved recs) \<or>
   recs = [] \<and> \<not> cfg_clipboard c \<and>
     (bs = [] \<and> \<not> cfg_sync c \<or> bs = [CONFIG_VERSION_1, if cfg_sync c then CONFIG_SYNC else 0])"
  (is "_ \<longleftrightarrow> ?v2 \<or> ?old")
proof (cases "\<exists>flags addresses. bs = CONFIG_VERSION # flags # addresses")
  case True
  then obtain flags addresses where bs: "bs = CONFIG_VERSION # flags # addresses" by blast
  have "\<not> ?old" unfolding bs using config_flag_values by auto
  with config_decode_v2 [of flags addresses c recs] config_decode_encode [of recs c] show ?thesis unfolding bs by auto
next
  case False
  then have "\<not> ?v2" by (auto simp: config_encode_def Let_def)
  moreover have "config_decode bs = Some (c, recs) \<longleftrightarrow> ?old"
    using False
    by (cases c) (auto simp: config_decode_def config_default_def and_not_0 and_config_flag config_flag_values
        split: list.splits if_splits)
  ultimately show ?thesis by blast
qed

lemma unlock_delay_eq:
  "unlock_delay n = from_secs (if unat n < 5 then 0 else min (2 ^ (unat n - 5)) 60)"
proof (cases "unat n < 5")
  case True
  then show ?thesis by (simp add: unlock_delay_def FREE_UNLOCK_ATTEMPTS_def word_less_nat_alt from_secs_def)
next
  case False
  let ?over = "saturating_sub n FREE_UNLOCK_ATTEMPTS"
  have o: "unat ?over = unat n - 5" by (simp add: unat_saturating_sub FREE_UNLOCK_ATTEMPTS_def)
  have "unat (min (case checked_shl 1 ?over of None \<Rightarrow> - 1 | Some s \<Rightarrow> s) MAX_UNLOCK_DELAY) = min (2 ^ (unat n - 5)) 60"
  proof (cases "unat n - 5 < 64")
    case True
    then have "unat (push_bit (unat n - 5) 1 :: u64) = 2 ^ (unat n - 5)" by (intro unat_one_shl) simp
    with True o show ?thesis
      by (simp add: checked_shl_def MAX_UNLOCK_DELAY_def min_def word_le_nat_alt)
  next
    case False
    have "(60 :: nat) \<le> 2 ^ 64" by simp
    also have "\<dots> \<le> 2 ^ (unat n - 5)" using False by (intro power_increasing) auto
    finally show ?thesis
      using False o by (simp add: checked_shl_def MAX_UNLOCK_DELAY_def min_def word_le_nat_alt unat_max_word)
  qed
  with False show ?thesis
    by (simp add: unlock_delay_def FREE_UNLOCK_ATTEMPTS_def word_less_nat_alt Let_def)
qed

lemma saturated_u16_0: "(case u16_try_from s of None \<Rightarrow> - 1 | Some w \<Rightarrow> w) = 0 \<longleftrightarrow> s = 0"
proof (cases "s < 65536")
  case True
  then have "unat (word_of_nat s :: u16) = s" by (simp add: unat_word_of_nat_u16)
  then show ?thesis using True by (auto simp: u16_try_from_def)
qed (simp add: u16_try_from_def)

lemma wait_secs_0: "wait_secs not_before now = 0 \<longleftrightarrow> (case not_before of None \<Rightarrow> True | Some t \<Rightarrow> t \<le> now)"
proof -
  have "min (as_secs d + (if 0 < subsec_nanos d then 1 else 0)) (2 ^ 64 - 1) = 0 \<longleftrightarrow> d = 0" for d
    by (auto simp: as_secs_def subsec_nanos_def min_def dvd_def)
  then show ?thesis
    unfolding wait_secs_def Let_def saturated_u16_0 by (auto simp: saturating_duration_since_def split: option.splits)
qed

text \<open>
  Of two devices that find each other in their invite windows, exactly one connects, unless one of
  them learns that the other is of another group: then it does not connect and tells its user.
\<close>
theorem one_side_connects:
  assumes "length a = length b" "a \<noteq> b"
  shows "(fst (on_found sa ra a b fa) = OtherGroup \<longleftrightarrow> (\<exists>s. ra = Inr s \<and> s \<noteq> sa)) \<and>
    (fst (on_found sa ra a b fa) \<noteq> OtherGroup \<longrightarrow> fst (on_found sb rb b a fb) \<noteq> OtherGroup \<longrightarrow>
      (fst (on_found sa ra a b fa) = ConnectNow) = (fst (on_found sb rb b a fb) = TheyConnect)) \<and>
    (snd (on_found sa ra a b fa) \<longleftrightarrow> fa \<or> fst (on_found sa ra a b fa) = OtherGroup)"
proof -
  have "id_less a b \<longleftrightarrow> \<not> id_less b a"
    using assms(2) lexordp_linear [of a b] lexordp_antisym [of a b] by (auto simp: id_less_def)
  then show ?thesis by (auto simp: on_found_def check_group_def split: sum.splits)
qed

lemma take_found_spec:
  assumes "take_found tried found = (tried', now)" "distinct tried"
  shows "tried' = tried @ map fst now \<and> distinct tried' \<and>
    length tried' \<le> max (length tried) MAX_TRIED_PER_WINDOW \<and> set now \<subseteq> (\<lambda>(a, i). (sa_ip a, i)) ` set found"
  using assms
proof (induction tried found arbitrary: tried' now rule: take_found.induct)
  case (2 tried a their_id found)
  show ?case
  proof (cases "sa_ip a \<in> set tried \<or> MAX_TRIED_PER_WINDOW \<le> length tried")
    case True
    with 2(3) have "take_found tried found = (tried', now)" by simp
    note s = 2(1) [OF True this 2(4)]
    then have "set now \<subseteq> (\<lambda>(a, i). (sa_ip a, i)) ` set ((a, their_id) # found)" by auto
    with s show ?thesis by blast
  next
    case False
    obtain t n where tn: "take_found (tried @ [sa_ip a]) found = (t, n)" by fastforce
    with False 2(3) have "tried' = t" "now = (sa_ip a, their_id) # n" by auto
    moreover have "distinct (tried @ [sa_ip a])" using False 2(4) by simp
    ultimately have now: "now = (sa_ip a, their_id) # n" "tried' = t"
      and s: "t = (tried @ [sa_ip a]) @ map fst n" "distinct t" "length t \<le> max (length (tried @ [sa_ip a])) MAX_TRIED_PER_WINDOW"
        "set n \<subseteq> (\<lambda>(a, i). (sa_ip a, i)) ` set found"
      using 2(2) [OF False tn] by blast+
    have "length t \<le> max (length tried) MAX_TRIED_PER_WINDOW" using s(3) False by simp
    moreover have "t = tried @ map fst ((sa_ip a, their_id) # n)" using s(1) by simp
    ultimately show ?thesis unfolding now using s(2,4) by auto
  qed
qed auto

text \<open>
  One window connects at most once to each address and to at most 16 addresses, however many
  searches it makes and whatever they report, and only to addresses that announced themselves.
\<close>
theorem window_tries_bounded:
  "distinct (map fst (search_rounds [] rounds)) \<and> length (search_rounds [] rounds) \<le> MAX_TRIED_PER_WINDOW \<and>
   set (search_rounds [] rounds) \<subseteq> (\<lambda>(a, i). (sa_ip a, i)) ` set (concat rounds)"
proof -
  have "distinct (tried @ map fst (search_rounds tried rounds)) \<and>
    length (tried @ map fst (search_rounds tried rounds)) \<le> max (length tried) MAX_TRIED_PER_WINDOW \<and>
    set (search_rounds tried rounds) \<subseteq> (\<lambda>(a, i). (sa_ip a, i)) ` set (concat rounds)" if "distinct tried" for tried
    using that
  proof (induction tried rounds rule: search_rounds.induct)
    case (2 tried found rounds)
    obtain t n where tn: "take_found tried found = (t, n)" by fastforce
    note s = take_found_spec [OF tn 2(2)]
    then have t: "t = tried @ map fst n" and "distinct t" and l: "length t \<le> max (length tried) MAX_TRIED_PER_WINDOW"
      and n: "set n \<subseteq> (\<lambda>(a, i). (sa_ip a, i)) ` set found" by blast+
    from 2(1) [OF tn [symmetric] refl this(2)]
    have ih: "distinct (t @ map fst (search_rounds t rounds))"
      "length (t @ map fst (search_rounds t rounds)) \<le> max (length t) MAX_TRIED_PER_WINDOW"
      "set (search_rounds t rounds) \<subseteq> (\<lambda>(a, i). (sa_ip a, i)) ` set (concat rounds)" by blast+
    have e: "tried @ map fst (search_rounds tried (found # rounds)) = t @ map fst (search_rounds t rounds)"
      by (simp add: tn t)
    have "set (search_rounds tried (found # rounds)) \<subseteq> (\<lambda>(a, i). (sa_ip a, i)) ` set (concat (found # rounds))"
      using ih(3) n by (simp add: tn image_Un) blast
    then show ?case unfolding e using ih(1,2) l by simp
  qed simp
  from this [of "[]"] show ?thesis by simp
qed

end
