(* ===== verification/Daemon_Store.thy ===== *)
theory Daemon_Store
  imports Daemon_Config Auth_Snow
begin

text \<open>
  The daemon's state and everything that reads or writes the vault and the keychain
  (\<open>cesa_conn_networker/src/daemon.rs\<close>: \<open>salt_for\<close> to \<open>save_peers\<close>).

  The state is one record. Shared handles (\<open>Arc\<close>) are numbers into stores: the lists of paired
  devices (\<open>d_lists\<close>, the current one is \<open>d_list\<close>; a reset replaces the handle) and the
  salt offers (\<open>d_offers\<close>, one per network). The vault file and the two keychain items are part
  of the state. An operation maps the state to its result and the state afterwards; what
  it gets from outside (time, random bytes, the outcome of every system and keychain call) is the
  record \<open>daemon_env\<close>. Operations that the daemon runs under its change slot are atomic.
\<close>

section \<open>State\<close>

record open_vault =
  ov_dek :: bytes
  ov_wrapped :: bytes
  ov_storage_salt :: bytes
  ov_config :: config
  ov_identity :: bytes

record key_slots =
  ks_a_key :: "bytes option"
  ks_d_key :: "bytes option"
  ks_a_salt :: "bytes option"
  ks_d_salt :: "bytes option"
  ks_vault :: "open_vault option"
  ks_locked :: bool
  ks_auto_login :: bool
  ks_unlock_failures :: u32
  ks_unlock_not_before :: "instant option"

definition key_slots_default :: key_slots where
  "key_slots_default = \<lparr>ks_a_key = None, ks_d_key = None, ks_a_salt = None, ks_d_salt = None, ks_vault = None,
     ks_locked = False, ks_auto_login = False, ks_unlock_failures = 0, ks_unlock_not_before = None\<rparr>"

record network =
  nw_running :: bool
  nw_keys :: auth_keys
  nw_d_key :: bytes
  nw_identity :: bytes
  nw_list :: nat
  nw_offer :: nat

record pairing_request =
  pr_handle :: nat
  pr_name :: bytes
  pr_code :: pairing_code

record join_slot =
  js_generation :: u64
  js_cancelled :: bool

record invite_slot =
  is_generation :: u64
  is_offer :: nat

record daemon =
  d_keys :: key_slots
  d_lists :: "nat \<Rightarrow> trusted_peer list"
  d_list :: nat
  d_resets :: u64
  d_storage :: bool
  d_file :: "bytes option"
  d_item_salts :: "bytes option"
  d_item_data_key :: "bytes option"
  d_network :: "network option"
  d_offers :: "nat \<Rightarrow> bytes option"
  d_next_offer :: nat
  d_waiting :: "(u32 \<times> pairing_request) list"
  d_next_id :: u32
  d_adding :: bool
  d_invite :: "invite_slot option"
  d_other_group :: bool
  d_next_invite :: u64
  d_join :: "join_slot option"
  d_next_join :: u64
  d_book :: peer_book
  d_clipboard :: bool

text \<open>A daemon that was just made, on a device with these files and keychain items.\<close>

definition daemon_new :: "bool \<Rightarrow> bytes option \<Rightarrow> bytes option \<Rightarrow> bytes option \<Rightarrow> bool \<Rightarrow> daemon" where
  "daemon_new storage file salts_item data_key_item clipboard =
     \<lparr>d_keys = key_slots_default, d_lists = (\<lambda>_. []), d_list = 0, d_resets = 0, d_storage = storage, d_file = file,
      d_item_salts = salts_item, d_item_data_key = data_key_item, d_network = None, d_offers = (\<lambda>_. None),
      d_next_offer = 0, d_waiting = [], d_next_id = 0, d_adding = False, d_invite = None, d_other_group = False,
      d_next_invite = 0, d_join = None, d_next_join = 0, d_book = [], d_clipboard = clipboard\<rparr>"

text \<open>The outcome of a keychain call that runs off the async workers: done, refused, or the
  blocking task itself failed.\<close>

datatype call = CallOk | CallErr | CallPanic

datatype keychain_item = ItemSalts | ItemDataKey

record daemon_env =
  en_now :: instant
  en_later :: instant
  en_gcm :: gcm
  en_hkdf :: hkdf_salted
  en_argon :: argon2
  en_derive_panics :: bool
  en_rnd_salt :: "bytes option"
  en_rnd_storage_salt :: "bytes option"
  en_rnd_dek :: "bytes option"
  en_rnd_wrap :: "bytes option"
  en_rnd_seal :: "bytes option"
  en_rnd_identity :: "bytes option"
  en_rnd_id :: "bytes option"
  en_euid :: u32
  en_dir_meta :: "metadata option option"
  en_stat :: stat
  en_read_ok :: bool
  en_read_panics :: bool
  en_writes :: write_calls
  en_write_panics :: bool
  en_delete_ok :: bool
  en_delete_sync_ok :: bool
  en_delete_panics :: bool
  en_get :: "keychain_item \<Rightarrow> call"
  en_get_again :: "keychain_item \<Rightarrow> call"
  en_set :: "keychain_item \<Rightarrow> call"
  en_del :: "keychain_item \<Rightarrow> call"
  en_bind :: bool

section \<open>Outside calls\<close>

type_synonym 'a dresult = "(daemon_error + 'a) \<times> daemon"

text \<open>\<open>let x = step?; rest\<close> on the state.\<close>

definition dtry :: "'a dresult \<Rightarrow> ('a \<Rightarrow> daemon \<Rightarrow> 'b dresult) \<Rightarrow> 'b dresult" where
  "dtry r f = (case r of (Inl e, d) \<Rightarrow> (Inl e, d) | (Inr x, d) \<Rightarrow> f x d)"

definition dlift :: "daemon_error + 'a \<Rightarrow> daemon \<Rightarrow> 'a dresult" where
  "dlift r d = (r, d)"

abbreviation map_keys :: "(key_slots \<Rightarrow> key_slots) \<Rightarrow> daemon \<Rightarrow> daemon" where
  "map_keys f d \<equiv> d\<lparr>d_keys := f (d_keys d)\<rparr>"

primrec stored :: "keychain_item \<Rightarrow> daemon \<Rightarrow> bytes option" where
  "stored ItemSalts d = d_item_salts d"
| "stored ItemDataKey d = d_item_data_key d"

primrec put_stored :: "keychain_item \<Rightarrow> bytes option \<Rightarrow> daemon \<Rightarrow> daemon" where
  "put_stored ItemSalts v d = d\<lparr>d_item_salts := v\<rparr>"
| "put_stored ItemDataKey v d = d\<lparr>d_item_data_key := v\<rparr>"

definition store_set :: "call \<Rightarrow> keychain_item \<Rightarrow> bytes \<Rightarrow> daemon \<Rightarrow> daemon" where
  "store_set c i v d = (if c = CallOk then put_stored i (Some v) d else d)"

definition store_delete :: "call \<Rightarrow> keychain_item \<Rightarrow> daemon \<Rightarrow> daemon" where
  "store_delete c i d = (if c = CallOk then put_stored i None d else d)"

definition read_vault :: "daemon_env \<Rightarrow> daemon \<Rightarrow> vault_error + bytes option" where
  "read_vault env d =
     (case d_file d of
        None \<Rightarrow> read_file (en_euid env) (en_dir_meta env) NotFound None
      | Some bs \<Rightarrow> read_file (en_euid env) (en_dir_meta env) (en_stat env) (if en_read_ok env then Some bs else None))"

definition write_vault :: "daemon_env \<Rightarrow> bytes \<Rightarrow> daemon \<Rightarrow> (vault_error + unit) \<times> daemon" where
  "write_vault env bs d =
     (let (r, dir) = write_file_atomic (en_euid env) (en_dir_meta env) (en_writes env) bs
            \<lparr>vault_file = d_file d, temp_file = None\<rparr>
      in (r, d\<lparr>d_file := vault_file dir\<rparr>))"

text \<open>\<open>blocking(write).await?.map_err(storage_error)?\<close>\<close>

definition save_file :: "daemon_env \<Rightarrow> bytes \<Rightarrow> daemon \<Rightarrow> unit dresult" where
  "save_file env bs d =
     (if en_write_panics env then (Inl Internal, d)
      else
        (case write_vault env bs d of
           (Inl e, d) \<Rightarrow> (Inl (storage_error e), d)
         | (Inr u, d) \<Rightarrow> (Inr u, d)))"

section \<open>Keys and lists\<close>

definition trusted_copy :: "daemon \<Rightarrow> trusted_peer list" where
  "trusted_copy d = d_lists d (d_list d)"

definition encoded_addresses :: "daemon \<Rightarrow> bytes" where
  "encoded_addresses d = book_encode (d_book d) (trusted_copy d)"

definition encoded_peers :: "daemon \<Rightarrow> daemon_error + bytes" where
  "encoded_peers d = ok_or StorageFailed (encode_peers (trusted_copy d))"

definition clipboard_on :: "daemon \<Rightarrow> bool" where
  "clipboard_on d = (case ks_vault (d_keys d) of None \<Rightarrow> False | Some v \<Rightarrow> cfg_clipboard (ov_config v))"

definition salt_for :: "daemon_env \<Rightarrow> key_kind \<Rightarrow> daemon \<Rightarrow> bytes dresult" where
  "salt_for env kind d =
     (let slot = (case kind of AuthKind \<Rightarrow> ks_a_salt (d_keys d) | DataKind \<Rightarrow> ks_d_salt (d_keys d))
      in case slot of
           Some salt \<Rightarrow> (Inr salt, d)
         | None \<Rightarrow>
             (case en_rnd_salt env of
                None \<Rightarrow> (Inl Internal, d)
              | Some salt \<Rightarrow>
                  (Inr salt,
                   map_keys (\<lambda>k. case kind of AuthKind \<Rightarrow> k\<lparr>ks_a_salt := Some salt\<rparr> | DataKind \<Rightarrow> k\<lparr>ks_d_salt := Some salt\<rparr>) d)))"

definition derive :: "daemon_env \<Rightarrow> bytes \<Rightarrow> bytes \<Rightarrow> daemon_error + bytes" where
  "derive env pw salt =
     (if en_derive_panics env then Inl Internal
      else map_err KeyDerivationFailed (derive_key (en_argon env) pw salt))"

section \<open>Saving the vault\<close>

definition reseal :: "daemon_env \<Rightarrow> config option \<Rightarrow> daemon \<Rightarrow> unit dresult" where
  "reseal env config d =
     (if \<not> d_storage d then (Inl NotSaved, d)
      else
        dtry (dlift (encoded_peers d) d) (\<lambda>peers d.
        (case (ks_vault (d_keys d), ks_a_key (d_keys d), ks_a_salt (d_keys d)) of
           (Some v, Some a_key, Some a_salt) \<Rightarrow>
             let contents = \<lparr>vc_a_key = a_key, vc_a_salt = a_salt,
                   vc_config = config_encode (case config of None \<Rightarrow> ov_config v | Some c \<Rightarrow> c) (encoded_addresses d),
                   vc_identity = ov_identity v, vc_peers = peers\<rparr>
             in (case seal (en_gcm env) (en_rnd_seal env) (ov_wrapped v) (ov_dek v) contents of
                   Inl e \<Rightarrow> (Inl (storage_error e), d)
                 | Inr bs \<Rightarrow> save_file env bs d)
         | _ \<Rightarrow> (Inl NotSaved, d))))"

text \<open>The automatic-login key follows a new data key; if the keychain refuses it, automatic login
  goes off.\<close>

definition renew_auto_login :: "daemon_env \<Rightarrow> bytes \<Rightarrow> daemon \<Rightarrow> daemon" where
  "renew_auto_login env key d =
     (if \<not> ks_auto_login (d_keys d) then d
      else if en_set env ItemDataKey = CallOk then store_set CallOk ItemDataKey key d
      else
        map_keys (\<lambda>k. k\<lparr>ks_auto_login := False\<rparr>) (store_delete (en_del env ItemDataKey) ItemDataKey d))"

definition save_changed_key :: "daemon_env \<Rightarrow> key_kind \<Rightarrow> bytes \<Rightarrow> daemon \<Rightarrow> unit dresult" where
  "save_changed_key env kind key d =
     (if \<not> d_storage d then (Inr (), d)
      else
        dtry (dlift (encoded_peers d) d) (\<lambda>peers d.
        (case (ks_vault (d_keys d), ks_a_key (d_keys d), ks_a_salt (d_keys d)) of
           (Some v, Some old_a_key, Some a_salt) \<Rightarrow>
             dtry (dlift (case kind of
                 AuthKind \<Rightarrow> Inr (key, ov_wrapped v)
               | DataKind \<Rightarrow>
                   (case derive_kek (en_hkdf env) key (ov_storage_salt v) of
                      Inl e \<Rightarrow> Inl (storage_error e)
                    | Inr kek \<Rightarrow>
                        (case wrap_dek (en_gcm env) (en_rnd_wrap env) kek (ov_dek v) of
                           Inl e \<Rightarrow> Inl (storage_error e)
                         | Inr w \<Rightarrow> Inr (old_a_key, w)))) d) (\<lambda>(a_key, wrapped) d.
             let contents = \<lparr>vc_a_key = a_key, vc_a_salt = a_salt, vc_config = config_encode (ov_config v) (encoded_addresses d),
                   vc_identity = ov_identity v, vc_peers = peers\<rparr>
             in (case seal (en_gcm env) (en_rnd_seal env) wrapped (ov_dek v) contents of
                   Inl e \<Rightarrow> (Inl (storage_error e), d)
                 | Inr bs \<Rightarrow>
                     dtry (save_file env bs d) (\<lambda>_ d.
                     if kind = AuthKind then (Inr (), d)
                     else
                       (Inr (), renew_auto_login env key
                         (map_keys (\<lambda>k. k\<lparr>ks_vault := map_option (\<lambda>v. v\<lparr>ov_wrapped := wrapped\<rparr>) (ks_vault k)\<rparr>) d)))))
         | _ \<Rightarrow> (Inl Internal, d))))"

text \<open>What \<open>create_vault\<close> prepares before it touches the disk: the keychain entry, the file and
  the open vault.\<close>

definition prepare_vault ::
  "daemon_env \<Rightarrow> bytes option \<Rightarrow> config \<Rightarrow> bytes \<Rightarrow> bytes \<Rightarrow> bytes \<Rightarrow> bytes \<Rightarrow> bytes \<Rightarrow> bytes \<Rightarrow>
   vault_error + salts \<times> bytes \<times> open_vault" where
  "prepare_vault env ident config a_key a_salt d_key group_salt peers addresses =
     and_then (ok_or Crypto (en_rnd_storage_salt env)) (\<lambda>new_storage_salt.
     and_then (generate_dek (en_rnd_dek env)) (\<lambda>dek.
     and_then (derive_kek (en_hkdf env) d_key new_storage_salt) (\<lambda>kek.
     and_then (wrap_dek (en_gcm env) (en_rnd_wrap env) kek dek) (\<lambda>wrapped.
     and_then (case ident of Some i \<Rightarrow> Inr i | None \<Rightarrow> ok_or Crypto (en_rnd_identity env)) (\<lambda>ident.
     and_then (seal (en_gcm env) (en_rnd_seal env) wrapped dek
         \<lparr>vc_a_key = a_key, vc_a_salt = a_salt, vc_config = config_encode config addresses, vc_identity = ident,
          vc_peers = peers\<rparr>) (\<lambda>bs.
     Inr (\<lparr>d_salt = group_salt, storage_salt = new_storage_salt\<rparr>, bs,
       \<lparr>ov_dek = dek, ov_wrapped = wrapped, ov_storage_salt = new_storage_salt, ov_config = config,
        ov_identity = ident\<rparr>)))))))"

definition create_vault :: "daemon_env \<Rightarrow> bytes option \<Rightarrow> config \<Rightarrow> daemon \<Rightarrow> daemon" where
  "create_vault env ident config d =
     (if \<not> d_storage d then d
      else
        (case (ks_a_key (d_keys d), ks_a_salt (d_keys d), ks_d_key (d_keys d), ks_d_salt (d_keys d)) of
           (Some a_key, Some a_salt, Some d_key, Some group_salt) \<Rightarrow>
             (case encoded_peers d of
                Inl _ \<Rightarrow> d
              | Inr peers \<Rightarrow>
                  (case prepare_vault env ident config a_key a_salt d_key group_salt peers (encoded_addresses d) of
                     Inl _ \<Rightarrow> d
                   | Inr (new_salts, bs, v) \<Rightarrow>
                       if en_set env ItemSalts \<noteq> CallOk then d
                       else
                         let d = store_set CallOk ItemSalts (salts_to_bytes new_salts) d
                         in if en_write_panics env then d
                            else
                              (case write_vault env bs d of
                                 (Inl _, d) \<Rightarrow> d
                               | (Inr _, d) \<Rightarrow> map_keys (\<lambda>k. k\<lparr>ks_vault := Some v\<rparr>) d)))
         | _ \<Rightarrow> d))"

section \<open>Unlocking\<close>

text \<open>\<open>store.get(Item::Salts)\<close> and \<open>Salts::from_bytes\<close>.\<close>

definition get_salts :: "call \<Rightarrow> daemon \<Rightarrow> daemon_error + salts" where
  "get_salts c d =
     (case c of
        CallPanic \<Rightarrow> Inl Internal
      | CallErr \<Rightarrow> Inl StorageFailed
      | CallOk \<Rightarrow>
          (case d_item_salts d of
             None \<Rightarrow> Inl StorageFailed
           | Some bs \<Rightarrow> ok_or StorageFailed (salts_from_bytes bs)))"

definition get_file :: "daemon_env \<Rightarrow> daemon \<Rightarrow> daemon_error + bytes" where
  "get_file env d =
     (if en_read_panics env then Inl Internal
      else
        (case read_vault env d of
           Inl e \<Rightarrow> Inl (storage_error e)
         | Inr None \<Rightarrow> Inl NotSaved
         | Inr (Some bs) \<Rightarrow> Inr bs))"

definition unlock_with :: "daemon_env \<Rightarrow> call \<Rightarrow> bytes \<Rightarrow> daemon \<Rightarrow> unit dresult" where
  "unlock_with env get d_key d =
     (if \<not> d_storage d then (Inl NotSaved, d)
      else
        dtry (dlift (get_salts get d) d) (\<lambda>s d.
        dtry (dlift (get_file env d) d) (\<lambda>bs d.
        dtry (dlift (case derive_kek (en_hkdf env) d_key (storage_salt s) of Inl e \<Rightarrow> Inl (storage_error e) | Inr k \<Rightarrow> Inr k) d)
          (\<lambda>kek d.
        dtry (dlift (case vault_open (en_gcm env) kek bs of Inl e \<Rightarrow> Inl (storage_error e) | Inr v \<Rightarrow> Inr v) d) (\<lambda>v d.
        dtry (dlift (ok_or StorageFailed (decode_trusted_peers (vc_peers (op_contents v)))) d) (\<lambda>peers d.
        dtry (dlift (ok_or StorageFailed (config_decode (vc_config (op_contents v)))) d) (\<lambda>(config, addresses) d.
        (Inr (),
         d\<lparr>d_lists := (d_lists d)(d_list d := peers),
           d_book := book_load (d_book d) addresses,
           d_keys := (d_keys d)\<lparr>ks_a_key := Some (vc_a_key (op_contents v)), ks_a_salt := Some (vc_a_salt (op_contents v)),
             ks_d_key := Some d_key, ks_d_salt := Some (d_salt s),
             ks_vault := Some \<lparr>ov_dek = op_dek v, ov_wrapped = op_wrapped v, ov_storage_salt = storage_salt s,
               ov_config = config, ov_identity = vc_identity (op_contents v)\<rparr>,
             ks_locked := False\<rparr>\<rparr>))))))))"

text \<open>What a result of \<open>unlock_with\<close> does to the counter of wrong passwords.\<close>

definition count_unlock :: "instant \<Rightarrow> daemon_error + unit \<Rightarrow> key_slots \<Rightarrow> key_slots" where
  "count_unlock now result k =
     (case result of
        Inr _ \<Rightarrow> k\<lparr>ks_unlock_failures := 0, ks_unlock_not_before := None\<rparr>
      | Inl e \<Rightarrow>
          if e = WrongPassword then
            let n = saturating_add (ks_unlock_failures k) 1
            in k\<lparr>ks_unlock_failures := n,
                 ks_unlock_not_before := Some (case checked_add now (unlock_delay n) of Some t \<Rightarrow> t | None \<Rightarrow> now)\<rparr>
          else k)"

definition unlock :: "daemon_env \<Rightarrow> bytes \<Rightarrow> daemon \<Rightarrow> unit dresult" where
  "unlock env pw d =
     (if \<not> d_storage d then (Inl NotSaved, d)
      else if \<not> ks_locked (d_keys d) then
        (Inl (if ks_vault (d_keys d) \<noteq> None then BadRequest else NotSaved), d)
      else if 0 < wait_secs (ks_unlock_not_before (d_keys d)) (en_now env) then (Inl UnlockDelayed, d)
      else
        dtry (dlift (get_salts (en_get env ItemSalts) d) d) (\<lambda>s d.
        dtry (dlift (derive env pw (d_salt s)) d) (\<lambda>d_key d.
        let (result, d) = unlock_with env (en_get_again env ItemSalts) d_key d
        in (result, map_keys (count_unlock (en_later env) result) d))))"

section \<open>Settings and paired devices\<close>

definition set_auto_login :: "daemon_env \<Rightarrow> bool \<Rightarrow> daemon \<Rightarrow> unit dresult" where
  "set_auto_login env on d =
     (if \<not> d_storage d then (Inl NotSaved, d)
      else if ks_locked (d_keys d) then (Inl Locked, d)
      else if ks_vault (d_keys d) = None then (Inl NotSaved, d)
      else
        (case ks_d_key (d_keys d) of
           None \<Rightarrow> (Inl NotSaved, d)
         | Some d_key \<Rightarrow>
             let c = (if on then en_set env ItemDataKey else en_del env ItemDataKey)
             in (case c of
                   CallPanic \<Rightarrow> (Inl Internal, d)
                 | CallErr \<Rightarrow> (Inl StorageFailed, d)
                 | CallOk \<Rightarrow>
                     (Inr (), map_keys (\<lambda>k. k\<lparr>ks_auto_login := on\<rparr>)
                       (if on then store_set c ItemDataKey d_key d else store_delete c ItemDataKey d)))))"

definition saved_config :: "daemon \<Rightarrow> daemon_error + config" where
  "saved_config d =
     (if ks_locked (d_keys d) then Inl Locked
      else ok_or NotSaved (map_option ov_config (ks_vault (d_keys d))))"

definition save_config :: "daemon_env \<Rightarrow> config \<Rightarrow> daemon \<Rightarrow> unit dresult" where
  "save_config env config d =
     dtry (reseal env (Some config) d) (\<lambda>_ d.
     (Inr (), map_keys (\<lambda>k. k\<lparr>ks_vault := map_option (\<lambda>v. v\<lparr>ov_config := config\<rparr>) (ks_vault k)\<rparr>) d))"

definition set_sync :: "daemon_env \<Rightarrow> bool \<Rightarrow> daemon \<Rightarrow> unit dresult" where
  "set_sync env on d =
     dtry (dlift (saved_config d) d) (\<lambda>c d. save_config env (c\<lparr>cfg_sync := on\<rparr>) d)"

definition set_clipboard :: "daemon_env \<Rightarrow> bool \<Rightarrow> daemon \<Rightarrow> unit dresult" where
  "set_clipboard env on d =
     (if on \<and> \<not> d_clipboard d then (Inl ClipboardUnavailable, d)
      else dtry (dlift (saved_config d) d) (\<lambda>c d. save_config env (c\<lparr>cfg_clipboard := on\<rparr>) d))"

text \<open>The devices with a fingerprint, with their positions, and putting them back.\<close>

definition removed_peers :: "bytes \<Rightarrow> trusted_peer list \<Rightarrow> (nat \<times> trusted_peer) list" where
  "removed_peers fingerprint peers = filter (\<lambda>(_, p). peer_fingerprint p = fingerprint) (enumerate 0 peers)"

definition insert_at :: "nat \<Rightarrow> 'a \<Rightarrow> 'a list \<Rightarrow> 'a list" where
  "insert_at i x xs = take i xs @ x # drop i xs"

definition put_back :: "(nat \<times> trusted_peer) list \<Rightarrow> trusted_peer list \<Rightarrow> trusted_peer list" where
  "put_back removed peers = fold (\<lambda>(i, p) ps. insert_at (min i (length ps)) p ps) removed peers"

definition forget_peer :: "daemon_env \<Rightarrow> bytes \<Rightarrow> daemon \<Rightarrow> unit dresult" where
  "forget_peer env fingerprint d =
     (if ks_locked (d_keys d) then (Inl Locked, d)
      else
        let list = d_list d; peers = d_lists d list; removed = removed_peers fingerprint peers;
            d = d\<lparr>d_lists := (d_lists d)(list := filter (\<lambda>p. peer_fingerprint p \<noteq> fingerprint) peers)\<rparr>
        in if removed = [] then (Inl UnknownPeer, d)
           else
             (case (if ks_vault (d_keys d) \<noteq> None then reseal env None d else (Inr (), d)) of
                (Inl e, d) \<Rightarrow> (Inl e, d\<lparr>d_lists := (d_lists d)(list := put_back removed (d_lists d list))\<rparr>)
              | (Inr _, d) \<Rightarrow>
                  (Inr (), d\<lparr>d_book := fold (\<lambda>(_, p) b. book_remove b (x25519_pub_key p)) removed (d_book d)\<rparr>)))"

definition save_peers :: "daemon_env \<Rightarrow> daemon \<Rightarrow> daemon" where
  "save_peers env d = (if ks_vault (d_keys d) = None then d else snd (reseal env None d))"

end
