(* ===== verification/Daemon_Ops.thy ===== *)
theory Daemon_Ops
  imports Daemon_Store
begin

text \<open>
  The rest of the daemon's operations (\<open>cesa_conn_networker/src/daemon.rs\<close>): networking that
  follows the state, pairing prompts, the invite window, joining a group, reset, and how
  requests and the start of the daemon are dispatched.

  Tasks the daemon spawns (listener, bridge, clipboard task, hello round, the timer of the invite
  window, the join itself) are the events that later call the operations here. The decisions sent
  to waiting handshakes are the outputs of the operations that send them.
\<close>

section \<open>Networking\<close>

definition net_running :: "daemon \<Rightarrow> bool" where
  "net_running d = (case d_network d of None \<Rightarrow> False | Some n \<Rightarrow> nw_running n)"

definition network_wanted :: "daemon \<Rightarrow> bytes option" where
  "network_wanted d =
     (let k = d_keys d
      in case ks_vault k of
           Some v \<Rightarrow>
             if cfg_sync (ov_config v) \<and> \<not> ks_locked k \<and> ks_a_key k \<noteq> None \<and> ks_d_key k \<noteq> None
             then Some (ov_identity v) else None
         | None \<Rightarrow> None)"

text \<open>\<open>start_network\<close> in its two halves. The first copies the keys and the list handle and binds the
  listener, the second stores the network, unless one runs by then; the code awaits in between.
  Offers are numbered; the number of a new one is used up when its network is stored.\<close>

definition copy_network :: "daemon_env \<Rightarrow> bytes \<Rightarrow> daemon \<Rightarrow> network option" where
  "copy_network env ident d =
     (case (ks_a_key (d_keys d), ks_a_salt (d_keys d), ks_d_key (d_keys d)) of
        (Some a_key, Some a_salt, Some d_key) \<Rightarrow>
          if \<not> en_bind env then None
          else
            Some \<lparr>nw_running = True, nw_keys = \<lparr>ak_a_key = a_key, ak_a_salt = a_salt\<rparr>, nw_d_key = d_key,
              nw_identity = ident, nw_list = d_list d, nw_offer = d_next_offer d\<rparr>
      | _ \<Rightarrow> None)"

definition store_network :: "network \<Rightarrow> daemon \<Rightarrow> daemon" where
  "store_network n d =
     (if net_running d then d
      else
        d\<lparr>d_network := Some n, d_offers := (d_offers d)(nw_offer n := None), d_next_offer := d_next_offer d + 1,
          d_adding := False\<rparr>)"

definition start_network :: "daemon_env \<Rightarrow> bytes \<Rightarrow> daemon \<Rightarrow> daemon" where
  "start_network env ident d = (case copy_network env ident d of None \<Rightarrow> d | Some n \<Rightarrow> store_network n d)"

lemmas start_network_defs = start_network_def copy_network_def store_network_def

text \<open>\<open>end_invite\<close>: the offer of the window is withdrawn; the result says whether it was open.\<close>

definition end_invite :: "u64 option \<Rightarrow> daemon \<Rightarrow> bool \<times> daemon" where
  "end_invite generation d =
     (if (case generation of None \<Rightarrow> False | Some wanted \<Rightarrow> map_option is_generation (d_invite d) \<noteq> Some wanted)
      then (False, d)
      else
        (case d_invite d of
           None \<Rightarrow> (False, d)
         | Some slot \<Rightarrow>
             (True, d\<lparr>d_invite := None, d_offers := (d_offers d)(is_offer slot := None), d_adding := False\<rparr>)))"

definition stop_network :: "daemon \<Rightarrow> daemon" where
  "stop_network d =
     (case d_network d of
        None \<Rightarrow> d
      | Some _ \<Rightarrow>
          (snd (end_invite None (d\<lparr>d_network := None\<rparr>)))\<lparr>d_adding := False, d_waiting := []\<rparr>)"

definition apply_network :: "daemon_env \<Rightarrow> daemon \<Rightarrow> daemon" where
  "apply_network env d =
     (case (network_wanted d, net_running d) of
        (Some ident, False) \<Rightarrow> start_network env ident d
      | (None, True) \<Rightarrow> stop_network d
      | _ \<Rightarrow> d)"

text \<open>The listener failed on its own: the token of the network is cancelled.\<close>

definition listener_failed :: "daemon \<Rightarrow> daemon" where
  "listener_failed d = d\<lparr>d_network := map_option (\<lambda>n. n\<lparr>nw_running := False\<rparr>) (d_network d)\<rparr>"

definition update_network_keys :: "daemon \<Rightarrow> daemon" where
  "update_network_keys d =
     (case (ks_a_key (d_keys d), ks_a_salt (d_keys d), ks_d_key (d_keys d)) of
        (Some a_key, Some a_salt, Some d_key) \<Rightarrow>
          d\<lparr>d_book := keys_changed (d_book d),
            d_network := map_option (\<lambda>n. if nw_running n
              then n\<lparr>nw_keys := \<lparr>ak_a_key = a_key, ak_a_salt = a_salt\<rparr>, nw_d_key := d_key\<rparr> else n) (d_network d)\<rparr>
      | _ \<Rightarrow> d)"

definition set_password :: "daemon_env \<Rightarrow> key_kind \<Rightarrow> bytes \<Rightarrow> daemon \<Rightarrow> unit dresult" where
  "set_password env kind pw d =
     (if password_chars pw < MIN_NEW_PASSWORD_LEN then (Inl WeakPassword, d)
      else if ks_locked (d_keys d) then (Inl Locked, d)
      else
        dtry (salt_for env kind d) (\<lambda>salt d.
        dtry (dlift (derive env pw salt) d) (\<lambda>key d.
        dtry (if ks_vault (d_keys d) \<noteq> None then save_changed_key env kind key d else (Inr (), d)) (\<lambda>_ d.
        let d = map_keys (\<lambda>k. case kind of AuthKind \<Rightarrow> k\<lparr>ks_a_key := Some key\<rparr> | DataKind \<Rightarrow> k\<lparr>ks_d_key := Some key\<rparr>) d;
            d = update_network_keys d;
            d = (if ks_vault (d_keys d) = None then create_vault env None config_default d else d)
        in (Inr (), d)))))"

section \<open>Pairing prompts\<close>

definition MAX_PENDING_PAIRINGS :: nat where "MAX_PENDING_PAIRINGS = 4"

text \<open>\<open>expired\<close> says which handshakes stopped waiting.\<close>

definition prune :: "(pairing_request \<Rightarrow> bool) \<Rightarrow> daemon \<Rightarrow> daemon" where
  "prune expired d = d\<lparr>d_waiting := filter (\<lambda>(_, r). \<not> expired r) (d_waiting d)\<rparr>"

definition join_running :: "daemon \<Rightarrow> bool" where
  "join_running d = (case d_join d of None \<Rightarrow> False | Some slot \<Rightarrow> \<not> js_cancelled slot)"

text \<open>The window is checked before the lock of the prompts is taken; a window that closes between the
  two is not a step here.\<close>

definition queue_pairing ::
  "(pairing_request \<Rightarrow> bool) \<Rightarrow> pairing_request \<Rightarrow> daemon \<Rightarrow> (pairing_request \<times> bool) option \<times> daemon" where
  "queue_pairing expired request d =
     (if \<not> d_adding d \<and> \<not> join_running d then (Some (request, False), d)
      else
        let d = prune expired d
        in if MAX_PENDING_PAIRINGS \<le> length (d_waiting d) then (Some (request, False), d)
           else
             (None, d\<lparr>d_next_id := d_next_id d + 1, d_waiting := d_waiting d @ [(d_next_id d, request)]\<rparr>))"

definition pending_pairing :: "(pairing_request \<Rightarrow> bool) \<Rightarrow> daemon \<Rightarrow> pairing_prompt option \<times> daemon" where
  "pending_pairing expired d =
     (let d = prune expired d
      in (case d_waiting d of
            [] \<Rightarrow> None
          | (i, r) # _ \<Rightarrow> Some \<lparr>prompt_id = i, prompt_name = pr_name r, prompt_code = pr_code r\<rparr>, d))"

text \<open>The first waiting pairing that matches, and the rest.\<close>

fun take_waiting ::
  "(u32 \<times> pairing_request \<Rightarrow> bool) \<Rightarrow> (u32 \<times> pairing_request) list \<Rightarrow>
   (pairing_request \<times> (u32 \<times> pairing_request) list) option" where
  "take_waiting P [] = None"
| "take_waiting P (x # xs) =
     (if P x then Some (snd x, xs) else map_option (\<lambda>(r, rest). (r, x # rest)) (take_waiting P xs))"

definition answer_pairing ::
  "(pairing_request \<Rightarrow> bool) \<Rightarrow> u32 \<Rightarrow> pairing_code \<Rightarrow> bool \<Rightarrow> daemon \<Rightarrow> (pairing_request \<times> bool) dresult" where
  "answer_pairing expired i code accept d =
     (let d = prune expired d
      in case take_waiting (\<lambda>(waiting, r). waiting = i \<and> pr_code r = code) (d_waiting d) of
           None \<Rightarrow> (Inl PairingExpired, d)
         | Some (r, rest) \<Rightarrow> (Inr (r, accept), d\<lparr>d_waiting := rest\<rparr>))"

section \<open>The invite window\<close>

text \<open>\<open>open_invite\<close> up to its last await: the window is marked open, its slot is set. The result is
  the generation of the new window and its offer, \<open>None\<close> if one is open already.\<close>

definition open_invite :: "daemon_env \<Rightarrow> daemon \<Rightarrow> (u64 \<times> nat \<times> bytes) option dresult" where
  "open_invite env d =
     (case d_network d of
        Some n \<Rightarrow>
          if \<not> nw_running n then (Inl NetworkOff, d)
          else
            (case (ks_a_salt (d_keys d), ks_d_salt (d_keys d)) of
               (Some _, Some group_salt) \<Rightarrow>
                 (case en_rnd_id env of
                    None \<Rightarrow> (Inl Internal, d)
                  | Some _ \<Rightarrow>
                      if d_adding d then (Inr None, d)
                      else
                        let g = d_next_invite d
                        in (Inr (Some (g, nw_offer n, group_salt)),
                            d\<lparr>d_adding := True, d_other_group := False, d_next_invite := g + 1,
                              d_invite := Some \<lparr>is_generation = g, is_offer = nw_offer n\<rparr>\<rparr>))
             | _ \<Rightarrow> (Inl NetworkOff, d))
      | None \<Rightarrow> (Inl NetworkOff, d))"

text \<open>The rest of it: the salt is offered.\<close>

definition offer_salt :: "nat \<Rightarrow> bytes \<Rightarrow> daemon \<Rightarrow> daemon" where
  "offer_salt offer group_salt d = d\<lparr>d_offers := (d_offers d)(offer := Some group_salt)\<rparr>"

definition stop_add_device :: "daemon \<Rightarrow> daemon" where
  "stop_add_device d =
     (let (ended, d) = end_invite None d
      in if ended \<and> \<not> join_running d then d\<lparr>d_waiting := []\<rparr> else d)"

section \<open>Joining\<close>

definition is_fresh :: "daemon \<Rightarrow> bool" where
  "is_fresh d =
     (let k = d_keys d
      in \<not> ks_locked k \<and> ks_vault k = None \<and> ks_a_key k = None \<and> ks_d_key k = None \<and> ks_a_salt k = None \<and> ks_d_salt k = None)"

text \<open>The result: the identity for the join, its generation and the resets it saw.\<close>

definition join_group :: "daemon_env \<Rightarrow> daemon \<Rightarrow> (bytes \<times> u64 \<times> u64) dresult" where
  "join_group env d =
     (if \<not> d_storage d then (Inl NotSaved, d)
      else if \<not> is_fresh d then (Inl AlreadyInGroup, d)
      else
        (case en_rnd_identity env of
           None \<Rightarrow> (Inl Internal, d)
         | Some ident \<Rightarrow>
             let g = d_next_join d; d = d\<lparr>d_next_join := g + 1\<rparr>
             in if join_running d then (Inl JoinRunning, d)
                else (Inr (ident, g, d_resets d), d\<lparr>d_join := Some \<lparr>js_generation = g, js_cancelled = False\<rparr>\<rparr>)))"

definition finish_join :: "daemon \<Rightarrow> daemon" where
  "finish_join d = (if \<not> d_adding d \<and> \<not> join_running d then d\<lparr>d_waiting := []\<rparr> else d)"

definition cancel_join :: "daemon \<Rightarrow> daemon" where
  "cancel_join d = (case d_join d of None \<Rightarrow> d | Some _ \<Rightarrow> finish_join (d\<lparr>d_join := None\<rparr>))"

definition end_join :: "u64 \<Rightarrow> daemon \<Rightarrow> daemon" where
  "end_join generation d =
     (case d_join d of
        None \<Rightarrow> d
      | Some slot \<Rightarrow> if js_generation slot \<noteq> generation then d else finish_join (d\<lparr>d_join := None\<rparr>))"

record joined =
  jn_a_key :: bytes
  jn_a_salt :: bytes
  jn_d_key :: bytes
  jn_d_salt :: bytes
  jn_peer :: trusted_peer
  jn_addr :: socket_addr

text \<open>\<open>commit_join\<close> while it holds the change slot. The code then lets go of the slot and applies
  networking (\<open>apply_network\<close>), which is a step of its own: other changes may come first.\<close>

definition commit_join :: "daemon_env \<Rightarrow> joined \<Rightarrow> bytes \<Rightarrow> u64 \<Rightarrow> daemon \<Rightarrow> unit dresult" where
  "commit_join env j ident resets d =
     (if d_resets d \<noteq> resets then (Inl Internal, d)
      else if \<not> is_fresh d then (Inl AlreadyInGroup, d)
      else
        let d = map_keys (\<lambda>k. k\<lparr>ks_a_key := Some (jn_a_key j), ks_a_salt := Some (jn_a_salt j),
                  ks_d_key := Some (jn_d_key j), ks_d_salt := Some (jn_d_salt j)\<rparr>) d;
            d = d\<lparr>d_book := snd (seen (d_book d) (x25519_pub_key (jn_peer j)) (jn_addr j)),
                  d_lists := (d_lists d)(d_list d := d_lists d (d_list d) @ [jn_peer j])\<rparr>;
            d = create_vault env (Some ident) \<lparr>cfg_sync = True, cfg_clipboard = False\<rparr> d;
            saved_now = (ks_vault (d_keys d) \<noteq> None)
        in (if saved_now then Inr () else Inl StorageFailed, d))"

section \<open>Reset\<close>

definition delete_vault :: "daemon_env \<Rightarrow> daemon \<Rightarrow> unit dresult" where
  "delete_vault env d =
     (if \<not> d_storage d then (Inr (), d)
      else if en_delete_panics env then (Inl Internal, d)
      else
        (case delete_file (en_euid env) (en_dir_meta env) (en_delete_ok env) (en_delete_sync_ok env)
            \<lparr>vault_file = d_file d, temp_file = None\<rparr> of
           (Inl e, dir) \<Rightarrow> (Inl (storage_error e), d\<lparr>d_file := vault_file dir\<rparr>)
         | (Inr _, dir) \<Rightarrow> (Inr (), d\<lparr>d_file := vault_file dir\<rparr>)))"

primrec delete_items :: "daemon_env \<Rightarrow> keychain_item list \<Rightarrow> daemon \<Rightarrow> unit dresult" where
  "delete_items env [] d = (Inr (), d)"
| "delete_items env (i # is) d =
     (if en_del env i = CallOk then delete_items env is (store_delete CallOk i d) else (Inl StorageFailed, d))"

definition reset_device :: "daemon_env \<Rightarrow> daemon \<Rightarrow> unit dresult" where
  "reset_device env d =
     (let d = stop_network (cancel_join (d\<lparr>d_resets := d_resets d + 1\<rparr>))
      in dtry (delete_vault env d) (\<lambda>_ d.
         let d = d\<lparr>d_keys := key_slots_default, d_lists := (d_lists d)(d_list d + 1 := []), d_list := d_list d + 1,
               d_book := book_clear (d_book d), d_waiting := [], d_other_group := False\<rparr>
         in if d_storage d then delete_items env [ItemSalts, ItemDataKey] d else (Inr (), d)))"

section \<open>Requests\<close>

definition change :: "daemon_env \<Rightarrow> request \<Rightarrow> daemon \<Rightarrow> unit dresult" where
  "change env request d =
     (let (result, d) =
        (case request of
           SetAuthPassword pw \<Rightarrow> set_password env AuthKind pw d
         | SetDataPassword pw \<Rightarrow> set_password env DataKind pw d
         | Unlock pw \<Rightarrow> unlock env pw d
         | SetAutoLogin on \<Rightarrow> set_auto_login env on d
         | SetSync on \<Rightarrow> set_sync env on d
         | SetClipboard on \<Rightarrow> set_clipboard env on d
         | ForgetPeer fingerprint \<Rightarrow> forget_peer env fingerprint d
         | ResetDevice \<Rightarrow> reset_device env d
         | _ \<Rightarrow> (Inl BadRequest, d))
      in (result, apply_network env d))"

definition daemon_status :: "(pairing_request \<Rightarrow> bool) \<Rightarrow> instant \<Rightarrow> daemon \<Rightarrow> status \<times> daemon" where
  "daemon_status expired now d =
     (let k = d_keys d; running = net_running d; d = prune expired d
      in (\<lparr>auth_key_set = ks_a_key k \<noteq> None,
           data_key_set = ks_d_key k \<noteq> None,
           network_running = running,
           trusted_peers_count = (case u32_try_from (length (trusted_copy d)) of None \<Rightarrow> - 1 | Some n \<Rightarrow> n),
           locked = ks_locked k,
           saved = ks_vault k \<noteq> None,
           auto_login = ks_auto_login k,
           unlock_wait_secs = wait_secs (ks_unlock_not_before k) now,
           sync_enabled = (case ks_vault k of None \<Rightarrow> False | Some v \<Rightarrow> cfg_sync (ov_config v)),
           adding_device = running \<and> d_adding d,
           pending_pairings = (if length (d_waiting d) < 256 then word_of_nat (length (d_waiting d)) else - 1),
           joining = join_running d,
           other_group_nearby = running \<and> d_adding d \<and> d_other_group d,
           clipboard_enabled = clipboard_on d,
           clipboard_unavailable = \<not> d_clipboard d\<rparr>, d))"

definition daemon_peers :: "daemon \<Rightarrow> peer_info list" where
  "daemon_peers d =
     map (\<lambda>p. \<lparr>info_fingerprint = peer_fingerprint p, info_name = peer_name p,
              info_state = state_of (d_book d) (x25519_pub_key p)\<rparr>)
       (take MAX_LISTED_PEERS (trusted_copy d))"

text \<open>\<open>AddDevice\<close> without the LAN search, which runs in its own task.\<close>

definition add_device :: "daemon_env \<Rightarrow> daemon \<Rightarrow> unit dresult" where
  "add_device env d =
     dtry (open_invite env d) (\<lambda>invite d.
     case invite of
       None \<Rightarrow> (Inr (), d)
     | Some (_, offer, group_salt) \<Rightarrow> (Inr (), offer_salt offer group_salt d))"

definition done_or_error :: "daemon_error + 'a \<Rightarrow> bytes" where
  "done_or_error r = (case r of Inl e \<Rightarrow> encode_error e | Inr _ \<Rightarrow> response_encode Done)"

definition handle_request ::
  "daemon_env \<Rightarrow> (pairing_request \<Rightarrow> bool) \<Rightarrow> request \<Rightarrow> daemon \<Rightarrow> bytes \<times> daemon" where
  "handle_request env expired request d =
     (case request of
        Request_Status \<Rightarrow> (let (s, d) = daemon_status expired (en_now env) d in (response_encode (Response_Status s), d))
      | ListPeers \<Rightarrow> (response_encode (Peers (daemon_peers d)), d)
      | PendingPairing \<Rightarrow> (let (p, d) = pending_pairing expired d in (response_encode (Pairing p), d))
      | AnswerPairing i code accept \<Rightarrow>
          (let (r, d) = answer_pairing expired i code accept d in (done_or_error r, d))
      | AddDevice \<Rightarrow> (let (r, d) = add_device env d in (done_or_error r, d))
      | JoinGroup _ _ \<Rightarrow> (let (r, d) = join_group env d in (done_or_error r, d))
      | CancelJoin \<Rightarrow> (response_encode Done, cancel_join d)
      | StopAddDevice \<Rightarrow> (response_encode Done, stop_add_device d)
      | _ \<Rightarrow> (let (r, d) = change env request d in (done_or_error r, d)))"

section \<open>Starting\<close>

definition daemon_start :: "daemon_env \<Rightarrow> daemon \<Rightarrow> daemon" where
  "daemon_start env d =
     (if \<not> d_storage d then d
      else if \<not> en_read_panics env \<and> read_vault env d = Inr None then d
      else
        let d = map_keys (\<lambda>k. k\<lparr>ks_locked := True\<rparr>) d
        in if en_get env ItemDataKey \<noteq> CallOk then d
           else
             (case d_item_data_key d of
                None \<Rightarrow> d
              | Some key \<Rightarrow>
                  let d = map_keys (\<lambda>k. k\<lparr>ks_auto_login := True\<rparr>) d
                  in if length key \<noteq> 32 then d
                     else
                       (case unlock_with env (en_get_again env ItemSalts) key d of
                          (Inr _, d) \<Rightarrow> apply_network env d
                        | (Inl e, d) \<Rightarrow>
                            if e = WrongPassword \<and> en_del env ItemDataKey = CallOk
                            then map_keys (\<lambda>k. k\<lparr>ks_auto_login := False\<rparr>) (store_delete CallOk ItemDataKey d)
                            else d)))"

end
