(* ===== verification/Daemon_Saved.thy ===== *)
theory Daemon_Saved
  imports Daemon_Ops
begin

text \<open>
  What the daemon saves: the invariant that the vault file on disk, opened with the current data
  password, holds the keys, identity, settings and salts in memory, that every operation keeps it,
  and that a restarted daemon therefore gets them back.
\<close>

section \<open>The environment\<close>

definition sized :: "nat \<Rightarrow> bytes option \<Rightarrow> bool" where
  "sized n b = (case b of None \<Rightarrow> True | Some bs \<Rightarrow> length bs = n)"

lemma sized_simps [simp]: "sized n None" "sized n (Some bs) \<longleftrightarrow> length bs = n"
  by (simp_all add: sized_def)

text \<open>The libraries, random bytes and keys of the right length; the directory can be synced (see
  \<open>Vault\<close> for what happens when it can not).\<close>

definition env_ok :: "gcm \<Rightarrow> hkdf_salted \<Rightarrow> daemon_env \<Rightarrow> bool" where
  "env_ok G H env =
     (en_gcm env = G \<and> en_hkdf env = H \<and> sized 32 (en_rnd_salt env) \<and> sized 32 (en_rnd_storage_salt env) \<and>
      sized 32 (en_rnd_dek env) \<and> sized NONCE_LEN (en_rnd_wrap env) \<and> sized NONCE_LEN (en_rnd_seal env) \<and>
      sized IDENTITY_SEED_LEN (en_rnd_identity env) \<and> (\<forall>m t p pw salt. sized 32 (en_argon env m t p pw salt 32)) \<and>
      sync_dir_ok (en_writes env) \<and> en_delete_sync_ok env)"

lemma env_okD:
  assumes "env_ok G H env"
  shows "en_gcm env = G" "en_hkdf env = H" "sized 32 (en_rnd_salt env)" "sized 32 (en_rnd_storage_salt env)"
    "sized 32 (en_rnd_dek env)" "sized NONCE_LEN (en_rnd_wrap env)" "sized NONCE_LEN (en_rnd_seal env)"
    "sized IDENTITY_SEED_LEN (en_rnd_identity env)" "sync_dir_ok (en_writes env)" "en_delete_sync_ok env"
  using assms unfolding env_ok_def by blast+

section \<open>The invariant\<close>

definition vault_sizes :: "open_vault \<Rightarrow> bool" where
  "vault_sizes v = (length (ov_dek v) = 32 \<and> length (ov_storage_salt v) = 32 \<and> length (ov_identity v) = IDENTITY_SEED_LEN)"

definition keys_sized :: "key_slots \<Rightarrow> bool" where
  "keys_sized k = (sized 32 (ks_a_key k) \<and> sized 32 (ks_d_key k) \<and> sized 32 (ks_a_salt k) \<and> sized 32 (ks_d_salt k))"

text \<open>The data key unwraps the key the file is encrypted with.\<close>

definition wrapped_for :: "gcm \<Rightarrow> hkdf_salted \<Rightarrow> open_vault \<Rightarrow> bytes \<Rightarrow> bool" where
  "wrapped_for G H v d_key =
     (length (ov_wrapped v) = WRAP_LEN \<and>
      (\<exists>kek. derive_kek H d_key (ov_storage_salt v) = Inr kek \<and>
        gcm_decrypt G kek (take NONCE_LEN (ov_wrapped v)) (aad header WRAP_LABEL) (drop NONCE_LEN (ov_wrapped v)) = Some (ov_dek v)))"

text \<open>Opening the file with the data key gives the open vault and the keys.\<close>

definition file_opens :: "gcm \<Rightarrow> hkdf_salted \<Rightarrow> bytes \<Rightarrow> open_vault \<Rightarrow> bytes \<Rightarrow> bytes \<Rightarrow> bytes \<Rightarrow> bool" where
  "file_opens G H d_key v a_key a_salt bs =
     (\<exists>kek o' peers recs. derive_kek H d_key (ov_storage_salt v) = Inr kek \<and> vault_open G kek bs = Inr o' \<and>
        op_wrapped o' = ov_wrapped v \<and> op_dek o' = ov_dek v \<and> vc_a_key (op_contents o') = a_key \<and>
        vc_a_salt (op_contents o') = a_salt \<and> vc_identity (op_contents o') = ov_identity v \<and>
        decode_trusted_peers (vc_peers (op_contents o')) = Some peers \<and>
        config_decode (vc_config (op_contents o')) = Some (ov_config v, recs))"

definition file_contents :: "open_vault \<Rightarrow> bytes \<Rightarrow> bytes \<Rightarrow> config \<Rightarrow> trusted_peer list \<Rightarrow> (bytes \<times> socket_addr) list \<Rightarrow> vault_contents" where
  "file_contents v a_key a_salt c peers recs =
     \<lparr>vc_a_key = a_key, vc_a_salt = a_salt, vc_config = config_encode c (encode_saved recs), vc_identity = ov_identity v,
      vc_peers = trusted_peers_layout peers\<rparr>"

definition sealed_file ::
  "gcm \<Rightarrow> open_vault \<Rightarrow> bytes \<Rightarrow> bytes \<Rightarrow> config \<Rightarrow> trusted_peer list \<Rightarrow> (bytes \<times> socket_addr) list \<Rightarrow> bytes \<Rightarrow> bool" where
  "sealed_file G v a_key a_salt c peers recs bs =
     (trusted_peers_ok peers \<and> saved_ok recs \<and>
      (\<exists>dn. length dn = NONCE_LEN \<and>
        seal G (Some dn) (ov_wrapped v) (ov_dek v) (file_contents v a_key a_salt c peers recs) = Inr bs))"

definition vault_saved :: "gcm \<Rightarrow> hkdf_salted \<Rightarrow> daemon \<Rightarrow> open_vault \<Rightarrow> bool" where
  "vault_saved G H d v =
     (\<exists>a_key a_salt d_key group_salt bs.
        ks_a_key (d_keys d) = Some a_key \<and> ks_a_salt (d_keys d) = Some a_salt \<and>
        ks_d_key (d_keys d) = Some d_key \<and> ks_d_salt (d_keys d) = Some group_salt \<and>
        \<not> ks_locked (d_keys d) \<and> d_storage d \<and> vault_sizes v \<and>
        d_item_salts d = Some (salts_to_bytes \<lparr>d_salt = group_salt, storage_salt = ov_storage_salt v\<rparr>) \<and>
        wrapped_for G H v d_key \<and> d_file d = Some bs \<and> file_opens G H d_key v a_key a_salt bs)"

definition saved_inv :: "gcm \<Rightarrow> hkdf_salted \<Rightarrow> daemon \<Rightarrow> bool" where
  "saved_inv G H d =
     (keys_sized (d_keys d) \<and> trusted_peers_ok (trusted_copy d) \<and> book_inv (d_book d) \<and>
      (\<forall>v. ks_vault (d_keys d) = Some v \<longrightarrow> vault_saved G H d v))"

section \<open>Writing and reading\<close>

lemma write_vault_cases:
  assumes "write_vault env bs d = (r, d')"
  shows "r = Inr () \<Longrightarrow> d' = d\<lparr>d_file := Some bs\<rparr>" "r = Inl e \<Longrightarrow> sync_dir_ok (en_writes env) \<Longrightarrow> d' = d"
  using assms
  by (auto simp: write_vault_def write_file_atomic_def write_steps_def Let_def
      split: sum.splits option.splits if_splits prod.splits)

lemma save_file_cases:
  assumes "save_file env bs d = (r, d')"
  shows "r = Inr () \<Longrightarrow> d' = d\<lparr>d_file := Some bs\<rparr>" "r = Inl e \<Longrightarrow> sync_dir_ok (en_writes env) \<Longrightarrow> d' = d"
  using assms write_vault_cases [of env bs d]
  by (fastforce simp: save_file_def split: if_splits prod.splits sum.splits)+

lemma encoded_peers_ok: "trusted_peers_ok (trusted_copy d) \<Longrightarrow> encoded_peers d = Inr (trusted_peers_layout (trusted_copy d))"
  by (auto simp: encoded_peers_def encode_peers_layout trusted_peers_ok_def trusted_peer_ok_def list_all_iff)

lemma encoded_addresses_ok:
  assumes "book_inv (d_book d)"
  obtains recs where "saved_ok recs" "encoded_addresses d = encode_saved recs"
  using book_saved_inv [OF assms, of "trusted_copy d"] that by (simp add: encoded_addresses_def book_encode_def)

lemma seal_limits:
  assumes "seal G r w dek c = Inr bs"
  shows "length (vc_config c) \<le> MAX_CONFIG_LEN" "length (vc_peers c) \<le> MAX_PEERS_LEN"
  using assms by (auto simp: seal_def contents_encode_def and_then_eq_Inr split: if_splits)

text \<open>A file that was sealed opens, and gives back what went in.\<close>

lemma sealed_file_open:
  assumes "gcm_ok G" "sealed_file G v a_key a_salt c peers recs bs" "vault_sizes v" "length a_key = 32" "length a_salt = 32"
    and "wrapped_for G H v d_key"
  obtains kek where "derive_kek H d_key (ov_storage_salt v) = Inr kek"
    "vault_open G kek bs = Inr \<lparr>op_wrapped = ov_wrapped v, op_dek = ov_dek v, op_contents = file_contents v a_key a_salt c peers recs\<rparr>"
    "decode_trusted_peers (trusted_peers_layout peers) = Some peers" "config_decode (config_encode c (encode_saved recs)) = Some (c, recs)"
proof -
  let ?c = "file_contents v a_key a_salt c peers recs"
  let ?wn = "take NONCE_LEN (ov_wrapped v)" and ?wc = "drop NONCE_LEN (ov_wrapped v)"
  obtain dn where dn: "length dn = NONCE_LEN" "seal G (Some dn) (?wn @ ?wc) (ov_dek v) ?c = Inr bs"
    and ok: "trusted_peers_ok peers" "saved_ok recs"
    using assms(2) unfolding sealed_file_def append_take_drop_id by blast
  obtain kek where kek: "derive_kek H d_key (ov_storage_salt v) = Inr kek" and w: "length (ov_wrapped v) = WRAP_LEN"
    and un: "gcm_decrypt G kek ?wn (aad header WRAP_LABEL) ?wc = Some (ov_dek v)"
    using assms(6) unfolding wrapped_for_def by blast
  have c: "contents_ok ?c"
    using seal_limits [OF dn(2)] assms(3-5) by (simp add: contents_ok_def file_contents_def vault_sizes_def)
  from w have "length ?wn = NONCE_LEN" "length ?wc = WRAPPED_DEK_LEN" by (simp_all add: WRAP_LEN_def)
  from open_sealed [OF assms(1) c this(1) dn(1) this(2) dn(2), of kek] obtain ct
    where ct: "gcm_encrypt G (ov_dek v) dn (aad header DATA_LABEL) (sealed_plaintext ?c) = Some ct"
      and o': "vault_open G kek bs =
      and_then (map_err WrongKey (decrypt_with_aad G kek ?wc ?wn (aad header WRAP_LABEL))) (\<lambda>dek_bytes.
      and_then (ok_or Corrupt (to_array 32 dek_bytes)) (\<lambda>dek.
      and_then (map_err Corrupt (decrypt_with_aad G dek ct dn (aad header DATA_LABEL))) (\<lambda>plaintext.
      and_then (ok_or Corrupt (unpad plaintext)) (\<lambda>encoded.
      and_then (ok_or Corrupt (contents_decode encoded)) (\<lambda>contents.
      Inr \<lparr>op_wrapped = ?wn @ ?wc, op_dek = dek, op_contents = contents\<rparr>)))))" by blast
  have "vault_open G kek bs = Inr \<lparr>op_wrapped = ov_wrapped v, op_dek = ov_dek v, op_contents = ?c\<rparr>"
    unfolding o' using un gcm_okD(1) [OF assms(1) ct] assms(3) c
    by (simp add: decrypt_with_aad_def to_array_def vault_sizes_def unpad_sealed contents.dec_enc)
  with kek show thesis using trusted_codec.dec_enc [OF ok(1)] config_decode_encode [OF ok(2), of c] by (rule that)
qed

lemma sealed_file_opens:
  assumes "gcm_ok G" "sealed_file G v a_key a_salt c peers recs bs" "vault_sizes v" "length a_key = 32" "length a_salt = 32"
    and "wrapped_for G H v d_key"
  shows "file_opens G H d_key (v\<lparr>ov_config := c\<rparr>) a_key a_salt bs"
  using assms by (rule sealed_file_open) (simp add: file_opens_def file_contents_def)

section \<open>Saving again\<close>

lemma reseal_cases:
  assumes "reseal env c d = (r, d')" "env_ok G H env" "trusted_peers_ok (trusted_copy d)" "book_inv (d_book d)"
  shows "r = Inl e \<Longrightarrow> d' = d"
    and "r = Inr () \<Longrightarrow> \<exists>v a_key a_salt bs. ks_vault (d_keys d) = Some v \<and> ks_a_key (d_keys d) = Some a_key \<and>
      ks_a_salt (d_keys d) = Some a_salt \<and> d' = d\<lparr>d_file := Some bs\<rparr> \<and>
      sealed_file G v a_key a_salt (case c of None \<Rightarrow> ov_config v | Some c \<Rightarrow> c) (trusted_copy d)
        (book_saved (d_book d) (trusted_copy d)) bs"
proof -
  let ?recs = "book_saved (d_book d) (trusted_copy d)"
  have recs: "saved_ok ?recs" "encoded_addresses d = encode_saved ?recs"
    by (rule book_saved_inv [OF assms(4)]) (simp add: encoded_addresses_def book_encode_def)
  note eqs = encoded_peers_ok [OF assms(3)] recs(2)
  have env: "en_gcm env = G" "sync_dir_ok (en_writes env)" using assms(2) by (simp_all add: env_ok_def)
  show "r = Inl e \<Longrightarrow> d' = d"
    using assms(1) save_file_cases(2) [of env _ d _ _, OF _ _ env(2)]
    by (auto simp: reseal_def dtry_def dlift_def eqs Let_def split: if_splits option.splits sum.splits)
  show "\<exists>v a_key a_salt bs. ks_vault (d_keys d) = Some v \<and> ks_a_key (d_keys d) = Some a_key \<and>
      ks_a_salt (d_keys d) = Some a_salt \<and> d' = d\<lparr>d_file := Some bs\<rparr> \<and>
      sealed_file G v a_key a_salt (case c of None \<Rightarrow> ov_config v | Some c \<Rightarrow> c) (trusted_copy d)
        (book_saved (d_book d) (trusted_copy d)) bs" if r: "r = Inr ()"
  proof -
    obtain v a_key a_salt bs where k: "ks_vault (d_keys d) = Some v" "ks_a_key (d_keys d) = Some a_key" "ks_a_salt (d_keys d) = Some a_salt"
      and s: "seal G (en_rnd_seal env) (ov_wrapped v) (ov_dek v)
        (file_contents v a_key a_salt (case c of None \<Rightarrow> ov_config v | Some c \<Rightarrow> c) (trusted_copy d) ?recs) = Inr bs"
      and w: "save_file env bs d = (Inr (), d')"
      using assms(1) r
      by (auto simp: reseal_def dtry_def dlift_def eqs Let_def file_contents_def env(1)
          split: if_splits option.splits sum.splits)
    from s obtain dn where "en_rnd_seal env = Some dn" by (auto simp: seal_def and_then_eq_Inr encrypt_with_aad_Inr Let_def)
    with s recs(1) assms(2,3) have "sealed_file G v a_key a_salt (case c of None \<Rightarrow> ov_config v | Some c \<Rightarrow> c) (trusted_copy d)
        (book_saved (d_book d) (trusted_copy d)) bs"
      by (auto simp: sealed_file_def env_ok_def)
    with k save_file_cases(1) [OF w refl] show ?thesis by blast
  qed
qed

text \<open>A save of the open vault that keeps the wrapping keeps the invariant.\<close>

lemma vault_savedE:
  assumes "saved_inv G H d" "ks_vault (d_keys d) = Some v"
  obtains a_key a_salt d_key group_salt bs where
    "ks_a_key (d_keys d) = Some a_key" "ks_a_salt (d_keys d) = Some a_salt"
    "ks_d_key (d_keys d) = Some d_key" "ks_d_salt (d_keys d) = Some group_salt"
    "length a_key = 32" "length a_salt = 32" "length d_key = 32" "length group_salt = 32"
    "\<not> ks_locked (d_keys d)" "d_storage d" "vault_sizes v"
    "d_item_salts d = Some (salts_to_bytes \<lparr>d_salt = group_salt, storage_salt = ov_storage_salt v\<rparr>)"
    "wrapped_for G H v d_key" "d_file d = Some bs" "file_opens G H d_key v a_key a_salt bs"
  using assms unfolding saved_inv_def vault_saved_def keys_sized_def by (auto simp: sized_def)

lemma saved_inv_frame [simp]:
  "saved_inv G H (d\<lparr>d_network := n\<rparr>) = saved_inv G H d" "saved_inv G H (d\<lparr>d_offers := f\<rparr>) = saved_inv G H d"
  "saved_inv G H (d\<lparr>d_next_offer := i\<rparr>) = saved_inv G H d" "saved_inv G H (d\<lparr>d_waiting := w\<rparr>) = saved_inv G H d"
  "saved_inv G H (d\<lparr>d_next_id := u\<rparr>) = saved_inv G H d" "saved_inv G H (d\<lparr>d_adding := b\<rparr>) = saved_inv G H d"
  "saved_inv G H (d\<lparr>d_invite := s\<rparr>) = saved_inv G H d" "saved_inv G H (d\<lparr>d_other_group := b\<rparr>) = saved_inv G H d"
  "saved_inv G H (d\<lparr>d_next_invite := g\<rparr>) = saved_inv G H d" "saved_inv G H (d\<lparr>d_join := j\<rparr>) = saved_inv G H d"
  "saved_inv G H (d\<lparr>d_next_join := g\<rparr>) = saved_inv G H d" "saved_inv G H (d\<lparr>d_resets := g\<rparr>) = saved_inv G H d"
  "saved_inv G H (d\<lparr>d_item_data_key := x\<rparr>) = saved_inv G H d"
  "saved_inv G H (d\<lparr>d_keys := (d_keys d)\<lparr>ks_auto_login := b\<rparr>\<rparr>) = saved_inv G H d"
  "saved_inv G H (d\<lparr>d_item_data_key := x, d_keys := (d_keys d)\<lparr>ks_auto_login := b\<rparr>\<rparr>) = saved_inv G H d"
  by (simp_all add: saved_inv_def vault_saved_def trusted_copy_def keys_sized_def)

lemma saved_inv_book: "saved_inv G H d \<Longrightarrow> book_inv b \<Longrightarrow> saved_inv G H (d\<lparr>d_book := b\<rparr>)"
  by (simp add: saved_inv_def vault_saved_def trusted_copy_def)

lemma saved_inv_list:
  "saved_inv G H d \<Longrightarrow> trusted_peers_ok ps \<Longrightarrow> saved_inv G H (d\<lparr>d_lists := (d_lists d)(d_list d := ps)\<rparr>)"
  by (simp add: saved_inv_def vault_saved_def trusted_copy_def)

lemma saved_inv_D: "saved_inv G H d \<Longrightarrow> trusted_peers_ok (trusted_copy d)" "saved_inv G H d \<Longrightarrow> book_inv (d_book d)"
  by (simp_all add: saved_inv_def)

lemma reseal_inv:
  assumes "gcm_ok G" "env_ok G H env" "saved_inv G H d" "reseal env c d = (r, d')"
  shows "saved_inv G H (if r = Inr () then d'\<lparr>d_keys := (d_keys d')\<lparr>ks_vault :=
    map_option (\<lambda>v. case c of None \<Rightarrow> v | Some c \<Rightarrow> v\<lparr>ov_config := c\<rparr>) (ks_vault (d_keys d'))\<rparr>\<rparr> else d')"
proof (cases r)
  case (Inl e)
  with reseal_cases(1) [OF assms(4,2) saved_inv_D [OF assms(3)]] assms(3) show ?thesis by simp
next
  case (Inr u)
  then have r: "r = Inr ()" by simp
  from reseal_cases(2) [OF assms(4,2) saved_inv_D [OF assms(3)] this]
  obtain v a_key a_salt bs where k: "ks_vault (d_keys d) = Some v" "ks_a_key (d_keys d) = Some a_key" "ks_a_salt (d_keys d) = Some a_salt"
    and d': "d' = d\<lparr>d_file := Some bs\<rparr>"
    and f: "sealed_file G v a_key a_salt (case c of None \<Rightarrow> ov_config v | Some c \<Rightarrow> c) (trusted_copy d)
      (book_saved (d_book d) (trusted_copy d)) bs" by blast
  from assms(3) k(1) show ?thesis
  proof (rule vault_savedE)
    fix a_key' a_salt' d_key group_salt bs'
    assume *: "ks_a_key (d_keys d) = Some a_key'" "ks_a_salt (d_keys d) = Some a_salt'"
      "ks_d_key (d_keys d) = Some d_key" "ks_d_salt (d_keys d) = Some group_salt"
      "length a_key' = 32" "length a_salt' = 32" "\<not> ks_locked (d_keys d)" "d_storage d" "vault_sizes v"
      "d_item_salts d = Some (salts_to_bytes \<lparr>d_salt = group_salt, storage_salt = ov_storage_salt v\<rparr>)"
      "wrapped_for G H v d_key"
    with k have "file_opens G H d_key (v\<lparr>ov_config := case c of None \<Rightarrow> ov_config v | Some c \<Rightarrow> c\<rparr>) a_key a_salt bs"
      by (intro sealed_file_opens [OF assms(1) f]) auto
    then have "file_opens G H d_key (case c of None \<Rightarrow> v | Some c \<Rightarrow> v\<lparr>ov_config := c\<rparr>) a_key a_salt bs"
      by (cases c) simp_all
    moreover have "vault_sizes (case c of None \<Rightarrow> v | Some c \<Rightarrow> v\<lparr>ov_config := c\<rparr>)"
      "wrapped_for G H (case c of None \<Rightarrow> v | Some c \<Rightarrow> v\<lparr>ov_config := c\<rparr>) d_key"
      "ov_storage_salt (case c of None \<Rightarrow> v | Some c \<Rightarrow> v\<lparr>ov_config := c\<rparr>) = ov_storage_salt v"
      using *(9,11) by (cases c; simp add: vault_sizes_def wrapped_for_def)+
    ultimately show ?thesis
      using assms(3) * k r unfolding d' by (simp add: saved_inv_def vault_saved_def trusted_copy_def keys_sized_def)
  qed
qed

section \<open>Every operation keeps the invariant\<close>

lemma save_config_inv:
  assumes "gcm_ok G" "env_ok G H env" "saved_inv G H d"
  shows "saved_inv G H (snd (save_config env c d))"
proof -
  obtain r d' where r: "reseal env (Some c) d = (r, d')" by fastforce
  from reseal_inv [OF assms r] r show ?thesis by (cases r) (simp_all add: save_config_def dtry_def)
qed

lemma set_sync_inv:
  "gcm_ok G \<Longrightarrow> env_ok G H env \<Longrightarrow> saved_inv G H d \<Longrightarrow> saved_inv G H (snd (set_sync env on d))"
  by (auto simp: set_sync_def dtry_def dlift_def save_config_inv split: sum.splits)

lemma set_clipboard_inv:
  "gcm_ok G \<Longrightarrow> env_ok G H env \<Longrightarrow> saved_inv G H d \<Longrightarrow> saved_inv G H (snd (set_clipboard env on d))"
  by (auto simp: set_clipboard_def dtry_def dlift_def save_config_inv split: sum.splits)

lemma set_auto_login_inv: "saved_inv G H d \<Longrightarrow> saved_inv G H (snd (set_auto_login env on d))"
  by (auto simp: set_auto_login_def store_set_def store_delete_def Let_def split: option.splits call.splits)

lemma save_peers_inv:
  assumes "gcm_ok G" "env_ok G H env" "saved_inv G H d"
  shows "saved_inv G H (save_peers env d)"
proof -
  obtain r d' where r: "reseal env None d = (r, d')" by fastforce
  from reseal_inv [OF assms r] r show ?thesis
    using assms(3) by (cases r) (simp_all add: save_peers_def option.map_ident)
qed

lemma trusted_peers_ok_filter: "trusted_peers_ok ps \<Longrightarrow> trusted_peers_ok (filter P ps)"
  by (auto simp: trusted_peers_ok_def list_all_iff distinct_map_filter intro: order.trans [OF length_filter_le])

lemma book_inv_remove: "book_inv b \<Longrightarrow> book_inv (book_remove b k)"
  using book_apply_inv [of b "Remove k"] by simp

lemma insert_at_length: "i \<le> length xs \<Longrightarrow> insert_at i x xs = take i xs @ x # drop i xs"
  by (simp add: insert_at_def)

text \<open>Putting the removed devices back restores the list exactly.\<close>

lemma put_back_append:
  "put_back (filter (\<lambda>(_, p). P p) (enumerate n ps)) (rs @ filter (\<lambda>p. \<not> P p) ps) = rs @ ps" if "length rs = n"
  using that
proof (induction ps arbitrary: n rs)
  case (Cons p ps)
  show ?case
  proof (cases "P p")
    case True
    have "insert_at (min n (length (rs @ filter (\<lambda>p. \<not> P p) ps))) p (rs @ filter (\<lambda>p. \<not> P p) ps) = (rs @ [p]) @ filter (\<lambda>p. \<not> P p) ps"
      using Cons.prems by (simp add: insert_at_def)
    with Cons.IH [of "rs @ [p]" "Suc n"] Cons.prems True show ?thesis
      by (simp add: put_back_def)
  next
    case False
    with Cons.IH [of "rs @ [p]" "Suc n"] Cons.prems show ?thesis by simp
  qed
qed (simp add: put_back_def)

lemma put_back_removed:
  "put_back (removed_peers fp ps) (filter (\<lambda>p. peer_fingerprint p \<noteq> fp) ps) = ps"
  using put_back_append [of "[]" 0 "\<lambda>p. peer_fingerprint p = fp" ps] by (simp add: removed_peers_def)

lemma forget_peer_inv:
  assumes "gcm_ok G" "env_ok G H env" "saved_inv G H d"
  shows "saved_inv G H (snd (forget_peer env fp d))"
    and "fst (forget_peer env fp d) = Inl e \<Longrightarrow> snd (forget_peer env fp d) = d"
proof -
  let ?ps = "d_lists d (d_list d)" and ?qs = "filter (\<lambda>p. peer_fingerprint p \<noteq> fp) (d_lists d (d_list d))"
  let ?d = "d\<lparr>d_lists := (d_lists d)(d_list d := ?qs)\<rparr>"
  have ok: "trusted_peers_ok ?ps" using saved_inv_D(1) [OF assms(3)] by (simp add: trusted_copy_def)
  have inv: "saved_inv G H ?d" by (intro saved_inv_list assms(3) trusted_peers_ok_filter ok)
  have restored: "put_back (removed_peers fp ?ps) ?qs = ?ps" by (rule put_back_removed)
  have none: "?qs = ?ps" if "removed_peers fp ?ps = []" using restored that by (simp add: put_back_def)
  obtain r d' where r: "reseal env None ?d = (r, d')" by fastforce
  have err: "d' = ?d" if "r = Inl e'" for e'
    using reseal_cases(1) [OF r assms(2) saved_inv_D [OF inv]] that by blast
  have fine: "saved_inv G H d'"
    using reseal_inv [OF assms(1,2) inv r] by (cases r) (simp_all add: option.map_ident)
  have rm: "book_inv (fold (\<lambda>(_, p) b. book_remove b (x25519_pub_key p)) xs b)" if "book_inv b" for xs b
    using that by (induction xs arbitrary: b) (auto simp: book_inv_remove)
  have failed: "snd (forget_peer env fp d) = d" if "fst (forget_peer env fp d) = Inl e" for e
  proof (cases "ks_locked (d_keys d) \<or> removed_peers fp ?ps = []")
    case True
    with none show ?thesis by (auto simp: forget_peer_def Let_def)
  next
    case False
    with that r err have "d' = ?d" "ks_vault (d_keys d) \<noteq> None" "r = Inl e"
      by (auto simp: forget_peer_def Let_def split: sum.splits if_splits)
    with False r restored show ?thesis by (simp add: forget_peer_def Let_def)
  qed
  then show "fst (forget_peer env fp d) = Inl e \<Longrightarrow> snd (forget_peer env fp d) = d" .
  show "saved_inv G H (snd (forget_peer env fp d))"
  proof (cases "fst (forget_peer env fp d)")
    case (Inl e)
    with failed assms(3) show ?thesis by simp
  next
    case (Inr u)
    then show ?thesis
      using r inv fine rm [OF saved_inv_D(2) [OF fine]] rm [OF saved_inv_D(2) [OF inv]]
        saved_inv_book [OF fine] saved_inv_book [OF inv]
      by (auto simp: forget_peer_def Let_def split: sum.splits if_splits)
  qed
qed

text \<open>What a vault that opened says.\<close>

lemma vault_open_Inr:
  assumes "vault_open G kek bs = Inr o'"
  shows "contents_ok (op_contents o')" "length (op_dek o') = 32" "length (op_wrapped o') = WRAP_LEN"
    "gcm_decrypt G kek (take NONCE_LEN (op_wrapped o')) (aad header WRAP_LABEL) (drop NONCE_LEN (op_wrapped o')) = Some (op_dek o')"
proof -
  from assms obtain wrap wn wc dek plain enc where o': "op_wrapped o' = wrap" "op_dek o' = dek" "contents_decode enc = Some (op_contents o')"
    and w: "length wrap = WRAP_LEN" "split_first_chunk NONCE_LEN wrap = Some (wn, wc)"
    and un: "gcm_decrypt G kek wn (aad header WRAP_LABEL) wc = Some plain" "to_array 32 plain = Some dek"
    by (auto simp: vault_open_def and_then_eq_Inr decrypt_with_aad_def split_first_chunk_eq_Some)
  show "contents_ok (op_contents o')" using contents.enc_dec [OF o'(3)] by blast
  show "length (op_dek o') = 32" "length (op_wrapped o') = WRAP_LEN" using o' un(2) w(1) by (auto simp: to_array_def split: if_splits)
  have "take NONCE_LEN wrap = wn" "drop NONCE_LEN wrap = wc" using w(2) by (auto simp: split_first_chunk_eq_Some)
  with un o' show "gcm_decrypt G kek (take NONCE_LEN (op_wrapped o')) (aad header WRAP_LABEL) (drop NONCE_LEN (op_wrapped o')) = Some (op_dek o')"
    by (auto simp: to_array_def split: if_splits)
qed

lemma dtry_dlift [simp]:
  "dtry (dlift (Inr x) d) f = f x d" "dtry (dlift (Inl e) d) f = (Inl e, d)"
  by (simp_all add: dtry_def dlift_def)

lemma unlock_with_cases:
  assumes "unlock_with env get d_key d = (r, d')" "en_gcm env = G" "en_hkdf env = H"
  shows "r = Inl e \<Longrightarrow> d' = d"
    and "r = Inr () \<Longrightarrow> \<exists>s bs kek o' peers config recs. d_storage d \<and> get_salts get d = Inr s \<and> get_file env d = Inr bs \<and>
      derive_kek H d_key (storage_salt s) = Inr kek \<and> vault_open G kek bs = Inr o' \<and>
      decode_trusted_peers (vc_peers (op_contents o')) = Some peers \<and> config_decode (vc_config (op_contents o')) = Some (config, recs) \<and>
      d' = d\<lparr>d_lists := (d_lists d)(d_list d := peers), d_book := book_load (d_book d) recs,
           d_keys := (d_keys d)\<lparr>ks_a_key := Some (vc_a_key (op_contents o')), ks_a_salt := Some (vc_a_salt (op_contents o')),
             ks_d_key := Some d_key, ks_d_salt := Some (d_salt s),
             ks_vault := Some \<lparr>ov_dek = op_dek o', ov_wrapped = op_wrapped o', ov_storage_salt = storage_salt s,
               ov_config = config, ov_identity = vc_identity (op_contents o')\<rparr>,
             ks_locked := False\<rparr>\<rparr>"
  using assms
  by (auto simp: unlock_with_def dtry_def dlift_def split: sum.splits if_splits prod.splits)

lemma salts_from_bytes_sized: "salts_from_bytes bs = Some s \<Longrightarrow> length (d_salt s) = 32 \<and> length (storage_salt s) = 32 \<and> salts_to_bytes s = bs"
  using salts.enc_dec [of bs s] by (simp add: salts_ok_def)

lemma get_salts_Inr: "get_salts c d = Inr s \<Longrightarrow> length (d_salt s) = 32 \<and> length (storage_salt s) = 32 \<and> d_item_salts d = Some (salts_to_bytes s)"
  by (auto simp: get_salts_def dest: salts_from_bytes_sized split: call.splits option.splits)

lemma get_file_Inr: "get_file env d = Inr bs \<Longrightarrow> d_file d \<noteq> None"
  by (auto simp: get_file_def read_vault_def read_file_def and_then_def split: option.splits sum.splits if_splits)

text \<open>What is read is the file (it is never longer than the limit).\<close>

lemma get_file_content: "get_file env d = Inr bs \<Longrightarrow> d_file d = Some bs"
  by (auto simp: get_file_def read_vault_def read_file_def and_then_eq_Inr Let_def
      split: option.splits sum.splits if_splits stat.splits)

lemma config_decode_saved: "config_decode bs = Some (c, recs) \<Longrightarrow> saved_ok recs"
  using config_decode_v2 by (auto simp: config_decode_def saved_ok_def dest: saved_codec.enc_dec split: list.splits if_splits)

lemma unlock_with_inv:
  assumes "env_ok G H env" "saved_inv G H d" "length d_key = 32" "unlock_with env get d_key d = (r, d')"
  shows "saved_inv G H d'"
proof (cases r)
  case (Inl e)
  with unlock_with_cases(1) [OF assms(4)] assms(1,2) show ?thesis by (simp add: env_ok_def)
next
  case (Inr u)
  have env: "en_gcm env = G" "en_hkdf env = H" using assms(1) by (simp_all add: env_ok_def)
  from unlock_with_cases(2) [OF assms(4) env] Inr
  obtain s bs kek o' peers config recs where st: "d_storage d" and s: "get_salts get d = Inr s" and f: "get_file env d = Inr bs"
    and k: "derive_kek H d_key (storage_salt s) = Inr kek" "vault_open G kek bs = Inr o'"
    and p: "decode_trusted_peers (vc_peers (op_contents o')) = Some peers" "config_decode (vc_config (op_contents o')) = Some (config, recs)"
    and d': "d' = d\<lparr>d_lists := (d_lists d)(d_list d := peers), d_book := book_load (d_book d) recs,
           d_keys := (d_keys d)\<lparr>ks_a_key := Some (vc_a_key (op_contents o')), ks_a_salt := Some (vc_a_salt (op_contents o')),
             ks_d_key := Some d_key, ks_d_salt := Some (d_salt s),
             ks_vault := Some \<lparr>ov_dek = op_dek o', ov_wrapped = op_wrapped o', ov_storage_salt = storage_salt s,
               ov_config = config, ov_identity = vc_identity (op_contents o')\<rparr>,
             ks_locked := False\<rparr>\<rparr>" by auto
  note o' = vault_open_Inr [OF k(2)]
  have peers: "trusted_peers_ok peers" using trusted_codec.enc_dec [OF p(1)] by blast
  have book: "book_inv (book_load (d_book d) recs)" by (rule book_inv_load [OF config_decode_saved [OF p(2)]])
  let ?v = "\<lparr>ov_dek = op_dek o', ov_wrapped = op_wrapped o', ov_storage_salt = storage_salt s,
               ov_config = config, ov_identity = vc_identity (op_contents o')\<rparr>"
  have "file_opens G H d_key ?v (vc_a_key (op_contents o')) (vc_a_salt (op_contents o')) bs"
    using k p by (simp add: file_opens_def)
  moreover have "wrapped_for G H ?v d_key" "vault_sizes ?v"
    using o' k(1) get_salts_Inr [OF s] by (simp_all add: wrapped_for_def vault_sizes_def contents_ok_def)
  ultimately have "vault_saved G H d' ?v"
    using st get_salts_Inr [OF s] get_file_content [OF f] unfolding d' by (simp add: vault_saved_def salts_to_bytes_def)
  then show ?thesis
    using peers book o' get_salts_Inr [OF s] assms(3) unfolding d'
    by (simp add: saved_inv_def trusted_copy_def keys_sized_def contents_ok_def)
qed

lemma saved_inv_count [simp]: "saved_inv G H (d\<lparr>d_keys := count_unlock t r (d_keys d)\<rparr>) = saved_inv G H d"
  by (auto simp: saved_inv_def vault_saved_def trusted_copy_def keys_sized_def count_unlock_def Let_def split: sum.splits)

lemma derive_sized: "env_ok G H env \<Longrightarrow> derive env pw salt = Inr key \<Longrightarrow> length key = 32"
  by (auto simp: derive_def derive_key_def env_ok_def sized_def split: if_splits option.splits)

lemma unlock_inv:
  assumes "env_ok G H env" "saved_inv G H d"
  shows "saved_inv G H (snd (unlock env pw d))"
  using assms unlock_with_inv [OF assms(1,2) derive_sized [OF assms(1)]]
  by (auto simp: unlock_def dtry_def dlift_def split: sum.splits prod.splits)

lemma wrap_dek_wrapped:
  assumes "gcm_ok G" "derive_kek H d_key (ov_storage_salt v) = Inr kek" "wrap_dek G r kek (ov_dek v) = Inr (ov_wrapped v)"
    and "sized NONCE_LEN r"
  shows "wrapped_for G H v d_key"
  using assms(3)
proof (rule wrap_dek_Inr)
  fix n c
  assume *: "r = Some n" "ov_wrapped v = n @ c" "gcm_encrypt G kek n (aad header WRAP_LABEL) (ov_dek v) = Some c" "length c = WRAPPED_DEK_LEN"
  with assms(2,4) gcm_okD(1) [OF assms(1) *(3)] show ?thesis by (simp add: wrapped_for_def WRAP_LEN_def)
qed

lemma seal_random: "seal G r w dek c = Inr bs \<Longrightarrow> \<exists>dn. r = Some dn"
  by (auto simp: seal_def and_then_eq_Inr encrypt_with_aad_Inr Let_def)

lemma sealed_fileI:
  assumes "seal G r (ov_wrapped v) (ov_dek v) (file_contents v a_key a_salt c peers recs) = Inr bs" "sized NONCE_LEN r"
    and "trusted_peers_ok peers" "saved_ok recs"
  shows "sealed_file G v a_key a_salt c peers recs bs"
  using assms seal_random [OF assms(1)] by (auto simp: sealed_file_def)

text \<open>Creating the vault from keys that are in memory.\<close>

lemma prepare_vault_Inr:
  assumes "gcm_ok G" "env_ok G H env" "prepare_vault env ident c a_key a_salt d_key ds (trusted_peers_layout peers) (encode_saved recs) = Inr (s, bs, v)"
    and "sized IDENTITY_SEED_LEN ident" "length a_key = 32" "length a_salt = 32" "trusted_peers_ok peers" "saved_ok recs"
  shows "s = \<lparr>d_salt = ds, storage_salt = ov_storage_salt v\<rparr> \<and> vault_sizes v \<and> wrapped_for G H v d_key \<and>
    ov_config v = c \<and> file_opens G H d_key v a_key a_salt bs"
proof -
  from assms(3) obtain ss dek kek wrapped i where
    r: "en_rnd_storage_salt env = Some ss" "en_rnd_dek env = Some dek" "derive_kek H d_key ss = Inr kek"
      "wrap_dek G (en_rnd_wrap env) kek dek = Inr wrapped"
      "(case ident of Some i \<Rightarrow> Inr i | None \<Rightarrow> ok_or Crypto (en_rnd_identity env)) = Inr i"
      "seal G (en_rnd_seal env) wrapped dek \<lparr>vc_a_key = a_key, vc_a_salt = a_salt, vc_config = config_encode c (encode_saved recs),
          vc_identity = i, vc_peers = trusted_peers_layout peers\<rparr> = Inr bs"
    and s: "s = \<lparr>d_salt = ds, storage_salt = ss\<rparr>"
    and v: "v = \<lparr>ov_dek = dek, ov_wrapped = wrapped, ov_storage_salt = ss, ov_config = c, ov_identity = i\<rparr>"
    using assms(2) by (auto simp: prepare_vault_def and_then_eq_Inr generate_dek_def env_ok_def)
  have sizes: "vault_sizes v"
    using r(1,2,5) assms(2,4) unfolding v by (auto simp: vault_sizes_def env_ok_def split: option.splits)
  have w: "wrapped_for G H v d_key"
    using r(3,4) env_okD(6) [OF assms(2)] by (intro wrap_dek_wrapped [OF assms(1)]) (simp_all add: v)
  have "sealed_file G v a_key a_salt c peers recs bs"
    using r(6) env_okD(7) [OF assms(2)] assms(7,8) by (intro sealed_fileI [of G "en_rnd_seal env"]) (simp_all add: v file_contents_def)
  from sealed_file_opens [OF assms(1) this sizes assms(5,6) w] sizes w s show ?thesis by (simp add: v)
qed

lemma create_vault_cases:
  assumes "trusted_peers_ok (trusted_copy d)" "encoded_addresses d = encode_saved recs" "sync_dir_ok (en_writes env)"
  shows "(\<exists>x. create_vault env ident c d = d\<lparr>d_item_salts := x\<rparr>) \<or>
    (\<exists>a_key a_salt d_key ds s bs v. ks_a_key (d_keys d) = Some a_key \<and> ks_a_salt (d_keys d) = Some a_salt \<and>
      ks_d_key (d_keys d) = Some d_key \<and> ks_d_salt (d_keys d) = Some ds \<and> d_storage d \<and>
      prepare_vault env ident c a_key a_salt d_key ds (trusted_peers_layout (trusted_copy d)) (encode_saved recs) = Inr (s, bs, v) \<and>
      create_vault env ident c d = d\<lparr>d_item_salts := Some (salts_to_bytes s), d_file := Some bs,
        d_keys := (d_keys d)\<lparr>ks_vault := Some v\<rparr>\<rparr>)"
proof (cases "\<exists>a_key a_salt d_key ds s bs v. ks_a_key (d_keys d) = Some a_key \<and> ks_a_salt (d_keys d) = Some a_salt \<and>
      ks_d_key (d_keys d) = Some d_key \<and> ks_d_salt (d_keys d) = Some ds \<and> d_storage d \<and>
      prepare_vault env ident c a_key a_salt d_key ds (trusted_peers_layout (trusted_copy d)) (encode_saved recs) = Inr (s, bs, v) \<and>
      en_set env ItemSalts = CallOk \<and> \<not> en_write_panics env")
  case True
  then obtain a_key a_salt d_key ds s bs v where
    k: "ks_a_key (d_keys d) = Some a_key" "ks_a_salt (d_keys d) = Some a_salt" "ks_d_key (d_keys d) = Some d_key"
      "ks_d_salt (d_keys d) = Some ds" "d_storage d"
    and p: "prepare_vault env ident c a_key a_salt d_key ds (trusted_peers_layout (trusted_copy d)) (encode_saved recs) = Inr (s, bs, v)"
    and ok: "en_set env ItemSalts = CallOk" "\<not> en_write_panics env" by blast
  obtain r d' where w: "write_vault env bs (d\<lparr>d_item_salts := Some (salts_to_bytes s)\<rparr>) = (r, d')" by fastforce
  have e: "create_vault env ident c d = (case r of Inl _ \<Rightarrow> d' | Inr _ \<Rightarrow> map_keys (\<lambda>k. k\<lparr>ks_vault := Some v\<rparr>) d')"
    by (simp add: create_vault_def k encoded_peers_ok [OF assms(1)] assms(2) p ok store_set_def w split: sum.splits)
  show ?thesis
  proof (cases r)
    case (Inl x)
    with write_vault_cases(2) [OF w _ assms(3)] show ?thesis by (auto simp: e)
  next
    case (Inr u)
    with write_vault_cases(1) [OF w] k p show ?thesis by (auto simp: e)
  qed
next
  case False
  have triv: "\<exists>x. d = d\<lparr>d_item_salts := x\<rparr>" by (intro exI [of _ "d_item_salts d"]) simp
  have "\<exists>x. create_vault env ident c d = d\<lparr>d_item_salts := x\<rparr>"
    using False triv
    by (auto simp: create_vault_def encoded_peers_ok [OF assms(1)] assms(2) store_set_def Let_def
        split: option.splits sum.splits if_splits)
  then show ?thesis ..
qed

lemma create_vault_inv:
  assumes "gcm_ok G" "env_ok G H env" "saved_inv G H d" "ks_vault (d_keys d) = None" "\<not> ks_locked (d_keys d)"
    and "sized IDENTITY_SEED_LEN ident"
  shows "saved_inv G H (create_vault env ident c d)"
proof -
  obtain recs where recs: "saved_ok recs" "encoded_addresses d = encode_saved recs"
    using encoded_addresses_ok [OF saved_inv_D(2) [OF assms(3)]] .
  from create_vault_cases [OF saved_inv_D(1) [OF assms(3)] recs(2) env_okD(9) [OF assms(2)], of ident c]
  show ?thesis
  proof (elim disjE exE conjE)
    fix x assume "create_vault env ident c d = d\<lparr>d_item_salts := x\<rparr>"
    with assms(3,4) show ?thesis by (simp add: saved_inv_def vault_saved_def trusted_copy_def)
  next
    fix a_key a_salt d_key ds s bs v
    assume *: "ks_a_key (d_keys d) = Some a_key" "ks_a_salt (d_keys d) = Some a_salt" "ks_d_key (d_keys d) = Some d_key"
      "ks_d_salt (d_keys d) = Some ds" "d_storage d"
      and p: "prepare_vault env ident c a_key a_salt d_key ds (trusted_peers_layout (trusted_copy d)) (encode_saved recs) = Inr (s, bs, v)"
      and e: "create_vault env ident c d = d\<lparr>d_item_salts := Some (salts_to_bytes s), d_file := Some bs,
        d_keys := (d_keys d)\<lparr>ks_vault := Some v\<rparr>\<rparr>"
    have len: "length a_key = 32" "length a_salt = 32" using assms(3) * by (simp_all add: saved_inv_def keys_sized_def)
    from prepare_vault_Inr [OF assms(1,2) p assms(6) len saved_inv_D(1) [OF assms(3)] recs(1)] * assms(3,5)
    show ?thesis by (simp add: e saved_inv_def vault_saved_def trusted_copy_def keys_sized_def)
  qed
qed

lemma saved_inv_changed:
  assumes "gcm_ok G" "saved_inv G H d" "ks_vault (d_keys d) = Some v" "ks_a_salt (d_keys d) = Some a_salt" "ks_d_key (d_keys d) = Some old_d_key"
    and "v' = v\<lparr>ov_wrapped := w\<rparr>" "wrapped_for G H v' d_key" "length a_key = 32" "length d_key = 32"
    and "sealed_file G v' a_key a_salt (ov_config v) peers recs bs"
  shows "saved_inv G H (d\<lparr>d_file := Some bs, d_keys := (d_keys d)\<lparr>ks_a_key := Some a_key, ks_d_key := Some d_key, ks_vault := Some v'\<rparr>\<rparr>)"
  using assms(2,3)
proof (rule vault_savedE)
  fix a_key0 a_salt0 d_key0 group_salt bs0
  assume *: "ks_a_salt (d_keys d) = Some a_salt0" "ks_d_salt (d_keys d) = Some group_salt" "length a_salt0 = 32"
      "\<not> ks_locked (d_keys d)" "d_storage d" "vault_sizes v"
      "d_item_salts d = Some (salts_to_bytes \<lparr>d_salt = group_salt, storage_salt = ov_storage_salt v\<rparr>)"
  have v': "vault_sizes v'" "ov_storage_salt v' = ov_storage_salt v" "ov_config v' = ov_config v"
    using *(6) assms(6) by (simp_all add: vault_sizes_def)
  have "file_opens G H d_key (v'\<lparr>ov_config := ov_config v\<rparr>) a_key a_salt bs"
    using * assms(4) by (intro sealed_file_opens [OF assms(1,10) v'(1) assms(8) _ assms(7)]) simp
  then have "file_opens G H d_key v' a_key a_salt bs" using assms(6) by simp
  with * v' assms(2,4,7-9) show ?thesis
    by (simp add: saved_inv_def vault_saved_def trusted_copy_def keys_sized_def)
qed

lemma renew_auto_login_frame:
  "\<exists>x a. renew_auto_login env key d = d\<lparr>d_item_data_key := x, d_keys := (d_keys d)\<lparr>ks_auto_login := a\<rparr>\<rparr>"
proof -
  consider "\<not> ks_auto_login (d_keys d)" | "ks_auto_login (d_keys d)" "en_set env ItemDataKey = CallOk"
    | "ks_auto_login (d_keys d)" "en_set env ItemDataKey \<noteq> CallOk" "en_del env ItemDataKey = CallOk"
    | "ks_auto_login (d_keys d)" "en_set env ItemDataKey \<noteq> CallOk" "en_del env ItemDataKey \<noteq> CallOk" by blast
  then show ?thesis
  proof cases
    case 1
    then show ?thesis
      by (intro exI [of _ "d_item_data_key d"] exI [of _ "ks_auto_login (d_keys d)"]) (simp add: renew_auto_login_def)
  next
    case 2
    then show ?thesis
      by (intro exI [of _ "Some key"] exI [of _ "ks_auto_login (d_keys d)"])
         (simp add: renew_auto_login_def store_set_def)
  next
    case 3
    then show ?thesis
      by (intro exI [of _ None] exI [of _ False]) (simp add: renew_auto_login_def store_delete_def)
  next
    case 4
    then show ?thesis
      by (intro exI [of _ "d_item_data_key d"] exI [of _ False]) (simp add: renew_auto_login_def store_delete_def)
  qed
qed

lemma save_changed_key_cases:
  assumes "gcm_ok G" "env_ok G H env" "saved_inv G H d" "ks_vault (d_keys d) = Some v" "length key = 32"
    and "save_changed_key env kind key d = (r, d')"
  shows "r = Inl e \<Longrightarrow> d' = d"
    and "r = Inr () \<Longrightarrow> saved_inv G H (map_keys (\<lambda>k. case kind of AuthKind \<Rightarrow> k\<lparr>ks_a_key := Some key\<rparr> | DataKind \<Rightarrow> k\<lparr>ks_d_key := Some key\<rparr>) d')"
proof -
  obtain recs where recs: "saved_ok recs" "encoded_addresses d = encode_saved recs"
    using encoded_addresses_ok [OF saved_inv_D(2) [OF assms(3)]] .
  note peers = saved_inv_D(1) [OF assms(3)]
  note env = env_okD [OF assms(2)]
  from assms(3,4) obtain a_key a_salt d_key where k: "ks_a_key (d_keys d) = Some a_key" "ks_a_salt (d_keys d) = Some a_salt"
    "ks_d_key (d_keys d) = Some d_key" "length a_key = 32" "length d_key = 32" "d_storage d" "wrapped_for G H v d_key"
    by (rule vault_savedE)
  note eqs = save_changed_key_def encoded_peers_ok [OF peers] recs(2) assms(4) k(1,2,6) env(1,2)
  show "d' = d" if "r = Inl e"
    using assms(6) that save_file_cases(2) [of env _ d _ _, OF _ _ env(9)]
    by (cases kind) (auto simp: eqs dtry_def dlift_def Let_def split: sum.splits if_splits prod.splits)
  show "saved_inv G H (map_keys (\<lambda>k. case kind of AuthKind \<Rightarrow> k\<lparr>ks_a_key := Some key\<rparr> | DataKind \<Rightarrow> k\<lparr>ks_d_key := Some key\<rparr>) d')"
    if r: "r = Inr ()"
  proof (cases kind)
    case AuthKind
    then obtain bs where s: "seal G (en_rnd_seal env) (ov_wrapped v) (ov_dek v) (file_contents v key a_salt (ov_config v) (trusted_copy d) recs) = Inr bs"
      and w: "save_file env bs d = (Inr (), d')"
      using assms(6) r by (auto simp: eqs dtry_def dlift_def Let_def file_contents_def split: sum.splits prod.splits)
    have f: "sealed_file G v key a_salt (ov_config v) (trusted_copy d) recs bs" by (rule sealed_fileI [OF s env(7) peers recs(1)])
    have "v = v\<lparr>ov_wrapped := ov_wrapped v\<rparr>" by simp
    from saved_inv_changed [OF assms(1,3,4) k(2,3) this k(7) assms(5) k(5) f]
    show ?thesis unfolding save_file_cases(1) [OF w refl] AuthKind using assms(4) k(3)
      by (simp add: saved_inv_def vault_saved_def trusted_copy_def keys_sized_def)
  next
    case DataKind
    then obtain kek w bs d1 where kek: "derive_kek H key (ov_storage_salt v) = Inr kek"
      and wr: "wrap_dek G (en_rnd_wrap env) kek (ov_dek v) = Inr w"
      and s: "seal G (en_rnd_seal env) w (ov_dek v) (file_contents v a_key a_salt (ov_config v) (trusted_copy d) recs) = Inr bs"
      and f: "save_file env bs d = (Inr (), d1)"
      and d': "d' = renew_auto_login env key (map_keys (\<lambda>k. k\<lparr>ks_vault := map_option (\<lambda>v. v\<lparr>ov_wrapped := w\<rparr>) (ks_vault k)\<rparr>) d1)"
      using assms(6) r
      by (auto simp: eqs dtry_def dlift_def Let_def file_contents_def split: sum.splits prod.splits if_splits)
    let ?v = "v\<lparr>ov_wrapped := w\<rparr>"
    have wf: "wrapped_for G H ?v key" using kek wr env(6) by (intro wrap_dek_wrapped [OF assms(1)]) simp_all
    have sf: "sealed_file G ?v a_key a_salt (ov_config v) (trusted_copy d) recs bs"
      using s env(7) peers recs(1) by (intro sealed_fileI [of G "en_rnd_seal env"]) (simp_all add: file_contents_def)
    note inv = saved_inv_changed [OF assms(1,3,4) k(2,3) refl wf k(4) assms(5) sf]
    from renew_auto_login_frame [of env key "d\<lparr>d_file := Some bs, d_keys := (d_keys d)\<lparr>ks_vault := Some ?v\<rparr>\<rparr>"]
    obtain x a where d': "d' = d\<lparr>d_file := Some bs, d_item_data_key := x,
        d_keys := (d_keys d)\<lparr>ks_vault := Some ?v, ks_auto_login := a\<rparr>\<rparr>"
      unfolding d' save_file_cases(1) [OF f refl] using assms(4) by auto
    from inv show ?thesis
      unfolding d' DataKind using k(1) by (simp add: saved_inv_def vault_saved_def trusted_copy_def keys_sized_def)
  qed
qed


lemma save_changed_key_vault:
  assumes "save_changed_key env kind key d = (r, d')"
  shows "ks_vault (d_keys d') = None \<longleftrightarrow> ks_vault (d_keys d) = None"
proof -
  have save: "d_keys d2 = d_keys d1" if "save_file env bs d1 = (r', d2)" for bs d1 r' d2
    using that by (auto simp: save_file_def write_vault_def split: if_splits prod.splits sum.splits)
  have renew: "ks_vault (d_keys (renew_auto_login env key d1)) = ks_vault (d_keys d1)" for d1
    using renew_auto_login_frame [of env key d1] by auto
  show ?thesis
    using assms save
    by (auto simp: save_changed_key_def dtry_def dlift_def Let_def renew split: if_splits sum.splits option.splits prod.splits)
qed

lemma book_inv_keys_changed: "book_inv b \<Longrightarrow> book_inv (keys_changed b)"
  using book_apply_inv [of b KeysChanged] by simp

lemma update_network_keys_keeps [simp]:
  "d_keys (update_network_keys d) = d_keys d" "d_file (update_network_keys d) = d_file d" "trusted_copy (update_network_keys d) = trusted_copy d"
  by (simp_all add: update_network_keys_def trusted_copy_def split: option.split)

lemma update_network_keys_inv: "saved_inv G H d \<Longrightarrow> saved_inv G H (update_network_keys d)"
  using book_inv_keys_changed [OF saved_inv_D(2), of G H d]
  by (auto simp: update_network_keys_def saved_inv_def vault_saved_def trusted_copy_def split: option.split)

lemma salt_for_cases:
  assumes "salt_for env kind d = (r, d')" "env_ok G H env" "saved_inv G H d"
  shows "saved_inv G H d'" "ks_vault (d_keys d') = ks_vault (d_keys d)" "ks_locked (d_keys d') = ks_locked (d_keys d)"
    "d_file d' = d_file d" "trusted_copy d' = trusted_copy d"
proof -
  have salts: "\<exists>a g. ks_a_salt (d_keys d) = Some a \<and> ks_d_salt (d_keys d) = Some g" if "ks_vault (d_keys d) = Some v" for v
    using assms(3) that by (rule vault_savedE) blast
  show "saved_inv G H d'"
  proof (cases "ks_vault (d_keys d)")
    case None
    then show ?thesis
      using assms env_okD(3) [OF assms(2)]
      by (auto simp: salt_for_def saved_inv_def keys_sized_def trusted_copy_def split: option.splits key_kind.splits)
  next
    case (Some v)
    with salts assms(1,3) show ?thesis by (cases kind) (auto simp: salt_for_def)
  qed
  show "ks_vault (d_keys d') = ks_vault (d_keys d)" "ks_locked (d_keys d') = ks_locked (d_keys d)"
    "d_file d' = d_file d" "trusted_copy d' = trusted_copy d"
    using assms(1) by (auto simp: salt_for_def trusted_copy_def split: option.splits key_kind.splits)
qed

text \<open>A new key on a device without a vault.\<close>

lemma saved_inv_new_key:
  assumes "saved_inv G H d" "ks_vault (d_keys d) = None" "length key = 32"
  shows "saved_inv G H (map_keys (\<lambda>k. case kind of AuthKind \<Rightarrow> k\<lparr>ks_a_key := Some key\<rparr> | DataKind \<Rightarrow> k\<lparr>ks_d_key := Some key\<rparr>) d)"
  using assms by (cases kind) (simp_all add: saved_inv_def keys_sized_def trusted_copy_def)

text \<open>The steps of a password change by name.\<close>

definition new_key :: "key_kind \<Rightarrow> bytes \<Rightarrow> daemon \<Rightarrow> daemon" where
  "new_key kind key d = map_keys (\<lambda>k. case kind of AuthKind \<Rightarrow> k\<lparr>ks_a_key := Some key\<rparr> | DataKind \<Rightarrow> k\<lparr>ks_d_key := Some key\<rparr>) d"

definition first_vault :: "daemon_env \<Rightarrow> daemon \<Rightarrow> daemon" where
  "first_vault env d = (if ks_vault (d_keys d) = None then create_vault env None config_default d else d)"

lemma set_password_eq:
  "set_password env kind pw d =
    (if password_chars pw < MIN_NEW_PASSWORD_LEN then (Inl WeakPassword, d)
     else if ks_locked (d_keys d) then (Inl Locked, d)
     else dtry (salt_for env kind d) (\<lambda>salt d. dtry (dlift (derive env pw salt) d) (\<lambda>key d.
       dtry (if ks_vault (d_keys d) \<noteq> None then save_changed_key env kind key d else (Inr (), d)) (\<lambda>_ d.
         (Inr (), first_vault env (update_network_keys (new_key kind key d)))))))"
  by (simp add: set_password_def new_key_def first_vault_def Let_def)

lemma new_key_keeps [simp]:
  "d_network (new_key kind key d) = d_network d" "d_list (new_key kind key d) = d_list d" "d_lists (new_key kind key d) = d_lists d"
  "ks_vault (d_keys (new_key kind key d)) = ks_vault (d_keys d)" "ks_a_salt (d_keys (new_key kind key d)) = ks_a_salt (d_keys d)"
  "ks_locked (d_keys (new_key kind key d)) = ks_locked (d_keys d)" "\<not> is_fresh (new_key kind key d)"
  "ks_a_key (d_keys d) \<noteq> None \<Longrightarrow> ks_a_key (d_keys (new_key kind key d)) \<noteq> None"
  "ks_d_key (d_keys d) \<noteq> None \<Longrightarrow> ks_d_key (d_keys (new_key kind key d)) \<noteq> None"
  by (cases kind; simp add: new_key_def is_fresh_def Let_def)+

lemma set_password_inv:
  assumes "gcm_ok G" "env_ok G H env" "saved_inv G H d"
  shows "saved_inv G H (snd (set_password env kind pw d))"
proof -
  have fin: "saved_inv G H (first_vault env (update_network_keys (new_key kind key d2)))"
    if "saved_inv G H (new_key kind key d2)" "\<not> ks_locked (d_keys d2)" for key d2
    using update_network_keys_inv [OF that(1)] that(2) create_vault_inv [OF assms(1,2), of "update_network_keys (new_key kind key d2)" None]
    by (simp add: first_vault_def)
  obtain r1 d1 where salt: "salt_for env kind d = (r1, d1)" by fastforce
  note s = salt_for_cases [OF salt assms(2,3)]
  show ?thesis
  proof (cases "password_chars pw < MIN_NEW_PASSWORD_LEN \<or> ks_locked (d_keys d)")
    case True
    with assms(3) show ?thesis by (auto simp: set_password_eq)
  next
    case False
    show ?thesis
    proof (cases "\<exists>salt key. r1 = Inr salt \<and> derive env pw salt = Inr key")
      case no: False
      with False s(1) show ?thesis by (auto simp: set_password_eq salt dtry_def dlift_def split: sum.splits)
    next
      case True
      then obtain x key where x: "r1 = Inr x" "derive env pw x = Inr key" by blast
      note len = derive_sized [OF assms(2) x(2)]
      show ?thesis
      proof (cases "ks_vault (d_keys d1)")
        case None
        then have "saved_inv G H (new_key kind key d1)" unfolding new_key_def by (rule saved_inv_new_key [OF s(1) _ len])
        with None False x fin s(3) show ?thesis by (simp add: set_password_eq salt dtry_def dlift_def)
      next
        case (Some v)
        obtain r2 d2 where c: "save_changed_key env kind key d1 = (r2, d2)" by fastforce
        note cases = save_changed_key_cases [OF assms(1,2) s(1) Some len c]
        show ?thesis
        proof (cases r2)
          case (Inl e)
          with cases(1) False x s(1) Some c show ?thesis by (simp add: set_password_eq salt dtry_def dlift_def)
        next
          case (Inr u)
          then have inv: "saved_inv G H (new_key kind key d2)" using cases(2) unfolding new_key_def by simp
          have "ks_vault (d_keys d2) \<noteq> None"
            using save_changed_key_vault [OF c] Some by simp
          then have "\<not> ks_locked (d_keys d2)" using inv by (auto simp: saved_inv_def vault_saved_def)
          with fin [OF inv] False x Some c Inr show ?thesis by (simp add: set_password_eq salt dtry_def dlift_def)
        qed
      qed
    qed
  qed
qed

end
