(* ===== verification/Daemon_Run.thy ===== *)
theory Daemon_Run
  imports Daemon_Saved
begin

text \<open>
  Runs of the daemon: the events that reach it (requests over IPC, what its background tasks and
  the connections report) in any order, and what holds in every state a run can reach: the saved
  state, the network that follows it, and the handles of the lists of paired devices.
\<close>

section \<open>Events\<close>

text \<open>What the pairing bridge of a network gets: a handshake asks, a pairing was saved in the list,
  a paired device moved, networking ended.\<close>

datatype bridge_event = PairingAsked pairing_request | PairingSaved | PeerMoved | BridgeEnds

definition pairing_bridge :: "daemon_env \<Rightarrow> (pairing_request \<Rightarrow> bool) \<Rightarrow> bridge_event \<Rightarrow> daemon \<Rightarrow> daemon" where
  "pairing_bridge env expired ev d =
     (case ev of
        PairingAsked request \<Rightarrow> snd (queue_pairing expired request d)
      | PairingSaved \<Rightarrow> save_peers env d
      | PeerMoved \<Rightarrow> save_peers env d
      | BridgeEnds \<Rightarrow> save_peers env d)"

text \<open>A handshake saves a device in the list its network was started with (\<open>list_handle\<close>); the book is
  shared with every connection. \<open>SaltOffered\<close> is the rest of an \<open>open_invite\<close> that was overtaken,
  \<open>OtherGroupFound\<close> what the search of a window reports (\<open>on_found\<close>), \<open>JoinNetworks\<close> the rest of a
  \<open>commit_join\<close>, which runs without the change slot. A step \<open>JoinNetworks\<close> stands for the moment
  the network is stored (\<open>store_network\<close>); it takes what the code copied a little earlier
  (\<open>copy_network\<close>) to be still what the daemon holds. A change that falls between the copy and
  the store is not a run here; what it leads to is shown in \<open>Daemon_Props\<close>, with the two halves as
  separate steps.\<close>

datatype daemon_event =
    Ask request
  | Bridge bridge_event
  | DevicePaired nat trusted_peer
  | BookChanged book_op
  | ListenerFailed
  | InviteOpens
  | SaltOffered nat bytes
  | OtherGroupFound
  | InviteOver u64
  | JoinCommits joined bytes u64
  | JoinNetworks
  | JoinOver u64

definition daemon_step :: "daemon_env \<Rightarrow> (pairing_request \<Rightarrow> bool) \<Rightarrow> daemon_event \<Rightarrow> daemon \<Rightarrow> daemon" where
  "daemon_step env expired ev d =
     (case ev of
        Ask request \<Rightarrow> snd (handle_request env expired request d)
      | Bridge b \<Rightarrow> pairing_bridge env expired b d
      | DevicePaired list_handle p \<Rightarrow>
          d\<lparr>d_lists := (d_lists d)(list_handle := snd (save_peer (d_lists d list_handle) p))\<rparr>
      | BookChanged op \<Rightarrow> d\<lparr>d_book := book_apply op (en_now env) (d_book d)\<rparr>
      | ListenerFailed \<Rightarrow> listener_failed d
      | InviteOpens \<Rightarrow> snd (open_invite env d)
      | SaltOffered offer group_salt \<Rightarrow> offer_salt offer group_salt d
      | OtherGroupFound \<Rightarrow> d\<lparr>d_other_group := True\<rparr>
      | InviteOver generation \<Rightarrow> snd (end_invite (Some generation) d)
      | JoinCommits j ident resets \<Rightarrow> snd (commit_join env j ident resets d)
      | JoinNetworks \<Rightarrow> apply_network env d
      | JoinOver generation \<Rightarrow> end_join generation d)"

text \<open>What connections can report: devices and keys of the right form; the book is changed by the
  connections only in four ways; lists are those of networks that were started.\<close>

fun book_report :: "book_op \<Rightarrow> bool" where
  "book_report (Seen key a) = (length key = 32)"
| "book_report (DataOk key) = (length key = 32)"
| "book_report (SetState key st) = (length key = 32)"
| "book_report (WrongPasswordAt ip we) = True"
| "book_report _ = False"

definition joined_ok :: "joined \<Rightarrow> bool" where
  "joined_ok j = (length (jn_a_key j) = 32 \<and> length (jn_a_salt j) = 32 \<and> length (jn_d_key j) = 32 \<and> length (jn_d_salt j) = 32 \<and>
     trusted_peer_ok (jn_peer j))"

text \<open>A handshake asks with the name it read and the code it derived.\<close>

definition asked_ok :: "pairing_request \<Rightarrow> bool" where
  "asked_ok r = (utf8_valid (pr_name r) \<and> valid_peer_name (pr_name r) \<and> length (pr_code r) = PAIRING_CODE_LEN \<and> code_is_valid (pr_code r))"

fun event_ok :: "nat set \<Rightarrow> daemon_event \<Rightarrow> bool" where
  "event_ok hs (DevicePaired h p) = (h \<in> hs \<and> trusted_peer_ok p)"
| "event_ok hs (Bridge (PairingAsked r)) = asked_ok r"
| "event_ok hs (BookChanged op) = book_report op"
| "event_ok hs (JoinCommits j ident resets) = (joined_ok j \<and> length ident = IDENTITY_SEED_LEN)"
| "event_ok hs _ = True"

text \<open>The lists given to networks.\<close>

definition network_lists :: "daemon \<Rightarrow> nat set" where
  "network_lists d = (case d_network d of None \<Rightarrow> {} | Some n \<Rightarrow> {nw_list n})"

text \<open>States a daemon can reach, with every list it gave to a network.\<close>

inductive daemon_run :: "gcm \<Rightarrow> hkdf_salted \<Rightarrow> daemon \<Rightarrow> nat set \<Rightarrow> bool" for G H where
  start: "env_ok G H env \<Longrightarrow> d = daemon_start env (daemon_new storage vault_bytes salts_item key_item clipboard) \<Longrightarrow>
    daemon_run G H d (network_lists d)"
| step: "daemon_run G H d hs \<Longrightarrow> env_ok G H env \<Longrightarrow> event_ok hs ev \<Longrightarrow> d' = daemon_step env expired ev d \<Longrightarrow>
    daemon_run G H d' (hs \<union> network_lists d')"

section \<open>The saved state\<close>

lemma start_network_frame: "saved_inv G H (start_network env ident d) = saved_inv G H d"
  by (simp add: start_network_defs split: option.split)

lemma end_invite_frame: "saved_inv G H (snd (end_invite g d)) = saved_inv G H d"
  by (simp add: end_invite_def split: option.split)

lemma stop_network_frame: "saved_inv G H (stop_network d) = saved_inv G H d"
  by (simp add: stop_network_def end_invite_frame split: option.split)

lemma apply_network_frame: "saved_inv G H (apply_network env d) = saved_inv G H d"
  by (simp add: apply_network_def start_network_frame stop_network_frame split: option.split bool.split)

lemma cancel_join_frame: "saved_inv G H (cancel_join d) = saved_inv G H d"
  by (simp add: cancel_join_def finish_join_def split: option.split)

lemma end_join_frame: "saved_inv G H (end_join g d) = saved_inv G H d"
  by (simp add: end_join_def finish_join_def split: option.split)

lemma prune_frame: "saved_inv G H (prune e d) = saved_inv G H d"
  by (simp add: prune_def)

lemma queue_pairing_frame: "saved_inv G H (snd (queue_pairing e r d)) = saved_inv G H d"
  by (simp add: queue_pairing_def prune_frame Let_def)

lemma open_invite_frame: "saved_inv G H (snd (open_invite env d)) = saved_inv G H d"
  by (simp add: open_invite_def Let_def split: option.split)

lemma offer_salt_frame: "saved_inv G H (offer_salt i s d) = saved_inv G H d"
  by (simp add: offer_salt_def)

lemma stop_add_device_frame: "saved_inv G H (stop_add_device d) = saved_inv G H d"
  using end_invite_frame [of G H None d] by (auto simp: stop_add_device_def split: prod.split)

lemma add_device_frame: "saved_inv G H (snd (add_device env d)) = saved_inv G H d"
  using open_invite_frame [of G H env d] by (auto simp: add_device_def dtry_def offer_salt_frame split: prod.split sum.split option.split)

lemma join_group_frame: "saved_inv G H (snd (join_group env d)) = saved_inv G H d"
  by (simp add: join_group_def Let_def split: option.split)

lemma listener_failed_frame: "saved_inv G H (listener_failed d) = saved_inv G H d"
  by (simp add: listener_failed_def)

lemmas saved_frames = apply_network_frame cancel_join_frame end_join_frame prune_frame queue_pairing_frame open_invite_frame
  offer_salt_frame stop_add_device_frame add_device_frame join_group_frame listener_failed_frame end_invite_frame


lemma reset_device_inv:
  assumes "saved_inv G H d" "env_ok G H env"
  shows "saved_inv G H (snd (reset_device env d))"
proof -
  let ?d = "stop_network (cancel_join (d\<lparr>d_resets := d_resets d + 1\<rparr>))"
  have inv: "saved_inv G H ?d" using assms by (simp add: stop_network_frame cancel_join_frame)
  have fresh: "saved_inv G H (d\<lparr>d_keys := key_slots_default, d_lists := (d_lists d)(i := []), d_list := i, d_book := book_clear (d_book d),
      d_waiting := w, d_other_group := b\<rparr>)" for d i w b
    by (simp add: saved_inv_def trusted_copy_def key_slots_default_def keys_sized_def trusted_peers_ok_def book_clear_def)
  have items: "saved_inv G H (snd (delete_items env is d))" if "saved_inv G H d" "ks_vault (d_keys d) = None" for "is" d
    using that
  proof (induction "is" arbitrary: d)
    case (Cons i "is")
    have "saved_inv G H (store_delete CallOk i d)" "ks_vault (d_keys (store_delete CallOk i d)) = None"
      using Cons.prems by (cases i; simp add: store_delete_def saved_inv_def trusted_copy_def)+
    with Cons show ?case by simp
  qed simp
  have no_vault: "ks_vault key_slots_default = None" by (simp add: key_slots_default_def)
  obtain r d' where del: "delete_vault env ?d = (r, d')" by fastforce
  have failed: "d' = ?d" if "r = Inl e" for e
    using del that env_okD(10) [OF assms(2)] by (auto simp: delete_vault_def delete_file_def split: if_splits sum.splits option.splits)
  show ?thesis
    using del failed inv items fresh
    by (cases r) (auto simp: reset_device_def dtry_def Let_def no_vault simp del: delete_items.simps)
qed


lemma change_inv:
  assumes "gcm_ok G" "env_ok G H env" "saved_inv G H d"
  shows "saved_inv G H (snd (change env request d))"
  using set_password_inv [OF assms] unlock_inv [OF assms(2,3)] set_auto_login_inv [OF assms(3)] set_sync_inv [OF assms]
    set_clipboard_inv [OF assms] forget_peer_inv(1) [OF assms] reset_device_inv [OF assms(3,2)] assms(3)
  by (cases request) (simp_all add: change_def apply_network_frame case_prod_beta)

lemma handle_request_inv:
  assumes "gcm_ok G" "env_ok G H env" "saved_inv G H d"
  shows "saved_inv G H (snd (handle_request env expired request d))"
  using change_inv [OF assms] assms(3)
  by (cases request)
     (simp_all add: handle_request_def case_prod_beta daemon_status_def pending_pairing_def answer_pairing_def Let_def saved_frames
       split: option.splits)

lemma commit_join_inv:
  assumes "gcm_ok G" "env_ok G H env" "saved_inv G H d" "joined_ok j" "length ident = IDENTITY_SEED_LEN"
    and "is_fresh d \<Longrightarrow> trusted_copy d = []"
  shows "saved_inv G H (snd (commit_join env j ident resets d))"
proof (cases "d_resets d = resets \<and> is_fresh d")
  case True
  let ?d = "d\<lparr>d_keys := (d_keys d)\<lparr>ks_a_key := Some (jn_a_key j), ks_a_salt := Some (jn_a_salt j), ks_d_key := Some (jn_d_key j),
      ks_d_salt := Some (jn_d_salt j)\<rparr>,
    d_book := snd (seen (d_book d) (x25519_pub_key (jn_peer j)) (jn_addr j)),
    d_lists := (d_lists d)(d_list d := d_lists d (d_list d) @ [jn_peer j])\<rparr>"
  have "book_inv (snd (seen (d_book d) (x25519_pub_key (jn_peer j)) (jn_addr j)))"
    using book_apply_inv [of "d_book d" "Seen (x25519_pub_key (jn_peer j)) (jn_addr j)"] saved_inv_D(2) [OF assms(3)] assms(4)
    by (simp add: joined_ok_def trusted_peer_ok_def)
  then have inv: "saved_inv G H ?d"
    using assms(3,4,6) True
    by (simp add: saved_inv_def is_fresh_def Let_def keys_sized_def trusted_copy_def joined_ok_def trusted_peers_ok_def MAX_TRUSTED_PEERS_def)
  have "saved_inv G H (create_vault env (Some ident) c ?d)" for c
    using True assms(5) by (intro create_vault_inv [OF assms(1,2) inv]) (simp_all add: is_fresh_def Let_def)
  with True show ?thesis by (simp add: commit_join_def Let_def)
next
  case False
  with assms(3) show ?thesis by (auto simp: commit_join_def)
qed

lemma save_peer_ok: "trusted_peers_ok qs \<Longrightarrow> trusted_peer_ok p \<Longrightarrow> trusted_peers_ok (snd (save_peer qs p))"
  by (auto simp: save_peer_def trusted_peers_ok_def list_ex_key)

lemma book_report_ok: "book_report op \<Longrightarrow> book_op_ok op"
  by (cases op) simp_all

lemma daemon_step_inv:
  assumes "gcm_ok G" "env_ok G H env" "saved_inv G H d" "event_ok hs ev" "is_fresh d \<Longrightarrow> trusted_copy d = []"
  shows "saved_inv G H (daemon_step env expired ev d)"
proof (cases ev)
  case (DevicePaired h p)
  with assms(3,4) save_peer_ok [of "trusted_copy d" p] show ?thesis
    by (cases "h = d_list d") (simp_all add: daemon_step_def saved_inv_def vault_saved_def trusted_copy_def)
next
  case (BookChanged op)
  with assms(3,4) book_apply_inv [OF saved_inv_D(2) [OF assms(3)] book_report_ok, of op "en_now env"] show ?thesis
    by (simp add: daemon_step_def saved_inv_book)
next
  case (JoinCommits j ident resets)
  with commit_join_inv [OF assms(1-3) _ _ assms(5)] assms(4) show ?thesis by (simp add: daemon_step_def)
next
  case (Bridge b)
  with save_peers_inv [OF assms(1-3)] assms(3) show ?thesis
    by (cases b) (simp_all add: daemon_step_def pairing_bridge_def queue_pairing_frame)
qed (use handle_request_inv [OF assms(1-3)] assms(3) in \<open>simp_all add: daemon_step_def saved_frames\<close>)


section \<open>The network and the lists\<close>

text \<open>What a running network uses is what the daemon holds.\<close>

definition network_current :: "daemon \<Rightarrow> bool" where
  "network_current d =
     (case d_network d of
        None \<Rightarrow> True
      | Some n \<Rightarrow> nw_running n \<longrightarrow>
          map_option ov_identity (ks_vault (d_keys d)) = Some (nw_identity n) \<and> ks_a_key (d_keys d) = Some (ak_a_key (nw_keys n)) \<and>
          ks_a_salt (d_keys d) = Some (ak_a_salt (nw_keys n)) \<and> ks_d_key (d_keys d) = Some (nw_d_key n) \<and> nw_list n = d_list d)"

definition network_ok :: "daemon \<Rightarrow> bool" where
  "network_ok d = (network_current d \<and> (net_running d \<longrightarrow> network_wanted d \<noteq> None))"

definition lists_ok :: "daemon \<Rightarrow> nat set \<Rightarrow> bool" where
  "lists_ok d hs =
     ((is_fresh d \<longrightarrow> trusted_copy d = []) \<and> (\<forall>h \<in> hs. h \<le> d_list d \<and> (h = d_list d \<longrightarrow> ks_vault (d_keys d) \<noteq> None)))"

text \<open>Operations that leave the group of the device, its network and its list handle alone.\<close>

definition same_group :: "daemon \<Rightarrow> daemon \<Rightarrow> bool" where
  "same_group d d' =
     (d_network d' = d_network d \<and> d_list d' = d_list d \<and> ks_a_key (d_keys d') = ks_a_key (d_keys d) \<and>
      ks_a_salt (d_keys d') = ks_a_salt (d_keys d) \<and> ks_d_key (d_keys d') = ks_d_key (d_keys d) \<and>
      ks_d_salt (d_keys d') = ks_d_salt (d_keys d) \<and> ks_locked (d_keys d') = ks_locked (d_keys d) \<and>
      map_option ov_identity (ks_vault (d_keys d')) = map_option ov_identity (ks_vault (d_keys d)) \<and>
      (trusted_copy d = [] \<longrightarrow> trusted_copy d' = []))"

lemma same_group_refl [simp]: "same_group d d"
  by (simp add: same_group_def)

lemma same_group_trans: "same_group d d1 \<Longrightarrow> same_group d1 d2 \<Longrightarrow> same_group d d2"
  by (simp add: same_group_def)

lemma same_group_vault: "same_group d d' \<Longrightarrow> ks_vault (d_keys d') = None \<longleftrightarrow> ks_vault (d_keys d) = None"
  unfolding same_group_def by (metis option.map_disc_iff)

lemma same_group_lists: "same_group d d' \<Longrightarrow> lists_ok d hs \<Longrightarrow> lists_ok d' hs"
  using same_group_vault [of d d'] by (auto simp: lists_ok_def same_group_def is_fresh_def Let_def)

lemma same_group_network: "same_group d d' \<Longrightarrow> network_current d' = network_current d"
  by (cases "d_network d") (simp_all add: same_group_def network_current_def)

text \<open>Frames of the smaller operations.\<close>

lemma save_file_same: "same_group d (snd (save_file env bs d))"
  by (auto simp: save_file_def write_vault_def same_group_def trusted_copy_def split: prod.split sum.split)

lemma reseal_same: "same_group d (snd (reseal env c d))"
  by (auto simp: reseal_def dtry_def dlift_def Let_def save_file_same split: option.split sum.split)

lemma same_group_simps [simp]:
  "same_group d (d\<lparr>d_waiting := w\<rparr>)" "same_group d (d\<lparr>d_offers := f\<rparr>)" "same_group d (d\<lparr>d_adding := b\<rparr>)"
  "same_group d (d\<lparr>d_book := bk\<rparr>)" "same_group d (d\<lparr>d_other_group := b\<rparr>)" "same_group d (d\<lparr>d_join := j\<rparr>)" "same_group d (d\<lparr>d_next_join := g\<rparr>)"
  "same_group d (d\<lparr>d_next_join := g, d_join := j\<rparr>)" "same_group d (d\<lparr>d_resets := g\<rparr>)" "same_group d (d\<lparr>d_join := j, d_waiting := w\<rparr>)"
  "same_group d (d\<lparr>d_next_id := i, d_waiting := w\<rparr>)" "same_group d (d\<lparr>d_invite := s, d_offers := f, d_adding := b\<rparr>)"
  "same_group d (d\<lparr>d_invite := s, d_offers := f, d_adding := b, d_waiting := w\<rparr>)"
  "same_group d (d\<lparr>d_adding := b, d_other_group := b', d_next_invite := g, d_invite := s\<rparr>)"
  "same_group d (d\<lparr>d_adding := b, d_other_group := b', d_next_invite := g, d_invite := s, d_offers := f\<rparr>)"
  "same_group d (d\<lparr>d_item_data_key := k, d_keys := (d_keys d)\<lparr>ks_auto_login := b\<rparr>\<rparr>)"
  by (simp_all add: same_group_def trusted_copy_def)

lemma queue_pairing_same: "same_group d (snd (queue_pairing e r d))"
  by (simp add: queue_pairing_def prune_def Let_def)

lemma end_invite_same: "same_group d (snd (end_invite g d))"
  by (simp add: end_invite_def split: option.split)

lemma stop_add_device_same: "same_group d (stop_add_device d)"
  by (auto simp: stop_add_device_def end_invite_def split: option.split)

lemma open_invite_same: "same_group d (snd (open_invite env d))"
  by (simp add: open_invite_def Let_def split: option.split)

lemma add_device_same: "same_group d (snd (add_device env d))"
  by (auto simp: add_device_def open_invite_def offer_salt_def dtry_def Let_def split: option.split)

lemma join_group_same: "same_group d (snd (join_group env d))"
  by (simp add: join_group_def Let_def split: option.split)

lemma cancel_join_same: "same_group d (cancel_join d)"
  by (simp add: cancel_join_def finish_join_def split: option.split)

lemma end_join_same: "same_group d (end_join g d)"
  by (simp add: end_join_def finish_join_def split: option.split)

lemma save_peers_same: "same_group d (save_peers env d)"
  by (simp add: save_peers_def reseal_same)

lemma save_config_same: "same_group d (snd (save_config env c d))"
proof -
  obtain r d' where r: "reseal env (Some c) d = (r, d')" by fastforce
  have "same_group d' (map_keys (\<lambda>k. k\<lparr>ks_vault := map_option (\<lambda>v. v\<lparr>ov_config := c\<rparr>) (ks_vault k)\<rparr>) d')"
    by (simp add: same_group_def trusted_copy_def option.map_comp comp_def)
  from same_group_trans [OF _ this] reseal_same [of d env "Some c"] show ?thesis
    by (simp add: save_config_def r dtry_def split: sum.split)
qed

lemma set_sync_same: "same_group d (snd (set_sync env on d))"
  by (simp add: set_sync_def dtry_def dlift_def save_config_same split: sum.split)

lemma set_clipboard_same: "same_group d (snd (set_clipboard env on d))"
  by (simp add: set_clipboard_def dtry_def dlift_def save_config_same split: sum.split)

lemma set_auto_login_same: "same_group d (snd (set_auto_login env on d))"
  by (simp add: set_auto_login_def store_set_def store_delete_def Let_def split: option.split call.split)

lemma forget_peer_same: "same_group d (snd (forget_peer env fp d))"
proof -
  let ?d = "d\<lparr>d_lists := (d_lists d)(d_list d := filter (\<lambda>p. peer_fingerprint p \<noteq> fp) (d_lists d (d_list d)))\<rparr>"
  have 1: "same_group d ?d" by (simp add: same_group_def trusted_copy_def)
  obtain r d' where r: "reseal env None ?d = (r, d')" by fastforce
  have 2: "same_group d d'" using same_group_trans [OF 1 reseal_same [of ?d env None]] r by simp
  have 3: "same_group d (d1\<lparr>d_book := b\<rparr>)" if "same_group d d1" for d1 b
    using that same_group_trans [OF that same_group_simps(4)] by simp
  have none: "removed_peers fp [] = []" by (simp add: removed_peers_def)
  have 4: "same_group d (d'\<lparr>d_lists := (d_lists d')(d_list d := put_back (removed_peers fp (d_lists d (d_list d))) xs)\<rparr>)"
    if "removed_peers fp (d_lists d (d_list d)) \<noteq> []" for xs
    using 2 that none by (auto simp: same_group_def trusted_copy_def)
  show ?thesis
    using 1 2 3 4 r by (auto simp: forget_peer_def Let_def split: sum.split)
qed


text \<open>The three parts of the invariant for an operation, before networking is applied.\<close>

definition group_ok :: "daemon \<Rightarrow> nat set \<Rightarrow> bool" where
  "group_ok d hs = (network_current d \<and> lists_ok d hs \<and> network_lists d \<subseteq> hs)"

lemma same_group_ok: "same_group d d' \<Longrightarrow> group_ok d hs \<Longrightarrow> group_ok d' hs"
  using same_group_lists [of d d' hs] same_group_network [of d d'] by (simp add: group_ok_def network_lists_def) (simp add: same_group_def)

lemma start_network_cases:
  "start_network env ident d = d \<or>
   (\<exists>a_key a_salt d_key. ks_a_key (d_keys d) = Some a_key \<and> ks_a_salt (d_keys d) = Some a_salt \<and> ks_d_key (d_keys d) = Some d_key \<and>
     start_network env ident d =
       d\<lparr>d_network := Some \<lparr>nw_running = True, nw_keys = \<lparr>ak_a_key = a_key, ak_a_salt = a_salt\<rparr>, nw_d_key = d_key,
           nw_identity = ident, nw_list = d_list d, nw_offer = d_next_offer d\<rparr>,
         d_offers := (d_offers d)(d_next_offer d := None), d_next_offer := d_next_offer d + 1, d_adding := False\<rparr>)"
  by (auto simp: start_network_defs split: option.split)

lemma network_wanted_Some:
  "network_wanted d = Some ident \<longleftrightarrow> (\<exists>v. ks_vault (d_keys d) = Some v \<and> cfg_sync (ov_config v) \<and> \<not> ks_locked (d_keys d) \<and>
     ks_a_key (d_keys d) \<noteq> None \<and> ks_d_key (d_keys d) \<noteq> None \<and> ident = ov_identity v)"
  by (auto simp: network_wanted_def Let_def split: option.splits if_splits)

lemma end_invite_frames:
  "\<exists>i f b. snd (end_invite g d) = d\<lparr>d_invite := i, d_offers := f, d_adding := b\<rparr>"
proof -
  have "\<exists>i f b. d = d\<lparr>d_invite := i, d_offers := f, d_adding := b\<rparr>"
    by (intro exI [of _ "d_invite d"] exI [of _ "d_offers d"] exI [of _ "d_adding d"]) simp
  then show ?thesis unfolding end_invite_def by (auto split: option.split)
qed

lemma stop_network_frames:
  "stop_network d = d \<and> d_network d = None \<or> (\<exists>i f. stop_network d = d\<lparr>d_network := None, d_invite := i, d_offers := f, d_adding := False, d_waiting := []\<rparr>)"
proof (cases "d_network d")
  case (Some n)
  obtain i f b where "snd (end_invite None (d\<lparr>d_network := None\<rparr>)) = d\<lparr>d_network := None, d_invite := i, d_offers := f, d_adding := b\<rparr>"
    using end_invite_frames [of None "d\<lparr>d_network := None\<rparr>"] by auto
  then show ?thesis by (auto simp: stop_network_def Some)
qed (simp add: stop_network_def)

lemma stop_network_keeps:
  "d_keys (stop_network d) = d_keys d" "d_lists (stop_network d) = d_lists d" "d_list (stop_network d) = d_list d"
  "d_network (stop_network d) = None" "d_file (stop_network d) = d_file d" "d_book (stop_network d) = d_book d"
  "d_resets (stop_network d) = d_resets d" "d_storage (stop_network d) = d_storage d"
  "d_item_salts (stop_network d) = d_item_salts d" "d_item_data_key (stop_network d) = d_item_data_key d"
  using stop_network_frames [of d] by auto

lemma start_network_keeps:
  "d_keys (start_network env i d) = d_keys d" "d_lists (start_network env i d) = d_lists d" "d_list (start_network env i d) = d_list d"
  "d_file (start_network env i d) = d_file d" "d_book (start_network env i d) = d_book d" "d_resets (start_network env i d) = d_resets d"
  "d_storage (start_network env i d) = d_storage d"
  "d_item_salts (start_network env i d) = d_item_salts d" "d_item_data_key (start_network env i d) = d_item_data_key d"
  using start_network_cases [of env i d] by auto

lemma apply_network_keeps [simp]:
  "d_keys (apply_network env d) = d_keys d" "d_lists (apply_network env d) = d_lists d" "d_list (apply_network env d) = d_list d"
  "d_file (apply_network env d) = d_file d" "d_book (apply_network env d) = d_book d" "d_resets (apply_network env d) = d_resets d"
  "d_item_salts (apply_network env d) = d_item_salts d" "d_item_data_key (apply_network env d) = d_item_data_key d"
  "d_storage (apply_network env d) = d_storage d"
  by (cases "network_wanted d"; cases "net_running d"; simp add: apply_network_def start_network_keeps stop_network_keeps)+

lemma network_wanted_keys: "d_keys d' = d_keys d \<Longrightarrow> network_wanted d' = network_wanted d"
  by (simp add: network_wanted_def)

lemma fresh_keys: "d_keys d' = d_keys d \<Longrightarrow> is_fresh d' = is_fresh d"
  by (simp add: is_fresh_def)

lemma lists_ok_keys: "d_keys d' = d_keys d \<Longrightarrow> d_lists d' = d_lists d \<Longrightarrow> d_list d' = d_list d \<Longrightarrow> lists_ok d' hs = lists_ok d hs"
  using fresh_keys [of d' d] by (simp add: lists_ok_def trusted_copy_def)

lemma lists_ok_Un: "lists_ok d hs \<Longrightarrow> lists_ok d hs' \<Longrightarrow> lists_ok d (hs \<union> hs')"
  by (simp add: lists_ok_def ball_Un)

lemma lists_ok_new: "lists_ok d hs \<Longrightarrow> ks_vault (d_keys d) \<noteq> None \<Longrightarrow> lists_ok d {d_list d}"
  by (simp add: lists_ok_def)

lemma lists_ok_mono: "lists_ok d hs \<Longrightarrow> hs' \<subseteq> hs \<Longrightarrow> lists_ok d hs'"
  by (auto simp: lists_ok_def)

lemma apply_network_ok:
  assumes "group_ok d hs"
  shows "network_ok (apply_network env d)" "group_ok (apply_network env d) (hs \<union> network_lists (apply_network env d))"
proof -
  let ?d = "apply_network env d"
  have cur: "network_current d" and lists: "lists_ok d hs" and nl: "network_lists d \<subseteq> hs" using assms by (simp_all add: group_ok_def)
  have wanted: "network_wanted ?d = network_wanted d" by (rule network_wanted_keys) simp
  consider (start) ident where "network_wanted d = Some ident" "\<not> net_running d" "?d = start_network env ident d"
    | (stop) "network_wanted d = None" "net_running d" "?d = stop_network d"
    | (rest) "?d = d" "net_running d \<longrightarrow> network_wanted d \<noteq> None"
    by (cases "network_wanted d"; cases "net_running d") (auto simp: apply_network_def)
  then have ok: "network_current ?d \<and> (net_running ?d \<longrightarrow> network_wanted d \<noteq> None) \<and>
      (network_lists ?d \<subseteq> hs \<or> network_lists ?d = {d_list d} \<and> ks_vault (d_keys d) \<noteq> None)"
  proof cases
    case start
    then obtain v where v: "ks_vault (d_keys d) = Some v" "ident = ov_identity v" by (auto simp: network_wanted_Some)
    from start_network_cases [of env ident d] show ?thesis
    proof
      assume "start_network env ident d = d"
      with start(2) cur nl show ?thesis unfolding start(3) by simp
    next
      assume "\<exists>a_key a_salt d_key. ks_a_key (d_keys d) = Some a_key \<and> ks_a_salt (d_keys d) = Some a_salt \<and> ks_d_key (d_keys d) = Some d_key \<and>
        start_network env ident d = d\<lparr>d_network := Some \<lparr>nw_running = True, nw_keys = \<lparr>ak_a_key = a_key, ak_a_salt = a_salt\<rparr>, nw_d_key = d_key,
           nw_identity = ident, nw_list = d_list d, nw_offer = d_next_offer d\<rparr>,
         d_offers := (d_offers d)(d_next_offer d := None), d_next_offer := d_next_offer d + 1, d_adding := False\<rparr>"
      with v start(1) show ?thesis unfolding start(3) by (auto simp: network_current_def network_lists_def)
    qed
  next
    case stop
    then show ?thesis by (simp add: network_current_def stop_network_keeps network_lists_def net_running_def)
  next
    case rest
    with cur nl show ?thesis by simp
  qed
  then show "network_ok ?d" by (simp add: network_ok_def wanted)
  have "lists_ok d (network_lists ?d)"
    using ok lists_ok_mono [OF lists, of "network_lists ?d"] lists_ok_new [OF lists] by (elim conjE disjE) simp_all
  with lists have "lists_ok d (hs \<union> network_lists ?d)" by (rule lists_ok_Un)
  then have "lists_ok ?d (hs \<union> network_lists ?d)" by (simp add: lists_ok_keys [of ?d d])
  with ok show "group_ok ?d (hs \<union> network_lists ?d)" by (simp add: group_ok_def)
qed


lemma not_running_current: "\<not> net_running d \<Longrightarrow> network_current d"
  by (simp add: net_running_def network_current_def split: option.splits)

lemma network_ok_no_vault: "network_ok d \<Longrightarrow> ks_vault (d_keys d) = None \<or> ks_locked (d_keys d) \<Longrightarrow> \<not> net_running d"
  by (auto simp: network_ok_def network_wanted_Some split: option.splits)

lemma current_no_vault: "network_current d \<Longrightarrow> ks_vault (d_keys d) = None \<Longrightarrow> \<not> net_running d"
  by (simp add: net_running_def network_current_def split: option.splits)

lemma same_network:
  "d_network d' = d_network d \<Longrightarrow> net_running d' = net_running d" "d_network d' = d_network d \<Longrightarrow> network_lists d' = network_lists d"
  by (simp_all add: net_running_def network_lists_def)

text \<open>The device gets keys while no network runs.\<close>

lemma group_ok_opened:
  assumes "group_ok d hs" "\<not> net_running d" "d_network d' = d_network d" "d_list d' = d_list d" "\<not> is_fresh d'"
    and "ks_vault (d_keys d) \<noteq> None \<Longrightarrow> ks_vault (d_keys d') \<noteq> None"
  shows "group_ok d' hs"
proof -
  have "network_current d'" by (rule not_running_current) (simp add: same_network [OF assms(3)] assms(2))
  moreover have "lists_ok d' hs" using assms(1,4-6) by (simp add: group_ok_def lists_ok_def)
  ultimately show ?thesis using assms(1,3) same_network(2) [OF assms(3)] by (simp add: group_ok_def)
qed

lemma before_guess: "get_salts c d \<noteq> Inl WrongPassword" "derive env pw salt \<noteq> Inl WrongPassword"
  by (auto simp: get_salts_def derive_def ok_or_def map_err_def split: call.splits option.splits sum.splits)

lemma unlock_cases:
  assumes "unlock env pw d = (r, d')"
  obtains (refused) e where "r = Inl e" "e \<noteq> WrongPassword" "d' = d"
    | (failed) e where "r = Inl e" "d' = map_keys (count_unlock (en_later env) (Inl e)) d"
    | (opened) d_key s d1 where "r = Inr ()" "ks_locked (d_keys d)" "get_salts (en_get env ItemSalts) d = Inr s"
        "derive env pw (d_salt s) = Inr d_key" "unlock_with env (en_get_again env ItemSalts) d_key d = (Inr (), d1)"
        "d' = map_keys (count_unlock (en_later env) (Inr ())) d1"
proof (cases "\<exists>s d_key. d_storage d \<and> ks_locked (d_keys d) \<and> wait_secs (ks_unlock_not_before (d_keys d)) (en_now env) = 0 \<and>
    get_salts (en_get env ItemSalts) d = Inr s \<and> derive env pw (d_salt s) = Inr d_key")
  case True
  then obtain s d_key where s: "d_storage d" "ks_locked (d_keys d)" "wait_secs (ks_unlock_not_before (d_keys d)) (en_now env) = 0"
    "get_salts (en_get env ItemSalts) d = Inr s" "derive env pw (d_salt s) = Inr d_key" by blast
  obtain r1 d1 where u: "unlock_with env (en_get_again env ItemSalts) d_key d = (r1, d1)" by fastforce
  with s assms have r: "r = r1" "d' = map_keys (count_unlock (en_later env) r1) d1" by (auto simp: unlock_def)
  show ?thesis
  proof (cases r1)
    case (Inl e)
    with r unlock_with_cases(1) [OF u refl refl] failed show ?thesis by simp
  next
    case (Inr x)
    with r s u opened show ?thesis by simp
  qed
next
  case False
  with assms have "d' = d \<and> (\<exists>e. r = Inl e \<and> e \<noteq> WrongPassword)"
    using before_guess(1) [of "en_get env ItemSalts" d] before_guess(2) [of env pw]
    by (auto simp: unlock_def word_gt_0 dtry_def dlift_def split: sum.splits if_splits)
  with refused show ?thesis by blast
qed

lemma unlock_group_ok:
  assumes "network_ok d" "group_ok d hs"
  shows "group_ok (snd (unlock env pw d)) hs"
proof -
  obtain r d' where u: "unlock env pw d = (r, d')" by fastforce
  have count: "same_group d (map_keys (count_unlock t r) d)" for t r
    by (simp add: same_group_def count_unlock_def trusted_copy_def Let_def split: sum.split)
  from u have "group_ok d' hs"
  proof (cases rule: unlock_cases)
    case refused
    with assms(2) show ?thesis by simp
  next
    case failed
    with same_group_ok [OF count assms(2)] show ?thesis by simp
  next
    case (opened d_key s d1)
    then have "\<not> net_running d" using network_ok_no_vault [OF assms(1)] by blast
    moreover have "d_network d1 = d_network d" "d_list d1 = d_list d" "ks_vault (d_keys d1) \<noteq> None"
      using unlock_with_cases(2) [OF opened(5) refl refl refl] by auto
    ultimately show ?thesis
      unfolding opened(6) by (intro group_ok_opened [OF assms(2)]) (auto simp: is_fresh_def count_unlock_def)
  qed
  with u show ?thesis by simp
qed

lemma reset_group_ok:
  assumes "group_ok d hs"
  shows "group_ok (snd (reset_device env d)) hs"
proof -
  let ?d = "stop_network (cancel_join (d\<lparr>d_resets := d_resets d + 1\<rparr>))"
  have c: "same_group d (cancel_join (d\<lparr>d_resets := d_resets d + 1\<rparr>))" by (rule same_group_trans [OF _ cancel_join_same]) simp
  have l: "lists_ok ?d hs" "d_list ?d = d_list d" "d_network ?d = None"
    using same_group_lists [OF c, of hs] assms c lists_ok_keys [of ?d "cancel_join (d\<lparr>d_resets := d_resets d + 1\<rparr>)" hs]
    by (simp_all add: group_ok_def stop_network_keeps) (simp add: same_group_def)
  have items: "d_network (snd (delete_items env is d)) = d_network d \<and> d_list (snd (delete_items env is d)) = d_list d \<and>
      d_lists (snd (delete_items env is d)) = d_lists d \<and> d_keys (snd (delete_items env is d)) = d_keys d" for "is" d
  proof (induction "is" arbitrary: d)
    case (Cons i "is")
    show ?case using Cons [of "store_delete CallOk i d"] by (cases i) (simp_all add: store_delete_def)
  qed simp
  obtain r d' where del: "delete_vault env ?d = (r, d')" by fastforce
  then have d': "d_network d' = None" "d_list d' = d_list d" "d_lists d' = d_lists ?d" "d_keys d' = d_keys ?d"
    using l(2,3) by (auto simp: delete_vault_def split: if_splits sum.splits prod.splits)
  show ?thesis
  proof (cases r)
    case (Inl e)
    have "lists_ok d' hs" using lists_ok_keys [of d' ?d hs] d' l by simp
    with Inl d' show ?thesis by (simp add: reset_device_def dtry_def del group_ok_def network_current_def network_lists_def)
  next
    case (Inr u)
    let ?d2 = "snd (reset_device env d)"
    have "d_network ?d2 = None" "d_list ?d2 = d_list d + 1" "trusted_copy ?d2 = []"
      using Inr d' by (simp_all add: reset_device_def dtry_def del Let_def items trusted_copy_def del: delete_items.simps)
    moreover from this have "lists_ok ?d2 hs" using assms by (auto simp: group_ok_def lists_ok_def)
    ultimately show ?thesis by (simp add: group_ok_def network_current_def network_lists_def)
  qed
qed

lemma create_vault_frame:
  "d_network (create_vault env ident c d) = d_network d" "d_list (create_vault env ident c d) = d_list d"
  "d_lists (create_vault env ident c d) = d_lists d" "ks_locked (d_keys (create_vault env ident c d)) = ks_locked (d_keys d)"
  "ks_a_key (d_keys (create_vault env ident c d)) = ks_a_key (d_keys d)" "ks_d_key (d_keys (create_vault env ident c d)) = ks_d_key (d_keys d)"
  "ks_vault (d_keys d) \<noteq> None \<Longrightarrow> ks_vault (d_keys (create_vault env ident c d)) \<noteq> None"
  "ks_a_salt (d_keys (create_vault env ident c d)) = ks_a_salt (d_keys d)" "ks_d_salt (d_keys (create_vault env ident c d)) = ks_d_salt (d_keys d)"
  by (auto simp: create_vault_def store_set_def write_vault_def Let_def
      split: option.split sum.split prod.split)


lemma create_vault_fresh: "is_fresh (create_vault env ident c d) \<Longrightarrow> is_fresh d"
  using create_vault_frame(7) [of d env ident c] unfolding is_fresh_def Let_def create_vault_frame by blast

text \<open>A device without a vault runs no network, so keys can come and go.\<close>

lemma current_if_no_vault: "network_current d \<Longrightarrow> ks_vault (d_keys d) = None \<Longrightarrow> d_network d' = d_network d \<Longrightarrow> network_current d'"
  using current_no_vault [of d] not_running_current [of d'] same_network(1) [of d' d] by blast

lemma update_network_keys_current:
  assumes "network_current d0" "ks_vault (d_keys d0) \<noteq> None \<Longrightarrow> d_network d = d_network d0"
    and "d_list d = d_list d0" "map_option ov_identity (ks_vault (d_keys d)) = map_option ov_identity (ks_vault (d_keys d0))"
    and "ks_vault (d_keys d0) = None \<Longrightarrow> \<not> net_running d"
    and "ks_a_key (d_keys d) \<noteq> None" "ks_a_salt (d_keys d) \<noteq> None" "ks_d_key (d_keys d) \<noteq> None"
  shows "network_current (update_network_keys d)"
proof -
  from assms(6-8) obtain a s k where k: "ks_a_key (d_keys d) = Some a" "ks_a_salt (d_keys d) = Some s" "ks_d_key (d_keys d) = Some k" by blast
  show ?thesis
  proof (cases "net_running d")
    case False
    then have "\<not> net_running (update_network_keys d)" by (auto simp: update_network_keys_def k net_running_def split: option.splits)
    then show ?thesis by (rule not_running_current)
  next
    case True
    with assms(5) have same: "d_network d = d_network d0" by (intro assms(2)) blast
    from True obtain n where "d_network d = Some n" "nw_running n" by (auto simp: net_running_def split: option.splits)
    then have n: "d_network d = Some n" "nw_running n" "d_network d0 = Some n" using same by simp_all
    with assms(1,3,4) show ?thesis by (simp add: update_network_keys_def k network_current_def)
  qed
qed


lemma fresh_no_vault: "is_fresh d \<Longrightarrow> ks_vault (d_keys d) = None"
  by (simp add: is_fresh_def Let_def)

lemma commit_join_group_ok:
  assumes "network_ok d" "group_ok d hs"
  shows "network_ok (snd (commit_join env j ident resets d))"
    "group_ok (snd (commit_join env j ident resets d)) (hs \<union> network_lists (snd (commit_join env j ident resets d)))"
proof -
  let ?d = "snd (commit_join env j ident resets d)"
  have "network_ok ?d \<and> group_ok ?d hs"
  proof (cases "d_resets d = resets \<and> is_fresh d")
    case True
    then have "\<not> net_running d" using network_ok_no_vault [OF assms(1)] fresh_no_vault by blast
    define d1 where "d1 = create_vault env (Some ident) \<lparr>cfg_sync = True, cfg_clipboard = False\<rparr>
      (d\<lparr>d_keys := (d_keys d)\<lparr>ks_a_key := Some (jn_a_key j), ks_a_salt := Some (jn_a_salt j), ks_d_key := Some (jn_d_key j),
          ks_d_salt := Some (jn_d_salt j)\<rparr>,
        d_book := snd (seen (d_book d) (x25519_pub_key (jn_peer j)) (jn_addr j)),
        d_lists := (d_lists d)(d_list d := d_lists d (d_list d) @ [jn_peer j])\<rparr>)"
    have e: "?d = d1" using True by (simp add: commit_join_def d1_def Let_def)
    have g: "group_ok d1 hs"
      using True fresh_no_vault [of d] \<open>\<not> net_running d\<close>
      by (intro group_ok_opened [OF assms(2)]) (simp_all add: d1_def create_vault_frame is_fresh_def Let_def)
    moreover have "\<not> net_running d1" using \<open>\<not> net_running d\<close> same_network(1) [of d1 d] by (simp add: d1_def create_vault_frame)
    ultimately show ?thesis unfolding e by (simp add: network_ok_def group_ok_def)
  next
    case False
    then have "?d = d" by (auto simp: commit_join_def)
    then show ?thesis using assms by simp
  qed
  then have "network_ok ?d" "group_ok ?d hs" by blast+
  moreover from this(2) have "hs \<union> network_lists ?d = hs" by (auto simp: group_ok_def)
  ultimately show "network_ok ?d" "group_ok ?d (hs \<union> network_lists ?d)" by simp_all
qed

lemma renew_auto_login_same: "same_group d (renew_auto_login env key d)"
  using renew_auto_login_frame [of env key d] by auto

lemma save_changed_key_same: "same_group d (snd (save_changed_key env kind key d))"
proof -
  have save: "same_group d d2" if "save_file env bs d = (r', d2)" for bs r' d2
    using save_file_same [of d env bs] that by simp
  have "same_group d2 (map_keys (\<lambda>k. k\<lparr>ks_vault := map_option (\<lambda>v. v\<lparr>ov_wrapped := w\<rparr>) (ks_vault k)\<rparr>) d2)" for w and d2 :: daemon
    by (simp add: same_group_def trusted_copy_def option.map_comp comp_def)
  from same_group_trans [OF same_group_trans [OF save this] renew_auto_login_same] save show ?thesis
    by (auto simp: save_changed_key_def dtry_def dlift_def Let_def split: sum.splits option.splits prod.splits)
qed

lemma salt_for_same:
  assumes "salt_for env kind d = (r, d')"
  shows "d_network d' = d_network d" "d_list d' = d_list d" "d_lists d' = d_lists d" "ks_vault (d_keys d') = ks_vault (d_keys d)"
    "is_fresh d' \<Longrightarrow> is_fresh d"
    "ks_a_salt (d_keys d) \<noteq> None \<Longrightarrow> ks_d_salt (d_keys d) \<noteq> None \<Longrightarrow> d' = d"
  using assms by (auto simp: salt_for_def is_fresh_def Let_def split: option.splits key_kind.splits)

lemma lists_ok_weaken:
  assumes "lists_ok d hs" "d_list d' = d_list d" "is_fresh d' \<Longrightarrow> is_fresh d \<and> d_lists d' = d_lists d"
    and "ks_vault (d_keys d) \<noteq> None \<Longrightarrow> ks_vault (d_keys d') \<noteq> None"
  shows "lists_ok d' hs"
  using assms by (simp add: lists_ok_def trusted_copy_def)

text \<open>What a password change leaves before the vault is created: the new key in memory and in the
  network.\<close>

lemma new_key_group_ok:
  assumes "saved_inv G H d" "group_ok d hs" "d_network d' = d_network d" "d_list d' = d_list d"
    and "map_option ov_identity (ks_vault (d_keys d')) = map_option ov_identity (ks_vault (d_keys d))"
    and "ks_vault (d_keys d) \<noteq> None \<Longrightarrow> ks_a_key (d_keys d') \<noteq> None \<and> ks_a_salt (d_keys d') \<noteq> None \<and> ks_d_key (d_keys d') \<noteq> None"
    and "\<not> is_fresh d'"
  shows "group_ok (update_network_keys d') hs"
proof -
  have u: "d_list (update_network_keys d') = d_list d'" "d_lists (update_network_keys d') = d_lists d'"
    "network_lists (update_network_keys d') = network_lists d'"
    by (auto simp: update_network_keys_def network_lists_def split: option.splits)
  have v: "ks_vault (d_keys d') = None \<longleftrightarrow> ks_vault (d_keys d) = None" using assms(5) by (metis option.map_disc_iff)
  have "is_fresh (update_network_keys d') = is_fresh d'" by (simp add: is_fresh_def)
  then have "lists_ok (update_network_keys d') hs"
    using assms(2,4,7) u v by - (rule lists_ok_weaken [of d], simp_all add: group_ok_def)
  moreover have "network_lists (update_network_keys d') \<subseteq> hs" using assms(2) u(3) same_network(2) [OF assms(3)] by (simp add: group_ok_def)
  moreover have "network_current (update_network_keys d')"
  proof (cases "ks_vault (d_keys d)")
    case None
    then have "\<not> net_running d" using current_no_vault assms(2) by (simp add: group_ok_def)
    then have "\<not> net_running (update_network_keys d')"
      using assms(3) by (auto simp: update_network_keys_def net_running_def split: option.splits)
    then show ?thesis by (rule not_running_current)
  next
    case (Some v)
    then show ?thesis
      using assms(2-6) by (intro update_network_keys_current [of d]) (simp_all add: group_ok_def)
  qed
  ultimately show ?thesis by (simp add: group_ok_def)
qed

lemma create_vault_group_ok:
  assumes "group_ok d hs" "ks_vault (d_keys d) = None" "\<not> is_fresh d"
  shows "group_ok (create_vault env ident c d) hs"
proof -
  have "network_current (create_vault env ident c d)"
    using assms(1,2) by - (rule current_if_no_vault [of d], simp_all add: group_ok_def create_vault_frame)
  moreover have "lists_ok (create_vault env ident c d) hs"
    using assms create_vault_fresh [of env ident c d] by - (rule lists_ok_weaken [of d], simp_all add: group_ok_def create_vault_frame)
  ultimately show ?thesis using assms(1) by (simp add: group_ok_def network_lists_def create_vault_frame)
qed


lemma set_password_group_ok:
  assumes "gcm_ok G" "env_ok G H env" "saved_inv G H d" "group_ok d hs"
  shows "group_ok (snd (set_password env kind pw d)) hs"
proof -
  have nf: "\<not> is_fresh (update_network_keys (new_key kind key d1))" for key d1 using new_key_keeps(7) [of kind key d1] by (simp add: is_fresh_def)
  have fin: "group_ok (first_vault env (update_network_keys (new_key kind key d1))) hs" if "group_ok (update_network_keys (new_key kind key d1)) hs" for key d1
    using that create_vault_group_ok [OF that _ nf] by (simp add: first_vault_def)
  obtain r1 d1 where salt: "salt_for env kind d = (r1, d1)" by fastforce
  note s = salt_for_same [OF salt]
  have inv: "saved_inv G H d1" by (rule salt_for_cases(1) [OF salt assms(2,3)])
  have ok: "group_ok d1 hs"
  proof (cases "ks_vault (d_keys d)")
    case None
    have "network_current d1" using assms(4) None s(1) by - (rule current_if_no_vault [of d], simp_all add: group_ok_def)
    moreover have "lists_ok d1 hs" using assms(4) s(2-5) by - (rule lists_ok_weaken [of d], simp_all add: group_ok_def)
    ultimately show ?thesis using assms(4) same_network(2) [OF s(1)] by (simp add: group_ok_def)
  next
    case (Some v)
    from assms(3) Some have "d1 = d" by (rule vault_savedE) (use s(6) in simp)
    with assms(4) show ?thesis by simp
  qed
  have changed: "group_ok (update_network_keys (new_key kind key d2)) hs"
    if "if ks_vault (d_keys d1) \<noteq> None then d2 = snd (save_changed_key env kind key d1) else d2 = d1" for key d2
  proof (cases "ks_vault (d_keys d1)")
    case None
    with that show ?thesis by (intro new_key_group_ok [OF inv ok]) simp_all
  next
    case (Some v)
    from inv Some show ?thesis
    proof (rule vault_savedE)
      fix a_key a_salt d_key
      assume "ks_a_key (d_keys d1) = Some a_key" "ks_a_salt (d_keys d1) = Some a_salt" "ks_d_key (d_keys d1) = Some d_key"
      with that Some save_changed_key_same [of d1 env kind key] show ?thesis
        by (intro new_key_group_ok [OF inv ok]) (simp_all add: same_group_def)
    qed
  qed
  have saved_ok: "group_ok (snd (save_changed_key env kind key d1)) hs" for key
    by (rule same_group_ok [OF save_changed_key_same ok])
  have "group_ok (snd (dtry (if ks_vault (d_keys d1) \<noteq> None then save_changed_key env kind key d1 else (Inr (), d1)) (\<lambda>_ d.
         (Inr (), first_vault env (update_network_keys (new_key kind key d)))))) hs" for key
    using fin [OF changed [of "snd (save_changed_key env kind key d1)" key]] fin [OF changed [of d1 key]] saved_ok [of key]
    by (auto simp: dtry_def split: sum.split prod.splits)
  with assms(4) ok show ?thesis by (simp add: set_password_eq salt dtry_def dlift_def split: sum.split)
qed


section \<open>Every reachable state\<close>

definition run_inv :: "gcm \<Rightarrow> hkdf_salted \<Rightarrow> daemon \<Rightarrow> nat set \<Rightarrow> bool" where
  "run_inv G H d hs = (saved_inv G H d \<and> network_ok d \<and> group_ok d hs)"

lemma change_group_ok:
  assumes "gcm_ok G" "env_ok G H env" "run_inv G H d hs"
  shows "network_ok (snd (change env request d)) \<and>
    group_ok (snd (change env request d)) (hs \<union> network_lists (snd (change env request d)))"
proof -
  have inv: "saved_inv G H d" "network_ok d" "group_ok d hs" using assms(3) by (simp_all add: run_inv_def)
  have e: "\<exists>d1. group_ok d1 hs \<and> snd (change env request d) = apply_network env d1"
    using set_password_group_ok [OF assms(1,2) inv(1,3)] unlock_group_ok [OF inv(2,3)] reset_group_ok [OF inv(3)] inv(3)
      same_group_ok [OF set_auto_login_same inv(3)] same_group_ok [OF set_sync_same inv(3)] same_group_ok [OF set_clipboard_same inv(3)]
      same_group_ok [OF forget_peer_same inv(3)]
    by (cases request) (simp_all add: change_def case_prod_beta, blast+)
  then show ?thesis using apply_network_ok by metis
qed

lemma same_keys_ok:
  assumes "run_inv G H d hs" "same_group d d'" "d_keys d' = d_keys d"
  shows "network_ok d' \<and> group_ok d' (hs \<union> network_lists d')"
proof -
  have g: "group_ok d' hs" using assms(1) same_group_ok [OF assms(2)] by (simp add: run_inv_def)
  then have "hs \<union> network_lists d' = hs" by (auto simp: group_ok_def)
  moreover have "net_running d' = net_running d" using assms(2) by (simp add: same_group_def net_running_def)
  ultimately show ?thesis
    using g assms(1) network_wanted_keys [OF assms(3)] by (simp add: run_inv_def network_ok_def group_ok_def)
qed

lemma end_invite_keys [simp]: "d_keys (snd (end_invite g d)) = d_keys d"
  using end_invite_frames [of g d] by auto

lemma save_peers_keys: "d_keys (save_peers env d) = d_keys d"
  by (auto simp: save_peers_def reseal_def dtry_def dlift_def save_file_def write_vault_def Let_def
      split: option.split sum.split prod.split)

lemma handle_request_group_ok:
  assumes "gcm_ok G" "env_ok G H env" "run_inv G H d hs"
  shows "network_ok (snd (handle_request env expired request d)) \<and>
    group_ok (snd (handle_request env expired request d)) (hs \<union> network_lists (snd (handle_request env expired request d)))"
proof -
  note same = same_keys_ok [OF assms(3)]
  have prune: "same_group d (prune expired d)" "d_keys (prune expired d) = d_keys d" by (simp_all add: prune_def)
  have keys: "d_keys (snd (add_device env d)) = d_keys d" "d_keys (snd (join_group env d)) = d_keys d" "d_keys (cancel_join d) = d_keys d"
    "d_keys (stop_add_device d) = d_keys d"
    by (auto simp: add_device_def open_invite_def offer_salt_def dtry_def join_group_def cancel_join_def finish_join_def stop_add_device_def
        Let_def split: option.split prod.split dest!: arg_cong [of _ _ snd] simp: end_invite_def)
  have waiting: "same_group d ((prune expired d)\<lparr>d_waiting := w\<rparr>)" for w by (simp add: prune_def)
  note rules = same [OF prune] same [OF add_device_same keys(1)] same [OF join_group_same keys(2)]
    same [OF cancel_join_same keys(3)] same [OF stop_add_device_same keys(4)] same [OF same_group_refl refl] change_group_ok [OF assms]
  show ?thesis
  proof (cases "\<exists>i code accept. request = AnswerPairing i code accept")
    case True
    then show ?thesis
      using same [OF waiting] rules(1)
      by (auto simp: handle_request_def answer_pairing_def case_prod_beta Let_def prune_def split: option.splits)
  next
    case False
    with rules show ?thesis
      by (cases request) (simp_all add: handle_request_def case_prod_beta daemon_status_def pending_pairing_def Let_def)
  qed
qed


lemma listener_failed_ok:
  assumes "run_inv G H d hs"
  shows "network_ok (listener_failed d) \<and> group_ok (listener_failed d) (hs \<union> network_lists (listener_failed d))"
proof -
  let ?d = "listener_failed d"
  have n: "\<not> net_running ?d" "network_lists ?d = network_lists d"
    by (simp_all add: listener_failed_def net_running_def network_lists_def split: option.split)
  have "lists_ok ?d hs" using assms lists_ok_keys [of ?d d hs] by (simp add: run_inv_def group_ok_def listener_failed_def)
  moreover have "hs \<union> network_lists ?d = hs" using assms n(2) by (auto simp: run_inv_def group_ok_def)
  ultimately show ?thesis
    using n not_running_current [OF n(1)] assms by (simp add: network_ok_def group_ok_def run_inv_def)
qed

lemma paired_ok:
  assumes "run_inv G H d hs" "h \<in> hs"
  shows "network_ok (d\<lparr>d_lists := (d_lists d)(h := ps)\<rparr>) \<and>
    group_ok (d\<lparr>d_lists := (d_lists d)(h := ps)\<rparr>) (hs \<union> network_lists (d\<lparr>d_lists := (d_lists d)(h := ps)\<rparr>))"
proof -
  let ?d = "d\<lparr>d_lists := (d_lists d)(h := ps)\<rparr>"
  have n: "network_lists ?d = network_lists d" "network_current ?d = network_current d" "net_running ?d = net_running d"
    "network_wanted ?d = network_wanted d" "is_fresh ?d = is_fresh d"
    by (simp_all add: network_lists_def network_current_def net_running_def network_wanted_def is_fresh_def split: option.split)
  have l: "lists_ok d hs" and hs: "hs \<union> network_lists d = hs" using assms(1) by (auto simp: run_inv_def group_ok_def)
  have "lists_ok ?d hs"
  proof (cases "h = d_list d")
    case True
    with l assms(2) have "ks_vault (d_keys d) \<noteq> None" by (simp add: lists_ok_def)
    then have "\<not> is_fresh d" by (auto dest: fresh_no_vault)
    with l n(5) show ?thesis by (simp add: lists_ok_def)
  next
    case False
    with l n(5) show ?thesis by (simp add: lists_ok_def trusted_copy_def)
  qed
  with n hs assms(1) show ?thesis by (simp add: run_inv_def group_ok_def network_ok_def)
qed

lemma daemon_step_run:
  assumes "gcm_ok G" "env_ok G H env" "run_inv G H d hs" "event_ok hs ev"
  shows "run_inv G H (daemon_step env expired ev d) (hs \<union> network_lists (daemon_step env expired ev d))"
proof -
  have inv: "saved_inv G H d" "network_ok d" "group_ok d hs" using assms(3) by (simp_all add: run_inv_def)
  then have "is_fresh d \<Longrightarrow> trusted_copy d = []" by (simp add: group_ok_def lists_ok_def)
  from daemon_step_inv [OF assms(1,2) inv(1) assms(4) this] have s: "saved_inv G H (daemon_step env expired ev d)" .
  note same = same_keys_ok [OF assms(3)]
  have keys: "d_keys (snd (queue_pairing expired r d)) = d_keys d" "d_keys (snd (open_invite env d)) = d_keys d" "d_keys (end_join g d) = d_keys d"
    for r g by (auto simp: queue_pairing_def prune_def open_invite_def end_join_def finish_join_def Let_def split: option.split)
  have "network_ok (daemon_step env expired ev d) \<and>
    group_ok (daemon_step env expired ev d) (hs \<union> network_lists (daemon_step env expired ev d))"
  proof (cases ev)
    case (Ask request)
    with handle_request_group_ok [OF assms(1-3)] show ?thesis by (simp add: daemon_step_def)
  next
    case (Bridge b)
    with same [OF queue_pairing_same keys(1)] same [OF save_peers_same save_peers_keys] show ?thesis
      by (cases b) (simp_all add: daemon_step_def pairing_bridge_def)
  next
    case (DevicePaired h p)
    with paired_ok [OF assms(3)] assms(4) show ?thesis by (simp add: daemon_step_def)
  next
    case (JoinCommits j ident resets)
    with commit_join_group_ok [OF inv(2,3)] show ?thesis by (simp add: daemon_step_def)
  next
    case JoinNetworks
    with apply_network_ok [OF inv(3)] show ?thesis by (simp add: daemon_step_def)
  qed (use listener_failed_ok [OF assms(3)] same [OF open_invite_same keys(2)] same [OF end_invite_same end_invite_keys]
      same [OF end_join_same keys(3)] same [OF same_group_simps(2)] same [OF same_group_simps(4)] same [OF same_group_simps(5)]
    in \<open>simp_all add: daemon_step_def offer_salt_def\<close>)
  with s show ?thesis by (simp add: run_inv_def)
qed

lemma daemon_start_cases:
  assumes "d_network d0 = None" "ks_vault (d_keys d0) = None" "trusted_copy d0 = []" "saved_inv G H d0" "env_ok G H env"
  shows "run_inv G H (daemon_start env d0) (network_lists (daemon_start env d0))"
proof -
  define d1 where "d1 = map_keys (\<lambda>k. k\<lparr>ks_locked := True\<rparr>) d0"
  have closed: "run_inv G H d (network_lists d)"
    if "saved_inv G H d" "d_network d = None" "trusted_copy d = []" for d
    using that by (simp add: run_inv_def network_ok_def network_current_def net_running_def group_ok_def lists_ok_def network_lists_def)
  have locked: "saved_inv G H (d0\<lparr>d_keys := (d_keys d0)\<lparr>ks_locked := True\<rparr>\<rparr>)"
    "saved_inv G H (d0\<lparr>d_keys := (d_keys d0)\<lparr>ks_locked := True, ks_auto_login := b\<rparr>\<rparr>)"
    "saved_inv G H (d0\<lparr>d_item_data_key := x, d_keys := (d_keys d0)\<lparr>ks_locked := True, ks_auto_login := b\<rparr>\<rparr>)" for b x
    using assms(2,4) by (simp_all add: saved_inv_def keys_sized_def trusted_copy_def)
  have opened: "run_inv G H (apply_network env d') (network_lists (apply_network env d'))"
    if u: "unlock_with env get key d = (Inr x, d')" and d: "saved_inv G H d" "d_network d = None" "length key = 32" for get key d d' x
  proof -
    have u: "unlock_with env get key d = (Inr (), d')" using u by simp
    have s: "saved_inv G H d'" by (rule unlock_with_inv [OF assms(5) d(1,3) u])
    have n: "d_network d' = None" "ks_vault (d_keys d') \<noteq> None" using unlock_with_cases(2) [OF u refl refl refl] d(2) by auto
    then have "group_ok d' {}" using fresh_no_vault [of d'] by (auto simp: group_ok_def network_current_def lists_ok_def network_lists_def)
    from apply_network_ok [OF this, of env] s show ?thesis by (simp add: run_inv_def apply_network_frame)
  qed
  have same: "d' = d" if "unlock_with env get key d = (Inl e, d')" for get key d d' e
    by (rule unlock_with_cases(1) [OF that refl refl refl])
  show ?thesis
    using assms closed locked opened
    by (auto simp: daemon_start_def store_delete_def trusted_copy_def Let_def dest!: same split: option.split prod.split sum.split)
qed

lemma daemon_run_inv:
  assumes "gcm_ok G" "daemon_run G H d hs"
  shows "run_inv G H d hs"
  using assms(2)
proof induction
  case (start env d storage vault_bytes salts_item key_item clipboard)
  have "saved_inv G H (daemon_new storage vault_bytes salts_item key_item clipboard)"
    by (simp add: daemon_new_def saved_inv_def key_slots_default_def keys_sized_def trusted_copy_def trusted_peers_ok_def)
  with start show ?case
    by (auto intro!: daemon_start_cases simp: daemon_new_def key_slots_default_def trusted_copy_def)
next
  case (step d hs env ev d' expired)
  with daemon_step_run [OF assms(1)] show ?case by blast
qed

end
