(* ===== verification/Daemon_Demo.thy ===== *)
theory Daemon_Demo
  imports Daemon_Run
begin

text \<open>
  A small device for concrete runs of the daemon: stand-ins for the cipher and the key derivation, an
  environment in which every call works, and a first start with both passwords set.
\<close>

definition demo_kdf :: hkdf_salted where
  "demo_kdf salt key label len = Some key"

definition demo_env :: daemon_env where
  "demo_env = \<lparr>en_now = 0, en_later = 0, en_gcm = demo_gcm, en_hkdf = demo_kdf,
     en_argon = (\<lambda>m t p pw salt len. Some (word_of_nat (length pw) # replicate 31 0)), en_derive_panics = False,
     en_rnd_salt = Some (replicate 32 1), en_rnd_storage_salt = Some (replicate 32 2), en_rnd_dek = Some (replicate 32 3),
     en_rnd_wrap = Some (replicate 12 4), en_rnd_seal = Some (replicate 12 5), en_rnd_identity = Some (replicate 64 6),
     en_rnd_id = Some (replicate 16 7), en_euid = 501,
     en_dir_meta = Some (Some \<lparr>meta_is_dir = True, meta_uid = 501, meta_mode = 0x1C0\<rparr>),
     en_stat = Stat \<lparr>fm_is_file = True, fm_uid = 501, fm_mode = 0x180, fm_len = 4096\<rparr>, en_read_ok = True, en_read_panics = False,
     en_writes = \<lparr>suffix_ok = True, create_new_ok = True, written_until = None, sync_file_ok = True, rename_ok = True,
       sync_dir_ok = True, remove_tmp_ok = True\<rparr>,
     en_write_panics = False, en_delete_ok = True, en_delete_sync_ok = True, en_delete_panics = False,
     en_get = (\<lambda>i. CallOk), en_get_again = (\<lambda>i. CallOk), en_set = (\<lambda>i. CallOk), en_del = (\<lambda>i. CallOk), en_bind = True\<rparr>"

definition demo_password :: "nat \<Rightarrow> bytes" where
  "demo_password n = replicate n 0xFF"

definition demo_key :: "nat \<Rightarrow> bytes" where
  "demo_key n = word_of_nat n # replicate 31 0"

lemma demo_env_ok: "env_ok demo_gcm demo_kdf demo_env"
  by (simp add: env_ok_def demo_env_def vault_lens IDENTITY_SEED_LEN_def)

lemma demo_dir_ok: "check_vault_dir (en_euid demo_env) (en_dir_meta demo_env) = Inr ()"
  by (simp add: check_vault_dir_def check_private_dir_def demo_env_def)

definition demo_fresh :: daemon where
  "demo_fresh = daemon_new True None None None True"

lemma demo_start: "daemon_start demo_env demo_fresh = demo_fresh"
proof -
  have "read_vault demo_env demo_fresh = Inr None"
    using demo_dir_ok by (simp add: read_vault_def read_file_def demo_fresh_def daemon_new_def)
  then show ?thesis by (simp add: daemon_start_def demo_env_def demo_fresh_def daemon_new_def)
qed

lemma demo_password_chars: "0 < n \<Longrightarrow> password_chars (demo_password n) = n"
  by (cases n) (simp_all add: password_chars_def demo_password_def utf8_chars.simps)

lemma demo_derive: "derive demo_env (demo_password n) salt = Inr (demo_key n)"
  by (simp add: derive_def derive_key_def demo_env_def demo_password_def demo_key_def)

text \<open>After the auth password: a key and a salt in memory.\<close>

definition demo_auth :: daemon where
  "demo_auth = map_keys (\<lambda>k. k\<lparr>ks_a_salt := Some (replicate 32 1), ks_a_key := Some (demo_key 16)\<rparr>) demo_fresh"

lemma demo_set_auth: "daemon_step demo_env expired (Ask (SetAuthPassword (demo_password 16))) demo_fresh = demo_auth"
proof -
  have salt: "salt_for demo_env AuthKind demo_fresh = (Inr (replicate 32 1), map_keys (\<lambda>k. k\<lparr>ks_a_salt := Some (replicate 32 1)\<rparr>) demo_fresh)"
    by (simp add: salt_for_def demo_fresh_def daemon_new_def key_slots_default_def demo_env_def)
  have "set_password demo_env AuthKind (demo_password 16) demo_fresh = (Inr (), demo_auth)"
    by (simp add: set_password_def salt demo_password_chars demo_derive MIN_NEW_PASSWORD_LEN_def dtry_def dlift_def)
       (simp add: demo_fresh_def demo_auth_def daemon_new_def key_slots_default_def update_network_keys_def create_vault_def)
  moreover have "apply_network demo_env demo_auth = demo_auth"
    by (simp add: apply_network_def network_wanted_def net_running_def demo_auth_def demo_fresh_def daemon_new_def key_slots_default_def)
  ultimately show ?thesis by (simp add: daemon_step_def handle_request_def change_def)
qed


text \<open>After the data password: the vault is created and open.\<close>

definition demo_wrapped :: bytes where
  "demo_wrapped = replicate 12 4 @ replicate 32 3 @ demo_tag (demo_key 12) (replicate 12 4) (aad header WRAP_LABEL)"

definition demo_open_vault :: "config \<Rightarrow> open_vault" where
  "demo_open_vault c = \<lparr>ov_dek = replicate 32 3, ov_wrapped = demo_wrapped, ov_storage_salt = replicate 32 2, ov_config = c,
     ov_identity = replicate 64 6\<rparr>"

definition demo_file :: "config \<Rightarrow> bytes" where
  "demo_file c = header @ demo_wrapped @ replicate 12 5 @
     sealed_plaintext (file_contents (demo_open_vault c) (demo_key 16) (replicate 32 1) c [] []) @
     demo_tag (replicate 32 3) (replicate 12 5) (aad header DATA_LABEL)"

definition demo_saved :: daemon where
  "demo_saved = demo_auth\<lparr>d_item_salts := Some (replicate 32 1 @ replicate 32 2), d_file := Some (demo_file config_default),
     d_keys := (d_keys demo_auth)\<lparr>ks_d_salt := Some (replicate 32 1), ks_d_key := Some (demo_key 12),
       ks_vault := Some (demo_open_vault config_default)\<rparr>\<rparr>"

lemma demo_wrap: "wrap_dek demo_gcm (Some (replicate 12 4)) (demo_key 12) (replicate 32 3) = Inr demo_wrapped"
  by (simp add: wrap_dek_def encrypt_with_aad_def demo_gcm_def demo_wrapped_def demo_tag_def vault_lens)

lemma demo_contents_ok: "contents_ok (file_contents (demo_open_vault c) (demo_key 16) (replicate 32 1) c [] [])"
  by (simp add: contents_ok_def file_contents_def demo_open_vault_def demo_key_def vault_lens IDENTITY_SEED_LEN_def config_encode_def
      encode_saved_def trusted_peers_layout_def Let_def)

lemma demo_seal:
  "seal demo_gcm (Some (replicate 12 5)) demo_wrapped (replicate 32 3)
    (file_contents (demo_open_vault c) (demo_key 16) (replicate 32 1) c [] []) = Inr (demo_file c)"
  unfolding seal_eq [OF demo_contents_ok demo_gcm_ok] by (simp add: demo_gcm_def demo_file_def)

lemma demo_write: "write_vault demo_env bs d = (Inr (), d\<lparr>d_file := Some bs\<rparr>)"
  using demo_dir_ok by (simp add: write_vault_def write_file_atomic_def write_steps_def) (simp add: demo_env_def)

lemma demo_prepare:
  "prepare_vault demo_env None c (demo_key 16) (replicate 32 1) (demo_key 12) (replicate 32 1) (trusted_peers_layout []) (encode_saved []) =
    Inr (\<lparr>d_salt = replicate 32 1, storage_salt = replicate 32 2\<rparr>, demo_file c, demo_open_vault c)"
proof -
  have env: "en_rnd_storage_salt demo_env = Some (replicate 32 2)" "en_rnd_dek demo_env = Some (replicate 32 3)" "en_hkdf demo_env = demo_kdf"
    "en_gcm demo_env = demo_gcm" "en_rnd_wrap demo_env = Some (replicate 12 4)" "en_rnd_identity demo_env = Some (replicate 64 6)"
    "en_rnd_seal demo_env = Some (replicate 12 5)" by (simp_all add: demo_env_def)
  have "derive_kek demo_kdf (demo_key 12) (replicate 32 2) = Inr (demo_key 12)" by (simp add: derive_kek_def demo_kdf_def)
  then show ?thesis
    using demo_seal [of c]
    by (simp add: prepare_vault_def env generate_dek_def demo_wrap file_contents_def) (simp add: demo_open_vault_def)
qed

lemma demo_set_data: "daemon_step demo_env expired (Ask (SetDataPassword (demo_password 12))) demo_auth = demo_saved"
proof -
  have salt: "salt_for demo_env DataKind demo_auth = (Inr (replicate 32 1), map_keys (\<lambda>k. k\<lparr>ks_d_salt := Some (replicate 32 1)\<rparr>) demo_auth)"
    by (simp add: salt_for_def demo_auth_def demo_fresh_def daemon_new_def key_slots_default_def demo_env_def)
  let ?d = "update_network_keys (map_keys (\<lambda>k. k\<lparr>ks_d_salt := Some (replicate 32 1), ks_d_key := Some (demo_key 12)\<rparr>) demo_auth)"
  have keys: "\<not> ks_locked (d_keys demo_auth)" "ks_vault (d_keys demo_auth) = None"
    by (simp_all add: demo_auth_def demo_fresh_def daemon_new_def key_slots_default_def)
  have d: "?d = map_keys (\<lambda>k. k\<lparr>ks_d_salt := Some (replicate 32 1), ks_d_key := Some (demo_key 12)\<rparr>) demo_auth"
    by (simp add: update_network_keys_def demo_auth_def demo_fresh_def daemon_new_def key_slots_default_def keys_changed_def)
  have lists: "trusted_copy ?d = []" "d_book ?d = []"
    unfolding d by (simp_all add: trusted_copy_def demo_auth_def demo_fresh_def daemon_new_def)
  have p: "encoded_peers ?d = Inr (trusted_peers_layout [])" "encoded_addresses ?d = encode_saved []"
    using encoded_peers_ok [of ?d] lists by (simp_all add: encoded_addresses_def book_encode_def book_saved_def List.map_filter_simps trusted_peers_ok_def)
  have c: "create_vault demo_env None config_default ?d = demo_saved"
  proof -
    have k: "ks_a_key (d_keys ?d) = Some (demo_key 16)" "ks_a_salt (d_keys ?d) = Some (replicate 32 1)" "ks_d_key (d_keys ?d) = Some (demo_key 12)"
      "ks_d_salt (d_keys ?d) = Some (replicate 32 1)" "d_storage ?d"
      unfolding d by (simp_all add: demo_auth_def demo_fresh_def daemon_new_def)
    have "en_set demo_env ItemSalts = CallOk" "\<not> en_write_panics demo_env" by (simp_all add: demo_env_def)
    with k p demo_prepare [of config_default] show ?thesis
      unfolding create_vault_def by (simp add: store_set_def demo_write salts_to_bytes_def) (simp add: d demo_saved_def)
  qed
  have "ks_vault (d_keys ?d) = None" unfolding d by (simp add: demo_auth_def demo_fresh_def daemon_new_def key_slots_default_def)
  with c have "set_password demo_env DataKind (demo_password 12) demo_auth = (Inr (), demo_saved)"
    by (simp add: set_password_def salt keys demo_password_chars demo_derive MIN_NEW_PASSWORD_LEN_def dtry_def dlift_def)
  moreover have "apply_network demo_env demo_saved = demo_saved"
    by (simp add: apply_network_def network_wanted_def net_running_def demo_saved_def demo_auth_def demo_fresh_def daemon_new_def
        demo_open_vault_def config_default_def)
  ultimately show ?thesis by (simp add: daemon_step_def handle_request_def change_def)
qed

lemma demo_saved_run: "daemon_run demo_gcm demo_kdf demo_saved {}"
proof -
  have 0: "daemon_run demo_gcm demo_kdf demo_fresh {}"
    using daemon_run.start [OF demo_env_ok, of demo_fresh True None None None True] demo_start
    by (simp add: demo_fresh_def network_lists_def daemon_new_def)
  have 1: "daemon_run demo_gcm demo_kdf demo_auth {}"
    using daemon_run.step [OF 0 demo_env_ok, of "Ask (SetAuthPassword (demo_password 16))" demo_auth "\<lambda>_. False"] demo_set_auth
    by (simp add: network_lists_def demo_auth_def demo_fresh_def daemon_new_def)
  show ?thesis
    using daemon_run.step [OF 1 demo_env_ok, of "Ask (SetDataPassword (demo_password 12))" demo_saved "\<lambda>_. False"] demo_set_data
    by (simp add: network_lists_def demo_saved_def demo_auth_def demo_fresh_def daemon_new_def)
qed


text \<open>After Sync was switched on: networking runs.\<close>

definition demo_sync :: config where
  "demo_sync = \<lparr>cfg_sync = True, cfg_clipboard = False\<rparr>"

definition demo_network :: network where
  "demo_network = \<lparr>nw_running = True, nw_keys = \<lparr>ak_a_key = demo_key 16, ak_a_salt = replicate 32 1\<rparr>, nw_d_key = demo_key 12,
     nw_identity = replicate 64 6, nw_list = 0, nw_offer = 0\<rparr>"

definition demo_synced :: daemon where
  "demo_synced = demo_saved\<lparr>d_file := Some (demo_file demo_sync), d_keys := (d_keys demo_saved)\<lparr>ks_vault := Some (demo_open_vault demo_sync)\<rparr>,
     d_network := Some demo_network, d_offers := (\<lambda>_. None), d_next_offer := 1\<rparr>"

lemma demo_saved_fields:
  "ks_a_key (d_keys demo_saved) = Some (demo_key 16)" "ks_a_salt (d_keys demo_saved) = Some (replicate 32 1)"
  "ks_d_key (d_keys demo_saved) = Some (demo_key 12)" "ks_d_salt (d_keys demo_saved) = Some (replicate 32 1)"
  "ks_vault (d_keys demo_saved) = Some (demo_open_vault config_default)" "\<not> ks_locked (d_keys demo_saved)" "d_storage demo_saved"
  "d_file demo_saved = Some (demo_file config_default)" "d_item_salts demo_saved = Some (replicate 32 1 @ replicate 32 2)"
  "trusted_copy demo_saved = []" "d_book demo_saved = []" "d_network demo_saved = None" "d_list demo_saved = 0" "d_next_offer demo_saved = 0"
  "d_offers demo_saved = (\<lambda>_. None)" "\<not> d_adding demo_saved" "d_resets demo_saved = 0" "\<not> ks_auto_login (d_keys demo_saved)"
  "d_join demo_saved = None" "d_waiting demo_saved = []" "d_item_data_key demo_saved = None" "d_next_id demo_saved = 0"
  by (simp_all add: demo_saved_def demo_auth_def demo_fresh_def daemon_new_def key_slots_default_def trusted_copy_def)

lemma demo_reseal:
  "reseal demo_env c demo_saved = (Inr (), demo_saved\<lparr>d_file := Some (demo_file (case c of None \<Rightarrow> config_default | Some c \<Rightarrow> c))\<rparr>)"
proof -
  have p: "encoded_peers demo_saved = Inr (trusted_peers_layout [])" "encoded_addresses demo_saved = encode_saved []"
    using encoded_peers_ok [of demo_saved] demo_saved_fields(10,11)
    by (simp_all add: encoded_addresses_def book_encode_def book_saved_def List.map_filter_simps trusted_peers_ok_def)
  have env: "en_gcm demo_env = demo_gcm" "en_rnd_seal demo_env = Some (replicate 12 5)" "\<not> en_write_panics demo_env" by (simp_all add: demo_env_def)
  have v: "ov_wrapped (demo_open_vault x) = demo_wrapped" "ov_dek (demo_open_vault x) = replicate 32 3" "ov_config (demo_open_vault x) = x"
    "ov_identity (demo_open_vault x) = replicate 64 6" for x by (simp_all add: demo_open_vault_def)
  show ?thesis
    using demo_seal [of "case c of None \<Rightarrow> config_default | Some c \<Rightarrow> c"]
    by (cases c) (simp_all add: reseal_def dtry_def dlift_def p demo_saved_fields env v save_file_def demo_write file_contents_def)
qed

lemma demo_set_sync: "daemon_step demo_env expired (Ask (SetSync True)) demo_saved = demo_synced"
proof -
  have c: "saved_config demo_saved = Inr config_default" by (simp add: saved_config_def demo_saved_fields demo_open_vault_def)
  have "config_default\<lparr>cfg_sync := True\<rparr> = demo_sync" by (simp add: config_default_def demo_sync_def)
  then have s: "set_sync demo_env True demo_saved = (Inr (), demo_saved\<lparr>d_file := Some (demo_file demo_sync),
      d_keys := (d_keys demo_saved)\<lparr>ks_vault := Some (demo_open_vault demo_sync)\<rparr>\<rparr>)"
    by (simp add: set_sync_def c dtry_def dlift_def save_config_def demo_reseal demo_saved_fields demo_open_vault_def)
  have "apply_network demo_env (demo_saved\<lparr>d_file := Some (demo_file demo_sync),
      d_keys := (d_keys demo_saved)\<lparr>ks_vault := Some (demo_open_vault demo_sync)\<rparr>\<rparr>) = demo_synced"
  proof -
    have o': "cfg_sync (ov_config (demo_open_vault demo_sync))" "ov_identity (demo_open_vault demo_sync) = replicate 64 6"
      by (simp_all add: demo_open_vault_def demo_sync_def)
    have b: "en_bind demo_env" by (simp add: demo_env_def)
    have "demo_saved\<lparr>d_adding := False\<rparr> = demo_saved" using demo_saved_fields(16) by simp
    then show ?thesis
      by (simp add: apply_network_def network_wanted_def net_running_def start_network_defs demo_saved_fields o' b)
         (simp add: demo_synced_def demo_network_def demo_saved_fields fun_upd_def)
  qed
  with s show ?thesis by (simp add: daemon_step_def handle_request_def change_def)
qed

lemma demo_synced_run: "daemon_run demo_gcm demo_kdf demo_synced {0}"
  using daemon_run.step [OF demo_saved_run demo_env_ok, of "Ask (SetSync True)" demo_synced "\<lambda>_. False"] demo_set_sync
  by (simp add: network_lists_def demo_synced_def demo_network_def)

end
