(* ===== verification/Daemon_Props.thy ===== *)
theory Daemon_Props
  imports Daemon_Demo
begin

text \<open>
  What the daemon promises, for every run: a restart gets everything back, networking follows the
  state, a reset leaves nothing of the old group, guessing the data password is slowed down, nobody
  is paired without the user.
\<close>

section \<open>Restarting\<close>

text \<open>The keychain and the vault file can be read.\<close>

definition can_read :: "daemon_env \<Rightarrow> bool" where
  "can_read env =
     (\<not> en_read_panics env \<and> en_read_ok env \<and> en_get env ItemSalts = CallOk \<and> en_get_again env ItemSalts = CallOk \<and>
      check_vault_dir (en_euid env) (en_dir_meta env) = Inr () \<and>
      (case en_stat env of Stat m \<Rightarrow> fm_is_file m \<and> fm_uid m = en_euid env \<and> and (fm_mode m) 0x3F = 0 \<and> fm_len m \<le> MAX_VAULT_LEN
       | _ \<Rightarrow> False))"

lemma can_read_file:
  assumes "can_read env" "d_file d = Some bs" "length bs \<le> MAX_VAULT_LEN"
  shows "read_vault env d = Inr (Some bs)" "get_file env d = Inr bs"
  using assms by (auto simp: can_read_def get_file_def read_vault_def read_file_def fail_if_def Let_def split: stat.splits)

text \<open>The same device after a restart: its file and its keychain.\<close>

definition restarted :: "daemon \<Rightarrow> bytes option \<Rightarrow> daemon" where
  "restarted d key_item = daemon_new True (d_file d) (d_item_salts d) key_item (d_clipboard d)"

text \<open>Keys, salts and the open vault.\<close>

definition same_keys :: "daemon \<Rightarrow> daemon \<Rightarrow> bool" where
  "same_keys d d' =
     (ks_a_key (d_keys d') = ks_a_key (d_keys d) \<and> ks_a_salt (d_keys d') = ks_a_salt (d_keys d) \<and>
      ks_d_key (d_keys d') = ks_d_key (d_keys d) \<and> ks_d_salt (d_keys d') = ks_d_salt (d_keys d) \<and>
      ks_vault (d_keys d') = ks_vault (d_keys d) \<and> \<not> ks_locked (d_keys d'))"

lemma vault_open_len: "vault_open G kek bs = Inr o' \<Longrightarrow> length bs \<le> MAX_VAULT_LEN"
  by (auto simp: vault_open_def fail_if_def and_then_eq_Inr split: if_splits)

lemma unlock_with_saved:
  assumes "saved_inv G H d" "ks_vault (d_keys d) = Some v" "ks_d_key (d_keys d) = Some d_key"
    and "env_ok G H env" "can_read env" "d_file d1 = d_file d" "d_item_salts d1 = d_item_salts d" "d_storage d1"
  obtains d2 where "unlock_with env CallOk d_key d1 = (Inr (), d2)" "same_keys d d2" "d_clipboard d2 = d_clipboard d1"
proof -
  from assms(1,2) obtain a_key a_salt d_key' group_salt bs where "ks_d_key (d_keys d) = Some d_key'"
    and k: "ks_a_key (d_keys d) = Some a_key" "ks_a_salt (d_keys d) = Some a_salt" "ks_d_salt (d_keys d) = Some group_salt"
      "length group_salt = 32" "vault_sizes v"
      "d_item_salts d = Some (salts_to_bytes \<lparr>d_salt = group_salt, storage_salt = ov_storage_salt v\<rparr>)"
    and f: "d_file d = Some bs" "file_opens G H d_key' v a_key a_salt bs"
    by (rule vault_savedE)
  with assms(3) have f: "d_file d = Some bs" "file_opens G H d_key v a_key a_salt bs" by simp_all
  from f(2) obtain kek o' peers recs where o': "derive_kek H d_key (ov_storage_salt v) = Inr kek" "vault_open G kek bs = Inr o'"
    "op_wrapped o' = ov_wrapped v" "op_dek o' = ov_dek v" "vc_a_key (op_contents o') = a_key" "vc_a_salt (op_contents o') = a_salt"
    "vc_identity (op_contents o') = ov_identity v" "decode_trusted_peers (vc_peers (op_contents o')) = Some peers"
    "config_decode (vc_config (op_contents o')) = Some (ov_config v, recs)"
    unfolding file_opens_def by blast
  have salts: "get_salts CallOk d1 = Inr \<lparr>d_salt = group_salt, storage_salt = ov_storage_salt v\<rparr>"
    using k assms(7) salts.dec_enc [of "\<lparr>d_salt = group_salt, storage_salt = ov_storage_salt v\<rparr>"]
    by (simp add: get_salts_def salts_ok_def vault_sizes_def)
  have got: "get_file env d1 = Inr bs"
    using can_read_file(2) [OF assms(5), of d1 bs] vault_open_len [OF o'(2)] f(1) assms(6) by simp
  obtain d2 where d2: "unlock_with env CallOk d_key d1 = (Inr (), d2)"
    using assms(8) salts got o' env_okD(1,2) [OF assms(4)] by (simp add: unlock_with_def)
  moreover have "same_keys d d2" "d_clipboard d2 = d_clipboard d1"
    using d2 assms(2,3,8) salts got o' env_okD(1,2) [OF assms(4)] k by (auto simp: unlock_with_def same_keys_def)
  ultimately show thesis by (rule that)
qed

lemma restarted_locked:
  assumes "saved_inv G H d" "ks_vault (d_keys d) = Some v" "can_read env" "en_get env ItemDataKey \<noteq> CallOk \<or> key_item = None"
  shows "daemon_start env (restarted d key_item) = map_keys (\<lambda>k. k\<lparr>ks_locked := True\<rparr>) (restarted d key_item)"
proof -
  from assms(1,2) obtain bs where bs: "d_file d = Some bs" "length bs \<le> MAX_VAULT_LEN"
    by (rule_tac vault_savedE) (auto simp: file_opens_def dest: vault_open_len)
  have r: "read_vault env (restarted d key_item) = Inr (Some bs)"
    using can_read_file(1) [OF assms(3), of "restarted d key_item" bs] bs by (simp add: restarted_def daemon_new_def)
  show ?thesis
    using assms(3,4) r by (auto simp: daemon_start_def Let_def restarted_def daemon_new_def can_read_def)
qed

text \<open>With automatic login, the current data key in the keychain opens it.\<close>

lemma restarted_opens:
  assumes "saved_inv G H d" "ks_vault (d_keys d) = Some v" "ks_d_key (d_keys d) = Some d_key"
    and "env_ok G H env" "can_read env" "en_get env ItemDataKey = CallOk"
  shows "same_keys d (daemon_start env (restarted d (Some d_key)))"
proof -
  have len: "length d_key = 32" using assms(1,3) by (simp add: saved_inv_def keys_sized_def)
  let ?d = "map_keys (\<lambda>k. k\<lparr>ks_locked := True, ks_auto_login := True\<rparr>) (restarted d (Some d_key))"
  have fields: "d_file ?d = d_file d" "d_item_salts ?d = d_item_salts d" "d_storage ?d"
    by (simp_all add: restarted_def daemon_new_def)
  from unlock_with_saved [OF assms(1-5) fields] obtain d2
    where u: "unlock_with env CallOk d_key ?d = (Inr (), d2)" and same: "same_keys d d2" by blast
  from assms(1,2) obtain bs where bs: "d_file d = Some bs" "length bs \<le> MAX_VAULT_LEN"
    by (rule_tac vault_savedE) (auto simp: file_opens_def dest: vault_open_len)
  have r: "read_vault env (restarted d (Some d_key)) = Inr (Some bs)"
    using can_read_file(1) [OF assms(5), of "restarted d (Some d_key)" bs] bs by (simp add: restarted_def daemon_new_def)
  have key: "d_item_data_key (restarted d (Some d_key)) = Some d_key" "d_storage (restarted d (Some d_key))"
    by (simp_all add: restarted_def daemon_new_def)
  have "daemon_start env (restarted d (Some d_key)) = apply_network env d2"
    using assms(5,6) r key len u by (simp add: daemon_start_def Let_def can_read_def)
  with same show ?thesis by (simp add: same_keys_def)
qed

lemma restarted_unlocks:
  assumes inv: "saved_inv G H d" and v: "ks_vault (d_keys d) = Some v"
    and k: "ks_d_salt (d_keys d) = Some group_salt" "ks_d_key (d_keys d) = Some d_key"
    and env: "env_ok G H env" "can_read env" and pw: "derive env pw group_salt = Inr d_key"
    and item: "en_get env ItemDataKey \<noteq> CallOk \<or> key_item = None"
  shows "ks_locked (d_keys (daemon_start env (restarted d key_item))) \<and>
    fst (unlock env pw (daemon_start env (restarted d key_item))) = Inr () \<and>
    same_keys d (snd (unlock env pw (daemon_start env (restarted d key_item))))"
proof -
  let ?d = "map_keys (\<lambda>k. k\<lparr>ks_locked := True\<rparr>) (restarted d key_item)"
  note start = restarted_locked [OF inv v env(2) item]
  have fields: "d_file ?d = d_file d" "d_item_salts ?d = d_item_salts d" "d_storage ?d" "ks_unlock_not_before (d_keys ?d) = None"
    by (simp_all add: restarted_def daemon_new_def key_slots_default_def)
  from unlock_with_saved [OF inv v k(2) env fields(1-3)] obtain d2
    where u: "unlock_with env CallOk d_key ?d = (Inr (), d2)" and same: "same_keys d d2" by blast
  from inv v have "\<exists>s. get_salts CallOk ?d = Inr s \<and> d_salt s = group_salt"
  proof (rule vault_savedE)
    fix gs assume "ks_d_salt (d_keys d) = Some gs" "length gs = 32" "vault_sizes v"
      "d_item_salts d = Some (salts_to_bytes \<lparr>d_salt = gs, storage_salt = ov_storage_salt v\<rparr>)"
    then show ?thesis
      using k(1) fields(2) salts.dec_enc [of "\<lparr>d_salt = gs, storage_salt = ov_storage_salt v\<rparr>"]
      by (simp add: get_salts_def salts_ok_def vault_sizes_def)
  qed
  then obtain s where "get_salts CallOk ?d = Inr s" "d_salt s = group_salt" by blast
  then have "unlock env pw ?d = (Inr (), map_keys (count_unlock (en_later env) (Inr ())) d2)"
    using u env(2) pw fields(3,4) by (simp add: unlock_def can_read_def wait_secs_def saturating_duration_since_def u16_try_from_def
        as_secs_def subsec_nanos_def)
  with same show ?thesis unfolding start by (simp add: same_keys_def count_unlock_def)
qed

text \<open>
  C5. A restart loses no key: take any state the daemon can reach with its vault open, and start a
  daemon anew on the same file and salts item, where both can be read. If the keychain has no data
  key, or does not give it, the new daemon is locked, and unlocking it with a password that
  derives the current data key succeeds; if the keychain gives the current data key (automatic
  login), it opens by itself. Either way the keys, salts, identity and settings are those from
  before, whatever settings and passwords were changed and whichever saves of them failed
  (environments in which a directory sync fails after its rename or removal are left out).
\<close>
theorem restart_keeps_keys:
  assumes "gcm_ok G" "daemon_run G H d hs" "ks_vault (d_keys d) = Some v"
    and "ks_d_salt (d_keys d) = Some group_salt" "ks_d_key (d_keys d) = Some d_key"
    and "env_ok G H env" "can_read env" "derive env pw group_salt = Inr d_key"
    and "en_get env ItemDataKey \<noteq> CallOk \<or> key_item = None \<or> key_item = Some d_key"
  shows "if en_get env ItemDataKey = CallOk \<and> key_item = Some d_key
    then same_keys d (daemon_start env (restarted d key_item))
    else ks_locked (d_keys (daemon_start env (restarted d key_item))) \<and>
      fst (unlock env pw (daemon_start env (restarted d key_item))) = Inr () \<and>
      same_keys d (snd (unlock env pw (daemon_start env (restarted d key_item))))"
proof -
  have inv: "saved_inv G H d" using daemon_run_inv [OF assms(1,2)] by (simp add: run_inv_def)
  show ?thesis
  proof (cases "en_get env ItemDataKey = CallOk \<and> key_item = Some d_key")
    case True
    with restarted_opens [OF inv assms(3,5,6,7)] show ?thesis by simp
  next
    case False
    with assms(9) have "en_get env ItemDataKey \<noteq> CallOk \<or> key_item = None" by blast
    from restarted_unlocks [OF inv assms(3-8) this] show ?thesis unfolding if_not_P [OF False] .
  qed
qed


text \<open>
  Automatic login: once the user turned it on, a restarted daemon opens the vault by itself, with
  the same keys, salts, identity and settings, and the key in the keychain is the current one.
\<close>
theorem auto_login_opens:
  assumes "gcm_ok G" "daemon_run G H d hs" "set_auto_login env True d = (Inr (), d')"
    and "env_ok G H env'" "can_read env'" "en_get env' ItemDataKey = CallOk"
  shows "d_item_data_key d' = ks_d_key (d_keys d) \<and> same_keys d (daemon_start env' (restarted d' (d_item_data_key d')))"
proof -
  have inv: "saved_inv G H d" using daemon_run_inv [OF assms(1,2)] by (simp add: run_inv_def)
  from assms(3) obtain v d_key where v: "ks_vault (d_keys d) = Some v" "ks_d_key (d_keys d) = Some d_key"
    and d': "d' = d\<lparr>d_item_data_key := Some d_key, d_keys := (d_keys d)\<lparr>ks_auto_login := True\<rparr>\<rparr>"
    by (auto simp: set_auto_login_def store_set_def Let_def split: if_splits option.splits call.splits)
  have "restarted d' (Some d_key) = restarted d (Some d_key)" by (simp add: restarted_def d')
  with restarted_opens [OF inv v assms(4-6)] v(2) show ?thesis by (simp add: d')
qed

lemma get_file_saved:
  assumes "can_read env" "d_file d = Some bs" "vault_open G kek bs = Inr o'"
  shows "get_file env d = Inr bs"
  using can_read_file(2) [OF assms(1,2) vault_open_len [OF assms(3)]] .


text \<open>A save that is reported as done, and a restart on its file.\<close>

lemma reseal_restart:
  assumes "gcm_ok G" "saved_inv G H d" "env_ok G H env" "reseal env None d = (Inr (), d')"
    and "ks_d_key (d_keys d) = Some d_key" "env_ok G H env'" "can_read env'"
  shows "\<exists>d2. unlock_with env' CallOk d_key (restarted d' key_item) = (Inr (), d2) \<and> trusted_copy d2 = trusted_copy d \<and>
    d_book d2 = book_load [] (book_saved (d_book d) (trusted_copy d))"
proof -
  note inv = assms(2)
  let ?recs = "book_saved (d_book d) (trusted_copy d)"
  from reseal_cases(2) [OF assms(4,3) saved_inv_D [OF inv] refl]
  obtain v a_key a_salt bs where v: "ks_vault (d_keys d) = Some v" "ks_a_key (d_keys d) = Some a_key" "ks_a_salt (d_keys d) = Some a_salt"
    and d': "d' = d\<lparr>d_file := Some bs\<rparr>" and f: "sealed_file G v a_key a_salt (ov_config v) (trusted_copy d) ?recs bs" by auto
  from inv v(1) obtain a_key' a_salt' d_key' group_salt where
    k: "ks_a_key (d_keys d) = Some a_key'" "ks_a_salt (d_keys d) = Some a_salt'" "ks_d_key (d_keys d) = Some d_key'"
      "length a_key' = 32" "length a_salt' = 32" "length group_salt = 32" "vault_sizes v"
      "d_item_salts d = Some (salts_to_bytes \<lparr>d_salt = group_salt, storage_salt = ov_storage_salt v\<rparr>)" "wrapped_for G H v d_key'"
    by (rule vault_savedE)
  with v assms(5) have k': "length a_key = 32" "length a_salt = 32" "wrapped_for G H v d_key" by simp_all
  from assms(1) f k(7) k' obtain kek where o': "derive_kek H d_key (ov_storage_salt v) = Inr kek"
    "vault_open G kek bs = Inr \<lparr>op_wrapped = ov_wrapped v, op_dek = ov_dek v, op_contents = file_contents v a_key a_salt (ov_config v) (trusted_copy d) ?recs\<rparr>"
    "decode_trusted_peers (trusted_peers_layout (trusted_copy d)) = Some (trusted_copy d)"
    "config_decode (config_encode (ov_config v) (encode_saved ?recs)) = Some (ov_config v, ?recs)"
    by (rule sealed_file_open)
  let ?d = "restarted d' key_item"
  have salts: "get_salts CallOk ?d = Inr \<lparr>d_salt = group_salt, storage_salt = ov_storage_salt v\<rparr>"
    using k(6-8) salts.dec_enc [of "\<lparr>d_salt = group_salt, storage_salt = ov_storage_salt v\<rparr>"]
    by (simp add: get_salts_def salts_ok_def vault_sizes_def restarted_def daemon_new_def d')
  have got: "get_file env' ?d = Inr bs" using get_file_saved [OF assms(7) _ o'(2)] by (simp add: restarted_def daemon_new_def d')
  have st: "d_storage ?d" "d_book ?d = []" by (simp_all add: restarted_def daemon_new_def)
  show ?thesis
    using salts got st o' env_okD(1,2) [OF assms(6)] by (simp add: unlock_with_def file_contents_def trusted_copy_def)
qed

section \<open>Networking\<close>

text \<open>
  C8. Networking follows the state: in every reachable state a running network means that the vault is
  open and not locked, Sync is on, and every connection uses the current keys, the identity in the
  vault and the current list of devices. A reachable state is one after any sequence of steps in
  which the network start at the end of a join, the only one outside the change slot, is not
  itself overtaken by another change; changes between the join's commit and that start are
  covered. What being overtaken leads to is shown below, after the reset.
\<close>
theorem network_only_when_open:
  assumes "gcm_ok G" "daemon_run G H d hs" "d_network d = Some n" "nw_running n"
  shows "\<exists>v. ks_vault (d_keys d) = Some v \<and> \<not> ks_locked (d_keys d) \<and> cfg_sync (ov_config v) \<and> nw_identity n = ov_identity v \<and>
    ks_a_key (d_keys d) = Some (ak_a_key (nw_keys n)) \<and> ks_a_salt (d_keys d) = Some (ak_a_salt (nw_keys n)) \<and>
    ks_d_key (d_keys d) = Some (nw_d_key n) \<and> nw_list n = d_list d"
proof -
  have "network_ok d" using daemon_run_inv [OF assms(1,2)] by (simp add: run_inv_def)
  then show ?thesis
    using assms(3,4) by (auto simp: network_ok_def network_current_def net_running_def network_wanted_Some)
qed


lemma apply_network_running:
  assumes "saved_inv G H d" "en_bind env"
  shows "net_running (apply_network env d) \<longleftrightarrow> network_wanted d \<noteq> None"
proof (cases "network_wanted d")
  case None
  then show ?thesis
    by (cases "net_running d") (simp_all add: apply_network_def net_running_def stop_network_keeps split: option.splits)
next
  case (Some ident)
  then obtain v where v: "ks_vault (d_keys d) = Some v" by (auto simp: network_wanted_Some)
  from assms(1) v obtain a_key a_salt d_key where k: "ks_a_key (d_keys d) = Some a_key" "ks_a_salt (d_keys d) = Some a_salt"
    "ks_d_key (d_keys d) = Some d_key" by (rule vault_savedE)
  have "net_running (start_network env ident d)" if "\<not> net_running d"
    using that assms(2) by (simp add: start_network_defs k) (simp add: net_running_def)
  with Some show ?thesis by (cases "net_running d") (simp_all add: apply_network_def)
qed

lemma change_is_applied: "\<exists>d1. snd (change env request d) = apply_network env d1"
  by (auto simp: change_def split: prod.split)

text \<open>
  Every state change applies to networking at once: after any of them, done or failed, networking
  runs if and only if the vault is open with both keys and Sync on, whenever the listener's
  port can be bound.
\<close>
theorem change_applies_network:
  assumes "gcm_ok G" "daemon_run G H d hs" "env_ok G H env" "en_bind env"
  shows "net_running (snd (change env request d)) \<longleftrightarrow> network_wanted (snd (change env request d)) \<noteq> None"
proof -
  have "saved_inv G H d" using daemon_run_inv [OF assms(1,2)] by (simp add: run_inv_def)
  from change_inv [OF assms(1,3) this] have inv: "saved_inv G H (snd (change env request d))" .
  obtain d1 where d1: "snd (change env request d) = apply_network env d1" using change_is_applied by blast
  with inv have "saved_inv G H d1" by (simp add: apply_network_frame)
  from apply_network_running [OF this assms(4)] show ?thesis
    unfolding d1 by (simp add: network_wanted_keys [of "apply_network env d1" d1])
qed

section \<open>Reset\<close>

lemma delete_items_all:
  "delete_items env is d = (Inr (), d') \<Longrightarrow> d' = fold (store_delete CallOk) is d"
  by (induction "is" arbitrary: d) (auto split: if_splits)

lemma delete_vault_done:
  assumes "delete_vault env d = (Inr (), d')"
  shows "d' = (if d_storage d then d\<lparr>d_file := None\<rparr> else d)"
  using assms by (auto simp: delete_vault_def delete_file_def split: if_splits sum.splits prod.splits option.splits)

lemma join_cancelled: "\<not> join_running (cancel_join d)" "d_resets (cancel_join d) = d_resets d" "d_storage (cancel_join d) = d_storage d"
  by (simp_all add: cancel_join_def finish_join_def join_running_def split: option.split)

lemma stop_network_join: "join_running (stop_network d) = join_running d"
  using stop_network_frames [of d] by (auto simp: join_running_def)

text \<open>
  C9. A reset leaves nothing behind: after it the device is fresh, with no keys, vault file, keychain
  item, paired device, address, prompt, join or network; a handshake of any earlier network that finishes
  late pairs into a list nobody reads, and a join that started before is refused.
\<close>
theorem reset_leaves_nothing:
  assumes "gcm_ok G" "daemon_run G H d hs" "reset_device env d = (Inr (), d')"
  shows "is_fresh d' \<and> trusted_copy d' = [] \<and> d_book d' = [] \<and> d_waiting d' = [] \<and> d_network d' = None \<and> \<not> join_running d' \<and>
    (d_storage d \<longrightarrow> d_file d' = None \<and> d_item_salts d' = None \<and> d_item_data_key d' = None) \<and>
    (\<forall>h \<in> hs. trusted_copy (daemon_step env' expired (DevicePaired h p) d') = []) \<and>
    commit_join env' j ident (d_resets d) d' = (Inl Internal, d')"
proof -
  define d0 where "d0 = stop_network (cancel_join (d\<lparr>d_resets := d_resets d + 1\<rparr>))"
  have l: "h \<le> d_list d" if "h \<in> hs" for h
    using daemon_run_inv [OF assms(1,2)] that by (simp add: run_inv_def group_ok_def lists_ok_def)
  have list: "d_list d0 = d_list d" using cancel_join_same [of "d\<lparr>d_resets := d_resets d + 1\<rparr>"] by (simp add: d0_def stop_network_keeps same_group_def)
  obtain d1 where del: "delete_vault env d0 = (Inr (), d1)"
    using assms(3) by (auto simp: reset_device_def dtry_def Let_def d0_def [symmetric] split: prod.splits sum.splits)
  note d1 = delete_vault_done [OF del]
  have st: "d_storage d0 = d_storage d" "d_resets d0 = d_resets d + 1" "\<not> join_running d0" "d_network d0 = None"
    by (simp_all add: d0_def stop_network_keeps join_cancelled stop_network_join)
  define d2 where "d2 = d1\<lparr>d_keys := key_slots_default, d_lists := (d_lists d1)(d_list d1 + 1 := []), d_list := d_list d1 + 1,
      d_book := book_clear (d_book d1), d_waiting := [], d_other_group := False\<rparr>"
  have "reset_device env d = (if d_storage d2 then delete_items env [ItemSalts, ItemDataKey] d2 else (Inr (), d2))"
    unfolding reset_device_def d0_def [symmetric] Let_def del dtry_def d2_def by (simp del: delete_items.simps)
  moreover have "d_storage d2 = d_storage d" unfolding d2_def d1 using st(1) by simp
  ultimately have d': "d' = (if d_storage d then fold (store_delete CallOk) [ItemSalts, ItemDataKey] d2 else d2)"
    using assms(3) delete_items_all [of env "[ItemSalts, ItemDataKey]" d2 d'] by (simp split: if_splits del: delete_items.simps fold.simps)
  have "d_list d1 = d_list d" "join_running d1 = join_running d0" "d_network d1 = None" "d_resets d1 = d_resets d + 1"
    "d_storage d \<longrightarrow> d_file d1 = None"
    unfolding d1 using list st by (simp_all add: join_running_def)
  then have "is_fresh d' \<and> trusted_copy d' = [] \<and> d_book d' = [] \<and> d_waiting d' = [] \<and> d_network d' = None \<and> \<not> join_running d' \<and>
      d_list d' = d_list d + 1 \<and> d_resets d' = d_resets d + 1 \<and>
      (d_storage d \<longrightarrow> d_file d' = None \<and> d_item_salts d' = None \<and> d_item_data_key d' = None)"
    using st unfolding d' d2_def
    by (simp add: store_delete_def is_fresh_def Let_def key_slots_default_def trusted_copy_def book_clear_def join_running_def)
  moreover have "Suc (d_list d) \<notin> hs" using l [of "Suc (d_list d)"] by auto
  ultimately show ?thesis by (auto simp: daemon_step_def trusted_copy_def commit_join_def)
qed

lemma stop_if_unwanted: "network_wanted d = None \<Longrightarrow> \<not> net_running (apply_network env d)"
  by (cases "net_running d") (simp_all add: apply_network_def net_running_def stop_network_keeps split: option.splits)

lemma set_sync_off_unwanted:
  assumes "set_sync env False d = (Inr (), d')"
  shows "network_wanted d' = None"
  using assms
  by (auto simp: set_sync_def save_config_def saved_config_def dtry_def dlift_def network_wanted_def Let_def
      split: sum.splits option.splits prod.splits if_splits)

lemma reset_unwanted:
  assumes "reset_device env d = (Inr (), d')"
  shows "network_wanted d' = None"
proof -
  have items: "d_keys (fold (store_delete CallOk) is d) = d_keys d" for "is" d
  proof (induction "is" arbitrary: d)
    case (Cons i "is")
    show ?case using Cons [of "store_delete CallOk i d"] by (cases i) (simp_all add: store_delete_def)
  qed simp
  have "ks_vault (d_keys d') = None"
    using assms
    by (auto simp: reset_device_def dtry_def Let_def items key_slots_default_def dest!: delete_items_all
        simp del: delete_items.simps fold.simps split: sum.splits prod.splits if_splits)
  then show ?thesis by (simp add: network_wanted_def)
qed

text \<open>
  C30. A network that starts while Sync is turned off keeps running: the start at the end of a join runs
  without the change slot, so the user can turn Sync off, or reset the device, after it copied
  the keys and before it stores the network. Either change is carried out and reported as done,
  with networking unwanted and not running; then the network is stored all the same, runs with
  the keys copied before.
\<close>
theorem late_store_ignores_switch:
  assumes "copy_network env ident d = Some n" "request = SetSync False \<or> request = ResetDevice"
    and "change env' request d = (Inr (), d1)"
  shows "network_wanted d1 = None \<and> \<not> net_running d1 \<and>
    (let d2 = store_network n d1 in net_running d2 \<and> network_wanted d2 = None \<and> d_network d2 = Some n \<and>
      ks_a_key (d_keys d) = Some (ak_a_key (nw_keys n)) \<and> ks_d_key (d_keys d) = Some (nw_d_key n))"
proof -
  obtain d0 where d0: "d1 = apply_network env' d0" "network_wanted d0 = None"
  proof (cases "request = ResetDevice")
    case True
    with assms(3) obtain d0 where "reset_device env' d = (Inr (), d0)" "d1 = apply_network env' d0"
      by (auto simp: change_def split: prod.splits)
    then show thesis using reset_unwanted by (intro that)
  next
    case False
    with assms(2,3) obtain d0 where "set_sync env' False d = (Inr (), d0)" "d1 = apply_network env' d0"
      by (auto simp: change_def split: prod.splits)
    then show thesis using set_sync_off_unwanted by (intro that)
  qed
  have n: "nw_running n" "ks_a_key (d_keys d) = Some (ak_a_key (nw_keys n))" "ks_d_key (d_keys d) = Some (nw_d_key n)"
    using assms(1) by (auto simp: copy_network_def split: option.splits if_splits)
  have "network_wanted d1 = None" unfolding d0(1) using d0(2) by (simp add: network_wanted_keys [of "apply_network env' d0" d0])
  moreover have "\<not> net_running d1" unfolding d0(1) by (rule stop_if_unwanted [OF d0(2)])
  moreover have "net_running (store_network n d1) \<and> d_network (store_network n d1) = Some n \<and> d_keys (store_network n d1) = d_keys d1"
    using calculation(2) n(1) by (simp add: store_network_def) (simp add: net_running_def)
  ultimately show ?thesis using n network_wanted_keys [of "store_network n d1" d1] by (simp add: Let_def)
qed

text \<open>
  C29. A reset that fails can still delete the vault: if the vault file is removed but the sync of its
  directory fails, the reset is reported as failed and the device keeps running with its keys and
  an open vault, while nothing is saved any more.
\<close>
theorem failed_reset_deletes_vault:
  assumes "d_storage d" "d_file d \<noteq> None" "\<not> en_delete_panics env" "check_vault_dir (en_euid env) (en_dir_meta env) = Inr ()"
    and "en_delete_ok env" "\<not> en_delete_sync_ok env"
  shows "fst (reset_device env d) = Inl StorageFailed \<and> d_file (snd (reset_device env d)) = None \<and> d_keys (snd (reset_device env d)) = d_keys d"
proof -
  let ?d = "stop_network (cancel_join (d\<lparr>d_resets := d_resets d + 1\<rparr>))"
  have "d_file (cancel_join d0) = d_file d0" "d_keys (cancel_join d0) = d_keys d0" for d0
    by (simp_all add: cancel_join_def finish_join_def split: option.split)
  then have "d_storage ?d" "d_file ?d = d_file d" "d_keys ?d = d_keys d"
    using assms(1) by (simp_all add: stop_network_keeps join_cancelled)
  with assms(2-6) show ?thesis
    by (auto simp: reset_device_def dtry_def delete_vault_def delete_file_def storage_error_def Let_def)
qed


section \<open>Pairing prompts\<close>

lemma take_waiting_Some:
  assumes "take_waiting P xs = Some (r, rest)"
  shows "\<exists>before i after. xs = before @ (i, r) # after \<and> P (i, r) \<and> rest = before @ after"
  using assms
proof (induction xs arbitrary: rest)
  case (Cons x xs)
  show ?case
  proof (cases "P x")
    case True
    with Cons.prems show ?thesis by (intro exI [of _ "[]"]) (auto intro: exI [of _ "fst x"])
  next
    case False
    with Cons.prems obtain rest' where r: "take_waiting P xs = Some (r, rest')" "rest = x # rest'" by auto
    from Cons.IH [OF r(1)] obtain before i after where "xs = before @ (i, r) # after" "P (i, r)" "rest' = before @ after" by blast
    with r(2) show ?thesis by (intro exI [of _ "x # before"] exI [of _ i] exI [of _ after]) simp
  qed
qed simp

section \<open>The invite window\<close>

text \<open>
  C31. An invite that is stopped while it opens keeps offering the group's salt: if the window is ended
  after it was marked open but before the salt is offered, the salt is offered all the same, no
  window is open any more, and the window's own end does not withdraw it.
\<close>
theorem stopped_invite_offers_salt:
  assumes "open_invite env d = (Inr (Some (generation, offer, group_salt)), d1)"
  shows "let d2 = stop_add_device d1; d3 = offer_salt offer group_salt d2
    in \<not> d_adding d2 \<and> d_invite d3 = None \<and> end_invite (Some generation) d3 = (False, d3) \<and> d_offers d3 offer = Some group_salt"
  using assms
  by (auto simp: open_invite_def stop_add_device_def end_invite_def offer_salt_def Let_def split: option.splits if_splits)


section \<open>On the small device\<close>

lemma demo_can_read: "can_read demo_env"
  using demo_dir_ok by (simp add: can_read_def) (simp add: demo_env_def vault_lens)

lemma demo_synced_fields:
  "ks_a_key (d_keys demo_synced) = Some (demo_key 16)" "ks_a_salt (d_keys demo_synced) = Some (replicate 32 1)"
  "ks_d_key (d_keys demo_synced) = Some (demo_key 12)" "ks_d_salt (d_keys demo_synced) = Some (replicate 32 1)"
  "ks_vault (d_keys demo_synced) = Some (demo_open_vault demo_sync)" "\<not> ks_locked (d_keys demo_synced)" "d_storage demo_synced"
  "d_file demo_synced = Some (demo_file demo_sync)" "d_network demo_synced = Some demo_network" "nw_running demo_network" "d_resets demo_synced = 0"
  "\<not> d_adding demo_synced" "nw_offer demo_network = 0" "d_join demo_synced = None" "d_waiting demo_synced = []" "d_next_id demo_synced = 0"
  by (simp_all add: demo_synced_def demo_saved_fields demo_network_def)

theorem restart_keeps_keys_witness:
  "ks_locked (d_keys (daemon_start demo_env (restarted demo_synced None))) \<and>
   fst (unlock demo_env (demo_password 12) (daemon_start demo_env (restarted demo_synced None))) = Inr () \<and>
   same_keys demo_synced (snd (unlock demo_env (demo_password 12) (daemon_start demo_env (restarted demo_synced None)))) \<and>
   same_keys demo_synced (daemon_start demo_env (restarted demo_synced (Some (demo_key 12))))"
proof -
  note restart = restart_keeps_keys [OF demo_gcm_ok demo_synced_run demo_synced_fields(5,4,3) demo_env_ok demo_can_read demo_derive]
  have "en_get demo_env ItemDataKey = CallOk" by (simp add: demo_env_def)
  with restart [of None] restart [of "Some (demo_key 12)"] show ?thesis by simp
qed

theorem auto_login_opens_witness:
  "\<exists>d'. set_auto_login demo_env True demo_saved = (Inr (), d') \<and> d_item_data_key d' = ks_d_key (d_keys demo_saved) \<and>
    same_keys demo_saved (daemon_start demo_env (restarted d' (d_item_data_key d')))"
proof -
  have env: "en_set demo_env ItemDataKey = CallOk" "en_get demo_env ItemDataKey = CallOk" by (simp_all add: demo_env_def)
  have "\<exists>d'. set_auto_login demo_env True demo_saved = (Inr (), d')"
    by (simp add: set_auto_login_def demo_saved_fields env)
  then obtain d' where d': "set_auto_login demo_env True demo_saved = (Inr (), d')" by blast
  with auto_login_opens [OF demo_gcm_ok demo_saved_run d' demo_env_ok demo_can_read env(2)] show ?thesis by blast
qed

theorem network_only_when_open_witness:
  "\<exists>v. ks_vault (d_keys demo_synced) = Some v \<and> \<not> ks_locked (d_keys demo_synced) \<and> cfg_sync (ov_config v) \<and>
    nw_identity demo_network = ov_identity v \<and> ks_a_key (d_keys demo_synced) = Some (ak_a_key (nw_keys demo_network)) \<and>
    ks_a_salt (d_keys demo_synced) = Some (ak_a_salt (nw_keys demo_network)) \<and>
    ks_d_key (d_keys demo_synced) = Some (nw_d_key demo_network) \<and> nw_list demo_network = d_list demo_synced"
  by (rule network_only_when_open [OF demo_gcm_ok demo_synced_run demo_synced_fields(9,10)])

theorem change_applies_network_witness:
  "net_running (snd (change demo_env (SetSync False) demo_synced)) \<longleftrightarrow> network_wanted (snd (change demo_env (SetSync False) demo_synced)) \<noteq> None"
  by (rule change_applies_network [OF demo_gcm_ok demo_synced_run demo_env_ok]) (simp add: demo_env_def)

lemma demo_reset: "\<exists>d'. reset_device demo_env d = (Inr (), d')"
proof -
  define d0 where "d0 = stop_network (cancel_join (d\<lparr>d_resets := d_resets d + 1\<rparr>))"
  have "\<exists>d1. delete_vault demo_env d0 = (Inr (), d1)"
    using demo_dir_ok by (auto simp: delete_vault_def delete_file_def demo_env_def split: option.split)
  moreover have "\<exists>d2. delete_items demo_env [ItemSalts, ItemDataKey] d = (Inr (), d2)" for d
    by (simp add: demo_env_def)
  ultimately show ?thesis
    unfolding reset_device_def d0_def [symmetric] Let_def dtry_def by (auto simp del: delete_items.simps)
qed

theorem reset_leaves_nothing_witness:
  "\<exists>d'. reset_device demo_env demo_synced = (Inr (), d') \<and> is_fresh d' \<and> trusted_copy d' = [] \<and> d_network d' = None \<and>
    d_file d' = None \<and> d_item_salts d' = None \<and>
    trusted_copy (daemon_step demo_env (\<lambda>_. False) (DevicePaired 0 (sample_peer 1)) d') = [] \<and>
    commit_join demo_env \<lparr>jn_a_key = [], jn_a_salt = [], jn_d_key = [], jn_d_salt = [], jn_peer = sample_peer 1,
      jn_addr = \<lparr>sa_ip = V4 0, sa_port = 0\<rparr>\<rparr> [] (d_resets demo_synced) d' = (Inl Internal, d')"
proof -
  obtain d' where d': "reset_device demo_env demo_synced = (Inr (), d')" using demo_reset by blast
  from reset_leaves_nothing [OF demo_gcm_ok demo_synced_run d', of demo_env "\<lambda>_. False" "sample_peer 1"] d' demo_synced_fields(7)
  show ?thesis by blast
qed

text \<open>The small device right after a join: Sync is on, its network is about to be stored.\<close>

theorem late_store_ignores_switch_witness:
  "\<exists>n d1. copy_network demo_env (ov_identity (demo_open_vault demo_sync)) (demo_synced\<lparr>d_network := None\<rparr>) = Some n \<and>
    change demo_env ResetDevice (demo_synced\<lparr>d_network := None\<rparr>) = (Inr (), d1) \<and>
    \<not> net_running d1 \<and> network_wanted (store_network n d1) = None \<and> net_running (store_network n d1)"
proof -
  let ?d = "demo_synced\<lparr>d_network := None\<rparr>" and ?i = "ov_identity (demo_open_vault demo_sync)"
  have "\<exists>n. copy_network demo_env ?i ?d = Some n"
    using demo_synced_fields by (simp add: copy_network_def) (simp add: demo_env_def)
  then obtain n where n: "copy_network demo_env ?i ?d = Some n" by blast
  from demo_reset [of ?d] obtain d1 where d1: "change demo_env ResetDevice ?d = (Inr (), d1)"
    by (auto simp: change_def split: prod.splits)
  from late_store_ignores_switch [OF n _ d1] n d1 show ?thesis by (simp add: Let_def)
qed

theorem failed_reset_deletes_vault_witness:
  "let env = demo_env\<lparr>en_delete_sync_ok := False\<rparr>
   in fst (reset_device env demo_synced) = Inl StorageFailed \<and> d_file (snd (reset_device env demo_synced)) = None \<and>
      d_keys (snd (reset_device env demo_synced)) = d_keys demo_synced"
  unfolding Let_def
  using demo_dir_ok by (intro failed_reset_deletes_vault) (simp_all add: demo_synced_fields demo_env_def)

theorem stopped_invite_offers_salt_witness:
  "\<exists>generation offer group_salt d1. open_invite demo_env demo_synced = (Inr (Some (generation, offer, group_salt)), d1) \<and>
    (let d2 = stop_add_device d1; d3 = offer_salt offer group_salt d2
     in \<not> d_adding d2 \<and> d_invite d3 = None \<and> end_invite (Some generation) d3 = (False, d3) \<and> d_offers d3 offer = Some group_salt)"
proof -
  have "\<exists>g offer group_salt d1. open_invite demo_env demo_synced = (Inr (Some (g, offer, group_salt)), d1)"
    using demo_synced_fields by (simp add: open_invite_def) (simp add: demo_env_def Let_def)
  then obtain g offer group_salt d1 where o': "open_invite demo_env demo_synced = (Inr (Some (g, offer, group_salt)), d1)" by blast
  with stopped_invite_offers_salt [OF o'] show ?thesis by blast
qed

end
