(* ===== verification/Daemon_Guess.thy ===== *)
theory Daemon_Guess
  imports Daemon_Demo
begin

text \<open>
  Guessing the data password over IPC: whatever other events reach the daemon in between, each
  wrong password delays the next one.
\<close>

section \<open>The lock\<close>

lemma set_password_locked: "ks_locked (d_keys d) \<Longrightarrow> snd (set_password env kind pw d) = d"
  by (simp add: set_password_def)

lemma salt_for_locked: "salt_for env kind d = (r, d1) \<Longrightarrow> ks_locked (d_keys d1) = ks_locked (d_keys d)"
  by (auto simp: salt_for_def Let_def split: option.splits key_kind.splits)

lemma set_password_stays_open: "\<not> ks_locked (d_keys d) \<Longrightarrow> \<not> ks_locked (d_keys (snd (set_password env kind pw d)))"
proof -
  assume open': "\<not> ks_locked (d_keys d)"
  obtain r d1 where salt: "salt_for env kind d = (r, d1)" by fastforce
  have 1: "\<not> ks_locked (d_keys d1)" using salt_for_locked [OF salt] open' by simp
  have 2: "\<not> ks_locked (d_keys d2)" if "save_changed_key env kind key d1 = (r', d2)" for key r' d2
    using save_changed_key_same [of d1 env kind key] 1 that by (simp add: same_group_def)
  have 3: "\<not> ks_locked (d_keys (first_vault env (update_network_keys (new_key kind key d2))))" if "\<not> ks_locked (d_keys d2)" for key d2
    using that by (simp add: first_vault_def create_vault_frame)
  show ?thesis
    using open' 1 2 3
    by (auto simp: set_password_eq salt dtry_def dlift_def split: sum.splits prod.splits if_splits)
qed

lemma reset_keys: "d_keys (snd (reset_device env d)) = d_keys d \<or> d_keys (snd (reset_device env d)) = key_slots_default"
proof -
  have items: "d_keys (snd (delete_items env is d)) = d_keys d" for "is" d
  proof (induction "is" arbitrary: d)
    case (Cons i "is")
    show ?case using Cons [of "store_delete CallOk i d"] by (cases i) (simp_all add: store_delete_def)
  qed simp
  let ?d = "stop_network (cancel_join (d\<lparr>d_resets := d_resets d + 1\<rparr>))"
  have "d_keys (cancel_join d0) = d_keys d0" for d0 by (simp add: cancel_join_def finish_join_def split: option.split)
  then have k: "d_keys ?d = d_keys d" by (simp add: stop_network_keeps)
  obtain r d1 where del: "delete_vault env ?d = (r, d1)" by fastforce
  then have "d_keys d1 = d_keys d" using k by (auto simp: delete_vault_def split: if_splits sum.splits prod.splits)
  then show ?thesis
    unfolding reset_device_def Let_def del dtry_def by (cases r) (simp_all add: items del: delete_items.simps)
qed

lemma commit_join_locked: "ks_locked (d_keys d) \<Longrightarrow> snd (commit_join env j ident resets d) = d"
  by (simp add: commit_join_def is_fresh_def Let_def)

lemma commit_join_stays_open: "\<not> ks_locked (d_keys d) \<Longrightarrow> \<not> ks_locked (d_keys (snd (commit_join env j ident resets d)))"
  by (simp add: commit_join_def Let_def create_vault_frame)

lemma unlock_open: "\<not> ks_locked (d_keys d) \<Longrightarrow> snd (unlock env pw d) = d \<and> fst (unlock env pw d) \<noteq> Inl WrongPassword"
  by (simp add: unlock_def)

text \<open>Requests that are no state change leave the keys alone.\<close>

lemma small_requests_keys:
  "d_keys (snd (add_device env d)) = d_keys d" "d_keys (snd (join_group env d)) = d_keys d" "d_keys (cancel_join d) = d_keys d"
  "d_keys (stop_add_device d) = d_keys d" "d_keys (snd (answer_pairing expired i code accept d)) = d_keys d"
  "d_keys (snd (queue_pairing expired r d)) = d_keys d" "d_keys (snd (open_invite env d)) = d_keys d" "d_keys (end_join g d) = d_keys d"
  by (auto simp: add_device_def open_invite_def offer_salt_def dtry_def join_group_def cancel_join_def finish_join_def stop_add_device_def
      answer_pairing_def queue_pairing_def prune_def end_join_def end_invite_def Let_def split: option.split)

definition is_unlock :: "daemon_event \<Rightarrow> bool" where
  "is_unlock ev = (\<exists>pw. ev = Ask (Unlock pw))"

lemma change_locked:
  assumes "ks_locked (d_keys d)" "\<And>pw. request \<noteq> Unlock pw"
  shows "d_keys (snd (change env request d)) = d_keys d \<or> \<not> ks_locked (d_keys (snd (change env request d)))"
proof (cases "request = ResetDevice")
  case True
  then show ?thesis using reset_keys [of env d] by (auto simp: change_def case_prod_beta key_slots_default_def)
next
  case False
  with assms show ?thesis
    by (cases request) (auto simp: change_def case_prod_beta set_password_locked set_auto_login_def set_sync_def set_clipboard_def saved_config_def
        forget_peer_def)
qed

lemma step_locked:
  assumes "ks_locked (d_keys d)" "\<not> is_unlock ev"
  shows "d_keys (daemon_step env expired ev d) = d_keys d \<or> \<not> ks_locked (d_keys (daemon_step env expired ev d))"
proof (cases ev)
  case (Ask request)
  then have "request \<noteq> Unlock pw" for pw using assms(2) by (auto simp: is_unlock_def)
  from change_locked [OF assms(1) this] Ask show ?thesis
    by (cases request) (auto simp: daemon_step_def handle_request_def case_prod_beta small_requests_keys daemon_status_def pending_pairing_def
        prune_def Let_def)
next
  case (Bridge b)
  then show ?thesis by (cases b) (simp_all add: daemon_step_def pairing_bridge_def small_requests_keys save_peers_keys)
qed (simp_all add: daemon_step_def listener_failed_def offer_salt_def small_requests_keys commit_join_locked assms(1))

lemma change_stays_open:
  assumes "\<not> ks_locked (d_keys d)"
  shows "\<not> ks_locked (d_keys (snd (change env request d)))"
proof -
  have same: "\<not> ks_locked (d_keys d')" if "same_group d d'" for d' using assms that by (simp add: same_group_def)
  show ?thesis
    using reset_keys [of env d] assms
    by (cases request) (auto simp: change_def case_prod_beta set_password_stays_open unlock_open key_slots_default_def
        same [OF set_auto_login_same] same [OF set_sync_same] same [OF set_clipboard_same] same [OF forget_peer_same])
qed

lemma step_stays_open:
  assumes "\<not> ks_locked (d_keys d)"
  shows "\<not> ks_locked (d_keys (daemon_step env expired ev d))"
proof (cases ev)
  case (Ask request)
  with change_stays_open [OF assms] assms show ?thesis
    by (cases request) (auto simp: daemon_step_def handle_request_def case_prod_beta small_requests_keys daemon_status_def pending_pairing_def
        prune_def Let_def)
next
  case (Bridge b)
  with assms show ?thesis by (cases b) (simp_all add: daemon_step_def pairing_bridge_def small_requests_keys save_peers_keys)
qed (use assms in \<open>simp_all add: daemon_step_def listener_failed_def offer_salt_def small_requests_keys commit_join_stays_open\<close>)


section \<open>Guesses\<close>

type_synonym timed_event = "daemon_env \<times> (pairing_request \<Rightarrow> bool) \<times> daemon_event"

text \<open>When a wrong password was found out, for the events of a run.\<close>

definition guess_at :: "daemon_env \<Rightarrow> daemon_event \<Rightarrow> daemon \<Rightarrow> instant list" where
  "guess_at env ev d =
     (case ev of
        Ask (Unlock pw) \<Rightarrow> if fst (unlock env pw d) = Inl WrongPassword then [en_later env] else []
      | _ \<Rightarrow> [])"

fun guess_times :: "timed_event list \<Rightarrow> daemon \<Rightarrow> instant list" where
  "guess_times [] d = []"
| "guess_times ((env, expired, ev) # evs) d = guess_at env ev d @ guess_times evs (daemon_step env expired ev d)"

text \<open>The clock does not run backwards during an event and is far from its end.\<close>

definition clock_ok :: "timed_event \<Rightarrow> bool" where
  "clock_ok e = (en_now (fst e) \<le> en_later (fst e) \<and> en_later (fst e) + from_secs 60 \<le> INSTANT_MAX)"

definition delay_secs :: "nat \<Rightarrow> nat" where
  "delay_secs n = (if n < 5 then 0 else min (2 ^ (n - 5)) 60)"

lemma delay_secs_large: "11 \<le> n \<Longrightarrow> delay_secs n = 60"
proof -
  assume "11 \<le> n"
  then have "(2 :: nat) ^ 6 \<le> 2 ^ (n - 5)" by (intro power_increasing) auto
  then show ?thesis using \<open>11 \<le> n\<close> by (simp add: delay_secs_def)
qed

lemma delay_secs_le: "delay_secs n \<le> 60"
  by (simp add: delay_secs_def)

lemma unlock_delay_secs: "unlock_delay n = from_secs (delay_secs (unat n))"
  by (simp add: unlock_delay_eq delay_secs_def)

text \<open>The guesses of a list come no closer than the delays, after \<open>n\<close> earlier ones.\<close>

fun spaced :: "nat \<Rightarrow> instant \<Rightarrow> instant list \<Rightarrow> bool" where
  "spaced n t [] = True"
| "spaced n t (g # gs) = (t \<le> g \<and> spaced (Suc n) (g + from_secs (delay_secs (Suc n))) gs)"

text \<open>The counter after \<open>n\<close> wrong passwords, the next guess not before \<open>t\<close>.\<close>

definition guesses_left :: "nat \<Rightarrow> instant \<Rightarrow> daemon \<Rightarrow> bool" where
  "guesses_left n t d =
     (ks_locked (d_keys d) \<longrightarrow> unat (ks_unlock_failures (d_keys d)) = min n (2 ^ 32 - 1) \<and>
        t \<le> (case ks_unlock_not_before (d_keys d) of None \<Rightarrow> 0 | Some t \<Rightarrow> t))"

lemma no_guess: "\<not> ks_locked (d_keys d) \<Longrightarrow> guess_times evs d = []"
proof (induction evs arbitrary: d)
  case (Cons e evs)
  obtain env expired ev where e: "e = (env, expired, ev)" by (cases e)
  have "guess_at env ev d = []"
    using unlock_open [OF Cons.prems] by (simp add: guess_at_def split: daemon_event.split request.split)
  with Cons.IH [OF step_stays_open [OF Cons.prems]] show ?case by (simp add: e)
qed simp

lemma unat_saturating_Suc: "unat (w :: u32) = min n (2 ^ 32 - 1) \<Longrightarrow> unat (saturating_add w 1) = min (Suc n) (2 ^ 32 - 1)"
  by (simp add: unat_saturating_add)

lemma wrong_guess:
  assumes "unlock env pw d = (Inl WrongPassword, d')" "guesses_left n t d" "clock_ok (env, expired, ev)"
  shows "t \<le> en_later env" "guesses_left (Suc n) (en_later env + from_secs (delay_secs (Suc n))) d'" "ks_locked (d_keys d)"
proof -
  have l: "ks_locked (d_keys d)" and w: "wait_secs (ks_unlock_not_before (d_keys d)) (en_now env) = 0"
    using assms(1) by (auto simp: unlock_def word_gt_0 split: if_splits)
  show "ks_locked (d_keys d)" by (rule l)
  have n: "unat (ks_unlock_failures (d_keys d)) = min n (2 ^ 32 - 1)"
    and t: "t \<le> (case ks_unlock_not_before (d_keys d) of None \<Rightarrow> 0 | Some t \<Rightarrow> t)"
    using assms(2) l by (simp_all add: guesses_left_def)
  have "(case ks_unlock_not_before (d_keys d) of None \<Rightarrow> 0 | Some t \<Rightarrow> t) \<le> en_now env"
    using w by (simp add: wait_secs_0 split: option.splits)
  with t assms(3) show "t \<le> en_later env" by (simp add: clock_ok_def)
  show "guesses_left (Suc n) (en_later env + from_secs (delay_secs (Suc n))) d'"
  proof (cases "d' = map_keys (count_unlock (en_later env) (Inl WrongPassword)) d")
    case True
    define m where "m = saturating_add (ks_unlock_failures (d_keys d)) 1"
    have m: "unat m = min (Suc n) (2 ^ 32 - 1)" unfolding m_def by (rule unat_saturating_Suc [OF n])
    have d: "delay_secs (unat m) = delay_secs (Suc n)"
      unfolding m by (cases "Suc n \<le> 2 ^ 32 - 1") (simp_all add: delay_secs_large)
    have "en_later env + unlock_delay m \<le> INSTANT_MAX"
      using assms(3) delay_secs_le [of "Suc n"] by (simp add: clock_ok_def unlock_delay_secs d from_secs_def)
    with True m d show ?thesis
      by (simp add: guesses_left_def count_unlock_def Let_def m_def [symmetric] checked_add_def unlock_delay_secs)
  next
    case False
    show ?thesis using assms(1) by (rule unlock_cases) (use False in auto)
  qed
qed


lemma other_event:
  assumes "guesses_left n t d" "\<not> is_unlock ev"
  shows "guess_at env ev d = []" "guesses_left n t (daemon_step env expired ev d)"
proof -
  show "guess_at env ev d = []"
    using assms(2) by (auto simp: guess_at_def is_unlock_def split: daemon_event.split request.split)
  show "guesses_left n t (daemon_step env expired ev d)"
  proof (cases "ks_locked (d_keys d)")
    case True
    with step_locked [OF True assms(2), of env expired] assms(1) show ?thesis by (auto simp: guesses_left_def)
  next
    case False
    with step_stays_open [OF False, of env expired ev] show ?thesis by (simp add: guesses_left_def)
  qed
qed

lemma unlock_event:
  assumes "guesses_left n t d" "unlock env pw d = (r, d')" "r \<noteq> Inl WrongPassword"
  shows "guesses_left n t d'"
  using assms(2)
proof (cases rule: unlock_cases)
  case (failed e)
  with assms(1,3) show ?thesis by (simp add: guesses_left_def count_unlock_def)
next
  case (opened d_key s d1)
  have "\<not> ks_locked (d_keys d1)" using unlock_with_cases(2) [OF opened(5) refl refl refl] by auto
  then show ?thesis by (simp add: guesses_left_def count_unlock_def opened(6))
qed (use assms(1) in simp)

lemma guess_times_spaced:
  "guesses_left n t d \<Longrightarrow> list_all clock_ok evs \<Longrightarrow> spaced n t (guess_times evs d)"
proof (induction evs arbitrary: n t d)
  case (Cons e evs)
  obtain env expired ev where e: "e = (env, expired, ev)" by (cases e)
  show ?case
  proof (cases "is_unlock ev")
    case False
    with Cons.IH [OF other_event(2) [OF Cons.prems(1) False]] other_event(1) [OF Cons.prems(1) False] Cons.prems(2) show ?thesis
      by (simp add: e)
  next
    case True
    then obtain pw where ev: "ev = Ask (Unlock pw)" by (auto simp: is_unlock_def)
    obtain r d' where u: "unlock env pw d = (r, d')" by fastforce
    have s: "guesses_left m t (daemon_step env expired ev d) = guesses_left m t d'" for m t
      by (simp add: ev daemon_step_def handle_request_def change_def u guesses_left_def)
    show ?thesis
    proof (cases "r = Inl WrongPassword")
      case True
      note g = wrong_guess [OF u [unfolded True] Cons.prems(1), of expired ev]
      from Cons.prems(2) have "clock_ok (env, expired, ev)" by (simp add: e)
      from g [OF this] Cons.IH [of "Suc n" "en_later env + from_secs (delay_secs (Suc n))"] Cons.prems(2) s show ?thesis
        by (simp add: e guess_at_def ev u True)
    next
      case False
      with Cons.IH [of n t] unlock_event [OF Cons.prems(1) u] Cons.prems(2) s show ?thesis
        by (simp add: e guess_at_def ev u)
    qed
  qed
qed simp

lemma spaced_last: "spaced n t (g # gs) \<Longrightarrow> g + from_secs (\<Sum>i<length gs. delay_secs (Suc (n + i))) \<le> List.last (g # gs)"
proof (induction gs arbitrary: n t g)
  case (Cons h gs)
  from Cons.prems have "spaced (Suc n) (g + from_secs (delay_secs (Suc n))) (h # gs)" by simp
  from Cons.IH [OF this] have ih: "h + from_secs (\<Sum>i<length gs. delay_secs (Suc (Suc n + i))) \<le> List.last (h # gs)" .
  have "(\<Sum>i<length (h # gs). delay_secs (Suc (n + i))) = delay_secs (Suc n) + (\<Sum>i<length gs. delay_secs (Suc (Suc n + i)))"
    by (simp add: sum.lessThan_Suc_shift del: sum.lessThan_Suc)
  then have "g + from_secs (\<Sum>i<length (h # gs). delay_secs (Suc (n + i))) \<le> h + from_secs (\<Sum>i<length gs. delay_secs (Suc (Suc n + i)))"
    using Cons.prems by (simp add: from_secs_def algebra_simps)
  with ih show ?case by simp
qed (simp add: from_secs_def)

text \<open>
  C7. Guessing the data password is slow: from a daemon that was just started, whatever
  requests and events come in between and however they are timed, \<open>k + 1\<close> wrong passwords take at
  least the first \<open>k\<close> delays: nothing for the first five, then 1, 2, 4, ... seconds, 60 seconds from
  the eleventh on.
\<close>
theorem unlock_guess_budget:
  assumes "list_all clock_ok evs" "guess_times evs (daemon_start env (daemon_new storage vault_bytes salts_item key_item clipboard)) = g # gs"
  shows "g + from_secs (\<Sum>i<length gs. delay_secs (Suc i)) \<le> List.last (g # gs)"
proof -
  let ?d = "daemon_start env (daemon_new storage vault_bytes salts_item key_item clipboard)"
  have "unat (ks_unlock_failures (d_keys ?d)) = 0 \<or> \<not> ks_locked (d_keys ?d)"
  proof -
    have "ks_unlock_failures (d_keys d2) = ks_unlock_failures (d_keys d1)" if "unlock_with env' get key d1 = (r, d2)" for env' get key d1 r d2
      using that by (auto simp: unlock_with_def dtry_def dlift_def split: sum.splits if_splits prod.splits)
    then have "ks_unlock_failures (d_keys ?d) = 0"
      by (auto simp: daemon_start_def daemon_new_def key_slots_default_def store_delete_def Let_def split: option.split prod.split sum.split)
    then show ?thesis by simp
  qed
  then have "guesses_left 0 0 ?d" by (auto simp: guesses_left_def)
  from guess_times_spaced [OF this assms(1)] show ?thesis using spaced_last [of 0 0 g gs] assms(2) by simp
qed


text \<open>Two wrong passwords on the small device after a restart.\<close>

definition demo_locked :: daemon where
  "demo_locked = daemon_new True (d_file demo_saved) (d_item_salts demo_saved) None True"

lemma demo_wrong_key: "vault_open demo_gcm (demo_key 13) (demo_file config_default) = Inl WrongKey"
proof -
  let ?wc = "replicate 32 3 @ demo_tag (demo_key 12) (replicate 12 4) (aad header WRAP_LABEL)"
  have s: "seal demo_gcm (Some (replicate 12 5)) (replicate 12 4 @ ?wc) (replicate 32 3)
    (file_contents (demo_open_vault config_default) (demo_key 16) (replicate 32 1) config_default [] []) = Inr (demo_file config_default)"
    using demo_seal by (simp add: demo_wrapped_def)
  have "gcm_decrypt demo_gcm (demo_key 13) (replicate 12 4) (aad header WRAP_LABEL) ?wc = None"
    by (simp add: demo_gcm_def demo_tag_def demo_key_def)
  moreover have "length (replicate 12 (4 :: u8)) = NONCE_LEN" "length (replicate 12 (5 :: u8)) = NONCE_LEN" "length ?wc = WRAPPED_DEK_LEN"
    by (simp_all add: vault_lens demo_tag_def)
  ultimately show ?thesis
    using open_sealed [OF demo_gcm_ok demo_contents_ok _ _ _ s, of "demo_key 13"] by (auto simp: decrypt_with_aad_def)
qed

lemma sealed_len:
  assumes "contents_ok c" "gcm_ok G" "seal G (Some dn) w dek c = Inr bs" "length w = WRAP_LEN" "length dn = NONCE_LEN"
  shows "length bs \<le> MAX_VAULT_LEN"
proof -
  from assms(3) obtain ct where "gcm_encrypt G dek dn (aad header DATA_LABEL) (sealed_plaintext c) = Some ct" and bs: "bs = header @ w @ dn @ ct"
    unfolding seal_eq [OF assms(1,2)] by auto
  then have "length ct = length (sealed_plaintext c) + TAG_LEN" using gcm_okD(2) [OF assms(2)] by (simp add: TAG_LEN_def)
  with contents_fit(2) [OF assms(1)] show ?thesis by (simp add: bs assms(4,5) vault_lens)
qed

lemma demo_wrong_guess:
  assumes "d_storage d" "ks_locked (d_keys d)" "wait_secs (ks_unlock_not_before (d_keys d)) 0 = 0" "d_file d = Some (demo_file config_default)"
    "d_item_salts d = Some (replicate 32 1 @ replicate 32 2)"
  shows "unlock demo_env (demo_password 13) d = (Inl WrongPassword, map_keys (count_unlock 0 (Inl WrongPassword)) d)"
proof -
  have env: "en_get demo_env ItemSalts = CallOk" "en_get_again demo_env ItemSalts = CallOk" "en_now demo_env = 0" "en_later demo_env = 0"
    "en_gcm demo_env = demo_gcm" "en_hkdf demo_env = demo_kdf" "\<not> en_read_panics demo_env" "en_read_ok demo_env"
    "en_stat demo_env = Stat \<lparr>fm_is_file = True, fm_uid = 501, fm_mode = 0x180, fm_len = 4096\<rparr>" "en_euid demo_env = 501"
    by (simp_all add: demo_env_def)
  have salts: "get_salts CallOk d = Inr \<lparr>d_salt = replicate 32 1, storage_salt = replicate 32 2\<rparr>"
    using assms(5) salts.dec_enc [of "\<lparr>d_salt = replicate 32 1, storage_salt = replicate 32 2\<rparr>"]
    by (simp add: get_salts_def salts_ok_def salts_to_bytes_def)
  have "length (demo_file config_default) \<le> MAX_VAULT_LEN"
    by (rule sealed_len [OF demo_contents_ok demo_gcm_ok demo_seal]) (simp_all add: demo_wrapped_def demo_tag_def vault_lens)
  then have f: "get_file demo_env d = Inr (demo_file config_default)"
    using demo_dir_ok assms(4) env by (simp add: get_file_def read_vault_def read_file_def fail_if_def vault_lens Let_def)
  have kek: "derive_kek demo_kdf (demo_key 13) (replicate 32 2) = Inr (demo_key 13)" by (simp add: derive_kek_def demo_kdf_def)
  have "unlock_with demo_env CallOk (demo_key 13) d = (Inl WrongPassword, d)"
    using assms(1) by (simp add: unlock_with_def salts f env kek demo_wrong_key storage_error_def)
  with assms(1-3) show ?thesis by (simp add: unlock_def env salts demo_derive)
qed

lemma demo_restarted: "daemon_start demo_env demo_locked = map_keys (\<lambda>k. k\<lparr>ks_locked := True\<rparr>) demo_locked"
proof -
  have "length (demo_file config_default) \<le> MAX_VAULT_LEN"
    by (rule sealed_len [OF demo_contents_ok demo_gcm_ok demo_seal]) (simp_all add: demo_wrapped_def demo_tag_def vault_lens)
  then have "read_vault demo_env demo_locked \<noteq> Inr None"
    using demo_dir_ok by (simp add: read_vault_def read_file_def fail_if_def demo_locked_def daemon_new_def demo_saved_fields Let_def)
      (simp add: demo_env_def vault_lens)
  then show ?thesis by (simp add: daemon_start_def demo_locked_def daemon_new_def Let_def)
qed

theorem unlock_guess_budget_witness:
  "\<exists>g gs. guess_times [(demo_env, \<lambda>_. False, Ask (Unlock (demo_password 13))), (demo_env, \<lambda>_. False, Ask (Unlock (demo_password 13)))]
      (daemon_start demo_env demo_locked) = g # gs \<and> length gs = 1 \<and> g + from_secs (\<Sum>i<length gs. delay_secs (Suc i)) \<le> List.last (g # gs)"
proof -
  let ?e = "(demo_env, (\<lambda>_. False) :: pairing_request \<Rightarrow> bool, Ask (Unlock (demo_password 13)))"
  define d0 where "d0 = map_keys (\<lambda>k. k\<lparr>ks_locked := True\<rparr>) demo_locked"
  define d1 where "d1 = map_keys (count_unlock 0 (Inl WrongPassword)) d0"
  have f0: "d_storage d0" "ks_locked (d_keys d0)" "ks_unlock_not_before (d_keys d0) = None" "d_file d0 = Some (demo_file config_default)"
    "d_item_salts d0 = Some (replicate 32 1 @ replicate 32 2)" "ks_unlock_failures (d_keys d0) = 0" "ks_vault (d_keys d0) = None" "d_network d0 = None"
    by (simp_all add: d0_def demo_locked_def daemon_new_def key_slots_default_def demo_saved_fields)
  have u0: "unlock demo_env (demo_password 13) d0 = (Inl WrongPassword, d1)"
    unfolding d1_def using f0 by (intro demo_wrong_guess) (simp_all add: wait_secs_0)
  have n1: "ks_unlock_not_before (d_keys d1) = Some 0" "ks_locked (d_keys d1)" "d_storage d1" "d_file d1 = d_file d0" "d_item_salts d1 = d_item_salts d0"
    "ks_vault (d_keys d1) = None" "d_network d1 = None"
    using f0 by (simp_all add: d1_def count_unlock_def Let_def checked_add_def unlock_delay_eq from_secs_def saturating_add_def INSTANT_MAX_def)
  have u1: "fst (unlock demo_env (demo_password 13) d1) = Inl WrongPassword"
    using demo_wrong_guess [of d1] n1 f0 by (simp add: wait_secs_0)
  have "apply_network demo_env d1 = d1" using n1 by (simp add: apply_network_def network_wanted_def net_running_def)
  then have "daemon_step demo_env (\<lambda>_. False) (Ask (Unlock (demo_password 13))) d0 = d1"
    by (simp add: daemon_step_def handle_request_def change_def u0)
  then have g: "guess_times [?e, ?e] d0 = [0, 0]" using u0 u1 by (simp add: guess_at_def demo_env_def)
  have start: "daemon_start demo_env (daemon_new True (d_file demo_saved) (d_item_salts demo_saved) None True) = d0"
    using demo_restarted by (simp add: d0_def demo_locked_def)
  have "list_all clock_ok [?e, ?e]" by (simp add: clock_ok_def demo_env_def from_secs_def INSTANT_MAX_def)
  from unlock_guess_budget [OF this, of demo_env True "d_file demo_saved" "d_item_salts demo_saved" None True 0 "[0]"] g
  show ?thesis unfolding demo_locked_def start by simp
qed

end
