(* ===== verification/Ipc_Server.thy ===== *)
theory Ipc_Server
  imports Ipc
begin

text \<open>
  The daemon's end of the IPC (\<open>cesa_conn_networker/src/ipc_server.rs\<close>): who may talk to it, how its
  socket is bound, what one connection does, and how many are served at once.

  What the kernel says about the peer (credentials, signature checks) and the outcomes of the system calls
  are arguments; the handler is an argument, too: it maps a request and the state of the daemon to
  the encoded answer and the state afterwards.
\<close>

section \<open>The model\<close>

definition MAX_CONCURRENT_CLIENTS :: nat where "MAX_CONCURRENT_CLIENTS = 4"

datatype ipc_server_error =
    SocketPathTaken
  | AlreadyRunning
  | FailedToBind
  | FailedToGetPeerCred
  | WrongUser
  | UntrustedCode
  | InvalidCodeRequirement

record client_policy =
  requirement :: "string option"

text \<open>\<open>parses\<close> is \<open>validate_requirement\<close>.\<close>

definition policy_new :: "(string \<Rightarrow> bool) \<Rightarrow> string option \<Rightarrow> ipc_server_error + client_policy" where
  "policy_new parses req =
     (case req of
        Some r \<Rightarrow> if parses r then Inr \<lparr>requirement = Some r\<rparr> else Inl InvalidCodeRequirement
      | None \<Rightarrow> Inr \<lparr>requirement = None\<rparr>)"

record ipc_peer =
  cred_uid :: "u32 option"
  code_ok :: "string \<Rightarrow> bool"

definition policy_verify :: "u32 \<Rightarrow> client_policy \<Rightarrow> ipc_peer \<Rightarrow> ipc_server_error + unit" where
  "policy_verify euid policy peer =
     (case cred_uid peer of
        None \<Rightarrow> Inl FailedToGetPeerCred
      | Some uid \<Rightarrow>
          if uid \<noteq> euid then Inl WrongUser
          else
            (case requirement policy of
               None \<Rightarrow> Inr ()
             | Some r \<Rightarrow> if code_ok peer r then Inr () else Inl UntrustedCode))"

text \<open>What is at the socket path: its owner, whether it is a socket, whether somebody listens there, its
  permissions.\<close>

record path_entry =
  pe_socket :: bool
  pe_uid :: u32
  pe_listening :: bool
  pe_mode :: u32

record bind_calls =
  remove_ok :: bool
  bind_ok :: bool
  chmod_ok :: bool

text \<open>\<open>bind\<close>: the result and what is at the path afterwards. A bind makes a socket with the permissions
  the umask left (\<open>made_mode\<close>).\<close>

definition server_bind :: "u32 \<Rightarrow> u32 \<Rightarrow> bind_calls \<Rightarrow> path_entry option \<Rightarrow> (ipc_server_error + unit) \<times> path_entry option" where
  "server_bind euid made_mode calls entry =
     (let bind_now = (\<lambda>entry.
        if \<not> bind_ok calls \<or> entry \<noteq> None then (Inl FailedToBind, entry)
        else
          let made = \<lparr>pe_socket = True, pe_uid = euid, pe_listening = True, pe_mode = made_mode\<rparr>
          in if chmod_ok calls then (Inr (), Some (made\<lparr>pe_mode := 0x180\<rparr>)) else (Inl FailedToBind, Some (made\<lparr>pe_listening := False\<rparr>)))
      in case entry of
           None \<Rightarrow> bind_now None
         | Some e \<Rightarrow>
             if \<not> pe_socket e \<or> pe_uid e \<noteq> euid then (Inl SocketPathTaken, Some e)
             else if pe_listening e then (Inl AlreadyRunning, Some e)
             else if \<not> remove_ok calls then (Inl FailedToBind, Some e)
             else bind_now None)"

text \<open>One connection: the result, the bytes handed to the peer, the state afterwards. The deadline
  around it (\<open>REQUEST_DEADLINE\<close> in \<open>serve\<close>) can end it at any await: during a read or write that is
  one of their outcomes; a handler that has no turn by then does nothing (\<open>NoTurn\<close> in \<open>Tui_Link\<close>), and
  a change that was started runs on in its own task. The other handlers wait for short locks only
  and are taken to be done by then.\<close>

definition serve_client ::
  "u32 \<Rightarrow> client_policy \<Rightarrow> ipc_peer \<Rightarrow> (nat \<Rightarrow> write_outcome) \<Rightarrow> (request \<Rightarrow> 's \<Rightarrow> bytes \<times> 's) \<Rightarrow> in_stream \<Rightarrow> 's \<Rightarrow>
   (ipc_server_error + unit) \<times> bytes \<times> 's" where
  "serve_client euid policy peer w handler stream s =
     (case policy_verify euid policy peer of
        Inl e \<Rightarrow> (Inl e, [], s)
      | Inr _ \<Rightarrow>
          (case read_frame stream of
             Inl _ \<Rightarrow> (Inr (), [], s)
           | Inr (body, _) \<Rightarrow>
               let (response, s) = (case request_decode body of Some r \<Rightarrow> handler r s | None \<Rightarrow> (encode_error BadRequest, s))
               in (Inr (), fst (write_frame w response), s)))"

text \<open>The accept loop: the connections being served, and what became of a new one.\<close>

datatype accept_event = Accepted nat | AcceptFailed | ClientDone nat

datatype accept_action = ServeNow nat | DropNow nat | BackOff | FreeSlot

definition serve_step :: "nat list \<Rightarrow> accept_event \<Rightarrow> nat list \<times> accept_action" where
  "serve_step active ev =
     (case ev of
        Accepted c \<Rightarrow> if MAX_CONCURRENT_CLIENTS \<le> length active then (active, DropNow c) else (c # active, ServeNow c)
      | AcceptFailed \<Rightarrow> (active, BackOff)
      | ClientDone c \<Rightarrow> (remove1 c active, FreeSlot))"

section \<open>Lemmas\<close>

text \<open>Nothing at the path, or a socket of the user nobody listens on.\<close>

definition replaceable :: "u32 \<Rightarrow> path_entry option \<Rightarrow> bool" where
  "replaceable euid entry = (case entry of None \<Rightarrow> True | Some e \<Rightarrow> pe_socket e \<and> pe_uid e = euid \<and> \<not> pe_listening e)"

lemma serve_client_verified:
  assumes "policy_verify euid policy peer = Inr ()"
  shows "cred_uid peer = Some euid" "requirement policy = Some q \<Longrightarrow> code_ok peer q"
  using assms by (auto simp: policy_verify_def split: option.splits if_splits)

lemma serve_client_answers:
  assumes "policy_verify euid policy peer = Inr ()" "request_ok r" "\<And>i. w i = Written" "frame_ok (fst (handler r s))"
    and "stream = \<lparr>incoming = u32_to_le (word_of_nat (length (request_encode r))) @ request_encode r @ rest, ending = e\<rparr>"
  shows "serve_client euid policy peer w handler stream s =
    (Inr (), u32_to_le (word_of_nat (length (fst (handler r s)))) @ fst (handler r s), snd (handler r s))"
proof -
  have "frame_ok (request_encode r)" using assms(2) length_request_encode by blast
  from read_frame_frame [OF this] have "read_frame stream = Inr (request_encode r, \<lparr>incoming = rest, ending = e\<rparr>)"
    by (simp add: assms(5))
  moreover have "request_decode (request_encode r) = Some r" using assms(2) by (simp add: request.dec_eq_Some_iff)
  ultimately show ?thesis
    using assms(1,3,4) write_frame_ok [of w "fst (handler r s)"] by (simp add: serve_client_def case_prod_beta Let_def)
qed

section \<open>Properties\<close>

text \<open>
  C28. Nobody but the user's own programs is heard: a connection that gets anything back, or changes the
  state of the daemon, comes from a process of the user whose code signature satisfies the
  requirement if one was built in; and whatever it sent, only a well-formed request reaches the
  handler.
\<close>
theorem only_trusted_clients:
  assumes "serve_client euid policy peer w handler stream s = (result, sent, s')" "sent \<noteq> [] \<or> s' \<noteq> s"
  shows "cred_uid peer = Some euid \<and> (\<forall>q. requirement policy = Some q \<longrightarrow> code_ok peer q) \<and>
    (s' = s \<or> (\<exists>r body rest. read_frame stream = Inr (body, rest) \<and> request_ok r \<and> body = request_encode r \<and> s' = snd (handler r s)))"
proof -
  have v: "policy_verify euid policy peer = Inr ()"
    using assms by (auto simp: serve_client_def split: sum.splits)
  have "s' = s \<or> (\<exists>r body rest. read_frame stream = Inr (body, rest) \<and> request_decode body = Some r \<and> s' = snd (handler r s))"
    using assms(1) v by (auto simp: serve_client_def Let_def split: sum.splits option.splits prod.splits)
  with serve_client_verified [OF v] show ?thesis by (auto simp: request.dec_eq_Some_iff)
qed

text \<open>
  The socket is never stolen: a file that is not a socket, a socket of another user and a socket
  somebody listens on stay as they are and the daemon does not start; where it starts, the
  socket is its own with access for nobody else.
\<close>
theorem bind_never_steals:
  "if replaceable euid entry
   then fst (server_bind euid made_mode calls entry) = Inr () \<longleftrightarrow>
     snd (server_bind euid made_mode calls entry) = Some \<lparr>pe_socket = True, pe_uid = euid, pe_listening = True, pe_mode = 0x180\<rparr>
   else fst (server_bind euid made_mode calls entry) \<noteq> Inr () \<and> snd (server_bind euid made_mode calls entry) = entry"
proof (cases entry)
  case (Some e)
  then show ?thesis by (cases e) (auto simp: server_bind_def replaceable_def Let_def)
qed (simp add: server_bind_def replaceable_def Let_def)

text \<open>
  Never more than four clients at once: whatever connects and ends in whatever order, at most four
  connections are served, a further one is dropped, and one that fits is served.
\<close>
theorem clients_bounded:
  assumes "active = fold (\<lambda>ev active. fst (serve_step active ev)) evs []"
  shows "length active \<le> MAX_CONCURRENT_CLIENTS \<and>
    (snd (serve_step active (Accepted c)) = DropNow c \<longleftrightarrow> length active = MAX_CONCURRENT_CLIENTS) \<and>
    (snd (serve_step active (Accepted c)) = ServeNow c \<longleftrightarrow> length active < MAX_CONCURRENT_CLIENTS)"
proof -
  have step: "length (fst (serve_step xs ev)) \<le> MAX_CONCURRENT_CLIENTS" if "length xs \<le> MAX_CONCURRENT_CLIENTS" for xs ev
    using that by (auto simp: serve_step_def length_remove1 split: accept_event.split)
  have "length (fold (\<lambda>ev active. fst (serve_step active ev)) evs xs) \<le> MAX_CONCURRENT_CLIENTS"
    if "length xs \<le> MAX_CONCURRENT_CLIENTS" for xs
    using that
  proof (induction evs arbitrary: xs)
    case (Cons ev evs)
    from Cons.IH [OF step [OF Cons.prems]] show ?case by simp
  qed simp
  from this [of "[]"] show ?thesis by (auto simp: assms serve_step_def)
qed

theorem clients_bounded_witness:
  "length (fold (\<lambda>ev active. fst (serve_step active ev)) [Accepted 1, Accepted 2, ClientDone 1, Accepted 3] []) \<le> MAX_CONCURRENT_CLIENTS"
  using clients_bounded [OF refl, of "[Accepted 1, Accepted 2, ClientDone 1, Accepted 3]"] by blast

text \<open>A status request of the user's own program.\<close>

definition sample_stream :: in_stream where
  "sample_stream = \<lparr>incoming = u32_to_le (word_of_nat (length (request_encode Request_Status))) @ request_encode Request_Status, ending = Closed\<rparr>"

definition sample_ipc_peer :: ipc_peer where
  "sample_ipc_peer = \<lparr>cred_uid = Some 501, code_ok = (\<lambda>_. True)\<rparr>"

theorem only_trusted_clients_witness:
  "\<exists>sent. serve_client 501 \<lparr>requirement = Some ''anchor apple''\<rparr> sample_ipc_peer (\<lambda>_. Written) (\<lambda>r n. ([0], n + 1)) sample_stream (0 :: nat) =
      (Inr (), sent, 1) \<and> cred_uid sample_ipc_peer = Some 501"
proof -
  let ?h = "\<lambda>r n. ([0 :: u8], n + 1)" and ?p = "\<lparr>requirement = Some ''anchor apple''\<rparr> :: client_policy"
  have "policy_verify 501 ?p sample_ipc_peer = Inr ()" by (simp add: policy_verify_def sample_ipc_peer_def)
  from serve_client_answers [OF this, of Request_Status "\<lambda>_. Written" ?h "0 :: nat" sample_stream "[]" Closed]
  have s: "serve_client 501 ?p sample_ipc_peer (\<lambda>_. Written) ?h sample_stream (0 :: nat) = (Inr (), u32_to_le 1 @ [0], 1)"
    by (simp add: sample_stream_def request_ok_def frame_ok_def MAX_FRAME_LEN_def)
  with only_trusted_clients [OF s] show ?thesis by simp
qed

end
