(* ===== verification/Daemon_Answers.thy ===== *)
theory Daemon_Answers
  imports Daemon_Props Ipc_Server
begin

text \<open>
  What the UI gets: every answer of the daemon is one the client of the same request can read, and a
  request travels through both ends of the IPC to the daemon and back.
\<close>

section \<open>Waiting prompts\<close>

definition fewer_waiting :: "daemon \<Rightarrow> daemon \<Rightarrow> bool" where
  "fewer_waiting d d' = (set (d_waiting d') \<subseteq> set (d_waiting d) \<and> length (d_waiting d') \<le> length (d_waiting d))"

lemma fewer_waiting_eq [simp]: "d_waiting d' = d_waiting d \<Longrightarrow> fewer_waiting d d'"
  by (simp add: fewer_waiting_def)

lemma fewer_waiting_Nil: "d_waiting d' = [] \<Longrightarrow> fewer_waiting d d'"
  by (simp add: fewer_waiting_def)

lemma fewer_waiting_trans: "fewer_waiting d d1 \<Longrightarrow> fewer_waiting d1 d2 \<Longrightarrow> fewer_waiting d d2"
  by (auto simp: fewer_waiting_def)

lemma save_file_waiting: "d_waiting (snd (save_file env bs d)) = d_waiting d"
  by (auto simp: save_file_def write_vault_def split: prod.split sum.split)

lemma reseal_waiting: "d_waiting (snd (reseal env c d)) = d_waiting d"
  by (auto simp: reseal_def dtry_def dlift_def Let_def save_file_waiting split: option.split sum.split)

lemma save_config_waiting: "d_waiting (snd (save_config env c d)) = d_waiting d"
  using reseal_waiting [of env "Some c" d] by (auto simp: save_config_def dtry_def split: sum.split prod.split)

lemma create_vault_waiting: "d_waiting (create_vault env ident c d) = d_waiting d"
  by (auto simp: create_vault_def store_set_def write_vault_def Let_def split: option.split sum.split prod.split)

lemma save_changed_key_waiting: "d_waiting (snd (save_changed_key env kind key d)) = d_waiting d"
proof -
  have save: "d_waiting d2 = d_waiting d1" if "save_file env bs d1 = (r, d2)" for bs d1 r d2 using save_file_waiting [of env bs d1] that by simp
  have renew: "d_waiting (renew_auto_login env key d1) = d_waiting d1" for d1 using renew_auto_login_frame [of env key d1] by auto
  show ?thesis
    by (auto simp: save_changed_key_def dtry_def dlift_def Let_def renew split: sum.split option.split prod.split dest: save)
qed

lemma set_password_waiting: "d_waiting (snd (set_password env kind pw d)) = d_waiting d"
proof -
  have s: "d_waiting d1 = d_waiting d" if "salt_for env kind d = (r, d1)" for r d1
    using that by (auto simp: salt_for_def Let_def split: option.splits key_kind.splits)
  have c: "d_waiting d2 = d_waiting d1" if "save_changed_key env kind key d1 = (r, d2)" for key d1 r d2
    using save_changed_key_waiting [of env kind key d1] that by simp
  have f: "d_waiting (first_vault env (update_network_keys (new_key kind key d2))) = d_waiting d2" for key d2
    by (auto simp: first_vault_def create_vault_waiting update_network_keys_def new_key_def split: option.split)
  show ?thesis
    by (auto simp: set_password_eq dtry_def dlift_def f split: sum.split prod.split dest!: s c)
qed

lemma unlock_waiting: "d_waiting (snd (unlock env pw d)) = d_waiting d"
proof -
  have "d_waiting d2 = d_waiting d1" if "unlock_with env get key d1 = (r, d2)" for get key d1 r d2
    using that by (auto simp: unlock_with_def dtry_def dlift_def split: sum.splits if_splits prod.splits)
  then show ?thesis by (auto simp: unlock_def dtry_def dlift_def split: sum.split prod.split)
qed

lemma forget_peer_waiting: "d_waiting (snd (forget_peer env fp d)) = d_waiting d"
proof -
  have "d_waiting d2 = d_waiting d1" if "reseal env c d1 = (r, d2)" for c d1 r d2 using reseal_waiting [of env c d1] that by simp
  then show ?thesis by (fastforce simp: forget_peer_def Let_def split: sum.split prod.split)
qed

lemma stop_network_waiting: "fewer_waiting d (stop_network d)"
  using stop_network_frames [of d] by (auto simp: fewer_waiting_def)

lemma apply_network_waiting: "fewer_waiting d (apply_network env d)"
proof -
  have "d_waiting (start_network env i d) = d_waiting d" for i using start_network_cases [of env i d] by auto
  then show ?thesis by (auto simp: apply_network_def stop_network_waiting split: option.split bool.split)
qed

lemma cancel_join_waiting: "fewer_waiting d (cancel_join d)" "fewer_waiting d (end_join g d)"
  by (auto simp: cancel_join_def end_join_def finish_join_def fewer_waiting_def split: option.split)

lemma reset_waiting: "fewer_waiting d (snd (reset_device env d))"
proof -
  let ?d = "stop_network (cancel_join (d\<lparr>d_resets := d_resets d + 1\<rparr>))"
  have "fewer_waiting (d\<lparr>d_resets := d_resets d + 1\<rparr>) ?d" by (rule fewer_waiting_trans [OF cancel_join_waiting(1) stop_network_waiting])
  then have f: "fewer_waiting d ?d" by (simp add: fewer_waiting_def)
  have items: "d_waiting (snd (delete_items env is d)) = d_waiting d" for "is" d
  proof (induction "is" arbitrary: d)
    case (Cons i "is")
    show ?case using Cons [of "store_delete CallOk i d"] by (cases i) (simp_all add: store_delete_def)
  qed simp
  obtain r d1 where del: "delete_vault env ?d = (r, d1)" by fastforce
  then have "d_waiting d1 = d_waiting ?d" by (auto simp: delete_vault_def split: if_splits sum.splits prod.splits)
  then show ?thesis
    using f unfolding reset_device_def Let_def del dtry_def
    by (cases r) (auto simp: items fewer_waiting_def simp del: delete_items.simps)
qed

lemma settings_waiting:
  "d_waiting (snd (set_sync env on d)) = d_waiting d" "d_waiting (snd (set_clipboard env on d)) = d_waiting d"
  "d_waiting (snd (set_auto_login env on d)) = d_waiting d"
  by (auto simp: set_sync_def set_clipboard_def set_auto_login_def dtry_def dlift_def save_config_waiting store_set_def store_delete_def Let_def
      split: sum.split option.split call.split)

lemma change_waiting: "fewer_waiting d (snd (change env request d))"
proof -
  have e: "snd (change env request d) = apply_network env (snd (case request of
           SetAuthPassword pw \<Rightarrow> set_password env AuthKind pw d
         | SetDataPassword pw \<Rightarrow> set_password env DataKind pw d
         | Unlock pw \<Rightarrow> unlock env pw d
         | SetAutoLogin on \<Rightarrow> set_auto_login env on d
         | SetSync on \<Rightarrow> set_sync env on d
         | SetClipboard on \<Rightarrow> set_clipboard env on d
         | ForgetPeer fingerprint \<Rightarrow> forget_peer env fingerprint d
         | ResetDevice \<Rightarrow> reset_device env d
         | _ \<Rightarrow> (Inl BadRequest, d)))" by (simp add: change_def case_prod_beta)
  show ?thesis
    unfolding e
    by (rule fewer_waiting_trans [OF _ apply_network_waiting])
       (cases request; simp add: set_password_waiting unlock_waiting forget_peer_waiting settings_waiting reset_waiting)
qed

lemma prune_waiting: "fewer_waiting d (prune expired d)"
  by (auto simp: fewer_waiting_def prune_def)

lemma take_waiting_fewer: "take_waiting P xs = Some (r, rest) \<Longrightarrow> set rest \<subseteq> set xs \<and> length rest \<le> length xs"
  using take_waiting_Some [of P xs r rest] by auto

lemma answer_waiting: "fewer_waiting d (snd (answer_pairing expired i code accept d))"
proof (cases "take_waiting (\<lambda>(waiting, r). waiting = i \<and> pr_code r = code) (d_waiting (prune expired d))")
  case None
  then show ?thesis by (simp add: answer_pairing_def prune_waiting)
next
  case (Some p)
  obtain r rest where p: "p = (r, rest)" by (cases p)
  from take_waiting_fewer [OF Some [unfolded p]] have "fewer_waiting (prune expired d) ((prune expired d)\<lparr>d_waiting := rest\<rparr>)"
    by (simp add: fewer_waiting_def)
  from fewer_waiting_trans [OF prune_waiting this] show ?thesis by (simp add: answer_pairing_def Some p)
qed

lemma invite_waiting:
  "fewer_waiting d (stop_add_device d)" "fewer_waiting d (snd (open_invite env d))" "fewer_waiting d (snd (end_invite g d))"
  "fewer_waiting d (snd (add_device env d))" "fewer_waiting d (snd (join_group env d))" "fewer_waiting d (offer_salt i x d)"
  by (auto simp: stop_add_device_def open_invite_def end_invite_def add_device_def join_group_def offer_salt_def dtry_def fewer_waiting_def Let_def
      split: option.split)

lemma commit_join_waiting: "fewer_waiting d (snd (commit_join env j ident resets d))"
  by (rule fewer_waiting_eq) (simp add: commit_join_def Let_def create_vault_waiting)

text \<open>At most four prompts wait, each readable by the UI.\<close>

definition prompts_ok :: "daemon \<Rightarrow> bool" where
  "prompts_ok d = (length (d_waiting d) \<le> MAX_PENDING_PAIRINGS \<and> (\<forall>(i, r) \<in> set (d_waiting d). asked_ok r))"

lemma prompts_fewer: "fewer_waiting d d' \<Longrightarrow> prompts_ok d \<Longrightarrow> prompts_ok d'"
  by (auto simp: fewer_waiting_def prompts_ok_def)

lemma queue_prompts: "prompts_ok d \<Longrightarrow> asked_ok r \<Longrightarrow> prompts_ok (snd (queue_pairing expired r d))"
  using prompts_fewer [OF prune_waiting, of d expired]
  by (auto simp: queue_pairing_def Let_def prompts_ok_def)

lemma handle_request_waiting: "fewer_waiting d (snd (handle_request env expired request d))"
  using change_waiting [of d env request] prune_waiting [of d expired] answer_waiting [of d expired] invite_waiting cancel_join_waiting(1)
  by (cases request) (simp_all add: handle_request_def case_prod_beta daemon_status_def pending_pairing_def Let_def)

lemma daemon_run_prompts:
  assumes "daemon_run G H d hs"
  shows "prompts_ok d"
  using assms
proof induction
  case (start env d storage vault_bytes salts_item key_item clipboard)
  have u: "d_waiting d2 = d_waiting d1" if "unlock_with env get key d1 = (r, d2)" for get key d1 r d2
    using that by (auto simp: unlock_with_def dtry_def dlift_def split: sum.splits if_splits prod.splits)
  have "fewer_waiting (daemon_new storage vault_bytes salts_item key_item clipboard) d"
    unfolding start(2) daemon_start_def
    by (auto simp: Let_def store_delete_def split: option.split prod.split sum.split dest!: u
        intro!: fewer_waiting_trans [OF fewer_waiting_eq apply_network_waiting])
  then show ?case by (rule prompts_fewer) (simp add: prompts_ok_def daemon_new_def)
next
  case (step d hs env ev d' expired)
  show ?case
  proof (cases "\<exists>r. ev = Bridge (PairingAsked r)")
    case True
    with step queue_prompts show ?thesis by (auto simp: daemon_step_def pairing_bridge_def)
  next
    case False
    have "d_waiting (save_peers env d) = d_waiting d" by (simp add: save_peers_def reseal_waiting)
    then have "fewer_waiting d d'"
      using False handle_request_waiting commit_join_waiting apply_network_waiting invite_waiting cancel_join_waiting(2) unfolding step(4)
      by (cases ev) (auto simp: daemon_step_def listener_failed_def pairing_bridge_def split: bridge_event.split)
    then show ?thesis using step.IH by (rule prompts_fewer)
  qed
qed


section \<open>Who decides about a pairing\<close>


type_synonym daemon_did = "daemon_env \<times> (pairing_request \<Rightarrow> bool) \<times> daemon_event"

definition after_steps :: "daemon_did list \<Rightarrow> daemon \<Rightarrow> daemon" where
  "after_steps es d = fold (\<lambda>(env, expired, ev). daemon_step env expired ev) es d"

lemma after_steps_snoc [simp]:
  "after_steps [] d = d" "after_steps (es @ [(env, expired, ev)]) d = daemon_step env expired ev (after_steps es d)"
  by (simp_all add: after_steps_def)












section \<open>Answers\<close>

text \<open>An answer the client of this request can read.\<close>

definition answers :: "request \<Rightarrow> bytes \<Rightarrow> bool" where
  "answers r body = ((\<exists>resp. body = response_encode resp \<and> response_fits resp \<and> response_ok r (response_cut resp)) \<or> (\<exists>e. body = encode_error e))"

lemma answers_done: "(\<And>r'. response_ok r r' = (r' = Done)) \<Longrightarrow> answers r (done_or_error x)"
  by (auto simp: answers_def done_or_error_def response_fits_def split: sum.split)

lemma decode_ok: "response_decode r body = Inr resp \<Longrightarrow> response_ok r resp"
  using response.dec_eq_Some_iff [of r body resp] by (simp add: response_of_def)

lemma decode_cut: "response_ok r (response_cut resp) \<Longrightarrow> response_decode r (response_encode resp) = Inr (response_cut resp)"
  using response.dec_eq_Some_iff [of r "response_encode resp" "response_cut resp"]
  by (auto simp: response_of_def response_encode_cut split: sum.splits)

lemma length_peer_fingerprint: "length (peer_fingerprint p) = FINGERPRINT_LEN"
  by (simp add: peer_fingerprint_def FINGERPRINT_LEN_def)

lemma peers_cut_ok:
  assumes "trusted_peers_ok (trusted_copy d)"
  shows "response_ok ListPeers (response_cut (Peers (daemon_peers d)))"
proof -
  have n: "utf8_valid (short_name (peer_name p))" if "p \<in> set (trusted_copy d)" for p
    using assms that short_name_valid by (auto simp: trusted_peers_ok_def list_all_iff trusted_peer_ok_def)
  show ?thesis
    using n length_short_name by (auto simp: response_ok_def daemon_peers_def list_all_iff peer_info_ok_def length_peer_fingerprint dest!: in_set_takeD)
qed

lemma prompt_cut_ok:
  assumes "prompts_ok d"
  shows "response_ok PendingPairing (response_cut (Pairing (fst (pending_pairing expired d))))"
proof (cases "d_waiting (prune expired d)")
  case Nil
  then show ?thesis by (simp add: pending_pairing_def response_ok_def)
next
  case (Cons w ws)
  obtain i r where w: "w = (i, r)" by (cases w)
  have r: "asked_ok r" using prompts_fewer [OF prune_waiting assms, of expired] by (auto simp: prompts_ok_def Cons w)
  then show ?thesis
    using length_short_name short_name_valid short_name_control
    by (auto simp: pending_pairing_def Cons w response_ok_def prompt_ok_def asked_ok_def valid_peer_name_def)
qed

lemma peers_answer:
  assumes "trusted_peers_ok (trusted_copy d)"
  shows "answers ListPeers (response_encode (Peers (daemon_peers d)))"
proof -
  have "response_fits (Peers (daemon_peers d))" by (simp add: response_fits_def daemon_peers_def list_all_iff length_peer_fingerprint)
  with peers_cut_ok [OF assms] show ?thesis unfolding answers_def by blast
qed

lemma prompt_answer:
  assumes "prompts_ok d"
  shows "answers PendingPairing (response_encode (Pairing (fst (pending_pairing expired d))))"
proof -
  have "response_fits (Pairing (fst (pending_pairing expired d)))"
    using prompts_fewer [OF prune_waiting assms, of expired]
    by (auto simp: response_fits_def pending_pairing_def prompts_ok_def asked_ok_def Let_def split: list.split option.split)
  with prompt_cut_ok [OF assms] show ?thesis unfolding answers_def by blast
qed

lemma handle_request_answers:
  assumes "trusted_peers_ok (trusted_copy d)" "prompts_ok d"
  shows "answers r (fst (handle_request env expired r d))"
proof -
  have status: "answers Request_Status (response_encode (Response_Status s))" for s
    by (auto simp: answers_def response_fits_def response_ok_def intro!: exI [of _ "Response_Status s"])
  have fin: "answers r (response_encode Done)" if "\<And>r'. response_ok r r' = (r' = Done)"
    using answers_done [OF that, of "Inr ()"] by (simp add: done_or_error_def)
  note [simp] = answers_done
  show ?thesis
    using status peers_answer [OF assms(1)] prompt_answer [OF assms(2), of expired] fin
    by (cases r) (simp_all add: handle_request_def case_prod_beta response_ok_def)
qed

lemma answers_decode:
  assumes "answers r body"
  shows "(\<exists>resp. response_decode r body = Inr resp) \<or> (\<exists>e. response_decode r body = Inl (Daemon e))" "frame_ok body"
proof -
  from assms consider resp where "body = response_encode resp" "response_fits resp" "response_ok r (response_cut resp)" | e where "body = encode_error e"
    unfolding answers_def by blast
  then have "((\<exists>resp. response_decode r body = Inr resp) \<or> (\<exists>e. response_decode r body = Inl (Daemon e))) \<and> frame_ok body"
  proof cases
    case 1
    with decode_cut [OF 1(3)] length_response_encode show ?thesis by blast
  next
    case (2 e)
    then show ?thesis
      using daemon_error_from_eq_Some [of "error_byte e" e]
      by (simp add: response_decode_def encode_error_def frame_ok_def MAX_FRAME_LEN_nat)
  qed
  then show "(\<exists>resp. response_decode r body = Inr resp) \<or> (\<exists>e. response_decode r body = Inl (Daemon e))" "frame_ok body" by blast+
qed

text \<open>
  C26. Every answer can be read: in every reachable state the daemon answers any request with a frame within
  the limit that the client decodes as an answer of that very kind or as a daemon error, never as
  a malformed one; at most four prompts wait.
\<close>
theorem answers_readable:
  assumes "gcm_ok G" "daemon_run G H d hs"
  shows "frame_ok (fst (handle_request env expired r d)) \<and> length (d_waiting d) \<le> MAX_PENDING_PAIRINGS \<and>
    ((\<exists>resp. response_decode r (fst (handle_request env expired r d)) = Inr resp \<and> response_ok r resp) \<or>
     (\<exists>e. response_decode r (fst (handle_request env expired r d)) = Inl (Daemon e)))"
proof -
  have "trusted_peers_ok (trusted_copy d)" using daemon_run_inv [OF assms] saved_inv_D(1) by (auto simp: run_inv_def)
  note a = answers_decode [OF handle_request_answers [OF this daemon_run_prompts [OF assms(2)]]]
  show ?thesis using decode_ok a(1) [of r env expired] a(2) daemon_run_prompts [OF assms(2)] by (metis prompts_ok_def)
qed

theorem answers_readable_witness:
  "frame_ok (fst (handle_request demo_env (\<lambda>_. False) ListPeers demo_synced)) \<and> length (d_waiting demo_synced) \<le> MAX_PENDING_PAIRINGS"
  using answers_readable [OF demo_gcm_ok demo_synced_run, of demo_env "\<lambda>_. False" ListPeers] by blast

section \<open>Through both ends\<close>

text \<open>The client's daemon is this one: what it sends is what the daemon's end reads.\<close>

definition connected_to :: "client_env \<Rightarrow> u32 \<Rightarrow> client_policy \<Rightarrow> ipc_peer \<Rightarrow> daemon_env \<Rightarrow> (pairing_request \<Rightarrow> bool) \<Rightarrow> daemon \<Rightarrow> bool" where
  "connected_to client euid policy peer env expired d =
     (\<forall>sent. answer_to client sent =
        \<lparr>incoming = fst (snd (serve_client euid policy peer (\<lambda>_. Written) (handle_request env expired) \<lparr>incoming = sent, ending = Stalled\<rparr> d)),
         ending = Closed\<rparr>)"

lemma request_delivered:
  assumes "gcm_ok G" "daemon_run G H d hs" "request_ok r"
    and "parent_dir client = Some (Some m)" "check_private_dir (client_euid client) (Some m) = Inr ()"
    and "connecting client = Connected" "daemon_uid client = Some (client_euid client)"
    and "\<forall>q. req = Some q \<longrightarrow> signature_ok client q" "\<forall>i. writes client i = Written"
    and "policy_verify euid policy peer = Inr ()" "connected_to client euid policy peer env expired d"
  shows "snd (request_at_checked client r req) = response_decode r (fst (handle_request env expired r d))"
    and "snd (snd (serve_client euid policy peer (\<lambda>_. Written) (handle_request env expired)
      \<lparr>incoming = fst (request_at_checked client r req), ending = Stalled\<rparr> d)) = snd (handle_request env expired r d)"
proof -
  have "trusted_peers_ok (trusted_copy d)" using daemon_run_inv [OF assms(1,2)] saved_inv_D(1) by (auto simp: run_inv_def)
  then have frame: "frame_ok (fst (handle_request env expired r d))"
    using daemon_run_prompts [OF assms(2)] answers_decode(2) handle_request_answers by blast
  let ?sent = "u32_to_le (word_of_nat (length (request_encode r))) @ request_encode r"
  let ?body = "fst (handle_request env expired r d)"
  have s: "serve_client euid policy peer (\<lambda>_. Written) (handle_request env expired) \<lparr>incoming = ?sent, ending = Stalled\<rparr> d =
      (Inr (), u32_to_le (word_of_nat (length ?body)) @ ?body, snd (handle_request env expired r d))"
    by (rule serve_client_answers [where rest = "[]" and e = Stalled]) (simp_all add: assms(10,3) frame)
  have w: "write_frame (writes client) (request_encode r) = (?sent, Inr ())"
    using assms(3,9) length_request_encode by (intro write_frame_ok) auto
  have "read_frame (answer_to client ?sent) = Inr (?body, \<lparr>incoming = [], ending = Closed\<rparr>)"
    using assms(11) s read_frame_frame [OF frame, of "[]" Closed] by (simp add: connected_to_def)
  then have "request_at_checked client r req = (?sent, response_decode r ?body)"
    using assms(4-8) w by (auto simp: request_at_checked_def split: option.splits)
  with s show "snd (request_at_checked client r req) = response_decode r (fst (handle_request env expired r d))"
    and "snd (snd (serve_client euid policy peer (\<lambda>_. Written) (handle_request env expired)
      \<lparr>incoming = fst (request_at_checked client r req), ending = Stalled\<rparr> d)) = snd (handle_request env expired r d)"
    by simp_all
qed

text \<open>
  A request goes through: if the client trusts the daemon and the daemon the client, an allowed request
  reaches the daemon unchanged, the daemon makes exactly the transition of that request, and the
  client gets exactly what decoding the daemon's answer gives: the answer of that kind, or the
  daemon's error.
\<close>
theorem request_goes_through:
  assumes "gcm_ok G" "daemon_run G H d hs" "request_ok r"
    and "parent_dir client = Some (Some m)" "check_private_dir (client_euid client) (Some m) = Inr ()"
    and "connecting client = Connected" "daemon_uid client = Some (client_euid client)"
    and "\<forall>q. req = Some q \<longrightarrow> signature_ok client q" "\<forall>i. writes client i = Written"
    and "policy_verify euid policy peer = Inr ()" "connected_to client euid policy peer env expired d"
  shows "snd (request_at_checked client r req) = response_decode r (fst (handle_request env expired r d)) \<and>
    snd (snd (serve_client euid policy peer (\<lambda>_. Written) (handle_request env expired)
      \<lparr>incoming = fst (request_at_checked client r req), ending = Stalled\<rparr> d)) = snd (handle_request env expired r d)"
  using request_delivered [OF assms] by blast

definition demo_client :: client_env where
  "demo_client = sample_env\<lparr>answer_to := (\<lambda>sent.
     \<lparr>incoming = fst (snd (serve_client 501 \<lparr>requirement = None\<rparr> sample_ipc_peer (\<lambda>_. Written) (handle_request demo_env (\<lambda>_. False))
        \<lparr>incoming = sent, ending = Stalled\<rparr> demo_synced)), ending = Closed\<rparr>)\<rparr>"

theorem request_goes_through_witness:
  "snd (request_at_checked demo_client (SetSync False) None) =
     response_decode (SetSync False) (fst (handle_request demo_env (\<lambda>_. False) (SetSync False) demo_synced))"
proof -
  have "connected_to demo_client 501 \<lparr>requirement = None\<rparr> sample_ipc_peer demo_env (\<lambda>_. False) demo_synced"
    by (simp add: connected_to_def demo_client_def)
  from request_goes_through [OF demo_gcm_ok demo_synced_run _ _ _ _ _ _ _ _ this, of "SetSync False" "\<lparr>meta_is_dir = True, meta_uid = 501, meta_mode = 0x41C0\<rparr>" None]
  show ?thesis
    by (simp add: demo_client_def sample_env_def request_ok_def check_private_dir_def policy_verify_def sample_ipc_peer_def)
qed

end
