(* ===== verification/Daemon_Join.thy ===== *)
theory Daemon_Join
  imports Daemon_Props Salt_Service Tcp_Sync
begin

text \<open>
  Joining a group (\<open>cesa_conn_networker/src/daemon.rs\<close>): the search for members, one attempt with
  one member (salt query, candidate key, handshake and pairing, data key) and the loop of
  \<open>run_join\<close> with its limit of salt attempts.

  An attempt is the number of salt attempts used so far and a process on the connection to the
  member. What surrounds it (the answer to the salt query, random bytes, whether the
  connection opens, the user) is a record. The loop gets its search rounds as a list: when the list
  ends, the join is still searching and goes on until the window or the user ends it.
\<close>

section \<open>The model\<close>

definition JOIN_MAX_ATTEMPTS :: u32 where "JOIN_MAX_ATTEMPTS = 5"

definition SALT_PORT :: u16 where "SALT_PORT = 3233"

record member_addrs =
  ma_salt :: socket_addr
  ma_tcp :: socket_addr

definition find_members :: "bytes option \<Rightarrow> 'e + (socket_addr \<times> instance_id) list \<Rightarrow> member_addrs list" where
  "find_members own search =
     (case own of
        None \<Rightarrow> []
      | Some _ \<Rightarrow>
          (case search of
             Inl _ \<Rightarrow> []
           | Inr found \<Rightarrow> map (\<lambda>(a, _). \<lparr>ma_salt = \<lparr>sa_ip = sa_ip a, sa_port = SALT_PORT\<rparr>, ma_tcp = \<lparr>sa_ip = sa_ip a, sa_port = TCP_PORT\<rparr>\<rparr>) found))"

text \<open>\<open>DeviceKeypairs::from_seed\<close>: \<open>generate\<close> is the key generation of ML-DSA.\<close>

definition from_seed :: "(bytes \<Rightarrow> bytes \<times> bytes) \<Rightarrow> bytes \<Rightarrow> device_keypairs" where
  "from_seed generate seed =
     (let (signing, verification) = generate (drop 32 seed)
      in \<lparr>static_private = take 32 seed, mldsa_signing = signing, mldsa_verification = verification\<rparr>)"

text \<open>What one attempt meets: the salt query, the two derivations, the random key nobody uses, the
  connection, whether the member's address is locked out.\<close>

record join_world =
  jw_reachable :: bool
  jw_query :: write_outcome
  jw_answer :: "bytes \<Rightarrow> in_stream"
  jw_auth_env :: daemon_env
  jw_unused :: "bytes option"
  jw_connects :: bool
  jw_connection :: connection
  jw_locked_out :: bool
  jw_data_env :: daemon_env

text \<open>The context of the attempt: nobody is trusted yet, no salt is offered; the libraries and the port
  are those of \<open>cx\<close>.\<close>

definition join_context ::
  "('s, 'b, 'h, 't) networker_context \<Rightarrow> bytes \<Rightarrow> bytes \<Rightarrow> bytes \<Rightarrow> device_keypairs \<Rightarrow> ('s, 'b, 'h, 't) networker_context" where
  "join_context cx a_key a_salt unused device =
     cx\<lparr>cx_keys := \<lparr>ak_a_key = a_key, ak_a_salt = a_salt\<rparr>, cx_d_key := unused, cx_device := device, cx_salt_offer := None\<rparr>"

definition join_connection :: "connection \<Rightarrow> connection" where
  "join_connection cn = cn\<lparr>cn_trusted := [], cn_now_trusted := []\<rparr>"

record join_passwords =
  jp_auth :: bytes
  jp_data :: bytes

definition join_attempt ::
  "('s, 'b, 'h, 't) networker_context \<Rightarrow> join_passwords \<Rightarrow> device_keypairs \<Rightarrow> join_world \<Rightarrow> member_addrs \<Rightarrow> u32 \<Rightarrow>
   u32 \<times> ((daemon_error + joined) \<times> tcp_effect list) proc" where
  "join_attempt cx pws device w member attempts =
     (case query_salt (jw_reachable w) (jw_query w) (jw_answer w) of
        Inl _ \<Rightarrow> (attempts, Ret (Inl NetworkOff, []))
      | Inr a_salt \<Rightarrow>
          (saturating_add attempts 1,
           case derive (jw_auth_env w) (jp_auth pws) a_salt of
             Inl e \<Rightarrow> Ret (Inl e, [])
           | Inr a_key \<Rightarrow>
               (case jw_unused w of
                  None \<Rightarrow> Ret (Inl Internal, [])
                | Some unused \<Rightarrow>
                    if \<not> jw_connects w then Ret (Inl NetworkOff, [])
                    else
                      pbind (join_handler (join_context cx a_key a_salt unused device) (join_connection (jw_connection w))
                               (jw_locked_out w) (ma_tcp member))
                        (\<lambda>(r, effects). Ret
                          (case r of
                             Inl _ \<Rightarrow> Inl NetworkOff
                           | Inr (peer, group_salt) \<Rightarrow>
                               (case derive (jw_data_env w) (jp_data pws) group_salt of
                                  Inl e \<Rightarrow> Inl e
                                | Inr d_key \<Rightarrow>
                                    Inr \<lparr>jn_a_key = a_key, jn_a_salt = a_salt, jn_d_key = d_key, jn_d_salt = group_salt,
                                      jn_peer = peer, jn_addr = ma_tcp member\<rparr>),
                           effects)))))"

text \<open>The loop. \<open>go\<close> is one attempt with its outcome.\<close>

fun join_members ::
  "('w \<Rightarrow> member_addrs \<Rightarrow> u32 \<Rightarrow> u32 \<times> (daemon_error + joined)) \<Rightarrow> ('w \<times> member_addrs) list \<Rightarrow> u32 \<Rightarrow> joined option \<times> u32" where
  "join_members go [] n = (None, n)"
| "join_members go ((w, m) # ms) n =
     (if JOIN_MAX_ATTEMPTS \<le> n then (None, n)
      else
        (case go w m n of
           (n', Inr j) \<Rightarrow> (Some j, n')
         | (n', Inl _) \<Rightarrow> join_members go ms n'))"

datatype join_end = JoinedGroup joined | SaltsUsedUp | StillSearching

fun run_join ::
  "('w \<Rightarrow> member_addrs \<Rightarrow> u32 \<Rightarrow> u32 \<times> (daemon_error + joined)) \<Rightarrow> ('w \<times> member_addrs) list list \<Rightarrow> u32 \<Rightarrow> join_end \<times> u32" where
  "run_join go rounds n =
     (if \<not> n < JOIN_MAX_ATTEMPTS then (SaltsUsedUp, n)
      else
        (case rounds of
           [] \<Rightarrow> (StillSearching, n)
         | members # later \<Rightarrow>
             (case join_members go members n of
                (Some j, n') \<Rightarrow> (JoinedGroup j, n')
              | (None, n') \<Rightarrow> run_join go later n')))"

declare run_join.simps [simp del]

text \<open>An go whose connection showed this trace; a connection that is cut counts as a failure.\<close>

definition attempt_on ::
  "('s, 'b, 'h, 't) networker_context \<Rightarrow> join_passwords \<Rightarrow> device_keypairs \<Rightarrow> join_world \<times> event list \<Rightarrow> member_addrs \<Rightarrow> u32 \<Rightarrow>
   u32 \<times> (daemon_error + joined)" where
  "attempt_on cx pws device w member n =
     (let (n', p) = join_attempt cx pws device (fst w) member n
      in (n', case run p (snd w) of Some (r, _) \<Rightarrow> r | None \<Rightarrow> Inl NetworkOff))"

section \<open>The limit of salt attempts\<close>

text \<open>The reference: the outcomes of the first \<open>k\<close> attempts that got a salt, and the first success.\<close>

definition tried :: "('w \<Rightarrow> bool) \<Rightarrow> ('w \<Rightarrow> member_addrs \<Rightarrow> daemon_error + joined) \<Rightarrow> nat \<Rightarrow> ('w \<times> member_addrs) list \<Rightarrow> (daemon_error + joined) list" where
  "tried salted outcome k ws = map (\<lambda>(w, m). outcome w m) (take k (filter (salted \<circ> fst) ws))"

fun first_joined :: "(daemon_error + joined) list \<Rightarrow> joined option" where
  "first_joined [] = None"
| "first_joined (Inl e # rs) = first_joined rs"
| "first_joined (Inr j # rs) = Some j"

lemma first_joined_append: "first_joined (xs @ ys) = (case first_joined xs of None \<Rightarrow> first_joined ys | Some j \<Rightarrow> Some j)"
  by (induction xs rule: first_joined.induct) simp_all

lemma tried_simps [simp]:
  "tried salted outcome k [] = []" "tried salted outcome 0 ws = []"
  "tried salted outcome (Suc k) ((w, m) # ws) =
     (if salted w then outcome w m # tried salted outcome k ws else tried salted outcome (Suc k) ws)"
  by (simp_all add: tried_def)

lemma tried_append:
  "tried salted outcome k (xs @ ys) =
     tried salted outcome k xs @ tried salted outcome (k - length (tried salted outcome k xs)) ys"
  by (simp add: tried_def min_def)

lemma length_tried: "length (tried salted outcome k ws) \<le> k"
  by (simp add: tried_def)

text \<open>Attempts that count when a salt was answered, and bring nothing without one.\<close>

locale counted_attempts =
  fixes go :: "'w \<Rightarrow> member_addrs \<Rightarrow> u32 \<Rightarrow> u32 \<times> (daemon_error + joined)"
    and salted :: "'w \<Rightarrow> bool"
    and outcome :: "'w \<Rightarrow> member_addrs \<Rightarrow> daemon_error + joined"
  assumes counts: "salted w \<Longrightarrow> go w m n = (saturating_add n 1, outcome w m)"
    and free: "\<not> salted w \<Longrightarrow> \<exists>e. go w m n = (n, Inl e)"
begin

lemma one_more:
  assumes "n < JOIN_MAX_ATTEMPTS"
  shows "5 - unat n = Suc (5 - unat (saturating_add n 1))" "saturating_add n 1 \<le> JOIN_MAX_ATTEMPTS"
    "unat (saturating_add n 1) = Suc (unat n)"
proof -
  have "unat n < 5" using assms by (simp add: JOIN_MAX_ATTEMPTS_def word_less_nat_alt)
  then show "5 - unat n = Suc (5 - unat (saturating_add n 1))" "saturating_add n 1 \<le> JOIN_MAX_ATTEMPTS"
    "unat (saturating_add n 1) = Suc (unat n)"
    by (simp_all add: unat_saturating_add JOIN_MAX_ATTEMPTS_def word_le_nat_alt)
qed

lemma join_members_exact:
  assumes "n \<le> JOIN_MAX_ATTEMPTS" "join_members go ms n = (r, n')"
  shows "r = first_joined (tried salted outcome (5 - unat n) ms) \<and> n' \<le> JOIN_MAX_ATTEMPTS \<and>
    (r = None \<longrightarrow> unat n' = unat n + length (tried salted outcome (5 - unat n) ms))"
  using assms
proof (induction ms arbitrary: n)
  case (Cons x ms)
  obtain w m where x: "x = (w, m)" by (cases x)
  show ?case
  proof (cases "JOIN_MAX_ATTEMPTS \<le> n")
    case True
    then have "5 - unat n = 0" by (simp add: JOIN_MAX_ATTEMPTS_def word_le_nat_alt)
    with True Cons.prems x show ?thesis by simp
  next
    case False
    then have n: "n < JOIN_MAX_ATTEMPTS" by simp
    note one = one_more [OF n]
    show ?thesis
    proof (cases "salted w")
      case True
      show ?thesis
      proof (cases "outcome w m")
        case (Inr j)
        from n have "\<not> JOIN_MAX_ATTEMPTS \<le> n" by simp
        with Cons.prems(2) x True counts Inr have "r = Some j" "n' = saturating_add n 1" by auto
        then show ?thesis using x True Inr one by simp
      next
        case (Inl e)
        from n have "\<not> JOIN_MAX_ATTEMPTS \<le> n" by simp
        with Cons.prems(2) x True counts Inl have "join_members go ms (saturating_add n 1) = (r, n')" by auto
        from Cons.IH [OF one(2) this] show ?thesis using x True Inl one by simp
      qed
    next
      case False
      from n have "\<not> JOIN_MAX_ATTEMPTS \<le> n" by simp
      with free [OF False, of m n] Cons.prems(2) x have "join_members go ms n = (r, n')" by auto
      from Cons.IH [OF Cons.prems(1) this] show ?thesis using x False one(1) by simp
    qed
  qed
qed auto

lemma run_join_exact:
  assumes "n \<le> JOIN_MAX_ATTEMPTS"
  shows "fst (run_join go rounds n) =
    (let rs = tried salted outcome (5 - unat n) (concat rounds) in
     case first_joined rs of
       Some j \<Rightarrow> JoinedGroup j
     | None \<Rightarrow> if length rs = 5 - unat n then SaltsUsedUp else StillSearching)
    \<and> snd (run_join go rounds n) \<le> JOIN_MAX_ATTEMPTS"
  using assms
proof (induction rounds arbitrary: n)
  case Nil
  have "5 - unat n = 0 \<longleftrightarrow> \<not> n < JOIN_MAX_ATTEMPTS" by (auto simp: JOIN_MAX_ATTEMPTS_def word_less_nat_alt)
  with Nil show ?case by (auto simp: run_join.simps [of go "[]"])
next
  case (Cons ms rounds)
  show ?case
  proof (cases "n < JOIN_MAX_ATTEMPTS")
    case False
    then have "5 - unat n = 0" by (auto simp: JOIN_MAX_ATTEMPTS_def word_less_nat_alt)
    with False Cons.prems show ?thesis by (simp add: run_join.simps [of go "ms # rounds"])
  next
    case True
    then have five: "unat n < 5" by (simp add: JOIN_MAX_ATTEMPTS_def word_less_nat_alt)
    obtain r n' where m: "join_members go ms n = (r, n')" by fastforce
    note e = join_members_exact [OF Cons.prems m]
    show ?thesis
    proof (cases r)
      case (Some j)
      with e have f: "first_joined (tried salted outcome (5 - unat n) ms) = Some j" "n' \<le> JOIN_MAX_ATTEMPTS" by simp_all
      have "run_join go (ms # rounds) n = (JoinedGroup j, n')" using True m Some by (simp add: run_join.simps [of go "ms # rounds"])
      with f show ?thesis by (simp add: tried_append first_joined_append)
    next
      case None
      have l: "length (tried salted outcome (5 - unat n) ms) \<le> 5 - unat n" by (rule length_tried)
      from None e have n': "unat n' = unat n + length (tried salted outcome (5 - unat n) ms)" "n' \<le> JOIN_MAX_ATTEMPTS"
        and f: "first_joined (tried salted outcome (5 - unat n) ms) = None" by auto
      then have k: "5 - unat n - length (tried salted outcome (5 - unat n) ms) = 5 - unat n'" by simp
      have "run_join go (ms # rounds) n = run_join go rounds n'" using True m None by (simp add: run_join.simps [of go "ms # rounds"])
      moreover have split: "tried salted outcome (5 - unat n) (concat (ms # rounds)) =
          tried salted outcome (5 - unat n) ms @ tried salted outcome (5 - unat n') (concat rounds)"
        by (simp only: concat.simps tried_append k)
      moreover have "length (tried salted outcome (5 - unat n) (concat (ms # rounds))) = 5 - unat n \<longleftrightarrow>
          length (tried salted outcome (5 - unat n') (concat rounds)) = 5 - unat n'"
        unfolding split length_append using n'(1) l five by linarith
      moreover have "first_joined (tried salted outcome (5 - unat n) (concat (ms # rounds))) = first_joined (tried salted outcome (5 - unat n') (concat rounds))"
        unfolding split using f by (simp add: first_joined_append)
      ultimately show ?thesis using Cons.IH [OF n'(2)] unfolding Let_def by presburger
    qed
  qed
qed

end

definition salted :: "join_world \<times> event list \<Rightarrow> bool" where
  "salted w = (\<not> isl (query_salt (jw_reachable (fst w)) (jw_query (fst w)) (jw_answer (fst w))))"

interpretation join: counted_attempts "attempt_on cx pws device" salted "\<lambda>w m. snd (attempt_on cx pws device w m 0)"
  by unfold_locales (auto simp: attempt_on_def join_attempt_def salted_def split: sum.splits)

text \<open>
  C21. A join is decided by five salts and is no way to guess: whatever the devices on the network
  answer and however long the search takes, only the first five attempts that got a salt
  count; the join takes the first of them that succeeds, ends with a failure if none of the five does,
  and goes on searching only while fewer than five salts were answered.
\<close>
theorem join_search_exact:
  "fst (run_join (attempt_on cx pws device) rounds 0) =
    (let outcomes = tried salted (\<lambda>w m. snd (attempt_on cx pws device w m 0)) 5 (concat rounds) in
     case first_joined outcomes of
       Some j \<Rightarrow> JoinedGroup j
     | None \<Rightarrow> if length outcomes = 5 then SaltsUsedUp else StillSearching)
   \<and> snd (run_join (attempt_on cx pws device) rounds 0) \<le> JOIN_MAX_ATTEMPTS"
  using join.run_join_exact [of 0 cx pws device rounds] unfolding unsigned_0 minus_nat.diff_0 by (simp add: JOIN_MAX_ATTEMPTS_def)

section \<open>An honest member\<close>

text \<open>A member with an open window: it answers the query with its salt, and its connections use the keys
  of the group and offer the data salt.\<close>

definition honest_member ::
  "join_passwords \<Rightarrow> join_world \<Rightarrow> ('s, 'b, 'h, 't) networker_context \<Rightarrow> bytes \<Rightarrow> bytes \<Rightarrow> bool" where
  "honest_member pws w cx' d_key group_salt =
     (let a_key = ak_a_key (cx_keys cx'); a_salt = ak_a_salt (cx_keys cx')
      in length a_salt = 32 \<and> length group_salt = GROUP_SALT_LEN \<and> cx_salt_offer cx' = Some group_salt \<and>
         jw_reachable w \<and> jw_query w = Written \<and>
         (\<exists>e ws e'. jw_answer w = (\<lambda>q. \<lparr>incoming = fst (Salt_Service.answer \<lparr>incoming = q, ending = e\<rparr> ws a_salt), ending = e'\<rparr>)) \<and>
         jw_unused w \<noteq> None \<and> jw_connects w \<and> \<not> jw_locked_out w \<and> cn_user (jw_connection w) = Decided True \<and>
         derive (jw_auth_env w) (jp_auth pws) a_salt = Inr a_key \<and> derive (jw_data_env w) (jp_data pws) group_salt = Inr d_key)"

lemma join_attempt_honest:
  assumes "honest_member pws w cx' d_key group_salt" "jw_unused w = Some unused"
    and "tcp_pair pub dir (join_context cx (ak_a_key (cx_keys cx')) (ak_a_salt (cx_keys cx')) unused device) (join_connection (jw_connection w)) cx' cn'"
    and "code_hkdf_ok (cx_code_hkdf cx)" "length (cn_now_trusted cn') < MAX_TRUSTED_PEERS" "cn_user cn' = Decided True"
  shows "\<exists>fuel effects received. link fuel (snd (join_attempt cx pws device w member attempts)) (recv_handler cx' cn' False sink pa) [] [] =
      Some ((Inr \<lparr>jn_a_key = ak_a_key (cx_keys cx'), jn_a_salt = ak_a_salt (cx_keys cx'), jn_d_key = d_key, jn_d_salt = group_salt,
          jn_peer = peer_of pub (cx_device cx') (cn_name (jw_connection w)) [], jn_addr = ma_tcp member\<rparr>, effects), received)"
proof -
  note h = assms(1) [unfolded honest_member_def Let_def]
  have q: "query_salt (jw_reachable w) (jw_query w) (jw_answer w) = Inr (ak_a_salt (cx_keys cx'))"
    using h salt_exchange by auto
  have code: "code_hkdf_ok (cx_code_hkdf (join_context cx (ak_a_key (cx_keys cx')) (ak_a_salt (cx_keys cx')) unused device))"
    using assms(4) by (simp add: join_context_def)
  have "\<not> knows pub [] (cx_device cx')" by (simp add: knows_def find_peer_def)
  with talks_join [OF assms(3) code _ _ assms(5) _ assms(6), where ca = "ma_tcp member" and sink = sink and pa = pa, of group_salt] h
  obtain effects received where
    "talks (join_handler (join_context cx (ak_a_key (cx_keys cx')) (ak_a_salt (cx_keys cx')) unused device)
      (join_connection (jw_connection w)) False (ma_tcp member)) (recv_handler cx' cn' False sink pa) [] []
      (Inr (peer_of pub (cx_device cx') (cn_name (jw_connection w)) [], group_salt), effects) received"
    by (fastforce simp: join_connection_def MAX_TRUSTED_PEERS_def)
  moreover define f where "f = (\<lambda>(r :: tcp_error + trusted_peer \<times> bytes, effects :: tcp_effect list). Ret
     (case r of
        Inl _ \<Rightarrow> Inl NetworkOff
      | Inr (peer, group_salt) \<Rightarrow>
          (case derive (jw_data_env w) (jp_data pws) group_salt of
             Inl e \<Rightarrow> Inl e
           | Inr d_key \<Rightarrow>
               Inr \<lparr>jn_a_key = ak_a_key (cx_keys cx'), jn_a_salt = ak_a_salt (cx_keys cx'), jn_d_key = d_key, jn_d_salt = group_salt,
                 jn_peer = peer, jn_addr = ma_tcp member\<rparr>),
      effects))"
  ultimately have "\<exists>fuel. link fuel (pbind (join_handler (join_context cx (ak_a_key (cx_keys cx')) (ak_a_salt (cx_keys cx')) unused device)
      (join_connection (jw_connection w)) False (ma_tcp member)) f) (pbind (recv_handler cx' cn' False sink pa) Ret) [] [] =
      Some ((Inr \<lparr>jn_a_key = ak_a_key (cx_keys cx'), jn_a_salt = ak_a_salt (cx_keys cx'), jn_d_key = d_key, jn_d_salt = group_salt,
          jn_peer = peer_of pub (cx_device cx') (cn_name (jw_connection w)) [], jn_addr = ma_tcp member\<rparr>, effects), received)"
    using h by (intro talks_link talks_pbind) (auto simp: f_def intro: talks_Ret)
  moreover have "snd (join_attempt cx pws device w member attempts) =
      pbind (join_handler (join_context cx (ak_a_key (cx_keys cx')) (ak_a_salt (cx_keys cx')) unused device)
        (join_connection (jw_connection w)) False (ma_tcp member)) f"
    unfolding join_attempt_def q using h assms(2) by (simp add: f_def)
  ultimately show ?thesis unfolding pbind_Ret by metis
qed

section \<open>The commit\<close>

lemma create_vault_new:
  assumes "ks_vault (d_keys d) = None" "ks_vault (d_keys (create_vault env (Some ident) c d)) \<noteq> None"
  shows "\<exists>v. ks_vault (d_keys (create_vault env (Some ident) c d)) = Some v \<and> ov_config v = c \<and> ov_identity v = ident"
proof -
  have p: "ov_config v = c \<and> ov_identity v = ident" if "prepare_vault env (Some ident) c a_key a_salt d_key ds peers addresses = Inr (s, bs, v)"
    for a_key a_salt d_key ds peers addresses s bs v
    using that by (auto simp: prepare_vault_def and_then_eq_Inr)
  show ?thesis using assms
    by (auto simp: create_vault_def store_set_def write_vault_def Let_def dest: p split: option.splits sum.splits prod.splits if_splits)
qed

lemma commit_join_keys:
  assumes "is_fresh d"
  shows "let d' = snd (commit_join env j ident (d_resets d) d) in
    ks_a_key (d_keys d') = Some (jn_a_key j) \<and> ks_a_salt (d_keys d') = Some (jn_a_salt j) \<and>
    ks_d_key (d_keys d') = Some (jn_d_key j) \<and> ks_d_salt (d_keys d') = Some (jn_d_salt j) \<and>
    trusted_copy d' = trusted_copy d @ [jn_peer j] \<and>
    (fst (commit_join env j ident (d_resets d) d) = Inr () \<longrightarrow> network_wanted d' = Some ident)"
proof -
  define d1 :: daemon where "d1 = d\<lparr>d_keys := (d_keys d)\<lparr>ks_a_key := Some (jn_a_key j), ks_a_salt := Some (jn_a_salt j), ks_d_key := Some (jn_d_key j),
          ks_d_salt := Some (jn_d_salt j)\<rparr>, d_book := snd (seen (d_book d) (x25519_pub_key (jn_peer j)) (jn_addr j)),
          d_lists := (d_lists d)(d_list d := d_lists d (d_list d) @ [jn_peer j])\<rparr>"
  define d2 where "d2 = create_vault env (Some ident) \<lparr>cfg_sync = True, cfg_clipboard = False\<rparr> d1"
  have c: "commit_join env j ident (d_resets d) d = (if ks_vault (d_keys d2) \<noteq> None then Inr () else Inl StorageFailed, d2)"
    using assms by (simp add: commit_join_def d1_def d2_def Let_def)
  have d1: "ks_vault (d_keys d1) = None" "\<not> ks_locked (d_keys d1)" "ks_a_key (d_keys d1) \<noteq> None" "ks_d_key (d_keys d1) \<noteq> None"
    using assms by (simp_all add: is_fresh_def d1_def Let_def)
  have "network_wanted d2 = Some ident" if v: "ks_vault (d_keys d2) \<noteq> None"
  proof -
    from create_vault_new [OF d1(1)] v obtain v where "ks_vault (d_keys d2) = Some v" "cfg_sync (ov_config v)" "ov_identity v = ident"
      unfolding d2_def by fastforce
    with d1 show ?thesis by (simp add: network_wanted_def Let_def) (simp add: d2_def create_vault_frame)
  qed
  then show ?thesis
    using create_vault_frame(1-6,8,9) [of env "Some ident" "\<lparr>cfg_sync = True, cfg_clipboard = False\<rparr>" d1]
    by (simp add: c d2_def [symmetric] trusted_copy_def) (simp add: d1_def)
qed

text \<open>
  C20. Joining brings the group: a fresh device whose user types the two passwords of the group, with
  the members' users and its own accepting, gets through the salt query, handshake and data salt
  to exactly the keys and salts of the group; the commit keeps them with the member as a
  paired device, and once the vault is saved networking is wanted under the new identity.
\<close>
theorem join_brings_group:
  assumes "honest_member pws w cx' d_key group_salt" "jw_unused w = Some unused"
    and "tcp_pair pub dir (join_context cx (ak_a_key (cx_keys cx')) (ak_a_salt (cx_keys cx')) unused (from_seed generate ident))
      (join_connection (jw_connection w)) cx' cn'"
    and "code_hkdf_ok (cx_code_hkdf cx)" "length (cn_now_trusted cn') < MAX_TRUSTED_PEERS" "cn_user cn' = Decided True" "is_fresh d"
  shows "\<exists>fuel j effects received.
    link fuel (snd (join_attempt cx pws (from_seed generate ident) w member attempts)) (recv_handler cx' cn' False sink pa) [] [] =
      Some ((Inr j, effects), received) \<and>
    (let (result, d') = commit_join env j ident (d_resets d) d in
      ks_a_key (d_keys d') = Some (ak_a_key (cx_keys cx')) \<and> ks_a_salt (d_keys d') = Some (ak_a_salt (cx_keys cx')) \<and>
      ks_d_key (d_keys d') = Some d_key \<and> ks_d_salt (d_keys d') = Some group_salt \<and>
      trusted_copy d' = trusted_copy d @ [peer_of pub (cx_device cx') (cn_name (jw_connection w)) []] \<and>
      (result = Inr () \<longrightarrow> network_wanted d' = Some ident))"
proof -
  let ?j = "\<lparr>jn_a_key = ak_a_key (cx_keys cx'), jn_a_salt = ak_a_salt (cx_keys cx'), jn_d_key = d_key, jn_d_salt = group_salt,
          jn_peer = peer_of pub (cx_device cx') (cn_name (jw_connection w)) [], jn_addr = ma_tcp member\<rparr>"
  from join_attempt_honest [OF assms(1-6), of member attempts sink pa] obtain fuel effects received where
    "link fuel (snd (join_attempt cx pws (from_seed generate ident) w member attempts)) (recv_handler cx' cn' False sink pa) [] [] =
      Some ((Inr ?j, effects), received)" by blast
  with commit_join_keys [OF assms(7), of env ?j ident] show ?thesis
    by (intro exI [of _ fuel] exI [of _ ?j] exI [of _ effects] exI [of _ received]) (simp add: case_prod_beta Let_def)
qed

section \<open>A concrete join\<close>

definition demo_generate :: "bytes \<Rightarrow> bytes \<times> bytes" where
  "demo_generate seed = ([1], replicate MLDSA87_VK_LEN 1)"

definition demo_ident :: bytes where "demo_ident = replicate 64 9"

definition demo_member :: "(bytes, bytes, bytes \<times> bytes option \<times> nat, unit) networker_context" where
  "demo_member = (demo_cx 2 (demo_key 17))\<lparr>cx_keys := \<lparr>ak_a_key = demo_key 16, ak_a_salt = replicate 32 1\<rparr>\<rparr>"

definition demo_passwords :: join_passwords where
  "demo_passwords = \<lparr>jp_auth = demo_password 16, jp_data = demo_password 17\<rparr>"

definition demo_world :: join_world where
  "demo_world = \<lparr>jw_reachable = True, jw_query = Written,
     jw_answer = (\<lambda>q. \<lparr>incoming = fst (Salt_Service.answer \<lparr>incoming = q, ending = Closed\<rparr> (\<lambda>_. Written) (replicate 32 1)), ending = Closed\<rparr>),
     jw_auth_env = demo_env, jw_unused = Some (replicate 32 3), jw_connects = True, jw_connection = demo_cn 3 [], jw_locked_out = False,
     jw_data_env = demo_env\<rparr>"

lemma demo_join_pair:
  "tcp_pair demo_pub demo_dir
     (join_context (demo_cx 1 []) (ak_a_key (cx_keys demo_member)) (ak_a_salt (cx_keys demo_member)) (replicate 32 3) (from_seed demo_generate demo_ident))
     (join_connection (jw_connection demo_world)) demo_member (demo_cn 4 [])"
proof -
  have "dsa_ok demo_dsa (from_seed demo_generate demo_ident)" by (simp add: dsa_ok_def demo_dsa_def from_seed_def demo_generate_def)
  then show ?thesis
    using demo_strangers(1) demo_gcm_ok
    by (simp add: tcp_pair_def honest_setup_def join_context_def join_connection_def demo_member_def demo_world_def demo_cx_def demo_cn_def
        no_impostor_def find_peer_def demo_auth_def)
qed

theorem join_brings_group_witness:
  "\<exists>fuel j effects received.
    link fuel (snd (join_attempt (demo_cx 1 []) demo_passwords (from_seed demo_generate demo_ident) demo_world
        \<lparr>ma_salt = demo_at 2, ma_tcp = demo_at 2\<rparr> 0)) (recv_handler demo_member (demo_cn 4 []) False NoSink (demo_at 1)) [] [] =
      Some ((Inr j, effects), received) \<and>
    ks_d_key (d_keys (snd (commit_join demo_env j demo_ident 0 demo_fresh))) = Some (demo_key 17)"
proof -
  have m: "honest_member demo_passwords demo_world demo_member (demo_key 17) (replicate 32 8)"
    unfolding honest_member_def Let_def demo_world_def demo_member_def demo_passwords_def
    by (auto simp: demo_derive demo_cx_def demo_cn_def GROUP_SALT_LEN_def)
  have f: "is_fresh demo_fresh" "d_resets demo_fresh = 0"
    by (simp_all add: is_fresh_def demo_fresh_def daemon_new_def key_slots_default_def)
  have u: "jw_unused demo_world = Some (replicate 32 3)" by (simp add: demo_world_def)
  have c: "code_hkdf_ok (cx_code_hkdf (demo_cx 1 []))" "length (cn_now_trusted (demo_cn 4 [])) < MAX_TRUSTED_PEERS"
    "cn_user (demo_cn 4 []) = Decided True"
    using demo_pairing_code by (simp_all add: demo_cx_def demo_cn_def MAX_TRUSTED_PEERS_def)
  from join_brings_group [OF m u demo_join_pair c f(1), of "\<lparr>ma_salt = demo_at 2, ma_tcp = demo_at 2\<rparr>" 0 NoSink "demo_at 1" demo_env]
  show ?thesis unfolding f(2) Let_def case_prod_beta by blast
qed

end
