(* ===== verification/Daemon_Send.thy ===== *)
theory Daemon_Send
  imports Daemon_Answers Tcp_Sync Clip_Task
begin

text \<open>
  What the daemon does over the network by itself (\<open>cesa_conn_networker/src/daemon.rs\<close>): the hello and
  clipboard rounds to the paired devices, the connections of the invite window, and the
  program around it all (\<open>run\<close>: start and shutdown).

  One send is a process on the connection to one device that ends with its effects. A round is the
  list of the processes it spawns.
\<close>

section \<open>Rounds\<close>

text \<open>What one send meets: whether the connection opens, whether the address is locked out.\<close>

record send_world =
  sw_connects :: bool
  sw_connection :: connection
  sw_locked_out :: bool

definition send_to ::
  "('s, 'b, 'h, 't) networker_context \<Rightarrow> send_world \<Rightarrow> trusted_peer \<Rightarrow> socket_addr \<Rightarrow> action_type \<Rightarrow> bytes \<Rightarrow> tcp_effect list proc" where
  "send_to cx w peer a action payload =
     (if \<not> sw_connects w then Ret [Book (SetState (x25519_pub_key peer) Unreachable)]
      else pbind (send_answered cx (sw_connection w) (sw_locked_out w) a action payload) (\<lambda>(_, effects). Ret effects))"

definition send_round ::
  "('s, 'b, 'h, 't) networker_context \<Rightarrow> (trusted_peer \<Rightarrow> send_world) \<Rightarrow> instant \<Rightarrow> daemon \<Rightarrow> action_type \<Rightarrow> bytes \<Rightarrow>
   (trusted_peer \<times> socket_addr \<times> tcp_effect list proc) list" where
  "send_round cx world now d action payload =
     map (\<lambda>(peer, a). (peer, a, send_to cx (world peer) peer a action payload)) (targets (d_book d) now (trusted_copy d))"

definition hello_round ::
  "('s, 'b, 'h, 't) networker_context \<Rightarrow> (trusted_peer \<Rightarrow> send_world) \<Rightarrow> instant \<Rightarrow> daemon \<Rightarrow>
   (trusted_peer \<times> socket_addr \<times> tcp_effect list proc) list" where
  "hello_round cx world now d = send_round cx world now d Hello HELLO_PAYLOAD"

section \<open>The invite window\<close>

definition connect_to ::
  "('s, 'b, 'h, 't) networker_context \<Rightarrow> send_world \<Rightarrow> socket_addr \<Rightarrow> ((tcp_error + unit) \<times> tcp_effect list) proc" where
  "connect_to cx w a =
     (if \<not> sw_connects w then Ret (Inl TcpConnectFailed, [])
      else connect_handler cx (sw_connection w) (sw_locked_out w) a ConnectNewDevice [])"

text \<open>The task of one found device: its salt is compared, the lower number connects. The second
  component is the flag for a device of another group.\<close>

definition found_task ::
  "('s, 'b, 'h, 't) networker_context \<Rightarrow> send_world \<Rightarrow> salt_error + bytes \<Rightarrow> instance_id \<Rightarrow> ip_addr \<times> instance_id \<Rightarrow> bool \<Rightarrow>
   ((tcp_error + unit) \<times> tcp_effect list) proc \<times> bool" where
  "found_task cx w reply own_id found other_group =
     (case on_found (ak_a_salt (cx_keys cx)) reply own_id (snd found) other_group of
        (ConnectNow, flag) \<Rightarrow> (connect_to cx w \<lparr>sa_ip = fst found, sa_port = TCP_PORT\<rparr>, flag)
      | (TheyConnect, flag) \<Rightarrow> (Ret (Inr (), []), flag)
      | (OtherGroup, flag) \<Rightarrow> (Ret (Inr (), []), flag))"

section \<open>The clipboard from device to device\<close>

lemma send_round_target:
  assumes "peer \<in> set (trusted_copy d)" "target (d_book d) now peer = Some (peer, a)"
  shows "(peer, a, send_to cx (world peer) peer a action payload) \<in> set (send_round cx world now d action payload)"
  using assms by (force simp: send_round_def targets_def in_set_map_filter)

text \<open>
  C6. What is copied on one device is on the clipboard of the other: two paired devices share both
  passwords, the clipboard task of one finds a text to send, the book has an address for the other
  that is due, the connection to it opens and neither end locked the other out, and the other has
  its switch on, an OS that takes the text and no newer update of this device. Then the round sends
  to it, exactly this text is written there, the write is marked as seen so that it is not sent
  back, the answer the sender gets is that it was applied, and both books show the other device
  as reachable.
\<close>
theorem copy_arrives:
  fixes world :: "trusted_peer \<Rightarrow> send_world"
  assumes "clip_poll True (Some count) False (Some (ClipText txt)) t = (Some payload, t1)" "length (ct_epoch t) = 8" "utf8_valid txt"
    and "tcp_pair pub dir cx (sw_connection (world them)) cx' cn'" "data_layer_ok cx (sw_connection (world them))" "cx_d_key cx' = cx_d_key cx"
    and "knows pub (cn_trusted (sw_connection (world them))) (cx_device cx')" "knows pub (cn_trusted cn') (cx_device cx)"
    and "sw_connects (world them)" "\<not> sw_locked_out (world them)"
    and "us = peer_of pub (cx_device cx) (cn_name cn') (cn_trusted cn')"
    and "fst (order_accept (ct_order t') (x25519_pub_key us) (ct_epoch t) (ct_seq t1))" "os_write txt = Some written"
    and "them = peer_of pub (cx_device cx') (cn_name (sw_connection (world them))) (cn_trusted (sw_connection (world them)))"
    and "them \<in> set (trusted_copy d)" "target (d_book d) now them = Some (them, a)"
  shows "\<exists>fuel fuel' p t1' received effects effects'.
    (them, a, p) \<in> set (send_round cx world now d ClipboardSync payload) \<and>
    apply_clip True os_write us payload t' = (Applied, t1') \<and> last_count (ct_watch t1') = written \<and>
    link fuel p (recv_handler cx' cn' False (ClipAnswered (fst (apply_clip True os_write us payload t'))) a') [] [] =
      Some (effects, Inr received, effects') \<and>
    link fuel' (send_answered cx (sw_connection (world them)) False a ClipboardSync payload)
      (recv_handler cx' cn' False (ClipAnswered (fst (apply_clip True os_write us payload t'))) a') [] [] =
      Some ((Inr (them, Applied), effects), Inr received, effects') \<and>
    effects = [GuessPassed (sa_ip a), Book (Seen (x25519_pub_key them) a), Book (DataOk (x25519_pub_key them))] \<and>
    effects' = [GuessPassed (sa_ip a'), Book (Seen (x25519_pub_key us) (a'\<lparr>sa_port := cx_peer_port cx'\<rparr>)), Book (DataOk (x25519_pub_key us)),
         Deliver us payload]"
proof -
  from assms(1) have e: "clip_encode (ct_epoch t) (ct_seq t1) txt = Some payload"
    by (auto simp: clip_poll_def read_clip_def watch_tick_def Let_def split: clip_tick.splits if_splits)
  let ?m = "\<lparr>clip_epoch = ct_epoch t, clip_seq = ct_seq t1, clip_text = txt\<rparr>"
  have d: "clip_decode payload = Some ?m"
    using clip.dec_enc [of ?m] e assms(2,3) by (auto simp: clip_encode_layout clip_ok_def split: if_splits)
  obtain order where o: "order_accept (ct_order t') (x25519_pub_key us) (ct_epoch t) (ct_seq t1) = (True, order)"
    using assms(12) by (cases "order_accept (ct_order t') (x25519_pub_key us) (ct_epoch t) (ct_seq t1)") auto
  let ?t = "t'\<lparr>ct_order := order, ct_watch := watch_written (ct_watch t') written\<rparr>"
  have ap: "apply_clip True os_write us payload t' = (Applied, ?t)"
    using d o assms(13) by (simp add: apply_clip_def Let_def)
  have len: "answered_len_ok ClipboardSync (length payload + DATA_LAYER_OVERHEAD)"
    using clip_wire_bounds [OF e assms(2)] by (simp add: answered_len_ok_def)
  let ?out = "[GuessPassed (sa_ip a), Book (Seen (x25519_pub_key them) a), Book (DataOk (x25519_pub_key them))]"
  let ?in = "[GuessPassed (sa_ip a'), Book (Seen (x25519_pub_key us) (a'\<lparr>sa_port := cx_peer_port cx'\<rparr>)), Book (DataOk (x25519_pub_key us)),
      Deliver us payload]"
  let ?rp = "\<lparr>rp_peer = us, rp_action = ClipboardSync, rp_data = []\<rparr>"
  let ?send = "send_to cx (world them) them a ClipboardSync payload" and ?recv = "recv_handler cx' cn' False (ClipAnswered Applied) a'"
  have talk: "talks (send_answered cx (sw_connection (world them)) False a ClipboardSync payload) ?recv [] []
      (Inr (them, Applied), ?out) (Inr (Some ?rp), ?in)"
    using talks_delivers [OF assms(4-8) len, of a "ClipAnswered Applied" a', folded assms(11,14)]
    by (simp add: data_answer_def deliver_clip_def)
  have "talks ?send ?recv [] [] ?out (Inr (Some ?rp), ?in)"
    using talks_pbind [OF talk, of "\<lambda>(_, effects). Ret effects" Ret, simplified, OF talks_Ret] assms(9,10)
    by (simp add: send_to_def pbind_Ret)
  from talks_link [OF this] talks_link [OF talk] obtain fuel1 fuel2 where
    "link fuel1 ?send ?recv [] [] = Some (?out, Inr (Some ?rp), ?in)"
    "link fuel2 (send_answered cx (sw_connection (world them)) False a ClipboardSync payload) ?recv [] [] =
      Some ((Inr (them, Applied), ?out), Inr (Some ?rp), ?in)" by blast
  with ap send_round_target [OF assms(15,16)] show ?thesis
    by (intro exI [of _ fuel1] exI [of _ fuel2] exI [of _ ?send] exI [of _ ?t]) (simp add: watch_written_def)
qed

lemma demo_clip_payload:
  "\<exists>payload t1. clip_poll True (Some 5) False (Some (ClipText [104])) demo_task = (Some payload, t1) \<and> ct_seq t1 = 1"
  by (simp add: clip_poll_def watch_tick_def demo_task_def read_clip_def clip_encode_layout CLIP_MAX_LEN_def saturating_add_def Let_def)

definition demo_send :: send_world where
  "demo_send = \<lparr>sw_connects = True, sw_connection = demo_cn 3 (demo_known 2), sw_locked_out = False\<rparr>"

definition demo_other :: trusted_peer where
  "demo_other = peer_of demo_pub (demo_device 2) [98] (demo_known 2)"

definition demo_addressed :: daemon where
  "demo_addressed = demo_fresh\<lparr>d_lists := (\<lambda>_. [demo_other]),
     d_book := [\<lparr>peer_id = x25519_pub_key demo_other, addr = Some (demo_at 2), entry_state = PeerOk, retry_after = None\<rparr>]\<rparr>"

lemma demo_addressed_target:
  "demo_other \<in> set (trusted_copy demo_addressed)" "target (d_book demo_addressed) 0 demo_other = Some (demo_other, demo_at 2)"
  by (simp_all add: demo_addressed_def trusted_copy_def target_def)

theorem copy_arrives_witness:
  "\<exists>payload fuel p t1' received effects effects'.
    fst (clip_poll True (Some 5) False (Some (ClipText [104])) demo_task) = Some payload \<and>
    (demo_other, demo_at 2, p) \<in> set (send_round (demo_cx 1 [1]) (\<lambda>_. demo_send) 0 demo_addressed ClipboardSync payload) \<and>
    apply_clip True (\<lambda>txt. if txt = [104] then Some 9 else None) (peer_of demo_pub (demo_device 1) [98] (demo_known 1)) payload demo_task
      = (Applied, t1') \<and> last_count (ct_watch t1') = 9 \<and>
    link fuel p (recv_handler (demo_cx 2 [1]) (demo_cn 4 (demo_known 1)) False (ClipAnswered Applied) (demo_at 1)) [] [] =
      Some (effects, Inr received, effects')"
proof -
  obtain payload t1 where p: "clip_poll True (Some 5) False (Some (ClipText [104])) demo_task = (Some payload, t1)" and s: "ct_seq t1 = 1"
    using demo_clip_payload by blast
  have pair: "tcp_pair demo_pub demo_dir (demo_cx 1 [1]) (sw_connection demo_send) (demo_cx 2 [1]) (demo_cn 4 (demo_known 1))"
    "data_layer_ok (demo_cx 1 [1]) (sw_connection demo_send)" "cx_d_key (demo_cx 2 [1]) = cx_d_key (demo_cx 1 [1])"
    "knows demo_pub (cn_trusted (sw_connection demo_send)) (cx_device (demo_cx 2 [1]))"
    "knows demo_pub (cn_trusted (demo_cn 4 (demo_known 1))) (cx_device (demo_cx 1 [1]))" "sw_connects demo_send" "\<not> sw_locked_out demo_send"
    using demo_tcp_pair(1) demo_data_layer by (simp_all add: demo_send_def demo_known_setup demo_cx_def demo_cn_def)
  have t: "length (ct_epoch demo_task) = 8" "utf8_valid [104]"
    by (simp_all add: demo_task_def utf8_valid_def utf8_chars.simps)
  have us: "peer_of demo_pub (demo_device 1) [98] (demo_known 1) =
      peer_of demo_pub (cx_device (demo_cx 1 [1])) (cn_name (demo_cn 4 (demo_known 1))) (cn_trusted (demo_cn 4 (demo_known 1)))"
    and them: "demo_other = peer_of demo_pub (cx_device (demo_cx 2 [1])) (cn_name (sw_connection demo_send)) (cn_trusted (sw_connection demo_send))"
    by (simp_all add: demo_other_def demo_cx_def demo_cn_def demo_send_def)
  have acc: "fst (order_accept (ct_order demo_task) k (ct_epoch demo_task) (ct_seq t1))" for k
    by (simp add: demo_task_def order_accept_def)
  from copy_arrives [where world = "\<lambda>_. demo_send" and os_write = "\<lambda>txt. if txt = [104] then Some 9 else None" and written = 9 and t' = demo_task
      and a' = "demo_at 1", OF p t pair us acc _ them demo_addressed_target]
  obtain fuel q t1' received effects effects' where
    "(demo_other, demo_at 2, q) \<in> set (send_round (demo_cx 1 [1]) (\<lambda>_. demo_send) 0 demo_addressed ClipboardSync payload)"
    "apply_clip True (\<lambda>txt. if txt = [104] then Some 9 else None) (peer_of demo_pub (demo_device 1) [98] (demo_known 1)) payload demo_task = (Applied, t1')"
    "last_count (ct_watch t1') = 9"
    "link fuel q (recv_handler (demo_cx 2 [1]) (demo_cn 4 (demo_known 1)) False (ClipAnswered Applied) (demo_at 1)) [] [] =
      Some (effects, Inr received, effects')"
    by auto
  with p show ?thesis by (intro exI) auto
qed

section \<open>A device that is away\<close>

lemma target_Some:
  assumes "target es now x = Some (peer, a)"
  shows "x = peer" "\<exists>e. find_entry es (x25519_pub_key peer) = Some e \<and> addr e = Some a"
  using assms by (cases "find_entry es (x25519_pub_key x)"; auto simp: target_def Let_def split: if_splits)+

text \<open>
  A paired device that does not answer is not given up: the round that can not reach it shows it as
  unreachable, changes no other device, and every later round tries it again at the same address.
\<close>
theorem unreachable_tried_again:
  assumes "(peer, a, p) \<in> set (send_round cx world now d action payload)" "\<not> sw_connects (world peer)" "now \<le> later"
    and "run p tr = Some effects" "book' = foldl (\<lambda>es e. case e of Book op \<Rightarrow> book_apply op at es | _ \<Rightarrow> es) (d_book d) effects"
  shows "state_of book' (x25519_pub_key peer) = Unreachable \<and>
    (peer, a, send_to cx (world' peer) peer a action' payload') \<in> set (send_round cx world' later (d\<lparr>d_book := book'\<rparr>) action' payload') \<and>
    (\<forall>key. key \<noteq> x25519_pub_key peer \<longrightarrow> find_entry book' key = find_entry (d_book d) key)"
proof -
  let ?key = "x25519_pub_key peer"
  from assms(1) obtain x where "x \<in> set (trusted_copy d)" "target (d_book d) now x = Some (peer, a)"
    and p: "p = send_to cx (world peer) peer a action payload"
    by (auto simp: send_round_def targets_def in_set_map_filter)
  then have peer: "peer \<in> set (trusted_copy d)" and t: "target (d_book d) now peer = Some (peer, a)" using target_Some(1) by blast+
  from p assms(2,4,5) have b: "book' = set_state (d_book d) ?key Unreachable at"
    by (auto simp: send_to_def split: if_splits)
  from t obtain e where e: "find_entry (d_book d) ?key = Some e" "addr e = Some a"
    using target_Some(2) by blast
  then have "ensure_entry (d_book d) ?key = d_book d"
    using find_entry_Some [OF e(1)] by (auto simp: ensure_entry_def list_ex_iff)
  then have f: "find_entry book' k = (if k = ?key then Some (e\<lparr>entry_state := Unreachable, retry_after := None\<rparr>) else find_entry (d_book d) k)" for k
    using e(1) by (simp add: b set_state_def find_entry_update)
  then have "target book' later peer = Some (peer, a)" using e(2) by (simp add: target_def)
  then have "(peer, a, send_to cx (world' peer) peer a action' payload') \<in> set (send_round cx world' later (d\<lparr>d_book := book'\<rparr>) action' payload')"
    using peer by (force simp: send_round_def targets_def in_set_map_filter trusted_copy_def)
  then show ?thesis using f by (simp add: state_of_def)
qed

theorem unreachable_tried_again_witness:
  "state_of (set_state [\<lparr>peer_id = fill 32 [2], addr = Some (demo_at 2), entry_state = PeerOk, retry_after = None\<rparr>] (fill 32 [2]) Unreachable 0)
     (fill 32 [2]) = Unreachable"
proof -
  let ?peer = "peer_of demo_pub (demo_device 2) [97] []"
  let ?book = "[\<lparr>peer_id = fill 32 [2], addr = Some (demo_at 2), entry_state = PeerOk, retry_after = None\<rparr>]"
  let ?d = "demo_fresh\<lparr>d_lists := (\<lambda>_. [?peer]), d_book := ?book\<rparr>"
  let ?w = "demo_send\<lparr>sw_connects := False\<rparr>"
  have k: "x25519_pub_key ?peer = fill 32 [2]" by (simp add: peer_of_def demo_pub_def demo_device_def)
  have "(?peer, demo_at 2, send_to (demo_cx 1 [1]) ?w ?peer (demo_at 2) Hello HELLO_PAYLOAD) \<in>
      set (send_round (demo_cx 1 [1]) (\<lambda>_. ?w) 0 ?d Hello HELLO_PAYLOAD)"
    by (simp add: send_round_def targets_def target_def trusted_copy_def k List.map_filter_def)
  moreover have "run (send_to (demo_cx 1 [1]) ?w ?peer (demo_at 2) Hello HELLO_PAYLOAD) [] = Some [Book (SetState (fill 32 [2]) Unreachable)]"
    by (simp add: send_to_def k)
  ultimately show ?thesis
    using unreachable_tried_again [OF _ _ order_refl _ refl, of ?peer "demo_at 2" _ "demo_cx 1 [1]" "\<lambda>_. ?w" 0 ?d Hello HELLO_PAYLOAD "[]" _ 0]
    by (fastforce simp: k)
qed

section \<open>The program\<close>

text \<open>The start of \<open>run\<close>: the policy, the socket path and the socket come first; only then is the
  daemon made and started. \<open>None\<close> is the early return.\<close>

definition run_start ::
  "(string \<Rightarrow> bool) \<Rightarrow> string option \<Rightarrow> bool \<Rightarrow> u32 \<Rightarrow> u32 \<Rightarrow> bind_calls \<Rightarrow> path_entry option \<Rightarrow> daemon_env \<Rightarrow> daemon \<Rightarrow>
   (client_policy \<times> daemon) option \<times> path_entry option" where
  "run_start valid code_requirement path_ok euid made_mode calls entry env d =
     (case policy_new valid code_requirement of
        Inl _ \<Rightarrow> (None, entry)
      | Inr policy \<Rightarrow>
          if \<not> path_ok then (None, entry)
          else
            (case server_bind euid made_mode calls entry of
               (Inl _, entry) \<Rightarrow> (None, entry)
             | (Inr _, entry) \<Rightarrow> (Some (policy, daemon_start env d), entry)))"

text \<open>The end of \<open>run\<close>: networking off, the bridge saves once more if there was a network (in time,
  or not), the socket is removed.\<close>

definition run_end :: "daemon_env \<Rightarrow> bool \<Rightarrow> bool \<Rightarrow> path_entry option \<Rightarrow> daemon \<Rightarrow> daemon \<times> path_entry option" where
  "run_end env in_time removed entry d =
     (let d' = (if d_network d \<noteq> None \<and> in_time then pairing_bridge env (\<lambda>_. False) BridgeEnds (stop_network d) else stop_network d)
      in (d', if removed then None else entry))"

text \<open>
  C27. A shutdown loses no device: if the last save goes through, a restarted device opens its vault with
  the data key to exactly the paired devices and addresses that were in memory, also to one that
  was paired a moment before; and the socket is free for the next start.
\<close>
theorem shutdown_keeps_devices:
  assumes "gcm_ok G" "daemon_run G H d hs" "env_ok G H env" "d_network d \<noteq> None"
    and "fst (reseal env None (stop_network d)) = Inr ()" "ks_d_key (d_keys d) = Some d_key" "env_ok G H env'" "can_read env'"
  shows "snd (run_end env True True entry d) = None \<and>
    (\<exists>d2. unlock_with env' CallOk d_key (restarted (fst (run_end env True True entry d)) key_item) = (Inr (), d2) \<and>
      trusted_copy d2 = trusted_copy d \<and> d_book d2 = book_load [] (book_saved (d_book d) (trusted_copy d)))"
proof -
  have inv: "saved_inv G H (stop_network d)"
    using daemon_run_inv [OF assms(1,2)] by (simp add: run_inv_def stop_network_frame)
  have same: "trusted_copy (stop_network d) = trusted_copy d" "d_book (stop_network d) = d_book d" "ks_d_key (d_keys (stop_network d)) = Some d_key"
    using assms(6) by (simp_all add: stop_network_keeps trusted_copy_def)
  obtain d' where r: "reseal env None (stop_network d) = (Inr (), d')" using assms(5) by (cases "reseal env None (stop_network d)") auto
  then have "ks_vault (d_keys (stop_network d)) \<noteq> None"
    by (auto simp: reseal_def dtry_def dlift_def split: if_splits sum.splits option.splits)
  with r assms(4) have "run_end env True True entry d = (d', None)" by (auto simp: run_end_def pairing_bridge_def save_peers_def)
  with reseal_restart [OF assms(1) inv assms(3) r same(3) assms(7,8), of key_item] same show ?thesis by simp
qed

theorem shutdown_keeps_devices_witness:
  "\<exists>d2. unlock_with demo_env CallOk (demo_key 12) (restarted (fst (run_end demo_env True True None demo_synced)) None) = (Inr (), d2) \<and>
    trusted_copy d2 = trusted_copy demo_synced"
proof -
  let ?d = "stop_network demo_synced"
  have fields: "trusted_copy ?d = []" "d_book ?d = []" "d_keys ?d = d_keys demo_synced" "d_storage ?d"
    using demo_saved_fields(10,11) demo_synced_fields(7) by (simp_all add: stop_network_keeps trusted_copy_def demo_synced_def)
  have p: "encoded_peers ?d = Inr (trusted_peers_layout [])" "encoded_addresses ?d = encode_saved []"
    using encoded_peers_ok [of ?d] fields(1,2)
    by (simp_all add: encoded_addresses_def book_encode_def book_saved_def List.map_filter_simps trusted_peers_ok_def)
  have env: "en_gcm demo_env = demo_gcm" "en_rnd_seal demo_env = Some (replicate 12 5)" "\<not> en_write_panics demo_env" by (simp_all add: demo_env_def)
  have r: "fst (reseal demo_env None ?d) = Inr ()"
    using demo_seal [of demo_sync]
    by (simp add: reseal_def dtry_def dlift_def p fields demo_synced_fields env demo_open_vault_def save_file_def demo_write file_contents_def)
  from shutdown_keeps_devices [OF demo_gcm_ok demo_synced_run demo_env_ok _ r _ demo_env_ok demo_can_read, of "demo_key 12" None None]
  show ?thesis by (auto simp: demo_synced_fields)
qed

end
