(* ===== verification/Tui_App.thy ===== *)
theory Tui_App
  imports Ipc
begin

text \<open>
  The terminal UI (\<open>cesa_conn_tui/src/lib.rs\<close>; drawing is in \<open>Tui_View\<close>): the state of the app, what a key
  press does, what an event of the daemon link does, and one round of the loop (\<open>pump_link\<close>).

  A character is its UTF-8 encoding, so the input buffer is a list of such characters and its
  bytes are their concatenation. A line of the log is a constructor per text of the source, with
  the values printed in it.
\<close>

section \<open>Data\<close>

text \<open>\<open>KeyKind\<close>, \<open>Command\<close> and \<open>LinkEvent\<close> of \<open>daemon_link.rs\<close>.\<close>

datatype tui_key = AuthKey | DataKey

datatype command =
    CmdRefresh
  | CmdSetPassword tui_key password
  | CmdUnlock password
  | CmdSetAutoLogin bool
  | CmdSetSync bool
  | CmdSetClipboard bool
  | CmdAddDevice
  | CmdAnswerPairing u32 pairing_code bool
  | CmdJoinGroup password password
  | CmdCancelJoin
  | CmdStopAddDevice
  | CmdForgetPeer fingerprint
  | CmdResetDevice

type_synonym refresh = "status \<times> peer_info list \<times> pairing_prompt option"

datatype link_event =
    Refreshed "ipc_error + refresh"
  | PasswordSet tui_key "ipc_error + unit"
  | Unlocked "ipc_error + unit"
  | AutoLoginSet bool "ipc_error + unit"
  | SyncSet bool "ipc_error + unit"
  | ClipboardSet bool "ipc_error + unit"
  | AddDeviceStarted "ipc_error + unit"
  | PairingAnswered bool "ipc_error + unit"
  | JoinStarted "ipc_error + unit"
  | JoinCancelled "ipc_error + unit"
  | AddDeviceStopped "ipc_error + unit"
  | PeerForgotten "ipc_error + unit"
  | DeviceReset "ipc_error + unit"
  | WorkerStopped

type_synonym uchar = bytes

definition AUTH_KEY_LABEL :: string where "AUTH_KEY_LABEL = ''Auth key''"
definition DATA_KEY_LABEL :: string where "DATA_KEY_LABEL = ''Data key''"
definition AUTO_LOGIN_LABEL :: string where "AUTO_LOGIN_LABEL = ''Automatic login''"
definition SYNC_LABEL :: string where "SYNC_LABEL = ''Sync''"
definition CLIPBOARD_LABEL :: string where "CLIPBOARD_LABEL = ''Clipboard sync''"
definition RESET_LABEL :: string where "RESET_LABEL = ''Reset this device''"
definition RESET_WORD :: bytes where "RESET_WORD = ascii ''RESET''"
definition REFRESH_INTERVAL :: nat where "REFRESH_INTERVAL = 2"
definition INPUT_CAPACITY :: nat where "INPUT_CAPACITY = 512"

lemmas labels = AUTH_KEY_LABEL_def DATA_KEY_LABEL_def AUTO_LOGIN_LABEL_def SYNC_LABEL_def CLIPBOARD_LABEL_def RESET_LABEL_def

datatype setting_kind = Secret bool | SecretLocked | Switch bool | Unavailable | Action

record setting =
  st_label :: string
  st_kind :: setting_kind
  st_warn :: bool

datatype daemon_state = DaemonUnknown | Up status | Down ipc_error | NoLink

datatype tab = Devices | Settings | Logs

datatype join_step = StepAuth | StepData

datatype popup =
    NoPopup
  | PairingPopup pairing_prompt
  | EditSetting
  | SecurityWarning nat
  | ConfirmPasswordChange tui_key
  | JoinPopup join_step
  | ConfirmForget peer_info
  | ConfirmReset
  | UnlockPopup

datatype log_line =
    LogTurning string bool | LogUnsupported | LogWait u16 | LogUnlockLater | LogUnlocking | LogForgetting bytes | LogResetting
  | LogAddOpen | LogJoiningAlready | LogSyncFirst | LogCancelling | LogStopping | LogJoining | LogLockedFirst | LogTooShort | LogSending tui_key
  | LogConnected | LogOtherGroup | LogJoined | LogJoinEnded | LogNowLocked | LogUnreachable ipc_error | LogPasswordSet tui_key
  | LogPeersKeepOld tui_key | LogFailed string ipc_error | LogUnlockedNow | LogWrongPassword | LogDelayed | LogSwitched string bool
  | LogNeedsSaved string | LogAccepted | LogRejected | LogTooLate | LogHasKeys | LogForgotten | LogNotPaired | LogResetDone
  | LogLinkStopped | LogWantsToPair bytes | LogPairingExpired | LogIncorrect tui_key bytes | LogNoLink | LogBadRequirement | LogUnchecked

record app =
  active_tab :: tab
  peer_selected :: "nat option"
  settings :: "setting list"
  settings_selected :: nat
  logs :: "log_line list"
  log_scroll :: u16
  log_follow :: bool
  active_popup :: popup
  input_buf :: "uchar list"
  join_auth :: bytes
  should_quit :: bool
  daemon_heard :: daemon_state
  shown_peers :: "peer_info list"
  outbox :: "command list"
  refresh_in_flight :: bool
  unlock_asked :: bool

definition app_new :: app where
  "app_new = \<lparr>active_tab = Devices, peer_selected = None,
     settings = [\<lparr>st_label = AUTH_KEY_LABEL, st_kind = Secret False, st_warn = False\<rparr>,
       \<lparr>st_label = DATA_KEY_LABEL, st_kind = Secret False, st_warn = False\<rparr>,
       \<lparr>st_label = AUTO_LOGIN_LABEL, st_kind = Switch False, st_warn = True\<rparr>,
       \<lparr>st_label = SYNC_LABEL, st_kind = Switch False, st_warn = False\<rparr>,
       \<lparr>st_label = CLIPBOARD_LABEL, st_kind = Switch False, st_warn = False\<rparr>,
       \<lparr>st_label = RESET_LABEL, st_kind = Action, st_warn = False\<rparr>],
     settings_selected = 0, logs = [], log_scroll = 0, log_follow = True, active_popup = NoPopup, input_buf = [], join_auth = [],
     should_quit = False, daemon_heard = DaemonUnknown, shown_peers = [], outbox = [], refresh_in_flight = False, unlock_asked = False\<rparr>"

section \<open>The app\<close>

definition push_log :: "log_line \<Rightarrow> app \<Rightarrow> app" where
  "push_log msg a = a\<lparr>logs := logs a @ [msg]\<rparr>"

definition push_command :: "command \<Rightarrow> app \<Rightarrow> app" where
  "push_command c a = a\<lparr>outbox := outbox a @ [c]\<rparr>"

definition request_refresh :: "app \<Rightarrow> app" where
  "request_refresh a = (if \<not> refresh_in_flight a then push_command CmdRefresh (a\<lparr>refresh_in_flight := True\<rparr>) else a)"

text \<open>\<open>setting_mut(label)\<close>, then an assignment to its kind: the first setting with that label.\<close>

fun set_kind :: "string \<Rightarrow> setting_kind \<Rightarrow> setting list \<Rightarrow> setting list" where
  "set_kind label k [] = []"
| "set_kind label k (s # ss) = (if st_label s = label then s\<lparr>st_kind := k\<rparr> # ss else s # set_kind label k ss)"

definition setting_mut :: "string \<Rightarrow> setting_kind \<Rightarrow> app \<Rightarrow> app" where
  "setting_mut label k a = a\<lparr>settings := set_kind label k (settings a)\<rparr>"

definition next_tab :: "app \<Rightarrow> app" where
  "next_tab a = a\<lparr>active_tab := (case active_tab a of Devices \<Rightarrow> Settings | Settings \<Rightarrow> Logs | Logs \<Rightarrow> Devices)\<rparr>"

definition prev_tab :: "app \<Rightarrow> app" where
  "prev_tab a = a\<lparr>active_tab := (case active_tab a of Devices \<Rightarrow> Logs | Settings \<Rightarrow> Devices | Logs \<Rightarrow> Settings)\<rparr>"

text \<open>Indexes are \<open>usize\<close>.\<close>

definition wrap_next :: "nat \<Rightarrow> nat \<Rightarrow> nat" where
  "wrap_next i len = (if len = 0 then 0 else min (i + 1) (2 ^ 64 - 1) mod len)"

definition wrap_prev :: "nat \<Rightarrow> nat \<Rightarrow> nat" where
  "wrap_prev i len = (if i = 0 then len - 1 else i - 1)"

definition next_peer :: "app \<Rightarrow> app" where
  "next_peer a =
     (if shown_peers a = [] then a
      else a\<lparr>peer_selected := Some (case peer_selected a of None \<Rightarrow> 0 | Some i \<Rightarrow> wrap_next i (length (shown_peers a)))\<rparr>)"

definition prev_peer :: "app \<Rightarrow> app" where
  "prev_peer a =
     (if shown_peers a = [] then a
      else a\<lparr>peer_selected := Some (case peer_selected a of None \<Rightarrow> 0 | Some i \<Rightarrow> wrap_prev i (length (shown_peers a)))\<rparr>)"

definition selected_peer :: "app \<Rightarrow> peer_info option" where
  "selected_peer a =
     (case peer_selected a of
        None \<Rightarrow> None
      | Some i \<Rightarrow> if i < length (shown_peers a) then Some (shown_peers a ! i) else None)"

definition clamp_peer_selection :: "app \<Rightarrow> app" where
  "clamp_peer_selection a = a\<lparr>peer_selected :=
     (if shown_peers a = [] then None
      else (case peer_selected a of Some i \<Rightarrow> Some (min i (length (shown_peers a) - 1)) | None \<Rightarrow> Some 0))\<rparr>"

definition next_setting :: "app \<Rightarrow> app" where
  "next_setting a =
     (if 0 < length (settings a) then a\<lparr>settings_selected := wrap_next (settings_selected a) (length (settings a))\<rparr> else a)"

definition prev_setting :: "app \<Rightarrow> app" where
  "prev_setting a =
     (if 0 < length (settings a) then a\<lparr>settings_selected := wrap_prev (settings_selected a) (length (settings a))\<rparr> else a)"

section \<open>Typing\<close>

definition input_len :: "app \<Rightarrow> nat" where
  "input_len a = length (concat (input_buf a))"

definition push_input :: "uchar \<Rightarrow> app \<Rightarrow> app" where
  "push_input c a = (if input_len a + length c \<le> INPUT_CAPACITY then a\<lparr>input_buf := input_buf a @ [c]\<rparr> else a)"

definition pop_input :: "app \<Rightarrow> app" where
  "pop_input a = a\<lparr>input_buf := butlast (input_buf a)\<rparr>"

definition clear_input :: "app \<Rightarrow> app" where
  "clear_input a = a\<lparr>input_buf := []\<rparr>"

definition setting_at :: "app \<Rightarrow> nat \<Rightarrow> setting option" where
  "setting_at a i = (if i < length (settings a) then Some (settings a ! i) else None)"

definition has_label :: "string \<Rightarrow> app \<Rightarrow> nat \<Rightarrow> bool" where
  "has_label label a i = (map_option st_label (setting_at a i) = Some label)"

definition is_clipboard :: "app \<Rightarrow> nat \<Rightarrow> bool" where
  "is_clipboard = has_label CLIPBOARD_LABEL"

definition is_sync :: "app \<Rightarrow> nat \<Rightarrow> bool" where
  "is_sync = has_label SYNC_LABEL"

definition is_auto_login :: "app \<Rightarrow> nat \<Rightarrow> bool" where
  "is_auto_login = has_label AUTO_LOGIN_LABEL"

definition selected_key_kind :: "app \<Rightarrow> tui_key option" where
  "selected_key_kind a =
     (case setting_at a (settings_selected a) of
        None \<Rightarrow> None
      | Some s \<Rightarrow>
          if st_label s = AUTH_KEY_LABEL then Some AuthKey else if st_label s = DATA_KEY_LABEL then Some DataKey else None)"

definition unlock_wait :: "app \<Rightarrow> u16" where
  "unlock_wait a = (case daemon_heard a of Up s \<Rightarrow> if locked s then unlock_wait_secs s else 0 | _ \<Rightarrow> 0)"

definition log_unlock_wait :: "app \<Rightarrow> app" where
  "log_unlock_wait a = push_log (LogWait (unlock_wait a)) a"

definition send_password_from_input :: "app \<Rightarrow> app" where
  "send_password_from_input a =
     (case selected_key_kind a of
        None \<Rightarrow> a
      | Some kind \<Rightarrow>
          if input_buf a = [] then a
          else if (case daemon_heard a of Up s \<Rightarrow> locked s | _ \<Rightarrow> False) then
            (if kind = DataKey \<and> 0 < unlock_wait a then log_unlock_wait a
             else if kind = DataKey then push_log LogUnlocking (push_command (CmdUnlock (concat (input_buf a))) a)
             else push_log LogLockedFirst a)
          else if length (input_buf a) < MIN_NEW_PASSWORD_LEN then push_log LogTooShort a
          else push_log (LogSending kind) (push_command (CmdSetPassword kind (concat (input_buf a))) a))"

section \<open>Keys\<close>

datatype key_code = KeyChar uchar | KeyEnter | KeyEsc | KeyBackspace | KeyTab | KeyBackTab | KeyUp | KeyDown | KeyOther

definition is_key :: "string \<Rightarrow> key_code \<Rightarrow> bool" where
  "is_key c code = (code = KeyChar (ascii c))"

definition handle_settings_enter :: "app \<Rightarrow> app" where
  "handle_settings_enter a =
     (let idx = settings_selected a; kind = map_option st_kind (setting_at a idx) in
      if has_label RESET_LABEL a idx then (clear_input a)\<lparr>active_popup := ConfirmReset\<rparr>
      else
        (case kind of
           Some (Switch on) \<Rightarrow>
             if \<not> on \<and> (case setting_at a idx of Some s \<Rightarrow> st_warn s | None \<Rightarrow> False) then a\<lparr>active_popup := SecurityWarning idx\<rparr>
             else if is_auto_login a idx then push_log (LogTurning AUTO_LOGIN_LABEL False) (push_command (CmdSetAutoLogin False) a)
             else if is_sync a idx then push_log (LogTurning SYNC_LABEL (\<not> on)) (push_command (CmdSetSync (\<not> on)) a)
             else if is_clipboard a idx then push_log (LogTurning CLIPBOARD_LABEL (\<not> on)) (push_command (CmdSetClipboard (\<not> on)) a)
             else a
         | _ \<Rightarrow>
             if kind = Some Unavailable then push_log LogUnsupported a
             else if kind = Some SecretLocked \<and> 0 < unlock_wait a then log_unlock_wait a
             else
               (case selected_key_kind a of
                  Some k \<Rightarrow>
                    if kind = Some (Secret True) then a\<lparr>active_popup := ConfirmPasswordChange k\<rparr>
                    else (clear_input a)\<lparr>active_popup := EditSetting\<rparr>
                | None \<Rightarrow> (clear_input a)\<lparr>active_popup := EditSetting\<rparr>)))"

definition yes :: "key_code \<Rightarrow> bool" where
  "yes code = (is_key ''y'' code \<or> is_key ''Y'' code)"

definition cancels :: "key_code \<Rightarrow> bool" where
  "cancels code = (code = KeyEsc \<or> is_key ''n'' code \<or> is_key ''N'' code)"

text \<open>\<open>Backspace\<close>, a character, anything else: the same three arms in every popup with an input.\<close>

definition edit_input :: "key_code \<Rightarrow> app \<Rightarrow> app" where
  "edit_input code a = (case code of KeyBackspace \<Rightarrow> pop_input a | KeyChar c \<Rightarrow> push_input c a | _ \<Rightarrow> a)"

definition handle_confirm_change_input :: "key_code \<Rightarrow> app \<Rightarrow> app" where
  "handle_confirm_change_input code a =
     (if yes code then (clear_input a)\<lparr>active_popup := EditSetting\<rparr>
      else if cancels code then a\<lparr>active_popup := NoPopup\<rparr>
      else a)"

definition handle_unlock_input :: "key_code \<Rightarrow> app \<Rightarrow> app" where
  "handle_unlock_input code a =
     (case code of
        KeyEsc \<Rightarrow> push_log LogUnlockLater ((clear_input a)\<lparr>active_popup := NoPopup\<rparr>)
      | KeyEnter \<Rightarrow>
          if input_buf a = [] then a
          else push_log LogUnlocking ((clear_input (push_command (CmdUnlock (concat (input_buf a))) a))\<lparr>active_popup := NoPopup\<rparr>)
      | _ \<Rightarrow> edit_input code a)"

definition ask_forget_selected :: "app \<Rightarrow> app" where
  "ask_forget_selected a = (case selected_peer a of Some p \<Rightarrow> a\<lparr>active_popup := ConfirmForget p\<rparr> | None \<Rightarrow> a)"

definition handle_confirm_forget_input :: "key_code \<Rightarrow> peer_info \<Rightarrow> app \<Rightarrow> app" where
  "handle_confirm_forget_input code peer a =
     (if yes code then (push_log (LogForgetting (info_name peer)) (push_command (CmdForgetPeer (info_fingerprint peer)) a))\<lparr>active_popup := NoPopup\<rparr>
      else if cancels code then a\<lparr>active_popup := NoPopup\<rparr>
      else a)"

definition handle_confirm_reset_input :: "key_code \<Rightarrow> app \<Rightarrow> app" where
  "handle_confirm_reset_input code a =
     (case code of
        KeyEsc \<Rightarrow> (clear_input a)\<lparr>active_popup := NoPopup\<rparr>
      | KeyEnter \<Rightarrow>
          if concat (input_buf a) = RESET_WORD
          then push_log LogResetting (push_command CmdResetDevice ((clear_input a)\<lparr>active_popup := NoPopup\<rparr>))
          else a
      | _ \<Rightarrow> edit_input code a)"

text \<open>\<open>is_fresh\<close>.\<close>

definition status_fresh :: "status \<Rightarrow> bool" where
  "status_fresh s = (\<not> auth_key_set s \<and> \<not> data_key_set s \<and> \<not> locked s \<and> \<not> saved s)"

definition start_add_device :: "app \<Rightarrow> app" where
  "start_add_device a =
     (case daemon_heard a of
        Up s \<Rightarrow>
          if network_running s then push_log LogAddOpen (push_command CmdAddDevice a)
          else if joining s then push_log LogJoiningAlready a
          else if status_fresh s then (clear_input a)\<lparr>join_auth := [], active_popup := JoinPopup StepAuth\<rparr>
          else push_log LogSyncFirst a
      | _ \<Rightarrow> push_log LogSyncFirst a)"

definition stop_or_cancel :: "app \<Rightarrow> app" where
  "stop_or_cancel a =
     (case daemon_heard a of
        Up s \<Rightarrow>
          if joining s then push_log LogCancelling (push_command CmdCancelJoin a)
          else if network_running s then push_log LogStopping (push_command CmdStopAddDevice a)
          else a
      | _ \<Rightarrow> a)"

definition handle_join_input :: "key_code \<Rightarrow> join_step \<Rightarrow> app \<Rightarrow> app" where
  "handle_join_input code step a =
     (case code of
        KeyEsc \<Rightarrow> (clear_input a)\<lparr>join_auth := [], active_popup := NoPopup\<rparr>
      | KeyEnter \<Rightarrow>
          if input_buf a = [] then a
          else
            (case step of
               StepAuth \<Rightarrow> (clear_input (a\<lparr>join_auth := concat (input_buf a)\<rparr>))\<lparr>active_popup := JoinPopup StepData\<rparr>
             | StepData \<Rightarrow>
                 push_log LogJoining
                   ((clear_input ((push_command (CmdJoinGroup (join_auth a) (concat (input_buf a))) a)\<lparr>join_auth := []\<rparr>))\<lparr>active_popup := NoPopup\<rparr>))
      | _ \<Rightarrow> edit_input code a)"

definition handle_pairing_input :: "key_code \<Rightarrow> pairing_prompt \<Rightarrow> app \<Rightarrow> app" where
  "handle_pairing_input code prompt a =
     (if yes code \<or> cancels code
      then (push_command (CmdAnswerPairing (prompt_id prompt) (prompt_code prompt) (yes code)) a)\<lparr>active_popup := NoPopup\<rparr>
      else a)"

definition handle_edit_setting_input :: "key_code \<Rightarrow> app \<Rightarrow> app" where
  "handle_edit_setting_input code a =
     (case code of
        KeyEsc \<Rightarrow> clear_input (a\<lparr>active_popup := NoPopup\<rparr>)
      | KeyEnter \<Rightarrow> clear_input ((send_password_from_input a)\<lparr>active_popup := NoPopup\<rparr>)
      | _ \<Rightarrow> edit_input code a)"

definition handle_security_warning_input :: "key_code \<Rightarrow> nat \<Rightarrow> app \<Rightarrow> app" where
  "handle_security_warning_input code idx a =
     (if yes code then
        (if is_auto_login a idx then push_log (LogTurning AUTO_LOGIN_LABEL True) (push_command (CmdSetAutoLogin True) a) else a)
          \<lparr>active_popup := NoPopup\<rparr>
      else if cancels code then a\<lparr>active_popup := NoPopup\<rparr>
      else a)"

text \<open>What the terminal reports: a key press with the control key held or not, or anything else.\<close>

datatype tui_event = KeyPress bool key_code | NoKeyPress

definition tab_input :: "key_code \<Rightarrow> app \<Rightarrow> app" where
  "tab_input code a =
     (case active_tab a of
        Devices \<Rightarrow>
          if code = KeyUp \<or> is_key ''k'' code then prev_peer a
          else if code = KeyDown \<or> is_key ''j'' code then next_peer a
          else if is_key ''n'' code then start_add_device a
          else if is_key ''x'' code then stop_or_cancel a
          else if is_key ''d'' code then ask_forget_selected a
          else a
      | Settings \<Rightarrow>
          if code = KeyUp \<or> is_key ''k'' code then prev_setting a
          else if code = KeyDown \<or> is_key ''j'' code then next_setting a
          else if code = KeyEnter then handle_settings_enter a
          else a
      | Logs \<Rightarrow>
          if code = KeyUp \<or> is_key ''k'' code then a\<lparr>log_follow := False, log_scroll := saturating_sub (log_scroll a) 1\<rparr>
          else if code = KeyDown \<or> is_key ''j'' code then a\<lparr>log_scroll := saturating_add (log_scroll a) 1\<rparr>
          else if is_key ''f'' code then a\<lparr>log_follow := \<not> log_follow a\<rparr>
          else a)"

definition handle_input :: "tui_event \<Rightarrow> app \<Rightarrow> app" where
  "handle_input ev a =
     (case ev of
        NoKeyPress \<Rightarrow> a
      | KeyPress control code \<Rightarrow>
          if is_key ''c'' code \<and> control then a\<lparr>should_quit := True\<rparr>
          else
            (case active_popup a of
               PairingPopup prompt \<Rightarrow> handle_pairing_input code prompt a
             | EditSetting \<Rightarrow> handle_edit_setting_input code a
             | SecurityWarning idx \<Rightarrow> handle_security_warning_input code idx a
             | ConfirmPasswordChange _ \<Rightarrow> handle_confirm_change_input code a
             | JoinPopup step \<Rightarrow> handle_join_input code step a
             | ConfirmForget peer \<Rightarrow> handle_confirm_forget_input code peer a
             | ConfirmReset \<Rightarrow> handle_confirm_reset_input code a
             | UnlockPopup \<Rightarrow> handle_unlock_input code a
             | NoPopup \<Rightarrow>
                 tab_input code
                   (if is_key ''q'' code then a\<lparr>should_quit := True\<rparr>
                    else if code = KeyTab then next_tab a
                    else if code = KeyBackTab then prev_tab a
                    else a)))"

section \<open>Events of the link\<close>

definition ask_unlock :: "status \<Rightarrow> app \<Rightarrow> app" where
  "ask_unlock s a =
     (if \<not> locked s then
        (let a = a\<lparr>unlock_asked := False\<rparr>
         in if active_popup a = UnlockPopup then (clear_input a)\<lparr>active_popup := NoPopup\<rparr> else a)
      else if unlock_wait_secs s = 0 \<and> \<not> unlock_asked a \<and> active_popup a = NoPopup
      then (clear_input a)\<lparr>active_popup := UnlockPopup, unlock_asked := True\<rparr>
      else a)"

definition show_pairing :: "pairing_prompt option \<Rightarrow> app \<Rightarrow> app" where
  "show_pairing pairing a =
     (case (active_popup a, pairing) of
        (PairingPopup shown, Some prompt) \<Rightarrow>
          if shown = prompt then a else (push_log (LogWantsToPair (prompt_name prompt)) a)\<lparr>active_popup := PairingPopup prompt\<rparr>
      | (NoPopup, Some prompt) \<Rightarrow> (push_log (LogWantsToPair (prompt_name prompt)) a)\<lparr>active_popup := PairingPopup prompt\<rparr>
      | (PairingPopup _, None) \<Rightarrow> (push_log LogPairingExpired a)\<lparr>active_popup := NoPopup\<rparr>
      | _ \<Rightarrow> a)"

definition set_key_flags :: "bool \<Rightarrow> bool \<Rightarrow> app \<Rightarrow> app" where
  "set_key_flags auth data a = setting_mut DATA_KEY_LABEL (Secret data) (setting_mut AUTH_KEY_LABEL (Secret auth) a)"

definition log_peer_change :: "peer_info list \<Rightarrow> peer_info \<Rightarrow> app \<Rightarrow> app" where
  "log_peer_change before peer a =
     (if map_option info_state (find (\<lambda>old. info_fingerprint old = info_fingerprint peer) before) = Some (info_state peer) then a
      else
        (case info_state peer of
           AuthPasswordDiffers \<Rightarrow> push_log (LogIncorrect AuthKey (info_name peer)) a
         | DataPasswordDiffers \<Rightarrow> push_log (LogIncorrect DataKey (info_name peer)) a
         | _ \<Rightarrow> a))"

definition log_peer_changes :: "peer_info list \<Rightarrow> app \<Rightarrow> app" where
  "log_peer_changes peers a = fold (log_peer_change (shown_peers a)) peers a"

definition log_if :: "bool \<Rightarrow> log_line \<Rightarrow> app \<Rightarrow> app" where
  "log_if cond msg a = (if cond then push_log msg a else a)"

definition daemon_was :: "(status \<Rightarrow> bool) \<Rightarrow> app \<Rightarrow> bool" where
  "daemon_was P a = (case daemon_heard a of Up s \<Rightarrow> P s | _ \<Rightarrow> False)"

text \<open>The settings as the status shows them.\<close>

definition show_status :: "status \<Rightarrow> app \<Rightarrow> app" where
  "show_status s a =
     (let a = set_key_flags (auth_key_set s) (data_key_set s) a;
          a = (if locked s then setting_mut DATA_KEY_LABEL SecretLocked (setting_mut AUTH_KEY_LABEL SecretLocked a) else a);
          a = setting_mut AUTO_LOGIN_LABEL (Switch (auto_login s)) a;
          a = setting_mut SYNC_LABEL (Switch (sync_enabled s)) a
      in setting_mut CLIPBOARD_LABEL (if clipboard_unavailable s then Unavailable else Switch (clipboard_enabled s)) a)"

definition on_refreshed :: "status \<Rightarrow> peer_info list \<Rightarrow> pairing_prompt option \<Rightarrow> app \<Rightarrow> app" where
  "on_refreshed s peers pairing a =
     (let a = a\<lparr>refresh_in_flight := False\<rparr>;
          was_up = daemon_was (\<lambda>_. True) a; was_locked = daemon_was locked a; was_joining = daemon_was joining a;
          had_other_group = daemon_was other_group_nearby a;
          a = log_if (\<not> was_up) LogConnected a;
          a = log_if (other_group_nearby s \<and> \<not> had_other_group) LogOtherGroup a;
          a = log_if (was_joining \<and> \<not> joining s) (if saved s then LogJoined else LogJoinEnded) a;
          a = log_if (locked s \<and> \<not> was_locked) LogNowLocked a;
          a = log_peer_changes peers (show_status s a);
          a = clamp_peer_selection (a\<lparr>shown_peers := peers\<rparr>);
          a = ask_unlock s (show_pairing pairing a)
      in a\<lparr>daemon_heard := Up s\<rparr>)"

definition forget_daemon :: "daemon_state \<Rightarrow> app \<Rightarrow> app" where
  "forget_daemon st a =
     show_pairing None ((clamp_peer_selection ((set_key_flags False False a)\<lparr>shown_peers := []\<rparr>))\<lparr>daemon_heard := st\<rparr>)"

definition on_refresh_failed :: "ipc_error \<Rightarrow> app \<Rightarrow> app" where
  "on_refresh_failed e a =
     (let a = log_if (daemon_heard a \<noteq> Down e) (LogUnreachable e) (a\<lparr>refresh_in_flight := False\<rparr>)
      in forget_daemon (Down e) (a\<lparr>unlock_asked := False\<rparr>))"

text \<open>An outcome that is logged one way or another.\<close>

definition log_result :: "ipc_error + unit \<Rightarrow> log_line option \<Rightarrow> (ipc_error \<Rightarrow> log_line) \<Rightarrow> app \<Rightarrow> app" where
  "log_result r ok failed a = (case r of Inl e \<Rightarrow> push_log (failed e) a | Inr _ \<Rightarrow> (case ok of None \<Rightarrow> a | Some msg \<Rightarrow> push_log msg a))"

definition handle_link_event :: "link_event \<Rightarrow> app \<Rightarrow> app" where
  "handle_link_event ev a =
     (case ev of
        Refreshed (Inr (s, peers, pairing)) \<Rightarrow> on_refreshed s peers pairing a
      | Refreshed (Inl e) \<Rightarrow> on_refresh_failed e a
      | PasswordSet kind r \<Rightarrow>
          request_refresh
            (case r of
               Inr _ \<Rightarrow> log_if (daemon_was (\<lambda>s. 0 < trusted_peers_count s) a) (LogPeersKeepOld kind) (push_log (LogPasswordSet kind) a)
             | Inl e \<Rightarrow> push_log (LogFailed ''Setting the password'' e) a)
      | Unlocked r \<Rightarrow>
          request_refresh
            (case r of
               Inr _ \<Rightarrow> push_log LogUnlockedNow a
             | Inl e \<Rightarrow>
                 if e = Daemon WrongPassword then (push_log LogWrongPassword a)\<lparr>unlock_asked := False\<rparr>
                 else if e = Daemon UnlockDelayed then push_log LogDelayed a
                 else push_log (LogFailed ''Unlocking'' e) a)
      | AutoLoginSet on r \<Rightarrow>
          request_refresh (log_result r (Some (LogSwitched AUTO_LOGIN_LABEL on)) (LogFailed ''Changing automatic login'') a)
      | SyncSet on r \<Rightarrow>
          request_refresh (log_result r (Some (LogSwitched SYNC_LABEL on))
            (\<lambda>e. if e = Daemon NotSaved then LogNeedsSaved SYNC_LABEL else LogFailed ''Changing sync'' e) a)
      | ClipboardSet on r \<Rightarrow>
          request_refresh (log_result r (Some (LogSwitched CLIPBOARD_LABEL on))
            (\<lambda>e. if e = Daemon NotSaved then LogNeedsSaved CLIPBOARD_LABEL
                 else if e = Daemon ClipboardUnavailable then LogUnsupported else LogFailed ''Changing clipboard sync'' e) a)
      | AddDeviceStarted r \<Rightarrow> request_refresh (log_result r None (LogFailed ''Add device'') a)
      | PairingAnswered accept r \<Rightarrow>
          request_refresh (log_result r (Some (if accept then LogAccepted else LogRejected))
            (\<lambda>e. if e = Daemon PairingExpired then LogTooLate else LogFailed ''Answering the pairing'' e) a)
      | JoinStarted r \<Rightarrow>
          request_refresh (log_result r None
            (\<lambda>e. if e = Daemon AlreadyInGroup then LogHasKeys
                 else if e = Daemon NotSaved then LogNeedsSaved ''Joining'' else LogFailed ''Joining'' e) a)
      | AddDeviceStopped r \<Rightarrow> request_refresh (log_result r None (LogFailed ''Stopping Add device'') a)
      | JoinCancelled r \<Rightarrow> request_refresh (log_result r None (LogFailed ''Cancelling the join'') a)
      | PeerForgotten r \<Rightarrow>
          request_refresh (log_result r (Some LogForgotten)
            (\<lambda>e. if e = Daemon Locked then LogLockedFirst
                 else if e = Daemon UnknownPeer then LogNotPaired else LogFailed ''Forgetting the device'' e) a)
      | DeviceReset r \<Rightarrow> request_refresh (log_result r (Some LogResetDone) (LogFailed ''Reset'') a)
      | WorkerStopped \<Rightarrow> forget_daemon NoLink (log_if (daemon_heard a \<noteq> NoLink) LogLinkStopped a))"

section \<open>The loop\<close>

text \<open>The start of \<open>run\<close>: the link may fail to start, and the user is told how the daemon is checked.\<close>

definition run_begin :: "bool \<Rightarrow> bool \<Rightarrow> bool \<Rightarrow> app \<Rightarrow> app" where
  "run_begin link_started requirement_valid signature_checked a =
     (let a = (if link_started then a else (push_log LogNoLink a)\<lparr>daemon_heard := NoLink\<rparr>)
      in if \<not> requirement_valid then push_log LogBadRequirement a
         else log_if (\<not> signature_checked) LogUnchecked a)"

text \<open>The commands of the outbox in order: the worker takes the first \<open>taken\<close> of them before it is gone.
  Then the events that wait, until the link has stopped.\<close>

fun apply_events :: "link_event list \<Rightarrow> app \<Rightarrow> app" where
  "apply_events [] a = a"
| "apply_events (ev # evs) a =
     (if ev = WorkerStopped then handle_link_event ev a else apply_events evs (handle_link_event ev a))"

definition pump_link ::
  "instant \<Rightarrow> instant option \<Rightarrow> nat \<Rightarrow> link_event list \<Rightarrow> app \<Rightarrow> command list \<times> instant option \<times> app" where
  "pump_link now last_refresh taken waiting a =
     (if daemon_heard a = NoLink then ([], last_refresh, a)
      else
        let due = (case last_refresh of None \<Rightarrow> True | Some t \<Rightarrow> from_secs REFRESH_INTERVAL \<le> saturating_duration_since now t);
            a = (if due then request_refresh a else a);
            last_refresh = (if due then Some now else last_refresh);
            commands = outbox a; a = a\<lparr>outbox := []\<rparr>;
            sent = take taken commands
        in if sent \<noteq> commands then (sent, last_refresh, handle_link_event WorkerStopped a)
           else (sent, last_refresh, apply_events waiting a))"

end
