(* ===== verification/Tui_View.thy ===== *)
theory Tui_View
  imports Tui_App
begin

text \<open>
  What the terminal UI shows (\<open>cesa_conn_tui/src/lib.rs\<close>, \<open>ui\<close> and the \<open>render_\<close> functions): the widgets a
  frame is made of, with their texts, colours and places, in the order they are drawn. Putting
  widgets on the terminal and splitting an area are \<open>ratatui\<close>'s: the splits are a record of functions.

  Text is a list of scalar values. A line of the log is its constructor.
\<close>

section \<open>Text\<close>

type_synonym glyphs = "nat list"

definition lit :: "string \<Rightarrow> glyphs" where
  "lit = map of_char"

text \<open>A Rust string as its characters.\<close>

definition glyphs_of :: "bytes \<Rightarrow> glyphs" where
  "glyphs_of bs = (case utf8_chars bs of None \<Rightarrow> [] | Some cs \<Rightarrow> cs)"

definition digit :: "nat \<Rightarrow> nat" where
  "digit n = (if n < 10 then 48 + n else 87 + n)"

fun decimal :: "nat \<Rightarrow> glyphs" where
  "decimal n = (if n < 10 then [digit n] else decimal (n div 10) @ [digit (n mod 10)])"

text \<open>\<open>{:<w}\<close>: padded on the right.\<close>

definition pad_right :: "nat \<Rightarrow> glyphs \<Rightarrow> glyphs" where
  "pad_right w t = t @ replicate (w - length t) 32"

datatype color = Green | DarkGray | Yellow | Red | Cyan | White | Reset

datatype span = Span glyphs "color option" bool

abbreviation raw :: "glyphs \<Rightarrow> span" where "raw t \<equiv> Span t None False"
abbreviation styled :: "string \<Rightarrow> color \<Rightarrow> span" where "styled t c \<equiv> Span (lit t) (Some c) False"
abbreviation strong :: "string \<Rightarrow> color \<Rightarrow> span" where "strong t c \<equiv> Span (lit t) (Some c) True"

datatype text_line = Spans "span list" | Entry log_line

abbreviation line :: "span \<Rightarrow> text_line" where "line s \<equiv> Spans [s]"
abbreviation blank :: text_line where "blank \<equiv> Spans [raw []]"

record rect =
  rx :: u16
  ry :: u16
  rwidth :: u16
  rheight :: u16

datatype widget =
    TabBar "glyphs list" nat
  | Items glyphs "text_line list" "nat option"
  | Bordered glyphs
  | Panel glyphs "color option" "text_line list" u16
  | Plain span

type_synonym drawn = "(rect \<times> widget) list"

text \<open>The splits of an area: header, content and status; list and details; the list inside the settings; the
  two status lines.\<close>

record layouts =
  ly_rows :: "rect \<Rightarrow> rect \<times> rect \<times> rect"
  ly_devices :: "rect \<Rightarrow> rect \<times> rect"
  ly_settings :: "rect \<Rightarrow> rect"
  ly_status :: "rect \<Rightarrow> rect \<times> rect"

section \<open>Helpers\<close>

definition display_value :: "setting \<Rightarrow> string \<times> color" where
  "display_value s =
     (case st_kind s of
        Secret True \<Rightarrow> (''[configured]'', Green)
      | Secret False \<Rightarrow> (''[not configured]'', DarkGray)
      | SecretLocked \<Rightarrow> (''[locked: Enter to unlock]'', Yellow)
      | Switch True \<Rightarrow> (''on'', Green)
      | Switch False \<Rightarrow> (''off'', DarkGray)
      | Unavailable \<Rightarrow> (''[not supported on this platform yet]'', DarkGray)
      | Action \<Rightarrow> (''[Enter: wipe keys, vault, paired devices]'', Red))"

definition pairing_code_cells :: "pairing_prompt \<Rightarrow> glyphs list" where
  "pairing_code_cells p =
     map (\<lambda>index. case symbol index of Some (emoji, name) \<Rightarrow> emoji # 32 # lit name | None \<Rightarrow> lit ''?'') (prompt_code p)"

definition peer_state_text :: "peer_state \<Rightarrow> string \<times> color" where
  "peer_state_text st =
     (case st of
        PeerUnknown \<Rightarrow> (''not contacted yet'', DarkGray)
      | PeerOk \<Rightarrow> (''connected, passwords match'', Green)
      | AuthPasswordDiffers \<Rightarrow> (''incorrect password (auth password differs)'', Red)
      | DataPasswordDiffers \<Rightarrow> (''incorrect password (data password differs)'', Red)
      | Unreachable \<Rightarrow> (''not reachable at its last address'', Yellow))"

definition fingerprint_hex :: "bytes \<Rightarrow> glyphs" where
  "fingerprint_hex fp = concat (map (\<lambda>b. [digit (unat b div 16), digit (unat b mod 16)]) fp)"

definition to_u16 :: "nat \<Rightarrow> u16" where
  "to_u16 n = (if n < 65536 then word_of_nat n else 65535)"

definition centered_rect :: "rect \<Rightarrow> u16 \<Rightarrow> u16 \<Rightarrow> rect" where
  "centered_rect area w h =
     \<lparr>rx = saturating_add (rx area) (saturating_sub (rwidth area) w div 2),
      ry = saturating_add (ry area) (saturating_sub (rheight area) h div 2),
      rwidth = w, rheight = h\<rparr>"

definition popup_rect :: "rect \<Rightarrow> u16 \<Rightarrow> u16 \<Rightarrow> rect" where
  "popup_rect area w h = centered_rect area (min w (rwidth area)) (min h (rheight area))"

section \<open>The tabs\<close>

definition render_header :: "rect \<Rightarrow> app \<Rightarrow> drawn" where
  "render_header area a =
     [(area, TabBar (map lit [''  Devices  '', ''  Settings  '', ''  Logs  '']) (case active_tab a of Devices \<Rightarrow> 0 | Settings \<Rightarrow> 1 | Logs \<Rightarrow> 2))]"

definition activity :: "daemon_state \<Rightarrow> string \<times> color" where
  "activity st =
     (case st of
        Up s \<Rightarrow>
          if joining s then (''Joining a group: compare the code when it appears (x cancels)'', Yellow)
          else if adding_device s \<and> other_group_nearby s then (''A device nearby is in another group: reset it, then n there joins'', Red)
          else if adding_device s then (''Add device is open: visible to new devices (x stops it)'', Yellow)
          else if network_running s then (''Sync on: paired devices can connect'', Green)
          else if locked s then (''Locked: Settings > Data key unlocks it'', Yellow)
          else if status_fresh s then (''New device: n joins a group (or set both passwords to start one)'', Cyan)
          else if sync_enabled s then (''Sync on, but networking failed: see the daemon log'', Red)
          else (''Sync off: Settings > Sync'', DarkGray)
      | _ \<Rightarrow> (''Daemon not reachable'', DarkGray))"

definition peer_details :: "peer_info option \<Rightarrow> text_line list" where
  "peer_details p =
     (case p of
        Some peer \<Rightarrow>
          [Spans [styled ''  Name        : '' DarkGray, Span (glyphs_of (info_name peer)) (Some Cyan) False],
           Spans [styled ''  Fingerprint : '' DarkGray, raw (fingerprint_hex (info_fingerprint peer))],
           (let (state, color) = peer_state_text (info_state peer) in Spans [styled ''  Connection  : '' DarkGray, styled state color])]
      | None \<Rightarrow> [line (styled ''  No paired device yet'' DarkGray)])"

definition render_devices :: "layouts \<Rightarrow> rect \<Rightarrow> app \<Rightarrow> drawn" where
  "render_devices ly area a =
     (let (list_area, detail_area) = ly_devices ly area;
          paired =
            (if shown_peers a = [] then [line (styled ''  none yet: n adds one'' DarkGray)]
             else map (\<lambda>p. Spans [Span [9670, 32] (Some (snd (peer_state_text (info_state p)))) False, raw (glyphs_of (info_name p))]) (shown_peers a));
          (what, color) = activity (daemon_heard a)
      in [(list_area, Items (lit '' Paired devices '') paired (peer_selected a)),
          (detail_area, Panel (lit '' Details '') None
            (blank # peer_details (selected_peer a) @
             [blank, line (Span (lit ''  '' @ lit what) (Some color) False), blank,
              line (styled ''  n: add device / join    x: stop / cancel join    d: forget'' DarkGray)]) 0)])"

definition render_settings :: "layouts \<Rightarrow> rect \<Rightarrow> app \<Rightarrow> drawn" where
  "render_settings ly area a =
     (let item = (\<lambda>i. let s = settings a ! i; (val_str, val_color) = display_value s;
                  label = lit ''  '' @ pad_right 30 (lit (st_label s))
              in Spans [if i = settings_selected a then Span label (Some White) True else Span label (Some Reset) False, styled val_str val_color])
      in [(area, Bordered (lit '' Settings '')), (ly_settings ly area, Items [] (map item [0..<length (settings a)]) (Some (settings_selected a)))])"

text \<open>\<open>render_logs\<close> moves the scroll position.\<close>

definition scroll_logs :: "rect \<Rightarrow> app \<Rightarrow> app" where
  "scroll_logs area a =
     (let inner_height = unat (saturating_sub (rheight area) 2)
      in if log_follow a then a\<lparr>log_scroll := to_u16 (length (logs a) - inner_height)\<rparr> else a)"

definition render_logs :: "rect \<Rightarrow> app \<Rightarrow> drawn \<times> app" where
  "render_logs area a =
     (let a = scroll_logs area a
      in ([(area, Panel (lit (if log_follow a then '' Logs [follow] '' else '' Logs '')) None (map Entry (logs a)) (log_scroll a))], a))"

definition render_content :: "layouts \<Rightarrow> rect \<Rightarrow> app \<Rightarrow> drawn \<times> app" where
  "render_content ly area a =
     (case active_tab a of
        Devices \<Rightarrow> (render_devices ly area a, a)
      | Settings \<Rightarrow> (render_settings ly area a, a)
      | Logs \<Rightarrow> render_logs area a)"

definition daemon_line :: "daemon_state \<Rightarrow> glyphs \<times> color" where
  "daemon_line st =
     (case st of
        DaemonUnknown \<Rightarrow> (lit ''daemon: '' @ [8230], DarkGray)
      | Up s \<Rightarrow>
          if locked s \<and> 0 < unlock_wait_secs s
          then (lit ''daemon: locked, too many wrong passwords: try again in '' @ decimal (unat (unlock_wait_secs s)) @ lit '' s'', Red)
          else if locked s then (lit ''daemon: locked, enter the data password'', Yellow)
          else
            (lit ''daemon: keys '' @ decimal (of_bool (auth_key_set s) + of_bool (data_key_set s)) @ lit ''/2 '' @
             lit (if saved s then ''(saved, encrypted)'' else ''(memory only)'') @ lit '', network '' @
             lit (if joining s then ''joining a group''
                  else if network_running s then (if adding_device s then ''on, adding a device'' else ''on'')
                  else if sync_enabled s then ''failed'' else ''off'') @
             lit '', '' @ decimal (unat (trusted_peers_count s)) @ lit '' paired'', Green)
      | Down _ \<Rightarrow> (lit ''daemon: not reachable'', Yellow)
      | NoLink \<Rightarrow> (lit ''daemon: link stopped'', Red))"

definition render_statusbar :: "layouts \<Rightarrow> rect \<Rightarrow> app \<Rightarrow> drawn" where
  "render_statusbar ly area a =
     (let help = (case active_tab a of
            Devices \<Rightarrow> lit '' q:Quit  Tab:Switch  '' @ [8593, 8595] @ lit '':Select  n:Add/Join  x:Stop  d:Forget ''
          | Settings \<Rightarrow> lit '' q:Quit  Tab:Switch  '' @ [8593, 8595] @ lit '':Navigate  Enter:Edit ''
          | Logs \<Rightarrow> lit '' q:Quit  Tab:Switch  '' @ [8593, 8595] @ lit '':Scroll  f:Follow '');
          (daemon_str, daemon_color) = daemon_line (daemon_heard a);
          (status_area, help_area) = ly_status ly area
      in [(status_area, Plain (Span (32 # daemon_str) (Some daemon_color) False)), (help_area, Plain (Span help (Some DarkGray) False))])"

section \<open>The popups\<close>

text \<open>What a popup draws and where it puts the cursor.\<close>

type_synonym popup_view = "drawn \<times> (u16 \<times> u16) option"

definition yes_no :: "string \<Rightarrow> text_line" where
  "yes_no what = Spans [strong ''  y'' Red, styled what DarkGray, strong ''Esc/n'' Green, styled '': cancel'' DarkGray]"

definition render_pairing_popup :: "rect \<Rightarrow> pairing_prompt \<Rightarrow> popup_view" where
  "render_pairing_popup area p =
     (let cells = pairing_code_cells p;
          code_line = (\<lambda>row. line (Span (lit ''  '' @ concat (map (pad_right 14) row)) (Some Cyan) True))
      in ([(popup_rect area 68 13, Panel (lit '' Pair new device? '') (Some Cyan)
             [blank,
              Spans [raw (lit ''  ''), Span (glyphs_of (prompt_name p)) (Some Yellow) False, raw (lit '' wants to pair with this device.'')],
              line (raw (lit ''  Check that the other device shows exactly this code:'')),
              blank, code_line (take 4 cells), code_line (drop 4 cells), blank,
              line (styled ''  Different code, or you didn't start this? Reject it.'' DarkGray),
              Spans [strong ''  y'' Green, styled '': they match, pair   '' DarkGray, strong ''n/Esc'' Red, styled '': reject'' DarkGray],
              line (styled ''  No answer within 60 s rejects.'' DarkGray)] 0)], None))"

definition is_secret :: "setting_kind \<Rightarrow> bool" where
  "is_secret k = (case k of Secret _ \<Rightarrow> True | SecretLocked \<Rightarrow> True | _ \<Rightarrow> False)"

definition stars :: "app \<Rightarrow> glyphs" where
  "stars a = replicate (length (input_buf a)) 42"

text \<open>The cursor stands behind the text, which is counted in bytes.\<close>

definition cursor_after :: "rect \<Rightarrow> u16 \<Rightarrow> nat \<Rightarrow> u16 \<Rightarrow> u16 \<times> u16" where
  "cursor_after r dx len dy = (saturating_add (saturating_add (rx r) dx) (to_u16 len), saturating_add (ry r) dy)"

definition render_edit_setting_popup :: "rect \<Rightarrow> app \<Rightarrow> popup_view" where
  "render_edit_setting_popup area a =
     (case setting_at a (settings_selected a) of
        None \<Rightarrow> ([], None)
      | Some s \<Rightarrow>
          let secret = is_secret (st_kind s);
              display_input = (if secret then stars a else glyphs_of (concat (input_buf a)));
              len = (if secret then length (input_buf a) else length (concat (input_buf a)));
              title = lit '' Edit: '' @ lit (st_label s) @ lit '' '';
              w = min (max (saturating_add (to_u16 (length title)) 10) 52) (rwidth area);
              h = min 5 (rheight area);
              popup = centered_rect area w h
          in ([(popup, Panel title (Some Cyan) [line (raw (32 # display_input))] 0)], Some (cursor_after popup 2 len 1)))"

definition render_join_popup :: "rect \<Rightarrow> join_step \<Rightarrow> app \<Rightarrow> popup_view" where
  "render_join_popup area step a =
     (let (title, which) = (case step of StepAuth \<Rightarrow> ('' Join a group (1/2) '', ''auth'') | StepData \<Rightarrow> ('' Join a group (2/2) '', ''data''));
          popup = popup_rect area 64 8
      in ([(popup, Panel (lit title) (Some Cyan)
             [line (styled ''  On a device of the group: Devices > n (Add device) first.'' DarkGray),
              line (Span (lit ''  The group's '' @ lit which @ lit '' password:'') (Some Cyan) False),
              line (raw (lit ''  '' @ stars a)), blank, line (styled ''  Enter: next   Esc: cancel'' DarkGray)] 0)],
          Some (cursor_after popup 3 (length (stars a)) 3)))"

definition key_name :: "tui_key \<Rightarrow> string" where
  "key_name k = (case k of AuthKey \<Rightarrow> ''auth'' | DataKey \<Rightarrow> ''data'')"

definition render_confirm_change_popup :: "rect \<Rightarrow> tui_key \<Rightarrow> popup_view" where
  "render_confirm_change_popup area k =
     ([(popup_rect area 60 9, Panel (lit '' Are you sure? '') (Some Yellow)
         [blank, line (Span (lit ''  Change the '' @ lit (key_name k) @ lit '' password?'') (Some Yellow) False),
          line (styled ''  Every paired device must use the same new password,'' Yellow),
          line (styled ''  or it stops syncing with this one.'' Yellow), blank, yes_no '': yes, change it   ''] 0)], None)"

definition render_unlock_popup :: "rect \<Rightarrow> app \<Rightarrow> popup_view" where
  "render_unlock_popup area a =
     (let popup = popup_rect area 60 8
      in ([(popup, Panel (lit '' Unlock '') (Some Cyan)
             [line (styled ''  The saved keys are locked (the daemon restarted).'' Yellow), line (styled ''  Data password:'' Reset), blank,
              line (raw (lit ''  '' @ stars a)), blank, line (styled ''  Enter: unlock    Esc: later (Settings > Data key)'' DarkGray)] 0)],
          Some (cursor_after popup 3 (length (stars a)) 4)))"

definition render_confirm_forget_popup :: "rect \<Rightarrow> peer_info \<Rightarrow> popup_view" where
  "render_confirm_forget_popup area peer =
     ([(popup_rect area 64 10, Panel (lit '' Forget device '') (Some Yellow)
         [blank,
          line (Span (lit ''  Forget '' @ glyphs_of (info_name peer) @ lit '' ('' @ fingerprint_hex (info_fingerprint peer) @ lit '')?'') (Some Yellow) False),
          line (styled ''  It can't connect to this device any more.'' Yellow),
          line (styled ''  It still knows the group passwords: it can pair again'' Yellow),
          line (styled ''  if you accept it in Add device.'' Yellow), blank, yes_no '': forget   ''] 0)], None)"

definition render_confirm_reset_popup :: "rect \<Rightarrow> app \<Rightarrow> popup_view" where
  "render_confirm_reset_popup area a =
     ([(popup_rect area 66 13, Panel (lit '' Reset device '') (Some Red)
         [blank, line (styled ''  Reset this device? It leaves its group.'' Red),
          line (styled ''  Deleted: both keys, the encrypted vault, the keychain'' Red),
          line (styled ''  items and every paired device. Other devices keep theirs.'' Red),
          line (styled ''  Afterwards: n on Devices joins a group again.'' Reset), blank,
          line (Span (lit ''  Type '' @ glyphs_of RESET_WORD @ lit '' and press Enter:'') (Some Reset) False),
          line (Span (lit ''  > '' @ glyphs_of (concat (input_buf a))) (Some Cyan) False), blank,
          line (styled ''  Esc: cancel'' DarkGray)] 0)], None)"

text \<open>The warning of automatic login, the only setting that has one.\<close>

definition warn_message :: "string list" where
  "warn_message = [''Your data key will be stored in the OS keychain.'', ''Its security then depends on your OS and account:'',
     ''anyone who can unlock your session can use it.'', ''We can't vouch for that.'']"

definition render_security_warning_popup :: "rect \<Rightarrow> nat \<Rightarrow> app \<Rightarrow> popup_view" where
  "render_security_warning_popup area idx a =
     (case setting_at a idx of
        None \<Rightarrow> ([], None)
      | Some s \<Rightarrow>
          if \<not> st_warn s then ([], None)
          else
            ([(popup_rect area 60 11, Panel (32 # 9888 # lit '' Security Warning '') (Some Yellow)
                (blank # map (\<lambda>msg. line (Span (lit ''  '' @ lit msg) (Some Yellow) False)) warn_message @
                 [blank, line (styled ''  Enable anyway?'' Reset), blank, yes_no '': confirm   '']) 0)], None))"

section \<open>The frame\<close>

definition render_popup :: "rect \<Rightarrow> app \<Rightarrow> popup_view" where
  "render_popup area a =
     (case active_popup a of
        PairingPopup p \<Rightarrow> render_pairing_popup area p
      | EditSetting \<Rightarrow> render_edit_setting_popup area a
      | SecurityWarning idx \<Rightarrow> render_security_warning_popup area idx a
      | ConfirmPasswordChange k \<Rightarrow> render_confirm_change_popup area k
      | JoinPopup step \<Rightarrow> render_join_popup area step a
      | ConfirmForget peer \<Rightarrow> render_confirm_forget_popup area peer
      | ConfirmReset \<Rightarrow> render_confirm_reset_popup area a
      | UnlockPopup \<Rightarrow> render_unlock_popup area a
      | NoPopup \<Rightarrow> ([], None))"

definition ui :: "layouts \<Rightarrow> rect \<Rightarrow> app \<Rightarrow> drawn \<times> (u16 \<times> u16) option \<times> app" where
  "ui ly area a =
     (let (header, content, statusbar) = ly_rows ly area;
          (shown_content, a') = render_content ly content a;
          (popup, cursor) = render_popup area a'
      in (render_header header a @ shown_content @ render_statusbar ly statusbar a' @ popup, cursor, a'))"

end
