(* ===== verification/Tui_Props.thy ===== *)
theory Tui_Props
  imports Tui_View
begin

text \<open>
  What the UI promises: an invariant of every app the loop can reach, what it takes for a command to be
  sent, and that what the user types is neither disturbed nor kept.
\<close>

section \<open>The invariant\<close>

definition secret_kind :: "setting_kind \<Rightarrow> bool" where
  "secret_kind k = (k = SecretLocked \<or> (\<exists>b. k = Secret b))"

definition switch_kind :: "setting_kind \<Rightarrow> bool" where
  "switch_kind k = (\<exists>b. k = Switch b)"

definition settings_of :: "setting_kind \<Rightarrow> setting_kind \<Rightarrow> setting_kind \<Rightarrow> setting_kind \<Rightarrow> setting_kind \<Rightarrow> setting list" where
  "settings_of k0 k1 k2 k3 k4 =
     [\<lparr>st_label = AUTH_KEY_LABEL, st_kind = k0, st_warn = False\<rparr>, \<lparr>st_label = DATA_KEY_LABEL, st_kind = k1, st_warn = False\<rparr>,
      \<lparr>st_label = AUTO_LOGIN_LABEL, st_kind = k2, st_warn = True\<rparr>, \<lparr>st_label = SYNC_LABEL, st_kind = k3, st_warn = False\<rparr>,
      \<lparr>st_label = CLIPBOARD_LABEL, st_kind = k4, st_warn = False\<rparr>, \<lparr>st_label = RESET_LABEL, st_kind = Action, st_warn = False\<rparr>]"

definition settings_ok :: "setting list \<Rightarrow> bool" where
  "settings_ok ss = (\<exists>k0 k1 k2 k3 k4. ss = settings_of k0 k1 k2 k3 k4 \<and> secret_kind k0 \<and> secret_kind k1 \<and> switch_kind k2 \<and>
     switch_kind k3 \<and> (switch_kind k4 \<or> k4 = Unavailable))"

text \<open>The popups with an input.\<close>

definition typing :: "popup \<Rightarrow> bool" where
  "typing p = (case p of EditSetting \<Rightarrow> True | JoinPopup _ \<Rightarrow> True | ConfirmReset \<Rightarrow> True | UnlockPopup \<Rightarrow> True | _ \<Rightarrow> False)"

definition input_ok :: "uchar list \<Rightarrow> bool" where
  "input_ok cs = (length (concat cs) \<le> INPUT_CAPACITY \<and> [] \<notin> set cs)"

definition typing_inv :: "popup \<Rightarrow> uchar list \<Rightarrow> bytes \<Rightarrow> bool" where
  "typing_inv p cs auth = (input_ok cs \<and> (typing p \<or> cs = []) \<and>
     (if p = JoinPopup StepData then auth \<noteq> [] \<and> length auth \<le> INPUT_CAPACITY else auth = []))"

definition popup_inv :: "popup \<Rightarrow> nat \<Rightarrow> bool" where
  "popup_inv p selected =
     (case p of
        EditSetting \<Rightarrow> selected < 2
      | ConfirmPasswordChange _ \<Rightarrow> selected < 2
      | SecurityWarning idx \<Rightarrow> idx = 2
      | PairingPopup prompt \<Rightarrow> length (prompt_code prompt) = PAIRING_CODE_LEN \<and> code_is_valid (prompt_code prompt)
      | ConfirmForget peer \<Rightarrow> length (info_fingerprint peer) = FINGERPRINT_LEN
      | _ \<Rightarrow> True)"

definition peers_inv :: "nat option \<Rightarrow> peer_info list \<Rightarrow> bool" where
  "peers_inv selected ps = (list_all (\<lambda>p. length (info_fingerprint p) = FINGERPRINT_LEN) ps \<and>
     (case selected of None \<Rightarrow> ps = [] | Some i \<Rightarrow> i < length ps))"

text \<open>The request a command is sent as (a refresh asks for the status first).\<close>

fun command_request :: "command \<Rightarrow> request" where
  "command_request CmdRefresh = Request_Status"
| "command_request (CmdSetPassword AuthKey pw) = SetAuthPassword pw"
| "command_request (CmdSetPassword DataKey pw) = SetDataPassword pw"
| "command_request (CmdUnlock pw) = Unlock pw"
| "command_request (CmdSetAutoLogin on) = SetAutoLogin on"
| "command_request (CmdSetSync on) = SetSync on"
| "command_request (CmdSetClipboard on) = SetClipboard on"
| "command_request CmdAddDevice = AddDevice"
| "command_request (CmdAnswerPairing i code accept) = AnswerPairing i code accept"
| "command_request (CmdJoinGroup auth data) = JoinGroup auth data"
| "command_request CmdCancelJoin = CancelJoin"
| "command_request CmdStopAddDevice = StopAddDevice"
| "command_request (CmdForgetPeer fp) = ForgetPeer fp"
| "command_request CmdResetDevice = ResetDevice"

definition command_ok :: "command \<Rightarrow> bool" where
  "command_ok c = request_ok (command_request c)"

definition app_inv :: "app \<Rightarrow> bool" where
  "app_inv a = (settings_ok (settings a) \<and> settings_selected a < 6 \<and> typing_inv (active_popup a) (input_buf a) (join_auth a) \<and>
     popup_inv (active_popup a) (settings_selected a) \<and> peers_inv (peer_selected a) (shown_peers a) \<and>
     list_all command_ok (outbox a))"

lemmas app_ops = push_log_def push_command_def clear_input_def pop_input_def log_if_def log_unlock_wait_def

lemma app_inv_new: "app_inv app_new"
  by (auto simp: app_inv_def app_new_def settings_ok_def settings_of_def secret_kind_def switch_kind_def typing_inv_def input_ok_def
      popup_inv_def peers_inv_def)

lemma typed_password:
  assumes "input_ok cs" "cs \<noteq> []"
  shows "password_ok (concat cs)"
  using assms by (cases cs) (auto simp: input_ok_def password_ok_def INPUT_CAPACITY_def MAX_PASSWORD_LEN_def)

lemma app_inv_fields:
  assumes "app_inv a" "settings a' = settings a" "settings_selected a' = settings_selected a" "active_popup a' = active_popup a"
    "input_buf a' = input_buf a" "join_auth a' = join_auth a" "peer_selected a' = peer_selected a" "shown_peers a' = shown_peers a"
    "outbox a' = outbox a"
  shows "app_inv a'"
  using assms by (simp add: app_inv_def)

lemma app_inv_log [simp]: "app_inv (push_log msg a) \<longleftrightarrow> app_inv a"
  by (auto simp: app_inv_def push_log_def)

lemma app_inv_log_if [simp]: "app_inv (log_if c msg a) \<longleftrightarrow> app_inv a"
  by (simp add: log_if_def)

lemma app_inv_close: "app_inv a \<Longrightarrow> app_inv (a\<lparr>active_popup := NoPopup, input_buf := [], join_auth := []\<rparr>)"
  by (auto simp: app_inv_def typing_inv_def input_ok_def popup_inv_def)

lemma app_inv_push: "app_inv a \<Longrightarrow> command_ok c \<Longrightarrow> app_inv (push_command c a)"
  by (simp add: app_inv_def push_command_def)

text \<open>A key press carries a character with an encoding.\<close>

definition key_ok :: "tui_event \<Rightarrow> bool" where
  "key_ok ev = (case ev of KeyPress _ (KeyChar c) \<Rightarrow> c \<noteq> [] | _ \<Rightarrow> True)"

lemma app_inv_edit:
  assumes "app_inv a" "typing (active_popup a)" "key_ok (KeyPress control code)"
  shows "app_inv (edit_input code a)"
proof -
  have "input_ok (butlast cs)" if "input_ok cs" for cs
    using that by (cases cs rule: rev_cases) (auto simp: input_ok_def)
  moreover have "input_ok (cs @ [c])" if "input_ok cs" "length (concat cs) + length c \<le> INPUT_CAPACITY" "c \<noteq> []" for cs c
    using that by (simp add: input_ok_def)
  ultimately show ?thesis
    using assms by (auto simp: app_inv_def edit_input_def typing_inv_def pop_input_def push_input_def input_len_def key_ok_def split: key_code.split)
qed

section \<open>Key presses\<close>

lemma selected_cases:
  assumes "app_inv a"
  obtains (Key) s where "setting_at a (settings_selected a) = Some s" "st_label s = AUTH_KEY_LABEL \<or> st_label s = DATA_KEY_LABEL"
      "secret_kind (st_kind s)" "settings_selected a < 2"
  | (Login) on where "setting_at a (settings_selected a) = Some \<lparr>st_label = AUTO_LOGIN_LABEL, st_kind = Switch on, st_warn = True\<rparr>" "settings_selected a = 2"
  | (Sync) on where "setting_at a (settings_selected a) = Some \<lparr>st_label = SYNC_LABEL, st_kind = Switch on, st_warn = False\<rparr>"
  | (Clip) k where "setting_at a (settings_selected a) = Some \<lparr>st_label = CLIPBOARD_LABEL, st_kind = k, st_warn = False\<rparr>" "k = Unavailable \<or> (\<exists>on. k = Switch on)"
  | (Reset) s where "setting_at a (settings_selected a) = Some s" "st_label s = RESET_LABEL"
proof -
  from assms obtain k0 k1 b2 b3 k4 where k: "settings a = settings_of k0 k1 (Switch b2) (Switch b3) k4" "secret_kind k0" "secret_kind k1"
    "switch_kind k4 \<or> k4 = Unavailable" by (auto simp: app_inv_def settings_ok_def switch_kind_def)
  consider "settings_selected a = 0" | "settings_selected a = 1" | "settings_selected a = 2" | "settings_selected a = 3" | "settings_selected a = 4" | "settings_selected a = 5"
    using assms unfolding app_inv_def by linarith
  then show thesis
  proof cases
    case 5
    then show thesis using k Clip by (auto simp: setting_at_def settings_of_def switch_kind_def)
  qed (use k that in \<open>simp_all add: setting_at_def settings_of_def\<close>)
qed

lemma label_distinct [simp]:
  "AUTH_KEY_LABEL \<noteq> DATA_KEY_LABEL" "DATA_KEY_LABEL \<noteq> AUTH_KEY_LABEL" "AUTO_LOGIN_LABEL \<noteq> AUTH_KEY_LABEL" "AUTO_LOGIN_LABEL \<noteq> DATA_KEY_LABEL" "SYNC_LABEL \<noteq> AUTH_KEY_LABEL" "SYNC_LABEL \<noteq> DATA_KEY_LABEL"
  "SYNC_LABEL \<noteq> AUTO_LOGIN_LABEL" "CLIPBOARD_LABEL \<noteq> AUTH_KEY_LABEL" "CLIPBOARD_LABEL \<noteq> DATA_KEY_LABEL"
  "CLIPBOARD_LABEL \<noteq> AUTO_LOGIN_LABEL" "CLIPBOARD_LABEL \<noteq> SYNC_LABEL" "RESET_LABEL \<noteq> CLIPBOARD_LABEL" "AUTH_KEY_LABEL \<noteq> RESET_LABEL"
  "DATA_KEY_LABEL \<noteq> RESET_LABEL" "AUTO_LOGIN_LABEL \<noteq> RESET_LABEL" "SYNC_LABEL \<noteq> RESET_LABEL" "CLIPBOARD_LABEL \<noteq> RESET_LABEL"
  "AUTH_KEY_LABEL \<noteq> AUTO_LOGIN_LABEL" "AUTH_KEY_LABEL \<noteq> SYNC_LABEL" "AUTH_KEY_LABEL \<noteq> CLIPBOARD_LABEL" "DATA_KEY_LABEL \<noteq> AUTO_LOGIN_LABEL"
  "DATA_KEY_LABEL \<noteq> SYNC_LABEL" "DATA_KEY_LABEL \<noteq> CLIPBOARD_LABEL" "AUTO_LOGIN_LABEL \<noteq> SYNC_LABEL" "AUTO_LOGIN_LABEL \<noteq> CLIPBOARD_LABEL"
  "SYNC_LABEL \<noteq> CLIPBOARD_LABEL" "RESET_LABEL \<noteq> AUTH_KEY_LABEL" "RESET_LABEL \<noteq> DATA_KEY_LABEL" "RESET_LABEL \<noteq> AUTO_LOGIN_LABEL"
  "RESET_LABEL \<noteq> SYNC_LABEL"
  by (simp_all add: labels)

lemmas setting_tests = has_label_def is_auto_login_def is_sync_def is_clipboard_def selected_key_kind_def

lemma settings_enter_inv:
  assumes "app_inv a" "active_popup a = NoPopup"
  shows "app_inv (handle_settings_enter a)"
proof -
  have e: "input_buf a = []" "join_auth a = []" using assms by (auto simp: app_inv_def typing_inv_def typing_def)
  have pop: "app_inv (a\<lparr>active_popup := p\<rparr>)" if "popup_inv p (settings_selected a)" "p \<noteq> JoinPopup StepData" for p
    using assms(1) e that by (auto simp: app_inv_def typing_inv_def)
  have clear: "clear_input a = a" using e by (simp add: clear_input_def)
  have ok: "command_ok (CmdSetAutoLogin b)" "command_ok (CmdSetSync b)" "command_ok (CmdSetClipboard b)" for b
    by (simp_all add: command_ok_def request_ok_def)
  note simps = handle_settings_enter_def setting_tests Let_def clear app_inv_push ok log_unlock_wait_def assms(1)
  from assms(1) show ?thesis
  proof (cases rule: selected_cases)
    case (Key s)
    have "app_inv (a\<lparr>active_popup := EditSetting\<rparr>)" "app_inv (a\<lparr>active_popup := ConfirmPasswordChange k\<rparr>)" for k
      using pop Key(4) by (simp_all add: popup_inv_def)
    with Key show ?thesis by (auto simp: simps secret_kind_def)
  next
    case (Login on)
    then show ?thesis using pop [of "SecurityWarning (settings_selected a)"] by (simp add: simps popup_inv_def)
  next
    case (Sync on)
    then show ?thesis by (simp add: simps)
  next
    case (Clip k)
    then show ?thesis by (auto simp: simps)
  next
    case (Reset s)
    then show ?thesis using pop [of ConfirmReset] by (simp add: simps popup_inv_def)
  qed
qed

lemma wrap_bounds: "0 < len \<Longrightarrow> wrap_next i len < len" "i < len \<Longrightarrow> wrap_prev i len < len"
  by (auto simp: wrap_next_def wrap_prev_def)

text \<open>An app without a popup has nothing typed.\<close>

lemma idle_input: "app_inv a \<Longrightarrow> \<not> typing (active_popup a) \<Longrightarrow> input_buf a = [] \<and> join_auth a = []"
  by (auto simp: app_inv_def typing_inv_def typing_def split: if_splits)

lemma idle_popup:
  assumes "app_inv a" "\<not> typing (active_popup a)" "popup_inv p (settings_selected a)" "p \<noteq> JoinPopup StepData"
  shows "app_inv (a\<lparr>active_popup := p\<rparr>)"
  using assms idle_input [OF assms(1,2)] by (auto simp: app_inv_def typing_inv_def)

lemma simple_commands:
  "command_ok CmdAddDevice" "command_ok CmdCancelJoin" "command_ok CmdStopAddDevice" "command_ok CmdResetDevice" "command_ok (CmdSetAutoLogin b)"
  by (simp_all add: command_ok_def request_ok_def)

lemma tab_input_inv:
  assumes "app_inv a" "active_popup a = NoPopup"
  shows "app_inv (tab_input code a)"
proof -
  have idle: "\<not> typing (active_popup a)" using assms(2) by (simp add: typing_def)
  have peers: "app_inv (prev_peer a)" "app_inv (next_peer a)"
    using assms(1) by (auto simp: app_inv_def peers_inv_def prev_peer_def next_peer_def wrap_bounds split: option.splits)
  have len: "length (settings a) = 6" using assms(1) by (auto simp: app_inv_def settings_ok_def settings_of_def)
  have sets: "app_inv (prev_setting a)" "app_inv (next_setting a)"
    using assms by (auto simp: app_inv_def popup_inv_def prev_setting_def next_setting_def len wrap_bounds)
  have "app_inv (a\<lparr>input_buf := [], join_auth := [], active_popup := JoinPopup StepAuth\<rparr>)"
    using app_inv_close [OF assms(1)] by (simp add: app_inv_def typing_inv_def popup_inv_def)
  then have add: "app_inv (start_add_device a)"
    using assms(1) by (auto simp: start_add_device_def app_inv_push simple_commands clear_input_def popup_inv_def split: daemon_state.split)
  have stop: "app_inv (stop_or_cancel a)"
    using assms(1) by (auto simp: stop_or_cancel_def app_inv_push simple_commands split: daemon_state.split)
  have forget: "app_inv (ask_forget_selected a)"
    using assms(1) idle_popup [OF assms(1) idle]
    by (auto simp: ask_forget_selected_def selected_peer_def popup_inv_def app_inv_def peers_inv_def list_all_length split: option.splits)
  have scroll: "app_inv (a\<lparr>log_follow := b, log_scroll := n\<rparr>)" "app_inv (a\<lparr>log_scroll := n\<rparr>)" "app_inv (a\<lparr>log_follow := b\<rparr>)" for b n
    using assms(1) by (simp_all add: app_inv_def)
  show ?thesis
    using assms(1) peers sets add stop forget scroll settings_enter_inv [OF assms]
    by (cases "active_tab a") (simp_all add: tab_input_def)
qed

lemma selected_key: "settings_ok (settings a) \<Longrightarrow> settings_selected a < 2 \<Longrightarrow> selected_key_kind a \<noteq> None"
  by (cases "settings_selected a") (auto simp: settings_ok_def settings_of_def selected_key_kind_def setting_at_def less_Suc_eq)

lemma send_password_inv:
  assumes "app_inv a"
  shows "app_inv (send_password_from_input a)"
proof -
  have p: "password_ok (concat (input_buf a))" if "input_buf a \<noteq> []"
    using assms that typed_password by (auto simp: app_inv_def typing_inv_def)
  have "command_ok (CmdUnlock (concat (input_buf a)))" "command_ok (CmdSetPassword k (concat (input_buf a)))" if "input_buf a \<noteq> []" for k
    using p [OF that] by (cases k; simp add: command_ok_def request_ok_def)+
  with assms show ?thesis
    by (auto simp: send_password_from_input_def app_inv_push log_unlock_wait_def split: option.split)
qed

lemma close_popup:
  assumes "app_inv a" "\<not> typing (active_popup a)"
  shows "app_inv (a\<lparr>active_popup := NoPopup\<rparr>)"
  using idle_popup [OF assms, of NoPopup] by (simp add: popup_inv_def)

lemma push_popup: "push_command c a\<lparr>active_popup := p\<rparr> = push_command c (a\<lparr>active_popup := p\<rparr>)"
  by (simp add: push_command_def)

lemma log_popup: "push_log m a\<lparr>active_popup := p\<rparr> = push_log m (a\<lparr>active_popup := p\<rparr>)"
  by (simp add: push_log_def)

lemma handle_join_inv:
  assumes "app_inv a" "active_popup a = JoinPopup step" "key_ok (KeyPress control code)"
  shows "app_inv (handle_join_input code step a)"
proof -
  have t: "typing (active_popup a)" using assms(2) by (simp add: typing_def)
  have "app_inv (edit_input code a)" using assms(3) by (rule app_inv_edit [OF assms(1) t])
  moreover have "app_inv (clear_input (a\<lparr>join_auth := concat (input_buf a)\<rparr>)\<lparr>active_popup := JoinPopup StepData\<rparr>)" if "input_buf a \<noteq> []"
    using assms(1) typed_password [OF _ that]
    by (auto simp: app_inv_def clear_input_def typing_inv_def typing_def input_ok_def popup_inv_def password_ok_def)
  moreover have "app_inv (push_command (CmdJoinGroup (join_auth a) (concat (input_buf a))) a)" if "step = StepData" "input_buf a \<noteq> []"
    using assms(1,2) that typed_password [OF _ that(2)]
    by (intro app_inv_push) (auto simp: app_inv_def typing_inv_def command_ok_def request_ok_def password_ok_def INPUT_CAPACITY_def MAX_PASSWORD_LEN_def)
  then have "app_inv (clear_input (push_command (CmdJoinGroup (join_auth a) (concat (input_buf a))) a\<lparr>join_auth := []\<rparr>)\<lparr>active_popup := NoPopup\<rparr>)"
    if "step = StepData" "input_buf a \<noteq> []"
    using app_inv_close [of "push_command (CmdJoinGroup (join_auth a) (concat (input_buf a))) a"] that
    by (simp add: clear_input_def app_inv_def)
  moreover have "app_inv (clear_input a\<lparr>join_auth := [], active_popup := NoPopup\<rparr>)"
    using app_inv_close [OF assms(1)] by (simp add: clear_input_def app_inv_def)
  ultimately show ?thesis using assms(1) by (cases step) (auto simp: handle_join_input_def split: key_code.split)
qed

lemma handle_input_inv:
  assumes "app_inv a" "key_ok ev"
  shows "app_inv (handle_input ev a)"
proof (cases ev)
  case (KeyPress control code)
  have edit: "app_inv (edit_input code a)" if "typing (active_popup a)"
    using assms(2) KeyPress by (intro app_inv_edit [OF assms(1) that]) simp
  have quit: "app_inv (a\<lparr>should_quit := True\<rparr>)" "app_inv (next_tab a)" "app_inv (prev_tab a)"
    using assms(1) by (simp_all add: app_inv_def next_tab_def prev_tab_def)
  have wipe: "app_inv (clear_input a\<lparr>active_popup := NoPopup\<rparr>)" if "active_popup a \<noteq> JoinPopup StepData"
  proof -
    have "join_auth a = []" using assms(1) that by (auto simp: app_inv_def typing_inv_def)
    with app_inv_close [OF assms(1)] show ?thesis by (simp add: clear_input_def app_inv_def)
  qed
  have pw: "command_ok (CmdUnlock (concat (input_buf a)))" if "input_buf a \<noteq> []"
    using assms(1) typed_password [OF _ that] by (auto simp: app_inv_def typing_inv_def command_ok_def request_ok_def)
  show ?thesis
  proof (cases "active_popup a")
    case NoPopup
    then have "app_inv (tab_input code (a\<lparr>should_quit := True\<rparr>))" "app_inv (tab_input code (next_tab a))" "app_inv (tab_input code (prev_tab a))"
      using quit by (auto intro!: tab_input_inv simp: next_tab_def prev_tab_def)
    with NoPopup show ?thesis using quit tab_input_inv [OF assms(1) NoPopup] by (auto simp: handle_input_def KeyPress)
  next
    case (PairingPopup prompt)
    then have "command_ok (CmdAnswerPairing (prompt_id prompt) (prompt_code prompt) b)" for b
      using assms(1) by (simp add: app_inv_def popup_inv_def command_ok_def request_ok_def)
    with PairingPopup close_popup [OF assms(1)] show ?thesis
      using assms(1) quit by (simp add: handle_input_def KeyPress handle_pairing_input_def push_popup app_inv_push typing_def)
  next
    case EditSetting
    have "app_inv (clear_input (send_password_from_input a\<lparr>active_popup := NoPopup\<rparr>))"
    proof -
      have same: "join_auth (send_password_from_input a) = join_auth a"
        by (simp add: send_password_from_input_def app_ops split: option.split)
      have "join_auth a = []" using assms(1) EditSetting by (auto simp: app_inv_def typing_inv_def)
      with same app_inv_close [OF send_password_inv [OF assms(1)]] show ?thesis by (simp add: clear_input_def app_inv_def)
    qed
    moreover have "clear_input (a\<lparr>active_popup := NoPopup\<rparr>) = clear_input a\<lparr>active_popup := NoPopup\<rparr>" by (simp add: clear_input_def)
    ultimately show ?thesis using EditSetting assms(1) quit wipe edit
      by (auto simp: handle_input_def KeyPress handle_edit_setting_input_def typing_def split: key_code.split)
  next
    case (SecurityWarning idx)
    have "push_log m (push_command c a)\<lparr>active_popup := NoPopup\<rparr> = push_log m (push_command c (a\<lparr>active_popup := NoPopup\<rparr>))" for m c
      by (simp add: push_log_def push_command_def)
    with SecurityWarning close_popup [OF assms(1)] show ?thesis using assms(1) quit
      by (simp add: handle_input_def KeyPress handle_security_warning_input_def app_inv_push simple_commands typing_def)
  next
    case (ConfirmPasswordChange k)
    have "app_inv (clear_input a\<lparr>active_popup := EditSetting\<rparr>)"
      using idle_popup [OF assms(1), of EditSetting] idle_input [OF assms(1)] assms(1) ConfirmPasswordChange
      by (simp add: clear_input_def typing_def app_inv_def popup_inv_def)
    with ConfirmPasswordChange close_popup [OF assms(1)] show ?thesis using assms(1) quit
      by (simp add: handle_input_def KeyPress handle_confirm_change_input_def typing_def)
  next
    case (JoinPopup step)
    then show ?thesis using quit handle_join_inv [OF assms(1)] assms(2) by (simp add: handle_input_def KeyPress)
  next
    case (ConfirmForget peer)
    then have "command_ok (CmdForgetPeer (info_fingerprint peer))"
      using assms(1) by (simp add: app_inv_def popup_inv_def command_ok_def request_ok_def)
    moreover have "push_log m (push_command c a)\<lparr>active_popup := NoPopup\<rparr> = push_log m (push_command c (a\<lparr>active_popup := NoPopup\<rparr>))" for m c
      by (simp add: push_log_def push_command_def)
    ultimately show ?thesis using ConfirmForget close_popup [OF assms(1)] assms(1) quit
      by (simp add: handle_input_def KeyPress handle_confirm_forget_input_def app_inv_push typing_def)
  next
    case ConfirmReset
    then show ?thesis using assms(1) quit wipe edit
      by (auto simp: handle_input_def KeyPress handle_confirm_reset_input_def typing_def app_inv_push simple_commands split: key_code.split)
  next
    case UnlockPopup
    have "clear_input (push_command c a)\<lparr>active_popup := NoPopup\<rparr> = push_command c (clear_input a\<lparr>active_popup := NoPopup\<rparr>)" for c
      by (simp add: clear_input_def push_command_def)
    with UnlockPopup show ?thesis using assms(1) quit wipe edit pw
      by (auto simp: handle_input_def KeyPress handle_unlock_input_def typing_def app_inv_push split: key_code.split)
  qed
qed (use assms in \<open>simp add: handle_input_def\<close>)

section \<open>Events of the link\<close>

text \<open>What the link can report: devices and prompts that came through the decoder of the answer.\<close>

definition link_ok :: "link_event \<Rightarrow> bool" where
  "link_ok ev =
     (case ev of
        Refreshed (Inr (s, peers, pairing)) \<Rightarrow>
          list_all (\<lambda>p. length (info_fingerprint p) = FINGERPRINT_LEN) peers \<and>
          (case pairing of None \<Rightarrow> True | Some p \<Rightarrow> length (prompt_code p) = PAIRING_CODE_LEN \<and> code_is_valid (prompt_code p))
      | _ \<Rightarrow> True)"

lemma set_kind_of:
  "set_kind AUTH_KEY_LABEL k (settings_of k0 k1 k2 k3 k4) = settings_of k k1 k2 k3 k4"
  "set_kind DATA_KEY_LABEL k (settings_of k0 k1 k2 k3 k4) = settings_of k0 k k2 k3 k4"
  "set_kind AUTO_LOGIN_LABEL k (settings_of k0 k1 k2 k3 k4) = settings_of k0 k1 k k3 k4"
  "set_kind SYNC_LABEL k (settings_of k0 k1 k2 k3 k4) = settings_of k0 k1 k2 k k4"
  "set_kind CLIPBOARD_LABEL k (settings_of k0 k1 k2 k3 k4) = settings_of k0 k1 k2 k3 k"
  by (simp_all add: settings_of_def)

text \<open>The kinds of the settings a status shows.\<close>

definition status_settings :: "status \<Rightarrow> setting list" where
  "status_settings s =
     settings_of (if locked s then SecretLocked else Secret (auth_key_set s)) (if locked s then SecretLocked else Secret (data_key_set s))
       (Switch (auto_login s)) (Switch (sync_enabled s)) (if clipboard_unavailable s then Unavailable else Switch (clipboard_enabled s))"

lemma show_status_settings: "settings_ok (settings a) \<Longrightarrow> show_status s a = a\<lparr>settings := status_settings s\<rparr>"
  by (auto simp: settings_ok_def show_status_def set_key_flags_def setting_mut_def set_kind_of status_settings_def Let_def)

lemma show_status_inv:
  assumes "app_inv a"
  shows "app_inv (show_status s a)"
proof -
  have "settings_ok (status_settings s)"
    unfolding settings_ok_def status_settings_def secret_kind_def switch_kind_def
    by (intro exI conjI; (rule refl)?; simp)
  then show ?thesis using assms show_status_settings [of a s] by (simp add: app_inv_def)
qed

lemma app_inv_plain [simp]:
  "app_inv (a\<lparr>refresh_in_flight := b\<rparr>) \<longleftrightarrow> app_inv a" "app_inv (a\<lparr>unlock_asked := b\<rparr>) \<longleftrightarrow> app_inv a"
  "app_inv (a\<lparr>daemon_heard := st\<rparr>) \<longleftrightarrow> app_inv a"
  by (simp_all add: app_inv_def)

lemma log_peer_change_inv: "app_inv (log_peer_change before p a) \<longleftrightarrow> app_inv a"
  by (cases "info_state p") (simp_all add: log_peer_change_def)

lemma log_peer_changes_inv: "app_inv (log_peer_changes peers a) \<longleftrightarrow> app_inv a"
proof -
  have "app_inv (fold (log_peer_change before) ps b) \<longleftrightarrow> app_inv b" for before ps b
    by (induction ps arbitrary: b) (simp_all add: log_peer_change_inv)
  then show ?thesis by (simp add: log_peer_changes_def)
qed

lemma clamp_inv:
  assumes "app_inv a" "list_all (\<lambda>p. length (info_fingerprint p) = FINGERPRINT_LEN) ps"
  shows "app_inv (clamp_peer_selection (a\<lparr>shown_peers := ps\<rparr>))"
proof -
  have "peers_inv (peer_selected (clamp_peer_selection (a\<lparr>shown_peers := ps\<rparr>))) ps"
    using assms(2) by (cases ps) (auto simp: peers_inv_def clamp_peer_selection_def split: option.split)
  then show ?thesis using assms(1) by (simp add: app_inv_def clamp_peer_selection_def)
qed

lemma show_pairing_inv:
  assumes "app_inv a" "case pairing of None \<Rightarrow> True | Some p \<Rightarrow> length (prompt_code p) = PAIRING_CODE_LEN \<and> code_is_valid (prompt_code p)"
  shows "app_inv (show_pairing pairing a)"
proof (cases "active_popup a = NoPopup \<or> (\<exists>p. active_popup a = PairingPopup p)")
  case True
  then have idle: "\<not> typing (active_popup a)" by (auto simp: typing_def)
  have "app_inv (a\<lparr>active_popup := PairingPopup p\<rparr>)" if "pairing = Some p" for p
    using idle_popup [OF assms(1) idle, of "PairingPopup p"] assms(2) that by (simp add: popup_inv_def)
  with True close_popup [OF assms(1) idle] assms(1) show ?thesis
    by (auto simp: show_pairing_def log_popup split: option.split)
next
  case False
  then show ?thesis using assms(1) by (cases "active_popup a") (auto simp: show_pairing_def)
qed

lemma ask_unlock_inv:
  assumes "app_inv a"
  shows "app_inv (ask_unlock s a)"
proof -
  have "app_inv (clear_input (a\<lparr>unlock_asked := False\<rparr>)\<lparr>active_popup := NoPopup\<rparr>)" if "active_popup a = UnlockPopup"
  proof -
    have "join_auth a = []" using assms that by (auto simp: app_inv_def typing_inv_def)
    with app_inv_close [OF assms] show ?thesis by (simp add: clear_input_def app_inv_def)
  qed
  moreover have "app_inv (clear_input a\<lparr>active_popup := UnlockPopup, unlock_asked := True\<rparr>)" if "active_popup a = NoPopup"
    using idle_popup [OF assms, of UnlockPopup] idle_input [OF assms] that by (simp add: clear_input_def typing_def popup_inv_def app_inv_def)
  ultimately show ?thesis using assms by (simp add: ask_unlock_def Let_def)
qed

lemma request_refresh_inv: "app_inv a \<Longrightarrow> app_inv (request_refresh a)"
  by (simp add: request_refresh_def app_inv_push command_ok_def request_ok_def)

lemma on_refreshed_inv:
  assumes "app_inv a" "link_ok (Refreshed (Inr (s, peers, pairing)))"
  shows "app_inv (on_refreshed s peers pairing a)"
proof -
  have p: "list_all (\<lambda>p. length (info_fingerprint p) = FINGERPRINT_LEN) peers"
    "case pairing of None \<Rightarrow> True | Some p \<Rightarrow> length (prompt_code p) = PAIRING_CODE_LEN \<and> code_is_valid (prompt_code p)"
    using assms(2) by (simp_all add: link_ok_def)
  show ?thesis unfolding on_refreshed_def Let_def app_inv_plain
    by (rule ask_unlock_inv, rule show_pairing_inv [OF clamp_inv [OF _ p(1)] p(2)]) (simp add: log_peer_changes_inv show_status_inv assms(1))
qed

lemma forget_daemon_inv:
  assumes "app_inv a"
  shows "app_inv (forget_daemon st a)"
proof -
  have "app_inv (set_key_flags b c a)" for b c
    using assms unfolding app_inv_def settings_ok_def
    by (fastforce simp: set_key_flags_def setting_mut_def set_kind_of secret_kind_def)
  then show ?thesis unfolding forget_daemon_def
    by (intro show_pairing_inv) (simp_all add: clamp_inv)
qed

lemma log_result_inv [simp]: "app_inv (log_result r ok failed a) \<longleftrightarrow> app_inv a"
  by (simp add: log_result_def split: sum.split option.split)

lemma handle_link_event_inv:
  assumes "app_inv a" "link_ok ev"
  shows "app_inv (handle_link_event ev a)"
proof (cases ev)
  case (Refreshed r)
  then show ?thesis
    using assms on_refreshed_inv [OF assms(1)] by (cases r) (auto simp: handle_link_event_def on_refresh_failed_def forget_daemon_inv Let_def)
qed (use assms(1) in \<open>auto simp: handle_link_event_def request_refresh_inv forget_daemon_inv split: sum.split\<close>)

lemma apply_events_inv: "app_inv a \<Longrightarrow> list_all link_ok evs \<Longrightarrow> app_inv (apply_events evs a)"
  by (induction evs a rule: apply_events.induct) (auto simp: handle_link_event_inv)

lemma pump_link_inv:
  assumes "app_inv a" "list_all link_ok evs"
  shows "app_inv (snd (snd (pump_link now before taken evs a)))" "list_all command_ok (fst (pump_link now before taken evs a))"
proof -
  define b where "b = (if (case before of None \<Rightarrow> True | Some t \<Rightarrow> from_secs REFRESH_INTERVAL \<le> saturating_duration_since now t)
    then request_refresh a else a)"
  have b: "app_inv b" using assms(1) by (simp add: b_def request_refresh_inv)
  then have "app_inv (b\<lparr>outbox := []\<rparr>)" and o: "list_all command_ok (outbox b)" by (simp_all add: app_inv_def)
  then have "app_inv (handle_link_event WorkerStopped (b\<lparr>outbox := []\<rparr>))" "app_inv (apply_events evs (b\<lparr>outbox := []\<rparr>))"
    using assms(2) by (simp_all add: handle_link_event_inv apply_events_inv link_ok_def)
  then show "app_inv (snd (snd (pump_link now before taken evs a)))" using assms(1) by (simp add: pump_link_def Let_def b_def [symmetric])
  show "list_all command_ok (fst (pump_link now before taken evs a))"
    using o by (auto simp: pump_link_def Let_def b_def [symmetric] list_all_iff dest: in_set_takeD)
qed

section \<open>Reachable apps\<close>

text \<open>Drawing moves nothing but the scroll position of the log.\<close>

lemma ui_app: "\<exists>n. snd (snd (ui ly area a)) = a\<lparr>log_scroll := n\<rparr>"
proof -
  have "\<exists>n. snd (render_content ly r a) = a\<lparr>log_scroll := n\<rparr>" for r
    by (auto simp: render_content_def render_logs_def scroll_logs_def Let_def split: tab.split intro: exI [of _ "log_scroll a"])
  then show ?thesis by (simp add: ui_def case_prod_beta Let_def)
qed

lemma ui_fields:
  "app_inv (snd (snd (ui ly area a))) = app_inv a" "active_popup (snd (snd (ui ly area a))) = active_popup a"
  "input_buf (snd (snd (ui ly area a))) = input_buf a"
  using ui_app [of ly area a] by (auto simp: app_inv_def)

text \<open>The loop of \<open>run\<close>: a round of the link, a frame, a key press.\<close>

inductive tui_run :: "app \<Rightarrow> bool" where
  started: "tui_run (run_begin link_started requirement_valid signature_checked app_new)"
| pump: "tui_run a \<Longrightarrow> list_all link_ok evs \<Longrightarrow> tui_run (snd (snd (pump_link now before taken evs a)))"
| frame: "tui_run a \<Longrightarrow> tui_run (snd (snd (ui ly area a)))"
| key: "tui_run a \<Longrightarrow> key_ok ev \<Longrightarrow> tui_run (handle_input ev a)"

lemma tui_run_inv: "tui_run a \<Longrightarrow> app_inv a"
proof (induction rule: tui_run.induct)
  case (started link_started requirement_valid signature_checked)
  then show ?case using app_inv_new by (simp add: run_begin_def Let_def)
qed (simp_all add: pump_link_inv ui_fields handle_input_inv)

text \<open>
  C16. What is typed is never kept: in every app the loop can reach, text stands in the input only while
  a popup that asks for it is open, the first password of a join only while its second is
  asked for, neither outgrows its buffer; the selection is always on an existing device and setting;
  and every command that waits to be sent is a request the protocol can carry.
\<close>
theorem typed_text_wiped:
  assumes "tui_run a"
  shows "(if typing (active_popup a) then length (concat (input_buf a)) \<le> INPUT_CAPACITY else input_buf a = []) \<and>
    (if active_popup a = JoinPopup StepData then length (join_auth a) \<le> INPUT_CAPACITY else join_auth a = []) \<and>
    settings_selected a < length (settings a) \<and> (shown_peers a = [] \<longleftrightarrow> selected_peer a = None) \<and>
    list_all (\<lambda>c. request_ok (command_request c)) (outbox a)"
  using tui_run_inv [OF assms]
  by (auto simp: app_inv_def typing_inv_def input_ok_def settings_ok_def settings_of_def peers_inv_def selected_peer_def command_ok_def [abs_def]
      split: option.splits)

section \<open>What it takes to send a command\<close>

text \<open>The popup and the key that send a command, and the state they send it in.\<close>

fun sent_by :: "app \<Rightarrow> key_code \<Rightarrow> command \<Rightarrow> bool" where
  "sent_by a code CmdResetDevice = (active_popup a = ConfirmReset \<and> code = KeyEnter \<and> concat (input_buf a) = RESET_WORD)"
| "sent_by a code (CmdForgetPeer fp) = (\<exists>p. active_popup a = ConfirmForget p \<and> fp = info_fingerprint p \<and> yes code)"
| "sent_by a code (CmdAnswerPairing i pc accept) =
     (\<exists>p. active_popup a = PairingPopup p \<and> i = prompt_id p \<and> pc = prompt_code p \<and> (if accept then yes code else cancels code))"
| "sent_by a code (CmdSetPassword kind pw) =
     (active_popup a = EditSetting \<and> code = KeyEnter \<and> pw = concat (input_buf a) \<and> MIN_NEW_PASSWORD_LEN \<le> length (input_buf a) \<and>
      selected_key_kind a = Some kind \<and> \<not> daemon_was locked a)"
| "sent_by a code (CmdUnlock pw) =
     (code = KeyEnter \<and> pw = concat (input_buf a) \<and> input_buf a \<noteq> [] \<and>
      (active_popup a = UnlockPopup \<or> active_popup a = EditSetting \<and> selected_key_kind a = Some DataKey \<and> daemon_was locked a \<and> unlock_wait a = 0))"
| "sent_by a code (CmdSetAutoLogin on) =
     (if on then (\<exists>idx. active_popup a = SecurityWarning idx) \<and> yes code else active_popup a = NoPopup \<and> code = KeyEnter)"
| "sent_by a code (CmdJoinGroup auth data) =
     (active_popup a = JoinPopup StepData \<and> code = KeyEnter \<and> auth = join_auth a \<and> data = concat (input_buf a) \<and> input_buf a \<noteq> [])"
| "sent_by a code CmdRefresh = False"
| "sent_by a code (CmdSetSync on) = (active_popup a = NoPopup \<and> code = KeyEnter \<and> active_tab a = Settings)"
| "sent_by a code (CmdSetClipboard on) = (active_popup a = NoPopup \<and> code = KeyEnter \<and> active_tab a = Settings)"
| "sent_by a code CmdAddDevice = (active_popup a = NoPopup \<and> active_tab a = Devices \<and> daemon_was network_running a)"
| "sent_by a code CmdCancelJoin = (active_popup a = NoPopup \<and> active_tab a = Devices \<and> daemon_was joining a)"
| "sent_by a code CmdStopAddDevice = (active_popup a = NoPopup \<and> active_tab a = Devices \<and> daemon_was network_running a)"

definition sends :: "app \<Rightarrow> key_code \<Rightarrow> app \<Rightarrow> bool" where
  "sends a code a' = (outbox a' = outbox a \<or> (\<exists>c. outbox a' = outbox a @ [c] \<and> sent_by a code c))"

lemma edit_input_outbox: "outbox (edit_input code a) = outbox a"
  by (simp add: edit_input_def pop_input_def push_input_def split: key_code.split)

lemma settings_enter_sends:
  assumes "active_popup a = NoPopup" "active_tab a = Settings"
  shows "sends a KeyEnter (handle_settings_enter a)"
  using assms
  by (auto simp: sends_def handle_settings_enter_def app_ops Let_def split: option.split setting_kind.split)

lemma tab_input_sends:
  assumes "active_popup a = NoPopup"
  shows "sends a code (tab_input code a)"
proof (cases "active_tab a")
  case Devices
  have "outbox (prev_peer a) = outbox a" "outbox (next_peer a) = outbox a" "outbox (ask_forget_selected a) = outbox a"
    by (simp_all add: prev_peer_def next_peer_def ask_forget_selected_def split: option.split)
  moreover have "sends a code (start_add_device a)" "sends a code (stop_or_cancel a)"
    using assms Devices by (auto simp: sends_def start_add_device_def stop_or_cancel_def app_ops daemon_was_def split: daemon_state.split)
  ultimately show ?thesis using Devices by (auto simp: tab_input_def sends_def)
next
  case Settings
  have "outbox (prev_setting a) = outbox a" "outbox (next_setting a) = outbox a"
    by (simp_all add: prev_setting_def next_setting_def)
  then show ?thesis using Settings settings_enter_sends [OF assms Settings] by (auto simp: tab_input_def sends_def)
qed (simp add: tab_input_def sends_def)

lemma handle_input_sends: "sends a code (handle_input (KeyPress control code) a)"
proof (cases "active_popup a")
  case NoPopup
  have tabs: "tab_input KeyTab b = b" "tab_input KeyBackTab b = b" for b
    by (simp_all add: tab_input_def is_key_def split: tab.split)
  have q: "outbox (tab_input code (a\<lparr>should_quit := True\<rparr>)) = outbox a" if "is_key ''q'' code"
    using that by (simp add: tab_input_def is_key_def ascii_def split: tab.split)
  show ?thesis using NoPopup tab_input_sends [OF NoPopup, of code] q
    by (auto simp: handle_input_def tabs sends_def next_tab_def prev_tab_def)
next
  case EditSetting
  then show ?thesis
    by (auto simp: handle_input_def sends_def handle_edit_setting_input_def send_password_from_input_def app_ops edit_input_outbox
        daemon_was_def word_gt_0 split: key_code.split option.split daemon_state.splits)
next
  case (JoinPopup step)
  then show ?thesis
    by (cases step) (auto simp: handle_input_def sends_def handle_join_input_def app_ops edit_input_outbox split: key_code.split)
next
  case ConfirmReset
  then show ?thesis
    by (auto simp: handle_input_def sends_def handle_confirm_reset_input_def app_ops edit_input_outbox split: key_code.split)
next
  case UnlockPopup
  then show ?thesis
    by (auto simp: handle_input_def sends_def handle_unlock_input_def app_ops edit_input_outbox split: key_code.split)
qed (auto simp: handle_input_def sends_def handle_pairing_input_def handle_security_warning_input_def handle_confirm_change_input_def
    handle_confirm_forget_input_def app_ops)

lemma outbox_keeps:
  "outbox (push_log m a) = outbox a" "outbox (log_if c m a) = outbox a" "outbox (log_result r k f a) = outbox a" "outbox (ask_unlock s a) = outbox a"
  "outbox (show_pairing pr a) = outbox a" "outbox (clamp_peer_selection a) = outbox a" "outbox (log_peer_changes ps a) = outbox a"
  "outbox (show_status s a) = outbox a" "outbox (forget_daemon st a) = outbox a"
proof -
  show log: "outbox (push_log m a) = outbox a" for m a by (simp add: push_log_def)
  then show "outbox (log_if c m a) = outbox a" "outbox (log_result r k f a) = outbox a" by (simp_all add: log_if_def log_result_def split: sum.split option.split)
  show "outbox (ask_unlock s a) = outbox a" by (simp add: ask_unlock_def clear_input_def Let_def)
  show pair: "outbox (show_pairing pr a) = outbox a" for pr a by (simp add: show_pairing_def log split: popup.split option.split)
  show "outbox (clamp_peer_selection a) = outbox a" by (simp add: clamp_peer_selection_def)
  have "outbox (log_peer_change before p b) = outbox b" for before p b by (simp add: log_peer_change_def log split: peer_state.split)
  then have "outbox (fold (log_peer_change before) ps b) = outbox b" for before ps b by (induction ps arbitrary: b) simp_all
  then show "outbox (log_peer_changes ps a) = outbox a" by (simp add: log_peer_changes_def)
  show "outbox (show_status s a) = outbox a" by (simp add: show_status_def set_key_flags_def setting_mut_def Let_def)
  show "outbox (forget_daemon st a) = outbox a" by (simp add: forget_daemon_def pair clamp_peer_selection_def set_key_flags_def setting_mut_def)
qed

lemma link_event_sends: "outbox (handle_link_event ev a) = outbox a \<or> outbox (handle_link_event ev a) = outbox a @ [CmdRefresh]"
proof (cases ev)
  case (Refreshed r)
  then show ?thesis by (cases r) (auto simp: handle_link_event_def on_refreshed_def on_refresh_failed_def outbox_keeps Let_def)
qed (simp_all add: handle_link_event_def request_refresh_def push_command_def outbox_keeps split: sum.split)

text \<open>
  C13. Nothing happens without the user: a key press sends at most one command, and every command that can
  hurt is sent only from the popup that asks about it, with the key that says yes: a reset only
  with the word typed out, forgetting exactly the device that is shown, a pairing answer with exactly the
  number and the code that are shown, automatic login only after its warning, a password exactly as
  it stands in the input and never while the keys are locked. What the daemon reports makes the app
  send nothing but a refresh.
\<close>
theorem commands_confirmed:
  "sends a code (handle_input (KeyPress control code) a) \<and>
    (outbox (handle_link_event ev a) = outbox a \<or> outbox (handle_link_event ev a) = outbox a @ [CmdRefresh])"
  using handle_input_sends link_event_sends by simp

section \<open>Popups stay\<close>

lemma typing_keeps:
  assumes "typing (active_popup a)"
  shows "show_pairing pr a = a" "active_popup a \<noteq> UnlockPopup \<Longrightarrow> ask_unlock s a = a \<or> ask_unlock s a = a\<lparr>unlock_asked := False\<rparr>"
  using assms by (auto simp: typing_def show_pairing_def ask_unlock_def Let_def split: popup.splits option.split)

text \<open>The popup and what was typed into it.\<close>

definition typed :: "app \<Rightarrow> popup \<times> uchar list \<times> bytes" where
  "typed a = (active_popup a, input_buf a, join_auth a)"

lemma typed_update [simp]:
  "typed (a\<lparr>refresh_in_flight := b\<rparr>) = typed a" "typed (a\<lparr>unlock_asked := b\<rparr>) = typed a" "typed (a\<lparr>daemon_heard := st\<rparr>) = typed a"
  "typed (a\<lparr>shown_peers := ps\<rparr>) = typed a"
  by (simp_all add: typed_def)

lemma typed_keeps [simp]:
  "typed (push_log m a) = typed a" "typed (log_if c m a) = typed a" "typed (log_result r k f a) = typed a" "typed (request_refresh a) = typed a"
  "typed (clamp_peer_selection a) = typed a" "typed (show_status s a) = typed a" "typed (set_key_flags x y a) = typed a"
  "typed (log_peer_changes ps a) = typed a"
proof -
  show log: "typed (push_log m a) = typed a" for m a by (simp add: push_log_def typed_def)
  then show "typed (log_if c m a) = typed a" "typed (log_result r k f a) = typed a"
    by (simp_all add: log_if_def log_result_def split: sum.split option.split)
  show "typed (request_refresh a) = typed a" "typed (clamp_peer_selection a) = typed a" "typed (show_status s a) = typed a" "typed (set_key_flags x y a) = typed a"
    by (simp_all add: typed_def request_refresh_def push_command_def clamp_peer_selection_def show_status_def set_key_flags_def setting_mut_def Let_def)
  have "typed (log_peer_change before p b) = typed b" for before p b by (simp add: log_peer_change_def log split: peer_state.split)
  then have "typed (fold (log_peer_change before) ps b) = typed b" for before ps b by (induction ps arbitrary: b) simp_all
  then show "typed (log_peer_changes ps a) = typed a" by (simp add: log_peer_changes_def)
qed

lemma typed_popup: "typed b = typed a \<Longrightarrow> active_popup b = active_popup a"
  by (simp add: typed_def)

lemma forget_daemon_typed:
  assumes "typing (active_popup a)"
  shows "typed (forget_daemon st a) = typed a"
proof -
  let ?b = "(clamp_peer_selection ((set_key_flags False False a)\<lparr>shown_peers := []\<rparr>))\<lparr>daemon_heard := st\<rparr>"
  have b: "typed ?b = typed a" by simp
  with assms have "typing (active_popup ?b)" using typed_popup by metis
  with b show ?thesis using typing_keeps(1) by (metis forget_daemon_def)
qed

lemma refreshed_shape:
  obtains b where "typed b = typed a"
    "handle_link_event (Refreshed (Inr (s, peers, pairing))) a = (ask_unlock s (show_pairing pairing b))\<lparr>daemon_heard := Up s\<rparr>"
proof (rule that)
  show "handle_link_event (Refreshed (Inr (s, peers, pairing))) a = (ask_unlock s (show_pairing pairing
    (clamp_peer_selection ((log_peer_changes peers (show_status s
      (log_if (locked s \<and> \<not> daemon_was locked (a\<lparr>refresh_in_flight := False\<rparr>)) LogNowLocked
      (log_if (daemon_was joining (a\<lparr>refresh_in_flight := False\<rparr>) \<and> \<not> joining s) (if saved s then LogJoined else LogJoinEnded)
      (log_if (other_group_nearby s \<and> \<not> daemon_was other_group_nearby (a\<lparr>refresh_in_flight := False\<rparr>)) LogOtherGroup
      (log_if (\<not> daemon_was (\<lambda>_. True) (a\<lparr>refresh_in_flight := False\<rparr>)) LogConnected (a\<lparr>refresh_in_flight := False\<rparr>)))))))
        \<lparr>shown_peers := peers\<rparr>))))\<lparr>daemon_heard := Up s\<rparr>"
    by (simp add: handle_link_event_def on_refreshed_def Let_def)
qed simp

lemma refreshed_prompt:
  assumes "active_popup a = NoPopup"
  shows "active_popup (handle_link_event (Refreshed (Inr (s, ps, Some p))) a) = PairingPopup p"
proof (rule refreshed_shape [of a s ps "Some p"])
  fix b assume b: "typed b = typed a"
    "handle_link_event (Refreshed (Inr (s, ps, Some p))) a = (ask_unlock s (show_pairing (Some p) b))\<lparr>daemon_heard := Up s\<rparr>"
  have "active_popup b = NoPopup" using typed_popup [OF b(1)] assms by simp
  then show ?thesis unfolding b(2) by (simp add: show_pairing_def ask_unlock_def push_log_def Let_def)
qed

lemma refreshed_typed:
  assumes "typing (active_popup a)" "active_popup a \<noteq> UnlockPopup"
  shows "typed (handle_link_event (Refreshed (Inr (s, peers, pairing))) a) = typed a"
proof (rule refreshed_shape [of a s peers pairing])
  fix b assume b: "typed b = typed a"
    "handle_link_event (Refreshed (Inr (s, peers, pairing))) a = (ask_unlock s (show_pairing pairing b))\<lparr>daemon_heard := Up s\<rparr>"
  have "typing (active_popup b)" "active_popup b \<noteq> UnlockPopup" using assms typed_popup [OF b(1)] by simp_all
  from typing_keeps(1) [OF this(1)] typing_keeps(2) [OF this, of s] b show ?thesis by auto
qed

text \<open>
  C18. A half-typed text is left alone: whatever the daemon reports, a popup the user is typing into stays
  open with its text, with one exception, the question for the data password, which closes (and is
  wiped) exactly when the daemon reports that its keys are not locked any more.
\<close>
theorem half_typed_untouched:
  assumes "typing (active_popup a)"
  shows "if active_popup a = UnlockPopup \<and> (\<exists>s peers pairing. ev = Refreshed (Inr (s, peers, pairing)) \<and> \<not> locked s)
    then active_popup (handle_link_event ev a) = NoPopup \<and> input_buf (handle_link_event ev a) = []
    else typed (handle_link_event ev a) = typed a"
proof (cases "\<exists>s peers pairing. ev = Refreshed (Inr (s, peers, pairing))")
  case True
  then obtain s peers pairing where ev: "ev = Refreshed (Inr (s, peers, pairing))" by blast
  from refreshed_shape [of a s peers pairing] obtain b where
    b: "typed b = typed a" "handle_link_event ev a = (ask_unlock s (show_pairing pairing b))\<lparr>daemon_heard := Up s\<rparr>"
    unfolding ev by blast
  have "typing (active_popup b)" using assms typed_popup [OF b(1)] by simp
  note k = typing_keeps [OF this]
  show ?thesis
  proof (cases "active_popup a = UnlockPopup")
    case True
    with b k(1) show ?thesis by (auto simp: ev ask_unlock_def clear_input_def typed_def Let_def)
  next
    case False
    then show ?thesis using refreshed_typed [OF assms] by (simp add: ev)
  qed
next
  case False
  have "typing (active_popup (log_if c m (a\<lparr>refresh_in_flight := False\<rparr>)\<lparr>unlock_asked := False\<rparr>))" "typing (active_popup (log_if c m a))" for c m
    using assms by (simp_all add: log_if_def push_log_def)
  then have "typed (handle_link_event ev a) = typed a"
    using False
    by (cases ev) (auto simp: handle_link_event_def on_refresh_failed_def forget_daemon_typed Let_def split: sum.split)
  with False show ?thesis by auto
qed

section \<open>A change that is not asked about\<close>

text \<open>Typing characters one after the other.\<close>

definition type_text :: "uchar list \<Rightarrow> app \<Rightarrow> app" where
  "type_text cs a = fold (\<lambda>c. handle_input (KeyPress False (KeyChar c))) cs a"

lemma type_text_edit:
  assumes "active_popup a = EditSetting" "input_ok (input_buf a @ cs)"
  shows "type_text cs a = a\<lparr>input_buf := input_buf a @ cs\<rparr>"
  using assms
proof (induction cs arbitrary: a)
  case Nil
  then show ?case by (simp add: type_text_def)
next
  case (Cons c cs)
  have "handle_input (KeyPress False (KeyChar c)) a = a\<lparr>input_buf := input_buf a @ [c]\<rparr>"
    using Cons.prems by (simp add: handle_input_def handle_edit_setting_input_def edit_input_def push_input_def input_len_def input_ok_def)
  with Cons.IH [of "a\<lparr>input_buf := input_buf a @ [c]\<rparr>"] Cons.prems show ?case by (simp add: type_text_def)
qed

lemma refreshed_fields:
  assumes "settings_ok (settings a)"
  shows "settings (handle_link_event (Refreshed (Inr (s, peers, pairing))) a) = status_settings s"
    "daemon_heard (handle_link_event (Refreshed (Inr (s, peers, pairing))) a) = Up s"
    "settings_selected (handle_link_event (Refreshed (Inr (s, peers, pairing))) a) = settings_selected a"
    "shown_peers (handle_link_event (Refreshed (Inr (s, peers, pairing))) a) = peers"
    "outbox (handle_link_event (Refreshed (Inr (s, peers, pairing))) a) = outbox a"
proof -
  have keep: "f (ask_unlock s b) = f b \<and> f (show_pairing pr b) = f b" "f (clamp_peer_selection b) = f b"
    if "f = settings \<or> f = (\<lambda>a. [])" for f :: "app \<Rightarrow> setting list" and b pr
    using that by (auto simp: ask_unlock_def clear_input_def show_pairing_def clamp_peer_selection_def push_log_def Let_def split: popup.split option.split)
  have sel: "settings_selected (ask_unlock s b) = settings_selected b" "settings_selected (show_pairing pr b) = settings_selected b"
    "settings_selected (clamp_peer_selection b) = settings_selected b" "shown_peers (ask_unlock s b) = shown_peers b"
    "shown_peers (show_pairing pr b) = shown_peers b" "shown_peers (clamp_peer_selection b) = shown_peers b" for b pr
    by (auto simp: ask_unlock_def clear_input_def show_pairing_def clamp_peer_selection_def push_log_def Let_def split: popup.split option.split)
  have log: "settings (log_if c m b) = settings b \<and> settings_selected (log_if c m b) = settings_selected b" for c m b
    by (simp add: log_if_def push_log_def)
  have "settings (log_peer_change before p b) = settings b \<and> settings_selected (log_peer_change before p b) = settings_selected b" for before p b
    by (simp add: log_peer_change_def push_log_def split: peer_state.split)
  then have "settings (fold (log_peer_change before) ps b) = settings b \<and> settings_selected (fold (log_peer_change before) ps b) = settings_selected b" for before ps b
    by (induction ps arbitrary: b) simp_all
  then have peers: "settings (log_peer_changes ps b) = settings b" "settings_selected (log_peer_changes ps b) = settings_selected b" for ps b
    by (simp_all add: log_peer_changes_def)
  have "show_status s b = b\<lparr>settings := status_settings s\<rparr>" if "settings b = settings a" for b
    using show_status_settings [of b s] assms that by simp
  then show "settings (handle_link_event (Refreshed (Inr (s, peers, pairing))) a) = status_settings s"
    "settings_selected (handle_link_event (Refreshed (Inr (s, peers, pairing))) a) = settings_selected a"
    using keep [of settings] by (simp_all add: handle_link_event_def on_refreshed_def Let_def log peers sel)
  show "daemon_heard (handle_link_event (Refreshed (Inr (s, peers, pairing))) a) = Up s"
    "shown_peers (handle_link_event (Refreshed (Inr (s, peers, pairing))) a) = peers"
    "outbox (handle_link_event (Refreshed (Inr (s, peers, pairing))) a) = outbox a"
    by (simp_all add: handle_link_event_def on_refreshed_def Let_def sel outbox_keeps)
qed

text \<open>
  C40. A password that is set can be changed without the question: if the app does not know yet that the
  auth password is set (the daemon was not reached so far, or is down), Enter opens the
  input at once; when the daemon reports meanwhile that the password is set, the app shows it, but the next
  Enter sends the new password without asking.
\<close>
theorem unconfirmed_password_change:
  assumes "tui_run a" "active_popup a = NoPopup" "active_tab a = Settings" "settings_selected a = 0" "st_kind (settings a ! 0) = Secret False"
    and "MIN_NEW_PASSWORD_LEN \<le> length cs" "input_ok cs" "\<not> locked s" "auth_key_set s"
  shows "let a1 = type_text cs (handle_input (KeyPress False KeyEnter) a);
      a2 = handle_link_event (Refreshed (Inr (s, peers, pairing))) a1;
      a3 = handle_input (KeyPress False KeyEnter) a2
    in st_kind (settings a2 ! 0) = Secret True \<and> active_popup a2 = EditSetting \<and> outbox a3 = outbox a @ [CmdSetPassword AuthKey (concat cs)]"
proof -
  have inv: "app_inv a" using tui_run_inv [OF assms(1)] .
  then have ok: "settings_ok (settings a)" by (simp add: app_inv_def)
  have at: "setting_at a 0 = Some (settings a ! 0)" "st_label (settings a ! 0) = AUTH_KEY_LABEL"
    using ok by (auto simp: settings_ok_def settings_of_def setting_at_def)
  have enter: "handle_input (KeyPress False KeyEnter) a = clear_input a\<lparr>active_popup := EditSetting\<rparr>"
    using assms(2-5) at by (simp add: handle_input_def tab_input_def is_key_def handle_settings_enter_def setting_tests Let_def)
  define a1 where "a1 = type_text cs (handle_input (KeyPress False KeyEnter) a)"
  have a1: "a1 = a\<lparr>input_buf := cs, active_popup := EditSetting\<rparr>"
    using type_text_edit [of "clear_input a\<lparr>active_popup := EditSetting\<rparr>" cs] assms(7) by (simp add: a1_def enter clear_input_def)
  define a2 where "a2 = handle_link_event (Refreshed (Inr (s, peers, pairing))) a1"
  note f = refreshed_fields [of a1 s peers pairing, folded a2_def]
  have f': "settings a2 = status_settings s" "daemon_heard a2 = Up s" "settings_selected a2 = 0" "outbox a2 = outbox a"
    using f ok assms(4) by (simp_all add: a1)
  have "typed a2 = typed a1" unfolding a2_def by (rule refreshed_typed) (simp_all add: a1 typing_def)
  then have t: "active_popup a2 = EditSetting" "input_buf a2 = cs" by (simp_all add: typed_def a1)
  have at2: "setting_at a2 0 = Some (settings a2 ! 0)" "st_label (settings a2 ! 0) = AUTH_KEY_LABEL" "st_kind (settings a2 ! 0) = Secret True"
    using assms(8,9) by (simp_all add: setting_at_def f'(1) status_settings_def settings_of_def)
  have "cs \<noteq> []" using assms(6) by (auto simp: MIN_NEW_PASSWORD_LEN_def)
  then have "outbox (handle_input (KeyPress False KeyEnter) a2) = outbox a @ [CmdSetPassword AuthKey (concat cs)]"
    using t f' at2 assms(6,8)
    by (simp add: handle_input_def is_key_def handle_edit_setting_input_def send_password_from_input_def selected_key_kind_def app_ops)
  then show ?thesis using t(1) at2(3) by (simp add: Let_def a1_def [symmetric] a2_def [symmetric])
qed

section \<open>Concrete apps\<close>

lemma demo_tui_run: "tui_run app_new"
  using tui_run.started [of True True True] by (simp add: run_begin_def log_if_def)

definition demo_status :: status where
  "demo_status = \<lparr>auth_key_set = True, data_key_set = True, network_running = False, trusted_peers_count = 0, locked = False, saved = True,
     auto_login = False, unlock_wait_secs = 0, sync_enabled = False, adding_device = False, pending_pairings = 0, joining = False,
     other_group_nearby = False, clipboard_enabled = False, clipboard_unavailable = False\<rparr>"

theorem typed_text_wiped_witness: "input_buf app_new = [] \<and> join_auth app_new = [] \<and> settings_selected app_new < length (settings app_new)"
  using typed_text_wiped [OF demo_tui_run] by (simp add: app_new_def typing_def)

theorem half_typed_untouched_witness:
  "typed (handle_link_event (Refreshed (Inr (demo_status, [], None))) (app_new\<lparr>active_popup := ConfirmReset, input_buf := [[82]]\<rparr>)) =
   (ConfirmReset, [[82]], [])"
  using half_typed_untouched [of "app_new\<lparr>active_popup := ConfirmReset, input_buf := [[82]]\<rparr>" "Refreshed (Inr (demo_status, [], None))"]
  by (simp add: typing_def typed_def app_new_def)

theorem unconfirmed_password_change_witness:
  "let a1 = type_text (replicate 12 [120]) (handle_input (KeyPress False KeyEnter) (handle_input (KeyPress False KeyTab) app_new));
      a2 = handle_link_event (Refreshed (Inr (demo_status, [], None))) a1;
      a3 = handle_input (KeyPress False KeyEnter) a2
    in st_kind (settings a2 ! 0) = Secret True \<and> outbox a3 = [CmdSetPassword AuthKey (replicate 12 120)]"
proof -
  let ?a = "handle_input (KeyPress False KeyTab) app_new"
  have a: "?a = app_new\<lparr>active_tab := Settings\<rparr>"
    by (simp add: handle_input_def is_key_def app_new_def next_tab_def tab_input_def)
  have r: "tui_run ?a" by (rule tui_run.key [OF demo_tui_run]) (simp add: key_ok_def)
  have "concat (replicate n [x]) = replicate n x" for n :: nat and x :: u8 by (induction n) simp_all
  with unconfirmed_password_change [OF r, of "replicate 12 [120]" demo_status "[]" None] show ?thesis
    unfolding Let_def a by (simp add: app_new_def MIN_NEW_PASSWORD_LEN_def input_ok_def INPUT_CAPACITY_def demo_status_def)
qed

end
