(* ===== verification/Tui_Screen.thy ===== *)
theory Tui_Screen
  imports Tui_Props
begin

text \<open>
  What the screen gives away and what the user can rely on: passwords are not on it, a popup is
  always inside the terminal, and two different pairing codes never look the same.
\<close>

section \<open>Typed text\<close>


lemma edit_secret:
  assumes "app_inv a" "active_popup a = EditSetting"
  obtains s where "setting_at a (settings_selected a) = Some s" "is_secret (st_kind s)"
proof -
  have "settings_selected a < 2" "settings_ok (settings a)" using assms by (auto simp: app_inv_def popup_inv_def)
  then have "\<exists>s. setting_at a (settings_selected a) = Some s \<and> is_secret (st_kind s)"
    by (auto simp: setting_at_def settings_ok_def settings_of_def secret_kind_def is_secret_def less_2_cases_iff)
  then show ?thesis using that by blast
qed

lemma render_content_input:
  "render_content ly area (a\<lparr>input_buf := cs, join_auth := auth, outbox := out\<rparr>) =
    apsnd (\<lambda>b. b\<lparr>input_buf := cs, join_auth := auth, outbox := out\<rparr>) (render_content ly area a)"
proof -
  have "selected_peer (a\<lparr>input_buf := cs, join_auth := auth, outbox := out\<rparr>) = selected_peer a"
    by (simp add: selected_peer_def split: option.split)
  then show ?thesis
    by (auto simp: render_content_def render_devices_def render_settings_def render_logs_def scroll_logs_def Let_def case_prod_beta split: tab.split)
qed

lemma render_popup_input:
  assumes "app_inv a" "active_popup a \<noteq> ConfirmReset" "length cs = length (input_buf a)"
  shows "render_popup area (a\<lparr>input_buf := cs, join_auth := auth, outbox := out\<rparr>) = render_popup area a"
proof (cases "active_popup a")
  case EditSetting
  then obtain s where "setting_at a (settings_selected a) = Some s" "is_secret (st_kind s)" using edit_secret [OF assms(1)] by blast
  then show ?thesis using assms(3) EditSetting by (simp add: render_popup_def render_edit_setting_popup_def setting_at_def stars_def split: if_splits)
qed (use assms in \<open>simp_all add: render_popup_def render_security_warning_popup_def setting_at_def render_join_popup_def render_unlock_popup_def stars_def\<close>)

text \<open>
  C14. Passwords are never on the screen: outside the question before a reset, whose word is no secret,
  the whole frame and the place of the cursor are the same for any other text of as many characters
  in the input, and for any other password kept for a join or waiting to be sent.
\<close>
theorem typed_never_shown:
  assumes "tui_run a" "active_popup a \<noteq> ConfirmReset" "length cs = length (input_buf a)"
  shows "fst (ui ly area (a\<lparr>input_buf := cs, join_auth := auth, outbox := out\<rparr>)) = fst (ui ly area a) \<and>
    fst (snd (ui ly area (a\<lparr>input_buf := cs, join_auth := auth, outbox := out\<rparr>))) = fst (snd (ui ly area a))"
proof -
  let ?f = "\<lambda>b. b\<lparr>input_buf := cs, join_auth := auth, outbox := out\<rparr>"
  obtain header content statusbar where r: "ly_rows ly area = (header, content, statusbar)" by (metis prod_cases3)
  obtain drawn b where c: "render_content ly content a = (drawn, b)" by fastforce
  have b: "b = snd (snd (ui ly area a))" by (simp add: ui_def r c case_prod_beta)
  have p: "render_popup area (?f b) = render_popup area b"
    using render_popup_input [of b cs] ui_fields [of ly area a] tui_run_inv [OF assms(1)] assms(2,3) unfolding b [symmetric] by simp
  have "render_header header (?f a) = render_header header a" "render_statusbar ly statusbar (?f b) = render_statusbar ly statusbar b"
    by (simp_all add: render_header_def render_statusbar_def)
  then show ?thesis using render_content_input [where ly = ly and area = content and a = a and cs = cs and auth = auth and out = out] c p by (simp add: ui_def r case_prod_beta)
qed

section \<open>Inside the terminal\<close>

definition inside :: "rect \<Rightarrow> rect \<Rightarrow> bool" where
  "inside r area = (unat (rx area) \<le> unat (rx r) \<and> unat (rx r) + unat (rwidth r) \<le> unat (rx area) + unat (rwidth area) \<and>
     unat (ry area) \<le> unat (ry r) \<and> unat (ry r) + unat (rheight r) \<le> unat (ry area) + unat (rheight area))"

lemma centered_axis:
  fixes x :: u16
  assumes "unat x + unat width < 65536" "w \<le> width"
  shows "unat x \<le> unat (saturating_add x (saturating_sub width w div 2)) \<and>
    unat (saturating_add x (saturating_sub width w div 2)) + unat w \<le> unat x + unat width"
proof -
  have "unat (saturating_sub width w div 2) = (unat width - unat w) div 2" by (simp add: unat_saturating_sub unat_div)
  moreover have "unat w \<le> unat width" using assms(2) by (simp add: word_le_nat_alt)
  ultimately show ?thesis using assms(1) by (simp add: unat_saturating_add)
qed

lemma centered_inside:
  assumes "unat (rx area) + unat (rwidth area) < 65536" "unat (ry area) + unat (rheight area) < 65536" "w \<le> rwidth area" "h \<le> rheight area"
  shows "inside (centered_rect area w h) area"
  using centered_axis [OF assms(1,3)] centered_axis [OF assms(2,4)] by (simp add: inside_def centered_rect_def)

lemma popup_rect_inside:
  assumes "unat (rx area) + unat (rwidth area) < 65536" "unat (ry area) + unat (rheight area) < 65536"
  shows "inside (popup_rect area w h) area"
  unfolding popup_rect_def by (rule centered_inside [OF assms]) simp_all

text \<open>
  A popup is always drawn inside the terminal, however small that is: no coordinate overflows or
  is clamped away from its place.
\<close>
theorem popups_inside:
  assumes "unat (rx area) + unat (rwidth area) < 65536" "unat (ry area) + unat (rheight area) < 65536"
  shows "list_all (\<lambda>(r, w). inside r area) (fst (render_popup area a))"
proof (cases "active_popup a")
  case EditSetting
  then show ?thesis
    by (auto simp: render_popup_def render_edit_setting_popup_def Let_def intro!: centered_inside [OF assms] split: option.split)
qed (auto simp: render_popup_def render_pairing_popup_def render_security_warning_popup_def render_confirm_change_popup_def render_join_popup_def
    render_confirm_forget_popup_def render_confirm_reset_popup_def render_unlock_popup_def popup_rect_inside [OF assms] Let_def
    split: option.split prod.split)

section \<open>The pairing code\<close>

lemma symbol_name_short: "symbol i = Some (emoji, name) \<Longrightarrow> length name \<le> 12"
proof -
  assume "symbol i = Some (emoji, name)"
  then have "(emoji, name) \<in> set SYMBOLS" by (metis option.distinct(1) option.inject nth_mem symbol_def)
  moreover have "list_all (\<lambda>(emoji, name). length name \<le> 12) SYMBOLS" by (simp add: SYMBOLS_def)
  ultimately show "length name \<le> 12" by (auto simp: list_all_iff)
qed

definition cell :: "u8 \<Rightarrow> glyphs" where
  "cell index = pad_right 14 (case symbol index of Some (emoji, name) \<Rightarrow> emoji # 32 # lit name | None \<Rightarrow> lit ''?'')"

lemma cell_props:
  assumes "unat i < PAIRING_SYMBOLS"
  shows "length (cell i) = 14" "map_option fst (symbol i) = Some (hd (cell i))"
proof -
  obtain emoji name where s: "symbol i = Some (emoji, name)" using symbol_Some_iff [of i] assms by (metis option.exhaust surj_pair)
  then show "length (cell i) = 14" "map_option fst (symbol i) = Some (hd (cell i))"
    using symbol_name_short [OF s] by (simp_all add: cell_def pad_right_def lit_def)
qed

lemma cells_inj:
  assumes "concat (map cell xs) = concat (map cell ys)" "code_is_valid xs" "code_is_valid ys" "length xs = length ys"
  shows "xs = ys"
  using assms(4,1-3)
proof (induction xs ys rule: list_induct2)
  case (Cons x xs y ys)
  have v: "unat x < PAIRING_SYMBOLS" "unat y < PAIRING_SYMBOLS" using Cons.prems by (simp_all add: code_is_valid_def)
  have e: "cell x = cell y" "concat (map cell xs) = concat (map cell ys)"
    using Cons.prems(1) cell_props(1) [OF v(1)] cell_props(1) [OF v(2)] by simp_all
  have "x = y" by (rule symbol_inj [OF v]) (simp add: cell_props(2) [OF v(1)] cell_props(2) [OF v(2)] e(1))
  with Cons e(2) show ?case by (simp add: code_is_valid_def)
qed simp

text \<open>
  C15. Two pairing codes never look the same: for the prompts the app can show, the popup is the same on
  both devices exactly if the name and all eight symbols are, so users who see the same code
  compared the whole code the daemons derived.
\<close>
theorem shown_code_exact:
  assumes "tui_run a" "tui_run b" "active_popup a = PairingPopup p" "active_popup b = PairingPopup q"
  shows "render_popup area a = render_popup area b \<longleftrightarrow> glyphs_of (prompt_name p) = glyphs_of (prompt_name q) \<and> prompt_code p = prompt_code q"
proof -
  have v: "length (prompt_code p) = 8" "code_is_valid (prompt_code p)" "length (prompt_code q) = 8" "code_is_valid (prompt_code q)"
    using tui_run_inv [OF assms(1)] tui_run_inv [OF assms(2)] assms(3,4) by (simp_all add: app_inv_def popup_inv_def PAIRING_CODE_LEN_def)
  have row: "concat (map (pad_right 14) (take n (pairing_code_cells r))) = concat (map cell (take n (prompt_code r)))"
    "concat (map (pad_right 14) (drop n (pairing_code_cells r))) = concat (map cell (drop n (prompt_code r)))" for n r
    by (simp_all add: pairing_code_cells_def take_map drop_map cell_def [abs_def] o_def)
  have sub: "code_is_valid (take n xs)" "code_is_valid (drop n xs)" if "code_is_valid xs" for n xs
    using that by (auto simp: code_is_valid_def list_all_iff dest: in_set_takeD in_set_dropD)
  have "prompt_code p = prompt_code q"
    if "concat (map cell (take 4 (prompt_code p))) = concat (map cell (take 4 (prompt_code q)))"
      "concat (map cell (drop 4 (prompt_code p))) = concat (map cell (drop 4 (prompt_code q)))"
    using cells_inj [OF that(1)] cells_inj [OF that(2)] v sub by (metis append_take_drop_id length_drop length_take)
  then show ?thesis unfolding render_popup_def assms(3,4) by (auto simp: render_pairing_popup_def row Let_def)
qed

section \<open>Examples\<close>

definition demo_area :: rect where
  "demo_area = \<lparr>rx = 0, ry = 0, rwidth = 80, rheight = 24\<rparr>"

definition demo_layouts :: layouts where
  "demo_layouts = \<lparr>ly_rows = (\<lambda>r. (r, r, r)), ly_devices = (\<lambda>r. (r, r)), ly_settings = id, ly_status = (\<lambda>r. (r, r))\<rparr>"

text \<open>Tab, Enter, a character: the new auth password is being typed.\<close>

definition demo_typing :: app where
  "demo_typing = foldl (\<lambda>a code. handle_input (KeyPress False code) a) app_new [KeyTab, KeyEnter, KeyChar [120]]"

lemma demo_typing_run: "tui_run demo_typing"
  unfolding demo_typing_def foldl.simps by (intro tui_run.key demo_tui_run) (simp_all add: key_ok_def)

lemma demo_typing_fields: "active_popup demo_typing = EditSetting" "input_buf demo_typing = [[120]]"
  by (simp_all add: demo_typing_def app_new_def handle_input_def tab_input_def next_tab_def is_key_def ascii_def handle_edit_setting_input_def edit_input_def
      push_input_def input_len_def INPUT_CAPACITY_def handle_settings_enter_def setting_at_def has_label_def selected_key_kind_def unlock_wait_def app_ops Let_def labels)

theorem typed_never_shown_witness:
  "fst (ui demo_layouts demo_area (demo_typing\<lparr>input_buf := [[121]], join_auth := [], outbox := []\<rparr>)) = fst (ui demo_layouts demo_area demo_typing)"
  using typed_never_shown [OF demo_typing_run, of "[[121]]"] by (simp add: demo_typing_fields)

theorem popups_inside_witness: "list_all (\<lambda>(r, w). inside r demo_area) (fst (render_popup demo_area demo_typing))"
  using popups_inside [of demo_area demo_typing] by (simp add: demo_area_def)

definition demo_prompted :: "bytes \<Rightarrow> app" where
  "demo_prompted code = snd (snd (pump_link 0 None 1
     [Refreshed (Inr (demo_status, [], Some \<lparr>prompt_id = 1, prompt_name = [65], prompt_code = code\<rparr>))] app_new))"

lemma demo_prompted_run: "length code = PAIRING_CODE_LEN \<Longrightarrow> code_is_valid code \<Longrightarrow> tui_run (demo_prompted code)"
  unfolding demo_prompted_def by (rule tui_run.pump [OF demo_tui_run]) (simp add: link_ok_def)

lemma demo_prompted_popup: "active_popup (demo_prompted code) = PairingPopup \<lparr>prompt_id = 1, prompt_name = [65], prompt_code = code\<rparr>"
proof -
  have "demo_prompted code = handle_link_event (Refreshed (Inr (demo_status, [], Some \<lparr>prompt_id = 1, prompt_name = [65], prompt_code = code\<rparr>)))
    (app_new\<lparr>refresh_in_flight := True, outbox := []\<rparr>)"
    by (simp add: demo_prompted_def pump_link_def request_refresh_def push_command_def Let_def app_new_def)
  then show ?thesis by (simp add: refreshed_prompt app_new_def)
qed

theorem shown_code_exact_witness:
  "render_popup demo_area (demo_prompted [0, 1, 2, 3, 4, 5, 6, 7]) \<noteq> render_popup demo_area (demo_prompted [0, 1, 2, 3, 4, 5, 6, 8])"
proof -
  have r: "tui_run (demo_prompted [0, 1, 2, 3, 4, 5, 6, 7])" "tui_run (demo_prompted [0, 1, 2, 3, 4, 5, 6, 8])"
    by (rule demo_prompted_run; simp add: PAIRING_CODE_LEN_def code_is_valid_def PAIRING_SYMBOLS_def)+
  show ?thesis using shown_code_exact [OF r demo_prompted_popup demo_prompted_popup, of demo_area] by simp
qed

end
