(* ===== verification/Tui_Link.thy ===== *)
theory Tui_Link
  imports Tui_Props Daemon_Answers
begin

text \<open>
  The worker between the app and the daemon (\<open>cesa_conn_tui/src/daemon_link.rs\<close>): a command becomes requests
  to the daemon, their outcome one event. The exchange of one request is an argument with the state
  of the other end threaded through; it is instantiated with the client of the IPC against the
  server of the daemon, which puts the UI and the daemon together.
\<close>

section \<open>The worker\<close>

type_synonym 's exchange = "request \<Rightarrow> 's \<Rightarrow> (ipc_error + response) \<times> 's"

definition send_done :: "'s exchange \<Rightarrow> request \<Rightarrow> 's \<Rightarrow> (ipc_error + unit) \<times> 's" where
  "send_done send request s =
     (case send request s of
        (Inr Done, s) \<Rightarrow> (Inr (), s)
      | (Inr _, s) \<Rightarrow> (Inl Malformed, s)
      | (Inl e, s) \<Rightarrow> (Inl e, s))"

text \<open>\<open>refresh\<close>: status, devices, and the waiting pairing if there is one.\<close>

definition link_refresh :: "'s exchange \<Rightarrow> 's \<Rightarrow> (ipc_error + refresh) \<times> 's" where
  "link_refresh send s =
     (case send Request_Status s of
        (Inl e, s) \<Rightarrow> (Inl e, s)
      | (Inr (Response_Status status), s) \<Rightarrow>
          (case send ListPeers s of
             (Inl e, s) \<Rightarrow> (Inl e, s)
           | (Inr (Peers peers), s) \<Rightarrow>
               if 0 < pending_pairings status then
                 (case send PendingPairing s of
                    (Inl e, s) \<Rightarrow> (Inl e, s)
                  | (Inr (Pairing pairing), s) \<Rightarrow> (Inr (status, peers, pairing), s)
                  | (Inr _, s) \<Rightarrow> (Inl Malformed, s))
               else (Inr (status, peers, None), s)
           | (Inr _, s) \<Rightarrow> (Inl Malformed, s))
      | (Inr _, s) \<Rightarrow> (Inl Malformed, s))"

fun run_command :: "'s exchange \<Rightarrow> command \<Rightarrow> 's \<Rightarrow> link_event \<times> 's" where
  "run_command send CmdRefresh s = apfst Refreshed (link_refresh send s)"
| "run_command send (CmdSetPassword kind update) s =
     (let request = (case kind of AuthKey \<Rightarrow> SetAuthPassword update | DataKey \<Rightarrow> SetDataPassword update)
      in apfst (PasswordSet kind) (send_done send request s))"
| "run_command send (CmdUnlock update) s = apfst Unlocked (send_done send (Unlock update) s)"
| "run_command send (CmdSetAutoLogin on) s = apfst (AutoLoginSet on) (send_done send (SetAutoLogin on) s)"
| "run_command send (CmdSetSync on) s = apfst (SyncSet on) (send_done send (SetSync on) s)"
| "run_command send (CmdSetClipboard on) s = apfst (ClipboardSet on) (send_done send (SetClipboard on) s)"
| "run_command send CmdAddDevice s = apfst AddDeviceStarted (send_done send AddDevice s)"
| "run_command send (CmdAnswerPairing i code accept) s = apfst (PairingAnswered accept) (send_done send (AnswerPairing i code accept) s)"
| "run_command send (CmdJoinGroup auth data) s = apfst JoinStarted (send_done send (JoinGroup auth data) s)"
| "run_command send CmdCancelJoin s = apfst JoinCancelled (send_done send CancelJoin s)"
| "run_command send CmdStopAddDevice s = apfst AddDeviceStopped (send_done send StopAddDevice s)"
| "run_command send (CmdForgetPeer fingerprint) s = apfst PeerForgotten (send_done send (ForgetPeer fingerprint) s)"
| "run_command send CmdResetDevice s = apfst DeviceReset (send_done send ResetDevice s)"

text \<open>\<open>worker\<close> on the commands it receives: one event per command; it ends when the runtime can not be built,
  when the UI is gone (its \<open>heard\<close> events are taken) or when no command is left.\<close>

fun worker_loop :: "'s exchange \<Rightarrow> nat \<Rightarrow> command list \<Rightarrow> 's \<Rightarrow> link_event list \<times> 's" where
  "worker_loop send heard [] s = ([], s)"
| "worker_loop send heard (c # cs) s =
     (let (event, s) = run_command send c s
      in if heard = 0 then ([], s) else apfst (Cons event) (worker_loop send (heard - 1) cs s))"

definition worker :: "bool \<Rightarrow> 's exchange \<Rightarrow> nat \<Rightarrow> command list \<Rightarrow> 's \<Rightarrow> link_event list \<times> 's" where
  "worker runtime_built send heard commands s =
     (if runtime_built then worker_loop send heard commands s else (take heard [WorkerStopped], s))"

text \<open>\<open>try_recv\<close> on the events that wait; a worker that is gone reports it after them.\<close>

definition try_recv :: "bool \<Rightarrow> link_event list \<Rightarrow> link_event option \<times> link_event list" where
  "try_recv worker_alive events =
     (case events of
        ev # evs \<Rightarrow> (Some ev, evs)
      | [] \<Rightarrow> (if worker_alive then None else Some WorkerStopped, []))"

section \<open>What a worker promises\<close>

text \<open>The answer of a command.\<close>

fun answer_of :: "command \<Rightarrow> link_event \<Rightarrow> bool" where
  "answer_of CmdRefresh ev = (\<exists>r. ev = Refreshed r)"
| "answer_of (CmdSetPassword kind _) ev = (\<exists>r. ev = PasswordSet kind r)"
| "answer_of (CmdUnlock _) ev = (\<exists>r. ev = Unlocked r)"
| "answer_of (CmdSetAutoLogin on) ev = (\<exists>r. ev = AutoLoginSet on r)"
| "answer_of (CmdSetSync on) ev = (\<exists>r. ev = SyncSet on r)"
| "answer_of (CmdSetClipboard on) ev = (\<exists>r. ev = ClipboardSet on r)"
| "answer_of CmdAddDevice ev = (\<exists>r. ev = AddDeviceStarted r)"
| "answer_of (CmdAnswerPairing _ _ accept) ev = (\<exists>r. ev = PairingAnswered accept r)"
| "answer_of (CmdJoinGroup _ _) ev = (\<exists>r. ev = JoinStarted r)"
| "answer_of CmdCancelJoin ev = (\<exists>r. ev = JoinCancelled r)"
| "answer_of CmdStopAddDevice ev = (\<exists>r. ev = AddDeviceStopped r)"
| "answer_of (CmdForgetPeer _) ev = (\<exists>r. ev = PeerForgotten r)"
| "answer_of CmdResetDevice ev = (\<exists>r. ev = DeviceReset r)"

lemma run_command_answers: "answer_of c (fst (run_command send c s))"
  by (cases c) simp_all

text \<open>The one outcome inside the event of a command other than a refresh.\<close>

fun command_event :: "command \<Rightarrow> ipc_error + unit \<Rightarrow> link_event" where
  "command_event CmdRefresh r = WorkerStopped"
| "command_event (CmdSetPassword kind _) r = PasswordSet kind r"
| "command_event (CmdUnlock _) r = Unlocked r"
| "command_event (CmdSetAutoLogin on) r = AutoLoginSet on r"
| "command_event (CmdSetSync on) r = SyncSet on r"
| "command_event (CmdSetClipboard on) r = ClipboardSet on r"
| "command_event CmdAddDevice r = AddDeviceStarted r"
| "command_event (CmdAnswerPairing _ _ accept) r = PairingAnswered accept r"
| "command_event (CmdJoinGroup _ _) r = JoinStarted r"
| "command_event CmdCancelJoin r = JoinCancelled r"
| "command_event CmdStopAddDevice r = AddDeviceStopped r"
| "command_event (CmdForgetPeer _) r = PeerForgotten r"
| "command_event CmdResetDevice r = DeviceReset r"

lemma run_command_done: "c \<noteq> CmdRefresh \<Longrightarrow> run_command send c s = apfst (command_event c) (send_done send (command_request c) s)"
proof (cases c)
  case (CmdSetPassword kind pw)
  then show ?thesis by (cases kind) simp_all
qed simp_all

text \<open>An end that answers: every answer is one of the request, and each exchange keeps its state good.\<close>

locale answering =
  fixes send :: "'s exchange" and good :: "'s \<Rightarrow> bool"
  assumes good_send: "good s \<Longrightarrow> good (snd (send r s))"
    and send_ok: "good s \<Longrightarrow> fst (send r s) = Inr resp \<Longrightarrow> response_ok r resp"
begin

lemma send_cases:
  assumes "good s"
  obtains (Failed) e s' where "send r s = (Inl e, s')" "good s'"
    | (Answered) resp s' where "send r s = (Inr resp, s')" "response_ok r resp" "good s'"
  using good_send [OF assms, of r] send_ok [OF assms, of r] by (cases "send r s"; cases "fst (send r s)") auto

lemma send_done_good: "good s \<Longrightarrow> good (snd (send_done send r s))"
  by (erule send_cases [of s r]) (auto simp: send_done_def split: response.split)

lemma refresh_good:
  assumes "good s"
  shows "good (snd (link_refresh send s))" "link_ok (Refreshed (fst (link_refresh send s)))"
proof -
  have "good (snd (link_refresh send s)) \<and> link_ok (Refreshed (fst (link_refresh send s)))"
  proof (rule send_cases [OF assms, of Request_Status])
    fix resp s1 assume a: "send Request_Status s = (Inr resp, s1)" "response_ok Request_Status resp" "good s1"
    then obtain st where st: "resp = Response_Status st" by (cases resp) (auto simp: response_ok_def)
    show ?thesis
    proof (rule send_cases [OF a(3), of ListPeers])
      fix resp s2 assume b: "send ListPeers s1 = (Inr resp, s2)" "response_ok ListPeers resp" "good s2"
      then obtain ps where ps: "resp = Peers ps" "list_all peer_info_ok ps" by (cases resp) (auto simp: response_ok_def)
      then have fp: "list_all (\<lambda>p. length (info_fingerprint p) = FINGERPRINT_LEN) ps" by (auto simp: list_all_iff peer_info_ok_def)
      show ?thesis
      proof (rule send_cases [OF b(3), of PendingPairing])
        fix resp s3 assume c: "send PendingPairing s2 = (Inr resp, s3)" "response_ok PendingPairing resp" "good s3"
        then obtain pr where "resp = Pairing pr" "case pr of None \<Rightarrow> True | Some p \<Rightarrow> prompt_ok p"
          by (cases resp) (auto simp: response_ok_def split: option.splits)
        with a b c st ps fp show ?thesis
          by (auto simp: link_refresh_def link_ok_def prompt_ok_def split: option.split)
      qed (use a b st ps fp in \<open>auto simp: link_refresh_def link_ok_def\<close>)
    qed (use a st in \<open>auto simp: link_refresh_def link_ok_def\<close>)
  qed (auto simp: link_refresh_def link_ok_def)
  then show "good (snd (link_refresh send s))" "link_ok (Refreshed (fst (link_refresh send s)))" by simp_all
qed

lemma run_command_good:
  assumes "good s"
  shows "good (snd (run_command send c s))" "link_ok (fst (run_command send c s))"
proof -
  have "good (snd (run_command send c s)) \<and> link_ok (fst (run_command send c s))"
  proof (cases "c = CmdRefresh")
    case True
    then show ?thesis using refresh_good [OF assms] by simp
  next
    case False
    have "link_ok (command_event c r)" for r by (cases c) (simp_all add: link_ok_def)
    with run_command_done [OF False, of send s] send_done_good [OF assms] show ?thesis by simp
  qed
  then show "good (snd (run_command send c s))" "link_ok (fst (run_command send c s))" by simp_all
qed

lemma worker_loop_good:
  "good s \<Longrightarrow> good (snd (worker_loop send n cs s)) \<and> list_all link_ok (fst (worker_loop send n cs s))"
  by (induction cs arbitrary: s n) (auto simp: Let_def case_prod_beta run_command_good)

end

lemma worker_loop_answers:
  "length cs \<le> n \<Longrightarrow> list_all2 answer_of cs (fst (worker_loop send n cs s))"
  by (induction cs arbitrary: n s) (auto simp: Let_def case_prod_beta run_command_answers)

section \<open>The daemon at the other end\<close>

text \<open>What one exchange meets on both sides. \<open>answer_to\<close> of the client is what the daemon's side writes,
  if it is there within the five seconds the client waits. If it is not, the client gives up; the
  daemon still carries the request out (a change runs in a task of its own), unless it had no
  turn within the ten seconds the server gives a client: then the request is dropped
  (\<open>REQUEST_DEADLINE\<close>).\<close>

datatype reply_time = AnsweredInTime | AnsweredLate | NoTurn

record ipc_world =
  iw_client :: client_env
  iw_requirement :: "string option"
  iw_euid :: u32
  iw_policy :: client_policy
  iw_peer :: ipc_peer
  iw_env :: daemon_env
  iw_expired :: "pairing_request \<Rightarrow> bool"
  iw_reply :: reply_time

definition served :: "ipc_world \<Rightarrow> daemon \<Rightarrow> bytes \<Rightarrow> (ipc_server_error + unit) \<times> bytes \<times> daemon" where
  "served x d sent =
     (let (result, out, d') = serve_client (iw_euid x) (iw_policy x) (iw_peer x) (\<lambda>_. Written)
            (handle_request (iw_env x) (iw_expired x)) \<lparr>incoming = sent, ending = Stalled\<rparr> d
      in if iw_reply x = NoTurn then (result, [], d) else (result, out, d'))"

definition client_of :: "ipc_world \<Rightarrow> daemon \<Rightarrow> client_env" where
  "client_of x d = (iw_client x)\<lparr>answer_to := (\<lambda>sent.
     if iw_reply x = AnsweredInTime then \<lparr>incoming = fst (snd (served x d sent)), ending = Closed\<rparr>
     else \<lparr>incoming = [], ending = Stalled\<rparr>)\<rparr>"

text \<open>\<open>send\<close> of the link: one connection per request, numbered.\<close>

definition daemon_exchange :: "(nat \<Rightarrow> ipc_world) \<Rightarrow> (nat \<times> daemon) exchange" where
  "daemon_exchange w r = (\<lambda>(n, d).
     let (sent, result) = request_at_checked (client_of (w n) d) r (iw_requirement (w n))
     in (result, (Suc n, snd (snd (served (w n) d sent)))))"

definition reachable_daemon :: "gcm \<Rightarrow> hkdf_salted \<Rightarrow> (nat \<Rightarrow> ipc_world) \<Rightarrow> nat \<times> daemon \<Rightarrow> bool" where
  "reachable_daemon G H w s = ((\<forall>n. env_ok G H (iw_env (w n))) \<and> (\<exists>hs. daemon_run G H (snd s) hs))"

lemma daemon_run_ask: "daemon_run G H d hs \<Longrightarrow> env_ok G H env \<Longrightarrow> \<exists>hs. daemon_run G H (snd (handle_request env expired r d)) hs"
  using daemon_run.step [of G H d hs env "Ask r" "snd (handle_request env expired r d)" expired] by (auto simp: daemon_step_def)

lemma served_reachable:
  assumes "daemon_run G H d hs" "env_ok G H (iw_env x)"
  shows "\<exists>hs. daemon_run G H (snd (snd (served x d sent))) hs"
proof -
  have "snd (snd (served x d sent)) = d \<or> (\<exists>r. snd (snd (served x d sent)) = snd (handle_request (iw_env x) (iw_expired x) r d))"
    by (auto simp: served_def serve_client_def Let_def case_prod_beta split: sum.split option.split prod.split)
  then show ?thesis using assms daemon_run_ask by metis
qed

lemma request_at_checked_ok: "snd (request_at_checked c r req) = Inr resp \<Longrightarrow> response_ok r resp"
  by (auto simp: request_at_checked_def split: option.splits sum.splits connected.splits if_splits prod.splits dest: decode_ok)

interpretation ui: answering "daemon_exchange w" "reachable_daemon G H w" for w G H
proof
  fix s r resp assume s: "reachable_daemon G H w s"
  obtain n d where nd: "s = (n, d)" by (cases s)
  show "reachable_daemon G H w (snd (daemon_exchange w r s))"
    using s served_reachable [of G H d _ "w n"] by (auto simp: reachable_daemon_def daemon_exchange_def nd case_prod_beta Let_def)
  show "response_ok r resp" if "fst (daemon_exchange w r s) = Inr resp"
    using that request_at_checked_ok by (auto simp: daemon_exchange_def nd case_prod_beta Let_def)
qed

text \<open>Both sides trust each other.\<close>

definition trusting :: "ipc_world \<Rightarrow> bool" where
  "trusting x = (let c = iw_client x in
     (\<exists>m. parent_dir c = Some (Some m) \<and> check_private_dir (client_euid c) (Some m) = Inr ()) \<and>
     connecting c = Connected \<and> daemon_uid c = Some (client_euid c) \<and>
     (case iw_requirement x of None \<Rightarrow> True | Some q \<Rightarrow> signature_ok c q) \<and> (\<forall>i. writes c i = Written) \<and>
     policy_verify (iw_euid x) (iw_policy x) (iw_peer x) = Inr ())"

lemma request_sent: "fst (request_at_checked (c\<lparr>answer_to := f\<rparr>) r req) = fst (request_at_checked c r req)"
  by (auto simp: request_at_checked_def split: option.split sum.split connected.split prod.split)

text \<open>A trusted daemon that does not answer in time.\<close>

lemma request_times_out:
  assumes "request_ok r" "parent_dir c = Some (Some m)" "check_private_dir (client_euid c) (Some m) = Inr ()"
    and "connecting c = Connected" "daemon_uid c = Some (client_euid c)"
    and "\<forall>q. req = Some q \<longrightarrow> signature_ok c q" "\<forall>i. writes c i = Written"
  shows "snd (request_at_checked (c\<lparr>answer_to := (\<lambda>_. \<lparr>incoming = [], ending = Stalled\<rparr>)\<rparr>) r req) = Inl ipc_error.Timeout"
proof -
  obtain sent where w: "write_frame (writes c) (request_encode r) = (sent, Inr ())"
    using assms(1,7) length_request_encode write_frame_ok by blast
  have "read_frame \<lparr>incoming = [], ending = Stalled\<rparr> = Inl ipc_error.Timeout" by (simp add: read_frame_def read_exact_def)
  with assms w show ?thesis by (auto simp: request_at_checked_def split: option.splits)
qed

lemma exchange_trusting:
  assumes "gcm_ok G" "daemon_run G H d hs" "request_ok r" "trusting (w n)"
  shows "daemon_exchange w r (n, d) =
    (let (body, d') = handle_request (iw_env (w n)) (iw_expired (w n)) r d
     in (if iw_reply (w n) = AnsweredInTime then response_decode r body else Inl ipc_error.Timeout,
         (Suc n, if iw_reply (w n) = NoTurn then d else d')))"
proof -
  let ?x = "w n"
  let ?serve = "serve_client (iw_euid ?x) (iw_policy ?x) (iw_peer ?x) (\<lambda>_. Written) (handle_request (iw_env ?x) (iw_expired ?x))"
  let ?c = "(iw_client ?x)\<lparr>answer_to := (\<lambda>sent. \<lparr>incoming = fst (snd (?serve \<lparr>incoming = sent, ending = Stalled\<rparr> d)), ending = Closed\<rparr>)\<rparr>"
  from assms(4) obtain m where m: "parent_dir ?c = Some (Some m)" "check_private_dir (client_euid ?c) (Some m) = Inr ()"
    "connecting ?c = Connected" "daemon_uid ?c = Some (client_euid ?c)" "\<forall>q. iw_requirement ?x = Some q \<longrightarrow> signature_ok ?c q"
    "\<forall>i. writes ?c i = Written" and p: "policy_verify (iw_euid ?x) (iw_policy ?x) (iw_peer ?x) = Inr ()"
    by (auto simp: trusting_def Let_def split: option.splits)
  have c: "connected_to ?c (iw_euid ?x) (iw_policy ?x) (iw_peer ?x) (iw_env ?x) (iw_expired ?x) d"
    by (simp add: connected_to_def)
  note del = request_delivered [OF assms(1-3) m p c]
  have sent: "fst (request_at_checked (client_of ?x d) r (iw_requirement ?x)) = fst (request_at_checked ?c r (iw_requirement ?x))"
    by (simp only: client_of_def request_sent)
  have result: "snd (request_at_checked (client_of ?x d) r (iw_requirement ?x)) =
      (if iw_reply ?x = AnsweredInTime then response_decode r (fst (handle_request (iw_env ?x) (iw_expired ?x) r d)) else Inl ipc_error.Timeout)"
  proof (cases "iw_reply ?x = AnsweredInTime")
    case True
    then have "client_of ?x d = ?c" by (simp add: client_of_def served_def case_prod_beta)
    with True del(1) show ?thesis by simp
  next
    case False
    then have "client_of ?x d = ?c\<lparr>answer_to := (\<lambda>_. \<lparr>incoming = [], ending = Stalled\<rparr>)\<rparr>" by (simp add: client_of_def)
    with False request_times_out [OF assms(3) m] show ?thesis by simp
  qed
  have state: "snd (snd (served ?x d (fst (request_at_checked ?c r (iw_requirement ?x))))) =
      (if iw_reply ?x = NoTurn then d else snd (handle_request (iw_env ?x) (iw_expired ?x) r d))"
    using del(2) by (simp add: served_def case_prod_beta)
  show ?thesis
    by (simp only: daemon_exchange_def case_prod_beta Let_def fst_conv snd_conv sent result state)
qed

lemma decode_done_or_error:
  assumes "\<And>r'. response_ok r r' = (r' = Done)"
  shows "response_decode r (done_or_error x) = (case x of Inl e \<Rightarrow> Inl (Daemon e) | Inr _ \<Rightarrow> Inr Done)"
proof -
  have "response_decode r (response_encode Done) = Inr Done"
    using response.dec_eq_Some_iff [of r "response_encode Done" Done] assms by (auto simp: response_of_def split: sum.splits)
  moreover have "response_decode r (encode_error e) = Inl (Daemon e)" for e
    using daemon_error_from_eq_Some [of "error_byte e" e] by (simp add: response_decode_def encode_error_def)
  ultimately show ?thesis by (simp add: done_or_error_def split: sum.split)
qed

lemma done_or_error_unit: "\<exists>result :: daemon_error + unit. done_or_error x = done_or_error result"
  by (cases x) (auto simp: done_or_error_def intro: exI [of _ "Inl _"] exI [of _ "Inr ()"])

lemma done_is_done: "\<exists>result :: daemon_error + unit. response_encode Done = done_or_error result"
  by (auto simp: done_or_error_def intro: exI [of _ "Inr ()"])

section \<open>The UI and the daemon\<close>

lemma command_done: "c \<noteq> CmdRefresh \<Longrightarrow> response_ok (command_request c) r = (r = Done)"
proof (cases c)
  case (CmdSetPassword kind pw)
  then show ?thesis by (cases kind) (simp_all add: response_ok_def)
qed (simp_all add: response_ok_def)

text \<open>
  C11. What the user asks for is what the daemon does: take any command but a refresh that the app can
  have queued, and a link on which both ends pass each other's checks and the client's writes
  succeed. The command is sent as its request through both ends of the IPC. If the request gets
  its turn, the daemon makes exactly the transition of that request, otherwise none. If the
  answer is there in time, the app is told exactly the daemon's own outcome, done or its error;
  if not, it is told that the time ran out, never an outcome the daemon did not give.
\<close>
theorem ui_command_carried_out:
  assumes "gcm_ok G" "daemon_run G H d hs" "tui_run a" "c \<in> set (outbox a)" "c \<noteq> CmdRefresh" "trusting (w n)"
  shows "\<exists>result :: daemon_error + unit.
    fst (handle_request (iw_env (w n)) (iw_expired (w n)) (command_request c) d) = done_or_error result \<and>
    run_command (daemon_exchange w) c (n, d) =
      (command_event c (if iw_reply (w n) = AnsweredInTime then case result of Inl e \<Rightarrow> Inl (Daemon e) | Inr _ \<Rightarrow> Inr () else Inl ipc_error.Timeout),
       (Suc n, if iw_reply (w n) = NoTurn then d
         else snd (handle_request (iw_env (w n)) (iw_expired (w n)) (command_request c) d)))"
proof -
  let ?h = "handle_request (iw_env (w n)) (iw_expired (w n)) (command_request c) d"
  have ok: "request_ok (command_request c)"
    using tui_run_inv [OF assms(3)] assms(4) by (auto simp: app_inv_def list_all_iff command_ok_def)
  have fin: "response_ok (command_request c) r = (r = Done)" for r
    using assms(5) by (rule command_done)
  obtain result :: "daemon_error + unit" where r: "fst ?h = done_or_error result"
  proof -
    have "\<exists>result :: daemon_error + unit. fst ?h = done_or_error result"
    proof (cases c)
      case (CmdSetPassword kind pw)
      then show ?thesis by (cases kind) (auto simp: handle_request_def case_prod_beta intro: done_or_error_unit)
    qed (use assms(5) in \<open>auto simp: handle_request_def case_prod_beta intro: done_or_error_unit done_is_done\<close>)
    with that show ?thesis by blast
  qed
  have "daemon_exchange w (command_request c) (n, d) =
    (if iw_reply (w n) = AnsweredInTime then case result of Inl e \<Rightarrow> Inl (Daemon e) | Inr _ \<Rightarrow> Inr Done else Inl ipc_error.Timeout,
     (Suc n, if iw_reply (w n) = NoTurn then d else snd ?h))"
    using exchange_trusting [OF assms(1,2) ok, of w n] assms(6) r decode_done_or_error [OF fin, of result]
    by (simp add: case_prod_beta)
  then have "run_command (daemon_exchange w) c (n, d) =
    (command_event c (if iw_reply (w n) = AnsweredInTime then case result of Inl e \<Rightarrow> Inl (Daemon e) | Inr _ \<Rightarrow> Inr () else Inl ipc_error.Timeout),
     (Suc n, if iw_reply (w n) = NoTurn then d else snd ?h))"
    by (simp add: run_command_done [OF assms(5)] send_done_def split: sum.split)
  with r show ?thesis by blast
qed

text \<open>Tab, three times Down, Enter: the user turns Sync on.\<close>

definition demo_sync_app :: app where
  "demo_sync_app =
     foldl (\<lambda>a code. handle_input (KeyPress False code) a) (run_begin True True True app_new) [KeyTab, KeyDown, KeyDown, KeyDown, KeyEnter]"

lemma demo_sync_app_run: "tui_run demo_sync_app"
  unfolding demo_sync_app_def foldl.simps by (intro tui_run.key tui_run.started) (simp_all add: key_ok_def)

lemma demo_sync_app_outbox: "outbox demo_sync_app = [CmdSetSync True]"
  by (simp add: demo_sync_app_def run_begin_def log_if_def app_new_def handle_input_def tab_input_def next_tab_def next_setting_def wrap_next_def is_key_def
      handle_settings_enter_def setting_at_def has_label_def is_auto_login_def is_sync_def app_ops Let_def AUTH_KEY_LABEL_def DATA_KEY_LABEL_def
      AUTO_LOGIN_LABEL_def SYNC_LABEL_def CLIPBOARD_LABEL_def RESET_LABEL_def)

definition demo_world :: ipc_world where
  "demo_world = \<lparr>iw_client = sample_env, iw_requirement = None, iw_euid = 501, iw_policy = \<lparr>requirement = None\<rparr>, iw_peer = sample_ipc_peer,
     iw_env = demo_env, iw_expired = (\<lambda>_. False), iw_reply = AnsweredInTime\<rparr>"

lemma demo_world_trusting: "trusting demo_world"
  by (simp add: trusting_def demo_world_def sample_env_def check_private_dir_def policy_verify_def sample_ipc_peer_def)

theorem ui_command_carried_out_witness:
  "(\<exists>result :: daemon_error + unit.
    run_command (daemon_exchange (\<lambda>_. demo_world)) (CmdSetSync True) (0, demo_synced) =
      (SyncSet True (case result of Inl e \<Rightarrow> Inl (Daemon e) | Inr _ \<Rightarrow> Inr ()),
       (1, snd (handle_request demo_env (\<lambda>_. False) (SetSync True) demo_synced)))) \<and>
   run_command (daemon_exchange (\<lambda>_. demo_world\<lparr>iw_reply := NoTurn\<rparr>)) (CmdSetSync True) (0, demo_synced) =
     (SyncSet True (Inl ipc_error.Timeout), (1, demo_synced))"
proof -
  have c: "CmdSetSync True \<in> set (outbox demo_sync_app)" "CmdSetSync True \<noteq> CmdRefresh" by (simp_all add: demo_sync_app_outbox)
  have t: "trusting (demo_world\<lparr>iw_reply := NoTurn\<rparr>)" using demo_world_trusting by (simp add: trusting_def)
  have w: "iw_reply demo_world = AnsweredInTime" "iw_env demo_world = demo_env" "iw_expired demo_world = (\<lambda>_. False)"
    by (simp_all add: demo_world_def)
  note carried = ui_command_carried_out [OF demo_gcm_ok demo_synced_run demo_sync_app_run c]
  from carried [of "\<lambda>_. demo_world" 0] demo_world_trusting carried [of "\<lambda>_. demo_world\<lparr>iw_reply := NoTurn\<rparr>" 0] t w
  show ?thesis by (auto simp del: run_command.simps)
qed




text \<open>What a refresh changes on the screen.\<close>

definition shown :: "app \<Rightarrow> setting list \<times> peer_info list \<times> bool" where
  "shown a = (settings a, shown_peers a, refresh_in_flight a)"

lemma shown_update [simp]: "shown (a\<lparr>daemon_heard := st\<rparr>) = shown a" "shown (a\<lparr>unlock_asked := b\<rparr>) = shown a" "shown (a\<lparr>active_popup := pp\<rparr>) = shown a"
  "shown (a\<lparr>input_buf := cs\<rparr>) = shown a"
  by (simp_all add: shown_def)

lemma shown_log [simp]: "shown (push_log m a) = shown a" "shown (log_if c m a) = shown a"
  by (simp_all add: shown_def push_log_def log_if_def)

lemma shown_keeps [simp]:
  "shown (clamp_peer_selection a) = shown a" "shown (show_pairing pr a) = shown a" "shown (ask_unlock s a) = shown a" "shown (log_peer_changes ps a) = shown a"
proof -
  show "shown (clamp_peer_selection a) = shown a" by (simp add: shown_def clamp_peer_selection_def)
  show "shown (show_pairing pr a) = shown a" by (simp add: show_pairing_def split: popup.split option.split)
  show "shown (ask_unlock s a) = shown a" by (simp add: ask_unlock_def clear_input_def Let_def)
  have "shown (log_peer_change before p b) = shown b" for before p b by (simp add: log_peer_change_def split: peer_state.split)
  then have "shown (fold (log_peer_change before) ps b) = shown b" for before ps b by (induction ps arbitrary: b) simp_all
  then show "shown (log_peer_changes ps a) = shown a" by (simp add: log_peer_changes_def)
qed




end
