(* ===== verification/Ui_System.thy ===== *)
theory Ui_System
  imports Tui_Link
begin

text \<open>
  The UI, its worker and the daemon running side by side: the app and the worker are connected by two queues,
  the worker and the daemon by the IPC. Every interleaving of key presses, frames, rounds of the loop, commands
  the worker carries out and whatever else the daemon does is a run; the worker may die.
\<close>

section \<open>Runs\<close>

record ui_system =
  us_app :: app
  us_last :: "instant option"
  us_commands :: "command list"
  us_events :: "link_event list"
  us_alive :: bool
  us_daemon :: "nat \<times> daemon"

text \<open>What \<open>pump_link\<close> takes from the events that wait.\<close>

function receive_all :: "bool \<Rightarrow> link_event list \<Rightarrow> link_event list" where
  "receive_all alive events =
     (case try_recv alive events of
        (None, _) \<Rightarrow> []
      | (Some ev, rest) \<Rightarrow> if events = [] then [ev] else ev # receive_all alive rest)"
  by pat_completeness auto
termination by (relation "measure (\<lambda>(alive, events). length events)") (auto simp: try_recv_def split: list.splits)

inductive ui_run :: "gcm \<Rightarrow> hkdf_salted \<Rightarrow> (nat \<Rightarrow> ipc_world) \<Rightarrow> ui_system \<Rightarrow> bool" for G H w where
  started: "reachable_daemon G H w nd \<Longrightarrow>
    ui_run G H w \<lparr>us_app = run_begin True requirement_valid signature_checked app_new, us_last = None, us_commands = [], us_events = [],
      us_alive = True, us_daemon = nd\<rparr>"
| round: "ui_run G H w s \<Longrightarrow> (if us_alive s then length (outbox (us_app s)) < taken else True) \<Longrightarrow>
    pump_link now (us_last s) taken (receive_all (us_alive s) (us_events s)) (us_app s) = (sent, before, a) \<Longrightarrow>
    ui_run G H w (s\<lparr>us_app := a, us_last := before, us_commands := us_commands s @ sent,
      us_events := (if daemon_heard (us_app s) = NoLink then us_events s else [])\<rparr>)"
| frame: "ui_run G H w s \<Longrightarrow> ui_run G H w (s\<lparr>us_app := snd (snd (ui ly area (us_app s)))\<rparr>)"
| pressed: "ui_run G H w s \<Longrightarrow> key_ok ev \<Longrightarrow> ui_run G H w (s\<lparr>us_app := handle_input ev (us_app s)\<rparr>)"
| worked: "ui_run G H w s \<Longrightarrow> us_alive s \<Longrightarrow> us_commands s = c # cs \<Longrightarrow> run_command (daemon_exchange w) c (us_daemon s) = (ev, nd) \<Longrightarrow>
    ui_run G H w (s\<lparr>us_commands := cs, us_events := us_events s @ [ev], us_daemon := nd\<rparr>)"
| died: "ui_run G H w s \<Longrightarrow> ui_run G H w (s\<lparr>us_alive := False\<rparr>)"
| meanwhile: "ui_run G H w s \<Longrightarrow> us_daemon s = (n, d) \<Longrightarrow> daemon_run G H d hs \<Longrightarrow> env_ok G H env \<Longrightarrow> event_ok hs ev \<Longrightarrow>
    ui_run G H w (s\<lparr>us_daemon := (n, daemon_step env expired ev d)\<rparr>)"

declare receive_all.simps [simp del]

lemma receive_all: "receive_all alive events = events @ (if alive then [] else [WorkerStopped])"
  by (induction events) (subst receive_all.simps; simp add: try_recv_def)+

section \<open>Refreshes under way\<close>

definition is_refreshed :: "link_event \<Rightarrow> bool" where
  "is_refreshed ev = (\<exists>r. ev = Refreshed r)"

text \<open>Refreshes queued in the app that the flag does not account for.\<close>

definition surplus :: "app \<Rightarrow> int" where
  "surplus a = int (count_list (outbox a) CmdRefresh) - of_bool (refresh_in_flight a)"

lemma surplus_request [simp]: "surplus (request_refresh a) = surplus a"
  by (simp add: surplus_def request_refresh_def push_command_def)

lemma surplus_fields: "outbox a' = outbox a \<Longrightarrow> refresh_in_flight a' = refresh_in_flight a \<Longrightarrow> surplus a' = surplus a"
  by (simp add: surplus_def)

definition link_state :: "app \<Rightarrow> bool \<times> daemon_state" where
  "link_state a = (refresh_in_flight a, daemon_heard a)"

lemma link_state_ops [simp]:
  "link_state (push_log m a) = link_state a" "link_state (push_command c a) = link_state a" "link_state (clear_input a) = link_state a"
  "link_state (log_if b m a) = link_state a" "link_state (log_result r k f a) = link_state a"
  "link_state (edit_input code a) = link_state a" "link_state (log_unlock_wait a) = link_state a"
  "link_state (a\<lparr>active_popup := pp\<rparr>) = link_state a" "link_state (a\<lparr>join_auth := bs\<rparr>) = link_state a"
  "link_state (a\<lparr>should_quit := b\<rparr>) = link_state a" "link_state (a\<lparr>active_tab := t\<rparr>) = link_state a"
  "link_state (a\<lparr>log_follow := b\<rparr>) = link_state a" "link_state (a\<lparr>log_scroll := sc\<rparr>) = link_state a" "link_state (a\<lparr>unlock_asked := b\<rparr>) = link_state a"
  "link_state (a\<lparr>settings_selected := n\<rparr>) = link_state a" "link_state (a\<lparr>peer_selected := sel\<rparr>) = link_state a"
  "link_state (a\<lparr>settings := ss\<rparr>) = link_state a"
  by (simp_all add: link_state_def app_ops log_result_def edit_input_def push_input_def split: sum.split option.split key_code.split)

lemma tab_input_link_state: "link_state (tab_input code a) = link_state a"
proof -
  have peers: "link_state (prev_peer a) = link_state a" "link_state (next_peer a) = link_state a" "link_state (ask_forget_selected a) = link_state a"
    by (simp_all add: prev_peer_def next_peer_def ask_forget_selected_def split: option.split)
  have add: "link_state (start_add_device a) = link_state a" "link_state (stop_or_cancel a) = link_state a"
    by (simp_all add: start_add_device_def stop_or_cancel_def split: daemon_state.split)
  have set: "link_state (prev_setting a) = link_state a" "link_state (next_setting a) = link_state a"
    by (simp_all add: prev_setting_def next_setting_def)
  have enter: "link_state (handle_settings_enter a) = link_state a"
    unfolding handle_settings_enter_def Let_def
    by (auto split: option.split setting_kind.split)
  show ?thesis by (cases "active_tab a") (simp_all add: tab_input_def peers add set enter)
qed

lemma popup_input_link_state:
  "link_state (handle_pairing_input code p a) = link_state a" "link_state (handle_security_warning_input code idx a) = link_state a"
  "link_state (handle_confirm_change_input code a) = link_state a" "link_state (handle_confirm_forget_input code q a) = link_state a"
  "link_state (handle_confirm_reset_input code a) = link_state a" "link_state (handle_unlock_input code a) = link_state a"
  "link_state (handle_join_input code step a) = link_state a" "link_state (handle_edit_setting_input code a) = link_state a"
proof -
  show "link_state (handle_pairing_input code p a) = link_state a" by (simp add: handle_pairing_input_def)
  show "link_state (handle_security_warning_input code idx a) = link_state a" by (simp add: handle_security_warning_input_def)
  show "link_state (handle_confirm_change_input code a) = link_state a" by (simp add: handle_confirm_change_input_def)
  show "link_state (handle_confirm_forget_input code q a) = link_state a" by (simp add: handle_confirm_forget_input_def)
  show "link_state (handle_confirm_reset_input code a) = link_state a" by (cases code) (simp_all add: handle_confirm_reset_input_def)
  show "link_state (handle_unlock_input code a) = link_state a" by (cases code) (simp_all add: handle_unlock_input_def)
  show "link_state (handle_join_input code step a) = link_state a"
    by (cases code; cases step) (simp_all add: handle_join_input_def)
  have "link_state (send_password_from_input b) = link_state b" for b
    by (simp add: send_password_from_input_def split: option.split)
  then show "link_state (handle_edit_setting_input code a) = link_state a" by (cases code) (simp_all add: handle_edit_setting_input_def)
qed

lemma handle_input_link_state: "link_state (handle_input ev a) = link_state a"
proof (cases ev)
  case (KeyPress control code)
  then show ?thesis
    by (cases "active_popup a") (simp_all add: handle_input_def popup_input_link_state tab_input_link_state next_tab_def prev_tab_def)
qed (simp add: handle_input_def)

lemma handle_input_surplus: "surplus (handle_input ev a) = surplus a"
proof (cases ev)
  case (KeyPress control code)
  have "count_list (outbox (handle_input ev a)) CmdRefresh = count_list (outbox a) CmdRefresh"
    using handle_input_sends [of a code control] unfolding KeyPress sends_def by auto
  then show ?thesis using handle_input_link_state [of ev a] by (simp add: surplus_def link_state_def)
qed (simp add: handle_input_def)

lemma link_state_screen [simp]:
  "link_state (clamp_peer_selection a) = link_state a" "link_state (show_pairing pr a) = link_state a" "link_state (ask_unlock s a) = link_state a"
  "link_state (log_peer_changes ps a) = link_state a" "link_state (show_status s a) = link_state a" "link_state (set_key_flags x y a) = link_state a"
  "link_state (a\<lparr>shown_peers := ps\<rparr>) = link_state a"
proof -
  show "link_state (clamp_peer_selection a) = link_state a" by (simp add: clamp_peer_selection_def)
  show "link_state (show_pairing pr a) = link_state a" by (simp add: show_pairing_def split: popup.split option.split)
  show "link_state (ask_unlock s a) = link_state a" by (simp add: ask_unlock_def Let_def)
  show flags: "link_state (set_key_flags x y a) = link_state a" for x y a by (simp add: set_key_flags_def setting_mut_def)
  then show "link_state (show_status s a) = link_state a" by (simp add: show_status_def setting_mut_def Let_def)
  have "link_state (log_peer_change before p b) = link_state b" for before p b by (simp add: log_peer_change_def split: peer_state.split)
  then have "link_state (fold (log_peer_change before) ps b) = link_state b" for before ps b by (induction ps arbitrary: b) simp_all
  then show "link_state (log_peer_changes ps a) = link_state a" by (simp add: log_peer_changes_def)
  show "link_state (a\<lparr>shown_peers := ps\<rparr>) = link_state a" by (simp add: link_state_def)
qed

lemma refreshed_link:
  "refresh_in_flight (handle_link_event (Refreshed r) a) = False" "daemon_heard (handle_link_event (Refreshed r) a) \<noteq> NoLink"
  "outbox (handle_link_event (Refreshed r) a) = outbox a"
proof -
  have heard: "link_state (b\<lparr>daemon_heard := st\<rparr>) = (fst (link_state b), st)" for b :: app and st by (simp add: link_state_def)
  have fly: "link_state (b\<lparr>refresh_in_flight := False\<rparr>) = (False, snd (link_state b))" for b :: app by (simp add: link_state_def)
  have "fst (link_state (handle_link_event (Refreshed r) a)) = False \<and> snd (link_state (handle_link_event (Refreshed r) a)) \<noteq> NoLink"
    by (cases r) (auto simp: handle_link_event_def on_refreshed_def on_refresh_failed_def forget_daemon_def Let_def heard fly)
  then show "refresh_in_flight (handle_link_event (Refreshed r) a) = False" "daemon_heard (handle_link_event (Refreshed r) a) \<noteq> NoLink"
    by (simp_all add: link_state_def)
  show "outbox (handle_link_event (Refreshed r) a) = outbox a"
    by (cases r) (auto simp: handle_link_event_def on_refreshed_def on_refresh_failed_def outbox_keeps Let_def)
qed

lemma reported_link:
  assumes "\<not> is_refreshed ev" "ev \<noteq> WorkerStopped"
  obtains b where "handle_link_event ev a = request_refresh b" "outbox b = outbox a" "link_state b = link_state a"
proof -
  have "\<exists>b. handle_link_event ev a = request_refresh b \<and> outbox b = outbox a \<and> link_state b = link_state a"
    using assms
    by (cases ev) (auto simp: handle_link_event_def is_refreshed_def outbox_keeps link_state_ops intro!: exI split: sum.split)
  then show ?thesis using that by blast
qed

lemma handle_link_event_surplus:
  assumes "ev \<noteq> WorkerStopped"
  shows "surplus (handle_link_event ev a) = surplus a + (if is_refreshed ev then of_bool (refresh_in_flight a) else 0)"
    "daemon_heard a \<noteq> NoLink \<Longrightarrow> daemon_heard (handle_link_event ev a) \<noteq> NoLink"
proof -
  have "surplus (handle_link_event ev a) = surplus a + (if is_refreshed ev then of_bool (refresh_in_flight a) else 0) \<and>
    (daemon_heard a \<noteq> NoLink \<longrightarrow> daemon_heard (handle_link_event ev a) \<noteq> NoLink)"
  proof (cases "is_refreshed ev")
    case True
    then show ?thesis using refreshed_link by (auto simp: is_refreshed_def surplus_def)
  next
    case False
    obtain b where b: "handle_link_event ev a = request_refresh b" "outbox b = outbox a" "link_state b = link_state a"
      by (rule reported_link [OF False assms])
    have "surplus b = surplus a" using b by (intro surplus_fields) (simp_all add: link_state_def)
    moreover have "daemon_heard (request_refresh b) = daemon_heard b" by (simp add: request_refresh_def push_command_def)
    ultimately show ?thesis using False b by (simp add: link_state_def)
  qed
  then show "surplus (handle_link_event ev a) = surplus a + (if is_refreshed ev then of_bool (refresh_in_flight a) else 0)"
    "daemon_heard a \<noteq> NoLink \<Longrightarrow> daemon_heard (handle_link_event ev a) \<noteq> NoLink" by blast+
qed

lemma surplus_flag: "0 < - surplus a \<Longrightarrow> refresh_in_flight a"
  by (cases "refresh_in_flight a") (simp_all add: surplus_def)

lemma apply_events_surplus:
  assumes "WorkerStopped \<notin> set evs" "surplus a + int q + int (length (filter is_refreshed evs)) = 0" "daemon_heard a \<noteq> NoLink"
  shows "surplus (apply_events evs a) + int q = 0 \<and> daemon_heard (apply_events evs a) \<noteq> NoLink"
  using assms
proof (induction evs arbitrary: a)
  case (Cons ev evs)
  have "ev \<noteq> WorkerStopped" using Cons.prems(1) by auto
  note h = handle_link_event_surplus [OF this, of a]
  have "surplus (handle_link_event ev a) + int q + int (length (filter is_refreshed evs)) = 0"
  proof (cases "is_refreshed ev")
    case True
    then have "refresh_in_flight a" using Cons.prems(2) by (intro surplus_flag) simp
    with True h(1) Cons.prems(2) show ?thesis by simp
  qed (use h(1) Cons.prems(2) in simp)
  with Cons h(2) \<open>ev \<noteq> WorkerStopped\<close> show ?case by simp
qed simp

section \<open>The invariant\<close>

definition queues_ok :: "app \<Rightarrow> command list \<Rightarrow> link_event list \<Rightarrow> bool" where
  "queues_ok a cs evs = (daemon_heard a \<noteq> NoLink \<and> WorkerStopped \<notin> set evs \<and>
     surplus a + int (count_list cs CmdRefresh) + int (length (filter is_refreshed evs)) = 0)"

definition ui_inv :: "gcm \<Rightarrow> hkdf_salted \<Rightarrow> (nat \<Rightarrow> ipc_world) \<Rightarrow> ui_system \<Rightarrow> bool" where
  "ui_inv G H w s = (tui_run (us_app s) \<and> list_all link_ok (us_events s) \<and> reachable_daemon G H w (us_daemon s) \<and>
     (us_alive s \<longrightarrow> queues_ok (us_app s) (us_commands s) (us_events s)))"

lemma pump_queues:
  assumes "queues_ok a cs evs" "length (outbox a) < taken" "pump_link now before taken evs a = (sent, before', a')"
  shows "queues_ok a' (cs @ sent) []"
proof -
  let ?due = "case before of None \<Rightarrow> True | Some t \<Rightarrow> from_secs REFRESH_INTERVAL \<le> saturating_duration_since now t"
  define b where "b = (if ?due then request_refresh a else a)"
  have heard: "daemon_heard b = daemon_heard a" and len: "length (outbox b) \<le> Suc (length (outbox a))"
    by (simp_all add: b_def request_refresh_def push_command_def)
  have a: "daemon_heard a \<noteq> NoLink" "WorkerStopped \<notin> set evs"
    "surplus b + int (count_list cs CmdRefresh) + int (length (filter is_refreshed evs)) = 0"
    using assms(1) by (simp_all add: queues_ok_def b_def)
  have all: "take taken (outbox b) = outbox b" using len assms(2) by simp
  from assms(3) have r: "sent = outbox b" "a' = apply_events evs (b\<lparr>outbox := []\<rparr>)"
    using a(1) all by (simp_all add: pump_link_def Let_def b_def [symmetric] split: if_splits)
  have "surplus (b\<lparr>outbox := []\<rparr>) + int (count_list (cs @ outbox b) CmdRefresh) + int (length (filter is_refreshed evs)) = 0"
    using a(3) by (simp add: surplus_def)
  from apply_events_surplus [OF a(2) this] a(1) show ?thesis by (simp add: queues_ok_def r heard)
qed

lemma queues_count:
  assumes "queues_ok a cs evs"
  shows "count_list (outbox a) CmdRefresh + count_list cs CmdRefresh + length (filter is_refreshed evs) = (if refresh_in_flight a then 1 else 0)"
proof -
  have "int (count_list (outbox a) CmdRefresh + count_list cs CmdRefresh + length (filter is_refreshed evs)) = int (of_bool (refresh_in_flight a))"
    using assms by (simp add: queues_ok_def surplus_def)
  then show ?thesis by (simp only: of_nat_eq_iff of_bool_def)
qed

lemma answer_refreshed: "answer_of c ev \<Longrightarrow> is_refreshed ev = (c = CmdRefresh) \<and> ev \<noteq> WorkerStopped"
  by (cases c) (auto simp: is_refreshed_def)

lemma ui_run_inv: "ui_run G H w s \<Longrightarrow> ui_inv G H w s"
proof (induction rule: ui_run.induct)
  case (started nd requirement_valid signature_checked)
  then show ?case
    using tui_run.started [of True requirement_valid signature_checked]
    by (simp add: ui_inv_def queues_ok_def surplus_def run_begin_def app_new_def push_log_def log_if_def Let_def)
next
  case (round s taken now sent before a)
  have evs: "list_all link_ok (receive_all (us_alive s) (us_events s))"
    using round.IH by (simp add: ui_inv_def receive_all link_ok_def)
  have "tui_run a" using tui_run.pump [OF _ evs, of "us_app s" now "us_last s" taken] round by (simp add: ui_inv_def)
  moreover have "queues_ok a (us_commands s @ sent) []" "daemon_heard (us_app s) \<noteq> NoLink" if "us_alive s"
    using pump_queues [of "us_app s" "us_commands s" "us_events s" taken now "us_last s" sent before a] round that
    by (simp_all add: ui_inv_def receive_all queues_ok_def)
  ultimately show ?case using round.IH by (simp add: ui_inv_def)
next
  case (frame s ly area)
  obtain n where n: "snd (snd (ui ly area (us_app s))) = us_app s\<lparr>log_scroll := n\<rparr>" using ui_app by blast
  have "tui_run (us_app s\<lparr>log_scroll := n\<rparr>)" using tui_run.frame [of "us_app s" ly area] frame n by (simp add: ui_inv_def)
  with frame show ?case by (simp add: ui_inv_def queues_ok_def surplus_def n)
next
  case (pressed s ev)
  then show ?case
    using handle_input_link_state [of ev "us_app s"] tui_run.key [of "us_app s" ev]
    by (simp add: ui_inv_def queues_ok_def handle_input_surplus link_state_def)
next
  case (worked s c cs ev nd)
  have good: "reachable_daemon G H w (us_daemon s)" using worked.IH by (simp add: ui_inv_def)
  have ev: "answer_of c ev" using run_command_answers [of c "daemon_exchange w" "us_daemon s"] worked(4) by simp
  show ?case
    using worked ui.run_command_good [OF good, of c] answer_refreshed [OF ev] by (auto simp: ui_inv_def queues_ok_def)
next
  case (meanwhile s n d hs env ev expired)
  then show ?case using daemon_run.step [OF meanwhile(3,4,5) refl] by (auto simp: ui_inv_def reachable_daemon_def)
qed (simp add: ui_inv_def)

text \<open>
  C17. The UI never gets stuck on a refresh: however key presses, rounds of the loop, the worker and the
  daemon interleave, as long as the worker lives the link stays up and the app waits for a refresh
  exactly when one is under way, queued in the app, on its way to the worker or answered and not
  yet read, and never two of them; and everything the app and the daemon do stays within their own runs.
\<close>
theorem one_refresh_underway:
  assumes "ui_run G H w s" "us_alive s"
  shows "count_list (outbox (us_app s)) CmdRefresh + count_list (us_commands s) CmdRefresh + length (filter is_refreshed (us_events s)) =
      (if refresh_in_flight (us_app s) then 1 else 0) \<and>
    daemon_heard (us_app s) \<noteq> NoLink \<and> tui_run (us_app s) \<and> (\<exists>hs. daemon_run G H (snd (us_daemon s)) hs)"
  using ui_run_inv [OF assms(1)] assms(2) queues_count [of "us_app s"] unfolding ui_inv_def reachable_daemon_def by (auto simp: queues_ok_def)

definition demo_system :: ui_system where
  "demo_system = \<lparr>us_app = run_begin True True True app_new, us_last = None, us_commands = [], us_events = [], us_alive = True, us_daemon = (0, demo_synced)\<rparr>"

lemma demo_system_run: "ui_run demo_gcm demo_kdf (\<lambda>_. demo_world) demo_system"
proof -
  have "reachable_daemon demo_gcm demo_kdf (\<lambda>_. demo_world) (0, demo_synced)"
    using demo_synced_run demo_env_ok by (auto simp: reachable_daemon_def demo_world_def)
  then show ?thesis unfolding demo_system_def by (rule ui_run.started)
qed

text \<open>The first round of the loop sends the refresh.\<close>

theorem one_refresh_underway_witness:
  "let (sent, before, a) = pump_link 0 None 1 [] (us_app demo_system)
   in refresh_in_flight a \<and> count_list (outbox a) CmdRefresh + count_list sent CmdRefresh = 1"
proof -
  obtain sent before a where p: "pump_link 0 None 1 [] (us_app demo_system) = (sent, before, a)" by (metis prod_cases3)
  have e: "us_last demo_system = None" "us_alive demo_system" "us_events demo_system = []" "us_commands demo_system = []" "outbox (us_app demo_system) = []"
    "daemon_heard (us_app demo_system) \<noteq> NoLink"
    by (simp_all add: demo_system_def run_begin_def app_new_def log_if_def Let_def)
  have "ui_run demo_gcm demo_kdf (\<lambda>_. demo_world) (demo_system\<lparr>us_app := a, us_last := before, us_commands := us_commands demo_system @ sent,
      us_events := (if daemon_heard (us_app demo_system) = NoLink then us_events demo_system else [])\<rparr>)"
    by (rule ui_run.round [OF demo_system_run, of 1 0]) (simp_all add: e p [simplified] receive_all)
  from one_refresh_underway [OF this] have "count_list (outbox a) CmdRefresh + count_list sent CmdRefresh = (if refresh_in_flight a then 1 else 0)"
    by (simp add: e)
  moreover have "refresh_in_flight a"
    using p by (auto simp: pump_link_def Let_def e request_refresh_def push_command_def demo_system_def run_begin_def app_new_def log_if_def)
  ultimately show ?thesis by (simp add: p [simplified])
qed

end
