(* ===== verification/Spec2Isabelle.thy ===== *)
theory Spec2Isabelle
  imports Guess_Limiter Pairing_Code Clip_Sync Ipc Trusted_Peers Peer_Book Udp_Networker Salt_Service Vault Tcp_Sync Clip_Task Daemon_Props Daemon_Guess Daemon_Answers Daemon_Join Daemon_Send Tui_Screen Ui_System
begin

text \<open>
  CesaConn, verified: a library of theories beside the Rust code of the repository.

  \<^bold>\<open>The program.\<close> CesaConn syncs the clipboard of a group of devices over the local network. A daemon
  (\<open>cesa_conn_networker\<close>) keeps the keys of the group in an encrypted vault, finds and authenticates
  other devices and sends and applies clipboard updates. A terminal UI (\<open>cesa_conn_tui\<close>) talks to it over a
  local socket. A group is two passwords: the auth password opens connections (SPAKE2, then a hybrid key
  exchange, then Noise with ML-DSA signatures), the data password opens the vault and the data layer. A new
  device is paired only after both users compared a code of eight symbols.

  \<^bold>\<open>How code is modelled.\<close> A struct is a record, an enum a datatype, an error a value of a sum. Machine
  integers are words; byte arrays are lists whose length is part of a well-formedness predicate. A method that
  holds its lock throughout is one step. Protocol code is a process (\<open>Proc\<close>): a tree of writes and exact reads
  whose continuations get every outcome. What comes from outside (time, random bytes, system calls, the keychain,
  the user) is an argument, with failures among its values. Loops of accepting, searching and polling are steps
  over the events that reach them.

  \<^bold>\<open>The theories, in the order of use.\<close>

  \<^item> \<open>Cesa_Prelude\<close>: words, little-endian integers, slices, UTF-8, time, addresses, and two
    contracts as locales: \<open>strict_codec\<close> (the decoder accepts exactly the encodings) and \<open>item_codec\<close> (one item
    at the front of a list). Every codec of the program is an interpretation of one of them. \<open>Proc\<close>: processes,
    runs against any peer (\<open>run\<close>), and two processes on reliable streams (\<open>link\<close>, with fuel, and \<open>talks\<close>, the
    relation without; \<open>talks\<close> gives a fuel with which \<open>link\<close> returns).
  \<^item> \<open>Guess_Limiter\<close> (\<open>guess_limiter.rs\<close>): failures per source, doubling lockouts, the bounded table. Shown: a
    bound on the guesses of a source in any time window, with several handshakes open at once, where the check
    comes before and the record after each handshake.
  \<^item> \<open>Pairing_Code\<close> (\<open>pairing_code.rs\<close>, \<open>pairing_code\<close> of \<open>auth_snow.rs\<close>): the symbol table and the code of
    a handshake hash.
  \<^item> \<open>Clip_Sync\<close> (\<open>clip_sync.rs\<close>): the update message and the ordering memory, which implements a rule per
    device.
  \<^item> \<open>Ipc\<close> (\<open>cesa_conn_system/src/ipc.rs\<close>): requests, answers, frames, the private directory, the client.
    \<open>Ipc_Server\<close> (\<open>ipc_server.rs\<close>): who may talk, binding, one connection, the accept loop. Shown: strict
    codecs, nothing is sent to an untrusted daemon and nothing answered to an untrusted client.
  \<^item> \<open>Trusted_Peers\<close>, \<open>Auth_Errors\<close> (\<open>auth_snow.rs\<close>) and \<open>Peer_Book\<close> (\<open>peer_book.rs\<close>): the paired devices,
    where they were seen, and their saved forms.
  \<^item> \<open>Udp_Networker\<close> (\<open>udp_networker.rs\<close>), \<open>Salt_Service\<close> (\<open>salt_service.rs\<close>): discovery and the salt query.
  \<^item> \<open>Cesa_Crypto\<close> (\<open>aes.rs\<close>, \<open>pswd_manager.rs\<close>), \<open>Vault\<close> (\<open>vault.rs\<close>): sealing and opening, and the file
    operations over the outcome of each system call. Shown: the round trip, a wrong password is told apart from
    a damaged file, a write is atomic whichever call fails.
  \<^item> \<open>Key_Exchange\<close> (\<open>spake2.rs\<close>, \<open>hybrid_kex.rs\<close>, \<open>x25519_cesa.rs\<close>, \<open>derive_secure_psk\<close>), \<open>Auth_Snow\<close>
    (\<open>auth_snow.rs\<close>): the exchanges, the connection, pairing, both entry points. \<open>Auth_Proofs\<close>: safety against
    any peer, by runs. \<open>Auth_Honest\<close>: two honest ends finish, by \<open>talks\<close>.
  \<^item> \<open>Tcp_Networker\<close> (\<open>tcp_networker.rs\<close>): the handlers, whose changes of shared state are effects in
    order, and the accept loop. Shown: what a stranger can achieve, that the group's salt goes to nobody but an
    invited device, byte for byte, and that a handler moves the limiter as a step of \<open>Guess_Limiter\<close> says. \<open>Tcp_Sync\<close>: a
    whole connection between two honest devices.
  \<^item> \<open>Clip_Task\<close> (\<open>ClipWatch\<close>, \<open>clipboard_task\<close> and \<open>clipboard.rs\<close>): when a copy is sent and a received
    text applied, over every interleaving.
  \<^item> \<open>Daemon_Config\<close>, \<open>Daemon_Store\<close>, \<open>Daemon_Ops\<close> (\<open>daemon.rs\<close>): the state of the daemon as one record and
    an operation per method; \<open>daemon_env\<close> holds what one operation meets outside. \<open>Daemon_Run\<close>: the events, the
    runs and their invariant, with \<open>Daemon_Saved\<close> for what is on disk. \<open>Daemon_Props\<close>, \<open>Daemon_Guess\<close>,
    \<open>Daemon_Answers\<close>: restart, network, reset, prompts over any history, the delay of unlocking, readable answers.
    \<open>Daemon_Demo\<close>: a concrete device for the examples.
  \<^item> \<open>Daemon_Join\<close> (\<open>run_join\<close> and below): the search of a join; the locale \<open>counted_attempts\<close> gives the
    exact result of its loop. \<open>Daemon_Send\<close>: the send rounds, the invite window's connections, the start and end
    of \<open>run\<close>; a copied text on the clipboard of the other device.
  \<^item> \<open>Tui_App\<close> (\<open>cesa_conn_tui/src/lib.rs\<close>): the app, its key handlers, link events and pump. \<open>Tui_View\<close>: the
    widgets of a frame. \<open>Tui_Props\<close>: the invariant of the app, which commands need which confirmation, popups
    that stay. \<open>Tui_Screen\<close>: passwords are not on the screen, popups fit, codes are told apart.
  \<^item> \<open>Tui_Link\<close> (\<open>daemon_link.rs\<close>): the worker; the locale \<open>answering\<close> is what it relies on, interpreted on
    the IPC client against the IPC server of the daemon, with answers that come in time, late, or never because the
    request had no turn. \<open>Ui_System\<close>: app, worker and daemon side by side.

  \<^bold>\<open>How the parts meet.\<close> The UI's commands become requests (\<open>Tui_Link.run_command\<close>), which \<open>Ipc.request_at_checked\<close>
  sends and \<open>Ipc_Server.serve_client\<close> hands to \<open>Daemon_Ops.handle_request\<close>. The daemon's network runs
  \<open>Tcp_Networker\<close>'s handlers over \<open>Auth_Snow\<close>; their effects come back as the daemon's events (a device was paired,
  the book changed) and as updates for \<open>Clip_Task\<close>. The invite window and a join use \<open>Udp_Networker\<close> and
  \<open>Salt_Service\<close>. The vault is written and read by \<open>Daemon_Store\<close> only.

  \<^bold>\<open>What is assumed of other code.\<close> Each assumption is a named predicate on a parameter and holds of a concrete
  instance used in the examples: \<open>gcm_ok\<close> (AES-GCM decrypts what it encrypted, 16 bytes longer), \<open>kex_lib_ok\<close>
  (SPAKE2, X25519 and ML-KEM agree), \<open>noise_ok\<close> and \<open>transport_ok\<close> (two ends of Noise with the same pre-shared
  key finish and stay in step), \<open>dsa_ok\<close> (a signature verifies), \<open>code_hkdf_ok\<close> (HKDF gives the bytes asked
  for). \<open>env_ok\<close> says which cipher and derivation a run of the daemon uses, that random bytes and the salts derived
  have their lengths, and, for the saved state, that the sync of the directory after a rename or delete succeeds; what
  happens when it does not is shown apart, in \<open>Vault\<close> and \<open>Daemon_Props\<close>. Safety against an attacker assumes none of them but what a
  signature check means: the theorem says which bytes were verified under which key.

  \<^bold>\<open>Bounds and fuel.\<close> Only \<open>link\<close> has fuel, and the theorems that use it say that some fuel returns a result, by
  the relation \<open>talks\<close>, which has none. Every other recursion is structural or has a measure. Lengths, counters and
  deadlines are kept at the width of the source, with its saturation and checked conversions.

  \<^bold>\<open>Findings.\<close> The code does something else than its comments say when an update of an older epoch comes late
  (\<open>Clip_Sync\<close>), when a received text overwrites a copy that waits to be sent (\<open>Clip_Task\<close>), when the last sync of a
  write or of a reset fails (\<open>Vault\<close>, \<open>Daemon_Props\<close>), when an invite is stopped before it offers the salt
  (\<open>Daemon_Props\<close>), when Sync is turned off or the device reset while a join starts its network (\<open>Daemon_Props\<close>),
  and when the app does not know yet that a password is set (\<open>Tui_Props\<close>).

  \<^bold>\<open>What is one step.\<close> The daemon's changes run one at a time, in the change slot, and are steps. Two operations
  that let go of their locks are split: opening an invite (\<open>open_invite\<close>, then \<open>offer_salt\<close>) and the end of a join
  (\<open>commit_join\<close> in the slot, then \<open>apply_network\<close> outside it). The start of a network inside that last step is itself a copy
  and a store (\<open>copy_network\<close>, \<open>store_network\<close>); a run takes them together, so a change that falls between the two is
  not a run, and the finding says what it leads to. In \<open>finish_auth\<close> the list of devices is read once for the check and
  for the save; \<open>queue_pairing\<close> checks the window and queues in one step.

  \<^bold>\<open>Not modelled.\<close> The crates (parameters, above). The keychain and the code-signature check
  (\<open>keychain.rs\<close>, \<open>code_signature.rs\<close>), which only call the operating system: their outcomes are arguments. The
  lookup of directories and of the platform's storage. Timers: a deadline is an outcome of the reads and writes it
  covers. The loop that repeats the announcement of the invite window, which changes no state. Zeroizing of memory
  beyond the buffers the app clears. Texts of errors and of the log (constructors stand for them); the layout of
  \<open>ratatui\<close>. The manual test commands (\<open>test_commands.rs\<close>, \<open>connect\<close> of \<open>tcp_networker.rs\<close>) and the unit tests.
\<close>

end
